(* ===== verification/Rust_Str.thy ===== *)
theory Rust_Str
  imports Runory_Prelude "HOL-Library.Code_Target_Nat"
begin

text \<open>
  The part of \<open>str\<close> and \<open>String\<close> that the sources use. A Rust string is its UTF-8 byte
  sequence, one HOL \<open>char\<close> per byte, so \<open>len\<close>, \<open>find\<close> and slicing count bytes as in
  Rust. The operations of the standard library that work on Unicode scalar values are
  defined on that encoding: \<open>chars().count()\<close> counts the bytes that start a scalar value,
  \<open>trim\<close> and \<open>split_whitespace\<close> recognise every scalar value with the Unicode
  \<open>White_Space\<close> property in its encoded form, \<open>is_control\<close> the two \<open>Cc\<close> ranges.
\<close>

section \<open>Bytes\<close>

abbreviation byte :: "char \<Rightarrow> int" where
  "byte c \<equiv> (of_char c :: int)"

definition is_ascii_digit :: "char \<Rightarrow> bool" where
  "is_ascii_digit c \<longleftrightarrow> 48 \<le> byte c \<and> byte c \<le> 57"

definition is_ascii_upper :: "char \<Rightarrow> bool" where
  "is_ascii_upper c \<longleftrightarrow> 65 \<le> byte c \<and> byte c \<le> 90"

definition is_ascii_lower :: "char \<Rightarrow> bool" where
  "is_ascii_lower c \<longleftrightarrow> 97 \<le> byte c \<and> byte c \<le> 122"

definition is_ascii_alphanumeric :: "char \<Rightarrow> bool" where
  "is_ascii_alphanumeric c \<longleftrightarrow> is_ascii_digit c \<or> is_ascii_upper c \<or> is_ascii_lower c"

definition ascii_lower_byte :: "char \<Rightarrow> char" where
  "ascii_lower_byte c = (if is_ascii_upper c then char_of (byte c + 32) else c)"

definition ascii_upper_byte :: "char \<Rightarrow> char" where
  "ascii_upper_byte c = (if is_ascii_lower c then char_of (byte c - 32) else c)"

definition to_ascii_lowercase :: "string \<Rightarrow> string" where
  "to_ascii_lowercase s = map ascii_lower_byte s"

definition to_ascii_uppercase :: "string \<Rightarrow> string" where
  "to_ascii_uppercase s = map ascii_upper_byte s"

definition eq_ignore_ascii_case :: "string \<Rightarrow> string \<Rightarrow> bool" where
  "eq_ignore_ascii_case a b \<longleftrightarrow> to_ascii_lowercase a = to_ascii_lowercase b"

lemma length_to_ascii_lowercase [simp]: "length (to_ascii_lowercase s) = length s"
  by (simp add: to_ascii_lowercase_def)

lemma byte_less_256: "byte c < (256 :: int)"
  by (cases c) simp

lemma ascii_lower_byte_idem: "ascii_lower_byte (ascii_lower_byte c) = ascii_lower_byte c"
proof (cases "is_ascii_upper c")
  case True
  then have "byte (char_of (byte c + 32 :: int)) = byte c + 32"
    by (simp add: is_ascii_upper_def of_char_of)
  with True show ?thesis by (simp add: ascii_lower_byte_def is_ascii_upper_def)
qed (simp add: ascii_lower_byte_def)

lemma to_ascii_lowercase_idem [simp]:
  "to_ascii_lowercase (to_ascii_lowercase s) = to_ascii_lowercase s"
  by (simp add: to_ascii_lowercase_def ascii_lower_byte_idem)

lemma eq_ignore_ascii_case_refl [simp]: "eq_ignore_ascii_case s s"
  by (simp add: eq_ignore_ascii_case_def)

lemma eq_ignore_ascii_case_sym: "eq_ignore_ascii_case a b \<longleftrightarrow> eq_ignore_ascii_case b a"
  by (auto simp: eq_ignore_ascii_case_def)

section \<open>Prefixes, search and splitting\<close>

definition starts_with :: "string \<Rightarrow> string \<Rightarrow> bool" where
  "starts_with s p \<longleftrightarrow> take (length p) s = p"

definition ends_with :: "string \<Rightarrow> string \<Rightarrow> bool" where
  "ends_with s p \<longleftrightarrow> length p \<le> length s \<and> drop (length s - length p) s = p"

text \<open>\<open>str::find\<close> with a string pattern: the byte offset of the first occurrence.\<close>

fun str_find :: "string \<Rightarrow> string \<Rightarrow> nat option" where
  "str_find [] p = (if p = [] then Some 0 else None)"
| "str_find (c # s) p =
     (if starts_with (c # s) p then Some 0 else map_option Suc (str_find s p))"

definition str_contains :: "string \<Rightarrow> string \<Rightarrow> bool" where
  "str_contains s p \<longleftrightarrow> str_find s p \<noteq> None"

definition contains_any :: "string \<Rightarrow> string list \<Rightarrow> bool" where
  "contains_any s ps \<longleftrightarrow> list_ex (str_contains s) ps"

definition starts_with_any :: "string \<Rightarrow> string list \<Rightarrow> bool" where
  "starts_with_any s ps \<longleftrightarrow> list_ex (starts_with s) ps"

text \<open>\<open>str::split\<close> on one character, or on any of a set of characters.\<close>

fun split_pred :: "(char \<Rightarrow> bool) \<Rightarrow> string \<Rightarrow> string list" where
  "split_pred P [] = [[]]"
| "split_pred P (c # s) =
     (if P c then [] # split_pred P s
      else case split_pred P s of [] \<Rightarrow> [[c]] | w # ws \<Rightarrow> (c # w) # ws)"

definition split_char :: "char \<Rightarrow> string \<Rightarrow> string list" where
  "split_char d s = split_pred (\<lambda>c. c = d) s"

lemma split_pred_nonempty [simp]: "split_pred P s \<noteq> []"
  by (cases s) (auto split: list.splits)

lemma starts_with_self_append: "starts_with (p @ s) p"
  by (simp add: starts_with_def)

lemma starts_with_conv: "starts_with s p \<longleftrightarrow> (\<exists>t. s = p @ t)"
  by (metis append_take_drop_id starts_with_def starts_with_self_append)

lemma str_find_Some:
  "str_find s p = Some i \<Longrightarrow> i + length p \<le> length s \<and> take (length p) (drop i s) = p"
proof (induction s arbitrary: i)
  case Nil
  then show ?case by (auto split: if_splits)
next
  case (Cons c s)
  show ?case
  proof (cases "starts_with (c # s) p")
    case True
    then obtain t where t: "c # s = p @ t" by (auto simp: starts_with_conv)
    from True Cons.prems have "i = 0" by simp
    moreover have "length p \<le> length (c # s)" by (simp add: t)
    ultimately show ?thesis using t by simp
  next
    case False
    with Cons.prems obtain j where "str_find s p = Some j" and "i = Suc j" by auto
    with Cons.IH show ?thesis by simp
  qed
qed

lemma str_find_prefix: "starts_with s p \<Longrightarrow> str_find s p = Some 0"
  by (cases s) (auto simp: starts_with_def)

lemma str_contains_iff: "str_contains s p \<longleftrightarrow> (\<exists>u v. s = u @ p @ v)"
proof
  assume "str_contains s p"
  then obtain i where i: "str_find s p = Some i" by (auto simp: str_contains_def)
  from str_find_Some [OF i] have "s = take i s @ p @ drop (length p) (drop i s)"
    by (metis append_take_drop_id)
  then show "\<exists>u v. s = u @ p @ v" by blast
next
  assume "\<exists>u v. s = u @ p @ v"
  then obtain u v where "s = u @ p @ v" by blast
  then show "str_contains s p"
  proof (induction u arbitrary: s)
    case Nil
    then show ?case
      by (simp add: str_contains_def str_find_prefix starts_with_self_append)
  next
    case (Cons c u)
    then have "str_contains (u @ p @ v) p" by blast
    with Cons.prems show ?case by (auto simp: str_contains_def)
  qed
qed

lemma str_contains_append: "str_contains s p \<Longrightarrow> str_contains (a @ s @ b) p"
  by (metis append.assoc str_contains_iff)

text \<open>The first occurrence: no occurrence starts earlier.\<close>

lemma str_find_first: "str_find s p = Some i \<Longrightarrow> j < i \<Longrightarrow> \<not> starts_with (drop j s) p"
proof (induction s arbitrary: i j)
  case Nil
  then show ?case by (auto split: if_splits)
next
  case (Cons c s)
  then obtain k where "str_find s p = Some k" "i = Suc k" "\<not> starts_with (c # s) p"
    by (auto split: if_splits)
  with Cons show ?case by (cases j) auto
qed

section \<open>Unicode scalar values in UTF-8\<close>

text \<open>Continuation bytes are \<open>0b10xxxxxx\<close>; every other byte starts a scalar value.\<close>

definition is_cont_byte :: "char \<Rightarrow> bool" where
  "is_cont_byte c \<longleftrightarrow> 128 \<le> byte c \<and> byte c < 192"

definition char_count :: "string \<Rightarrow> nat" where
  "char_count s = length (filter (\<lambda>c. \<not> is_cont_byte c) s)"

text \<open>\<open>str::is_char_boundary\<close>.\<close>

definition is_char_boundary :: "string \<Rightarrow> nat \<Rightarrow> bool" where
  "is_char_boundary s i \<longleftrightarrow>
     i = 0 \<or> i = length s \<or> (i < length s \<and> \<not> is_cont_byte (s ! i))"

text \<open>The slice \<open>&s[a..b]\<close>: it panics out of range and inside a scalar value.\<close>

definition slice :: "string \<Rightarrow> nat \<Rightarrow> nat \<Rightarrow> (string, 'e) result" where
  "slice s a b =
     (if a \<le> b \<and> b \<le> length s \<and> is_char_boundary s a \<and> is_char_boundary s b
      then Ok (take (b - a) (drop a s)) else Panic)"

text \<open>\<open>chars().take(n).collect()\<close>.\<close>

fun take_chars :: "nat \<Rightarrow> string \<Rightarrow> string" where
  "take_chars n [] = []"
| "take_chars n (c # s) =
     (if is_cont_byte c then c # take_chars n s
      else case n of 0 \<Rightarrow> [] | Suc m \<Rightarrow> c # take_chars m s)"

lemma char_count_le_length: "char_count s \<le> length s"
  by (simp add: char_count_def)

lemma char_count_take_chars: "char_count (take_chars n s) \<le> n"
  by (induction n s rule: take_chars.induct) (auto simp: char_count_def split: nat.splits)

text \<open>
  \<open>String::from_utf8\<close>. A scalar value takes \<open>utf8_len\<close> bytes by its first byte; the second
  byte is bounded further where the encoding would be overlong, a surrogate or out of range.
\<close>

definition utf8_len :: "char \<Rightarrow> nat" where
  "utf8_len c =
     (if byte c < 128 then 1 else if 194 \<le> byte c \<and> byte c \<le> 223 then 2
      else if 224 \<le> byte c \<and> byte c \<le> 239 then 3 else if 240 \<le> byte c \<and> byte c \<le> 244 then 4 else 0)"

definition second_byte_ok :: "char \<Rightarrow> char \<Rightarrow> bool" where
  "second_byte_ok c d \<longleftrightarrow>
     (if byte c = 224 then 160 else if byte c = 240 then 144 else 128) \<le> byte d
     \<and> byte d \<le> (if byte c = 237 then 159 else if byte c = 244 then 143 else 191)"

text \<open>The byte length of the scalar value at the head of the string, 0 when there is none.\<close>

fun utf8_width :: "string \<Rightarrow> nat" where
  "utf8_width [] = 0"
| "utf8_width (c # s) =
     (let rest = take (utf8_len c - 1) s in
      if utf8_len c \<noteq> 0 \<and> length rest = utf8_len c - 1 \<and> list_all is_cont_byte rest
         \<and> list_all (second_byte_ok c) (take 1 rest)
      then utf8_len c else 0)"

function utf8_valid :: "string \<Rightarrow> bool" where
  "utf8_valid s \<longleftrightarrow>
     (if s = [] then True else if utf8_width s = 0 then False else utf8_valid (drop (utf8_width s) s))"
  by pat_completeness auto
termination
  by (relation "measure length") auto

declare utf8_valid.simps [simp del]

lemma utf8_valid_Nil [simp]: "utf8_valid []"
  by (simp add: utf8_valid.simps)

lemma utf8_valid_step:
  "s \<noteq> [] \<Longrightarrow> utf8_valid s \<longleftrightarrow> utf8_width s \<noteq> 0 \<and> utf8_valid (drop (utf8_width s) s)"
  by (subst utf8_valid.simps) simp

lemma utf8_len_lead: "utf8_len c \<noteq> 0 \<Longrightarrow> \<not> is_cont_byte c"
  unfolding utf8_len_def is_cont_byte_def by (simp split: if_splits)

lemma utf8_width_Cons:
  "utf8_width (c # s) = n \<and> n \<noteq> 0 \<longleftrightarrow>
     utf8_len c = n \<and> n \<noteq> 0 \<and> n - 1 \<le> length s \<and> list_all is_cont_byte (take (n - 1) s)
     \<and> list_all (second_byte_ok c) (take 1 (take (n - 1) s))"
  unfolding utf8_width.simps Let_def length_take min_def
  by (cases "utf8_len c = 0"; cases "length s \<le> utf8_len c - 1"; cases "utf8_len c = n") auto

lemma utf8_head: "utf8_width s \<noteq> 0 \<Longrightarrow> utf8_width s \<le> length s \<and> \<not> is_cont_byte (hd s)"
proof (cases s)
  case (Cons c t)
  assume "utf8_width s \<noteq> 0"
  with utf8_width_Cons [of c t "utf8_width s"] utf8_len_lead [of c] Cons show ?thesis
    by (simp del: utf8_width.simps) linarith
qed simp

lemma utf8_width_append: "utf8_width s \<noteq> 0 \<Longrightarrow> utf8_width (s @ t) = utf8_width s"
proof (cases s)
  case (Cons c u)
  assume "utf8_width s \<noteq> 0"
  with utf8_width_Cons [of c u "utf8_width s"] Cons have w: "utf8_len c = utf8_width s"
    "utf8_width s - 1 \<le> length u" "list_all is_cont_byte (take (utf8_width s - 1) u)"
    "list_all (second_byte_ok c) (take 1 (take (utf8_width s - 1) u))" by (simp_all del: utf8_width.simps)
  from w(2) have "take (utf8_width s - 1) (u @ t) = take (utf8_width s - 1) u" by simp
  with w \<open>utf8_width s \<noteq> 0\<close> utf8_width_Cons [of c "u @ t" "utf8_width s"] show ?thesis
    by (simp add: Cons del: utf8_width.simps)
qed simp

lemma utf8_width_prefix:
  assumes "utf8_width (x @ y) \<noteq> 0" and "x \<noteq> []" and "y = [] \<or> \<not> is_cont_byte (hd y)"
  shows "utf8_width x = utf8_width (x @ y)"
proof -
  from assms(2) obtain c s where x: "x = c # s" by (cases x) auto
  define n where "n = utf8_width (x @ y)"
  with assms(1) have w: "utf8_len c = n" "n \<noteq> 0" "n - 1 \<le> length (s @ y)"
    "list_all is_cont_byte (take (n - 1) (s @ y))"
    "list_all (second_byte_ok c) (take 1 (take (n - 1) (s @ y)))"
    using utf8_width_Cons [of c "s @ y" n] by (simp_all add: x del: utf8_width.simps)
  have "n - 1 \<le> length s"
  proof (rule ccontr)
    assume long: "\<not> n - 1 \<le> length s"
    with w(3) have "y \<noteq> []" by auto
    have "length s < length (take (n - 1) (s @ y))" using long w(3) by simp
    with w(4) have "is_cont_byte (take (n - 1) (s @ y) ! length s)" by (simp only: list_all_length)
    then show False using long \<open>y \<noteq> []\<close> assms(3) by (simp add: nth_append hd_conv_nth)
  qed
  with w have "utf8_width x = n"
    using utf8_width_Cons [of c s n] by (simp add: x del: utf8_width.simps)
  then show ?thesis by (simp add: n_def)
qed

lemma utf8_valid_append: "utf8_valid x \<Longrightarrow> utf8_valid (x @ y) \<longleftrightarrow> utf8_valid y"
proof (induction x rule: utf8_valid.induct)
  case (1 x)
  show ?case
  proof (cases "x = []")
    case False
    with "1.prems" have w: "utf8_width x \<noteq> 0" "utf8_valid (drop (utf8_width x) x)"
      by (simp_all add: utf8_valid_step)
    have "utf8_valid (x @ y) \<longleftrightarrow> utf8_valid (drop (utf8_width x) x @ y)"
      using False w(1) utf8_head [OF w(1)] by (simp add: utf8_valid_step utf8_width_append)
    with 1 False w show ?thesis by simp
  qed simp
qed

lemma utf8_valid_prefix:
  "utf8_valid (x @ y) \<Longrightarrow> y = [] \<or> \<not> is_cont_byte (hd y) \<Longrightarrow> utf8_valid x"
proof (induction x rule: length_induct)
  case (1 x)
  show ?case
  proof (cases "x = []")
    case False
    with "1.prems"(1) have w: "utf8_width (x @ y) \<noteq> 0" "utf8_valid (drop (utf8_width (x @ y)) (x @ y))"
      by (simp_all add: utf8_valid_step)
    note same = utf8_width_prefix [OF w(1) False "1.prems"(2)]
    with w have x: "utf8_width x \<noteq> 0" by simp
    with utf8_head [OF x] w(2) have "utf8_valid (drop (utf8_width x) x @ y)" by (simp flip: same)
    moreover have "length (drop (utf8_width x) x) < length x" using x False by simp
    ultimately have "utf8_valid (drop (utf8_width x) x)" using "1.IH" "1.prems"(2) by blast
    with x show ?thesis by (cases "x = []") (simp_all add: utf8_valid_step)
  qed simp
qed

lemma utf8_valid_hd: "utf8_valid s \<Longrightarrow> s \<noteq> [] \<Longrightarrow> \<not> is_cont_byte (hd s)"
  using utf8_head [of s] by (simp add: utf8_valid_step)

lemma utf8_char_count: "utf8_valid s \<Longrightarrow> s \<noteq> [] \<Longrightarrow> 1 \<le> char_count s"
  using utf8_valid_hd [of s] by (cases s) (auto simp: char_count_def)

text \<open>Replacing one text inside another keeps the encoding.\<close>

lemma utf8_valid_replace:
  assumes "utf8_valid (a @ p @ b)" and "utf8_valid p" and "p \<noteq> []" and "utf8_valid r"
  shows "utf8_valid (a @ r @ b)"
proof -
  have "\<not> is_cont_byte (hd (p @ b))" using utf8_valid_hd [OF assms(2,3)] assms(3) by simp
  with assms(1) have a: "utf8_valid a" using utf8_valid_prefix by blast
  with assms(1,2) have "utf8_valid b" by (simp add: utf8_valid_append)
  with a assms(4) show ?thesis by (simp add: utf8_valid_append)
qed

text \<open>The byte length of a white-space scalar value at the head of the string, or 0.\<close>

definition ws_prefix :: "string \<Rightarrow> nat" where
  "ws_prefix s =
     (case s of
        [] \<Rightarrow> 0
      | c # r \<Rightarrow>
          if (9 \<le> byte c \<and> byte c \<le> 13) \<or> byte c = (32 :: int) then 1
          else if byte c = (194 :: int) then
            (case r of d # _ \<Rightarrow> if byte d = (133 :: int) \<or> byte d = (160 :: int) then 2 else 0
             | [] \<Rightarrow> 0)
          else (case r of d # e # _ \<Rightarrow>
              if (byte c = (225 :: int) \<and> byte d = (154 :: int) \<and> byte e = (128 :: int))
                \<or> (byte c = (226 :: int) \<and> byte d = (128 :: int)
                    \<and> ((128 \<le> byte e \<and> byte e \<le> 138) \<or> byte e = (168 :: int)
                        \<or> byte e = (169 :: int) \<or> byte e = (175 :: int)))
                \<or> (byte c = (226 :: int) \<and> byte d = (129 :: int) \<and> byte e = (159 :: int))
                \<or> (byte c = (227 :: int) \<and> byte d = (128 :: int) \<and> byte e = (128 :: int))
              then 3 else 0
             | _ \<Rightarrow> 0))"

text \<open>The same at the end of the string.\<close>

definition ws_suffix :: "string \<Rightarrow> nat" where
  "ws_suffix s =
     (let n = length s in
      if 1 \<le> n \<and> ws_prefix (drop (n - 1) s) = 1 then 1
      else if 2 \<le> n \<and> ws_prefix (drop (n - 2) s) = 2 then 2
      else if 3 \<le> n \<and> ws_prefix (drop (n - 3) s) = 3 then 3
      else 0)"

lemma ws_prefix_le: "ws_prefix s \<le> length s"
  by (auto simp: ws_prefix_def split: list.splits)

lemma ws_suffix_le: "ws_suffix s \<le> length s"
  by (auto simp: ws_suffix_def Let_def)

function trim_start :: "string \<Rightarrow> string" where
  "trim_start s = (if ws_prefix s = 0 then s else trim_start (drop (ws_prefix s) s))"
  by pat_completeness auto
termination
proof (relation "measure length", simp)
  fix s :: string
  assume "ws_prefix s \<noteq> 0"
  then show "(drop (ws_prefix s) s, s) \<in> measure length"
    using ws_prefix_le [of s] by simp
qed

function trim_end :: "string \<Rightarrow> string" where
  "trim_end s = (if ws_suffix s = 0 then s else trim_end (take (length s - ws_suffix s) s))"
  by pat_completeness auto
termination
proof (relation "measure length", simp)
  fix s :: string
  assume "ws_suffix s \<noteq> 0"
  then show "(take (length s - ws_suffix s) s, s) \<in> measure length"
    using ws_suffix_le [of s] by simp
qed

declare trim_start.simps [simp del] trim_end.simps [simp del]

definition trim :: "string \<Rightarrow> string" where
  "trim s = trim_end (trim_start s)"

text \<open>\<open>chars().any(char::is_whitespace)\<close> and \<open>chars().any(char::is_control)\<close>.\<close>

fun has_whitespace :: "string \<Rightarrow> bool" where
  "has_whitespace [] = False"
| "has_whitespace (c # s) = (ws_prefix (c # s) \<noteq> 0 \<or> has_whitespace s)"

fun has_control :: "string \<Rightarrow> bool" where
  "has_control [] = False"
| "has_control (c # s) =
     (byte c < (32 :: int) \<or> byte c = (127 :: int)
      \<or> (byte c = (194 :: int) \<and> (case s of [] \<Rightarrow> False | d # _ \<Rightarrow> byte d < (160 :: int)))
      \<or> has_control s)"

lemma trim_start_suffix: "\<exists>p. s = p @ trim_start s"
proof (induction s rule: trim_start.induct)
  case (1 s)
  show ?case
  proof (cases "ws_prefix s = 0")
    case True
    then show ?thesis by (simp add: trim_start.simps [of s])
  next
    case False
    with 1 obtain p where "drop (ws_prefix s) s = p @ trim_start (drop (ws_prefix s) s)"
      by blast
    then have "s = (take (ws_prefix s) s @ p) @ trim_start s"
      using False by (metis append.assoc append_take_drop_id trim_start.simps)
    then show ?thesis by blast
  qed
qed

lemma trim_end_prefix: "\<exists>q. s = trim_end s @ q"
proof (induction s rule: trim_end.induct)
  case (1 s)
  show ?case
  proof (cases "ws_suffix s = 0")
    case True
    then show ?thesis by (simp add: trim_end.simps [of s])
  next
    case False
    let ?n = "length s - ws_suffix s"
    from 1 False obtain q where "take ?n s = trim_end (take ?n s) @ q" by blast
    then have "s = trim_end s @ (q @ drop ?n s)"
      using False by (metis append.assoc append_take_drop_id trim_end.simps)
    then show ?thesis by blast
  qed
qed

text \<open>A trimmed string is an infix of the original: nothing is invented.\<close>

lemma trim_infix: "\<exists>p q. s = p @ trim s @ q"
  by (metis trim_def trim_end_prefix trim_start_suffix append.assoc)

lemma length_trim_le: "length (trim s) \<le> length s"
  using trim_infix [of s] by (metis le_add2 length_append trans_le_add1 trans_le_add2 order_refl)

lemma ws_suffix_trim_end: "ws_suffix (trim_end s) = 0"
proof (induction s rule: trim_end.induct)
  case (1 s)
  then show ?case by (cases "ws_suffix s = 0") (auto simp: trim_end.simps [of s])
qed

lemma trim_no_trailing_ws: "ws_suffix (trim s) = 0"
  by (simp add: trim_def ws_suffix_trim_end)

section \<open>Lines and words\<close>

text \<open>
  \<open>str::lines\<close>: split at \<open>\n\<close>, drop a final empty piece, strip one trailing \<open>\r\<close> of
  every piece that was ended by a newline.
\<close>

definition NL :: char where "NL = CHR 0x0A"
definition CR :: char where "CR = CHR 0x0D"

definition strip_cr :: "string \<Rightarrow> string" where
  "strip_cr l = (if l \<noteq> [] \<and> last l = CR then butlast l else l)"

definition str_lines :: "string \<Rightarrow> string list" where
  "str_lines s =
     (let ps = split_char NL s;
          ended = map strip_cr (butlast ps);
          tail = last ps
      in if tail = [] then ended else ended @ [tail])"

text \<open>\<open>split_whitespace\<close>: the maximal white-space-free pieces.\<close>

fun split_ws_aux :: "nat \<Rightarrow> string \<Rightarrow> string \<Rightarrow> string list" where
  "split_ws_aux skip acc [] = (if acc = [] then [] else [acc])"
| "split_ws_aux (Suc k) acc (c # s) = split_ws_aux k acc s"
| "split_ws_aux 0 acc (c # s) =
     (if ws_prefix (c # s) = 0 then split_ws_aux 0 (acc @ [c]) s
      else (if acc = [] then [] else [acc]) @ split_ws_aux (ws_prefix (c # s) - 1) [] s)"

definition split_whitespace :: "string \<Rightarrow> string list" where
  "split_whitespace s = split_ws_aux 0 [] s"

lemma split_ws_aux_nonempty: "w \<in> set (split_ws_aux k acc s) \<Longrightarrow> w \<noteq> []"
  by (induction k acc s rule: split_ws_aux.induct) (auto split: if_splits)

lemma split_whitespace_nonempty: "w \<in> set (split_whitespace s) \<Longrightarrow> w \<noteq> []"
  by (simp add: split_whitespace_def split_ws_aux_nonempty)

text \<open>\<open>str::replace\<close> of every non-overlapping occurrence, left to right.\<close>

function str_replace :: "string \<Rightarrow> string \<Rightarrow> string \<Rightarrow> string" where
  "str_replace p r s =
     (if p = [] then s
      else case str_find s p of None \<Rightarrow> s
           | Some i \<Rightarrow> take i s @ r @ str_replace p r (drop (i + length p) s))"
  by pat_completeness auto
termination
proof (relation "measure (\<lambda>(p, r, s). length s)", simp)
  fix p r s :: string and i
  assume p: "p \<noteq> []" and f: "str_find s p = Some i"
  from p f str_find_Some [OF f] show "((p, r, drop (i + length p) s), p, r, s) \<in> measure (\<lambda>(p, r, s). length s)"
    by (cases p) auto
qed

declare str_replace.simps [simp del]

text \<open>Decimal rendering of unsigned numbers (\<open>to_string\<close>).\<close>

fun nat_digits :: "nat \<Rightarrow> string" where
  "nat_digits n =
     (if n < 10 then [char_of (48 + n)] else nat_digits (n div 10) @ [char_of (48 + n mod 10)])"

declare nat_digits.simps [simp del]

lemma nat_digits_nonempty [simp]: "nat_digits n \<noteq> []"
  by (subst nat_digits.simps) simp

text \<open>Small numbers are their own remainder, so that word values are evaluated quickly.\<close>

lemma take_bit_int_small [code]:
  "take_bit n (k :: int) =
     (if 0 \<le> k \<and> k < 65536 \<and> 16 \<le> n then k else Bit_Operations.and k (mask n))"
proof (cases "0 \<le> k \<and> k < 65536 \<and> 16 \<le> n")
  case True
  then have "(2 :: int) ^ 16 \<le> 2 ^ n" by (intro power_increasing) auto
  with True show ?thesis by (simp add: take_bit_int_eq_self)
next
  case False
  then show ?thesis by (simp only: if_not_P if_False take_bit_eq_mask)
qed

end
