(* ===== verification/Domain_Errors.thy ===== *)
theory Domain_Errors
  imports Rust_Str
begin

text \<open>
  The error vocabulary: \<open>AppError\<close> (src-tauri/src/domain/error.rs) with its stable codes, and
  \<open>PluginError\<close> (src-tauri/src/plugins/error.rs) with its codes and its conversion. The 134
  variants of \<open>AppError\<close> are grouped by subsystem in the order of the source, one datatype
  per group, so a variant is written with its group first: \<open>Core HostKeyChanged\<close>.
\<close>

section \<open>AppError\<close>

datatype route_error =
    InvalidJumpHost
  | ProfileInUseAsJumpHost
  | JumpPreparationExpired
  | JumpForwardingDenied
  | JumpTargetUnreachable
  | BastionUnavailable
  | BastionKokoUnreachable string
  | BastionGatewayUnreachable string
  | BastionProviderNotFound
  | BastionAuthFailed
  | BastionAwaitingUser
  | BastionPermissionDenied
  | HelperMissing
  | HelperVersionMismatch
  | HelperProxyFailed

datatype tunnel_error =
    TunnelConnectionRequired
  | TunnelInvalid
  | TunnelNotFound
  | TunnelRunning
  | TunnelStopped
  | TunnelPortInUse
  | TunnelBindFailed
  | TunnelDenied
  | TunnelTargetFailed
  | TunnelSessionMismatch
  | TunnelLimit

datatype core_error =
    InvalidProfile
  | ImportInvalid
  | InvalidGroup
  | ProfileNotFound
  | GroupNotFound
  | ConnectionRefused
  | ConnectionTimeout
  | AuthFailed
  | PrivateKeyInvalid
  | PassphraseRequired
  | HostKeyUnknown
  | HostKeyChanged
  | HostVerificationExpired
  | SessionNotFound
  | ConnectionLost

datatype file_error =
    SftpNotOpen
  | SftpOperationFailed
  | SftpPathInvalid
  | SftpNotDirectory
  | SftpNotFile
  | SftpNotFound
  | SftpPermissionDenied
  | SftpAlreadyExists
  | SftpDeleteLimitExceeded
  | SftpImageTooLarge
  | SftpImageUnsupported
  | SftpImageInvalid
  | SftpTextTooLarge
  | SftpTextUnsupported
  | SftpTextEncodingUnsupported
  | LocalFileInvalid
  | TransferNotFound
  | TransferStateInvalid
  | TransferCancelled
  | TransferFailed

datatype remote_error =
    ExecFailed
  | ExecTimedOut
  | ExecOutputLimit
  | UnsupportedRemote
  | InvalidOperation
  | DeploymentNameConflict
  | DeploymentPathConflict
  | DeploymentServiceConflict
  | DeploymentGitTargetNotEmpty
  | DeploymentGitPathDenied
  | AgentFleetTargetInvalid
  | AgentFleetTargetMismatch
  | AgentFleetTargetLimit
  | AgentFleetPlanInvalid
  | AgentFleetPlanCycle
  | AgentFleetProductionParallelBlocked

datatype cloud_error =
    VaultLocked
  | VaultInvalid
  | PlatformKeyStoreUnavailable
  | CredentialNotFound
  | CloudInvalid
  | CloudCrypto
  | CloudDecrypt
  | CloudImportNotFound
  | CloudRecoveryRequired
  | CloudPolicyDenied
  | CloudPolicyUnavailable

datatype model_error =
    ModelInvalid
  | ModelUnavailable
  | ModelTimeout
  | ModelAuthFailed
  | ModelCreditInsufficient
  | ModelRateLimited
  | ModelResponseInvalid
  | ModelResponseEmpty
  | ModelJsonInvalid
  | ModelDecisionInvalid
  | ModelCommandInvalid
  | ModelUsageInvalid
  | ModelProviderResponseInvalid
  | ModelOauthUnsupported
  | ModelOauthCancelled

datatype update_error =
    UpdateNotConfigured
  | UpdateCheckFailed
  | UpdateNotReady
  | UpdateDownloadFailed
  | UpdateBusy
  | UpdateInstallFailed

datatype ext_error =
    PluginPackageInvalid
  | PluginManifestInvalid
  | PluginVersionIncompatible
  | PluginAlreadyInstalled
  | PluginNotFound
  | PluginDisabled
  | PluginPermissionDenied
  | PluginWorkflowNotFound
  | PluginWorkflowInvalid
  | PluginActionNotFound
  | PluginPolicyDenied
  | PluginCancelled
  | PluginExecutionFailed
  | PluginSignatureMissing
  | PluginSignatureInvalid
  | PluginSigningKeyUnknown
  | PluginSigningKeyRevoked
  | PluginPublisherMismatch
  | PluginRevoked
  | PluginVersionRevoked
  | PluginUpdatePermissionReviewRequired
  | PluginPlanStale
  | PluginMarketplaceUnavailable
  | PluginHashMismatch

datatype app_error =
    Route route_error
  | Tunnel tunnel_error
  | Core core_error
  | File file_error
  | Remote remote_error
  | Cloud cloud_error
  | Model model_error
  | Update update_error
  | Ext ext_error
  | Storage

fun route_error_code :: "route_error \<Rightarrow> string" where
    "route_error_code InvalidJumpHost = ''INVALID_JUMP_HOST''"
  | "route_error_code ProfileInUseAsJumpHost = ''PROFILE_IN_USE_AS_JUMP_HOST''"
  | "route_error_code JumpPreparationExpired = ''JUMP_PREPARATION_EXPIRED''"
  | "route_error_code JumpForwardingDenied = ''JUMP_FORWARDING_DENIED''"
  | "route_error_code JumpTargetUnreachable = ''JUMP_TARGET_UNREACHABLE''"
  | "route_error_code BastionUnavailable = ''BASTION_UNAVAILABLE''"
  | "route_error_code (BastionKokoUnreachable _) = ''BASTION_KOKO_UNREACHABLE''"
  | "route_error_code (BastionGatewayUnreachable _) = ''BASTION_GATEWAY_UNREACHABLE''"
  | "route_error_code BastionProviderNotFound = ''BASTION_PROVIDER_NOT_FOUND''"
  | "route_error_code BastionAuthFailed = ''BASTION_AUTH_FAILED''"
  | "route_error_code BastionAwaitingUser = ''BASTION_AWAITING_USER''"
  | "route_error_code BastionPermissionDenied = ''BASTION_PERMISSION_DENIED''"
  | "route_error_code HelperMissing = ''HELPER_MISSING''"
  | "route_error_code HelperVersionMismatch = ''HELPER_VERSION_MISMATCH''"
  | "route_error_code HelperProxyFailed = ''HELPER_PROXY_FAILED''"

fun tunnel_error_code :: "tunnel_error \<Rightarrow> string" where
    "tunnel_error_code TunnelConnectionRequired = ''TUNNEL_CONNECTION_REQUIRED''"
  | "tunnel_error_code TunnelInvalid = ''TUNNEL_INVALID''"
  | "tunnel_error_code TunnelNotFound = ''TUNNEL_NOT_FOUND''"
  | "tunnel_error_code TunnelRunning = ''TUNNEL_RUNNING''"
  | "tunnel_error_code TunnelStopped = ''TUNNEL_STOPPED''"
  | "tunnel_error_code TunnelPortInUse = ''TUNNEL_PORT_IN_USE''"
  | "tunnel_error_code TunnelBindFailed = ''TUNNEL_BIND_FAILED''"
  | "tunnel_error_code TunnelDenied = ''TUNNEL_DENIED''"
  | "tunnel_error_code TunnelTargetFailed = ''TUNNEL_TARGET_FAILED''"
  | "tunnel_error_code TunnelSessionMismatch = ''TUNNEL_SESSION_MISMATCH''"
  | "tunnel_error_code TunnelLimit = ''TUNNEL_LIMIT''"

fun core_error_code :: "core_error \<Rightarrow> string" where
    "core_error_code InvalidProfile = ''INVALID_PROFILE''"
  | "core_error_code ImportInvalid = ''IMPORT_INVALID''"
  | "core_error_code InvalidGroup = ''INVALID_GROUP''"
  | "core_error_code ProfileNotFound = ''PROFILE_NOT_FOUND''"
  | "core_error_code GroupNotFound = ''GROUP_NOT_FOUND''"
  | "core_error_code ConnectionRefused = ''CONNECTION_REFUSED''"
  | "core_error_code ConnectionTimeout = ''CONNECTION_TIMEOUT''"
  | "core_error_code AuthFailed = ''AUTH_FAILED''"
  | "core_error_code PrivateKeyInvalid = ''PRIVATE_KEY_INVALID''"
  | "core_error_code PassphraseRequired = ''PASSPHRASE_REQUIRED''"
  | "core_error_code HostKeyUnknown = ''HOST_KEY_UNKNOWN''"
  | "core_error_code HostKeyChanged = ''HOST_KEY_CHANGED''"
  | "core_error_code HostVerificationExpired = ''HOST_VERIFICATION_EXPIRED''"
  | "core_error_code SessionNotFound = ''SESSION_NOT_FOUND''"
  | "core_error_code ConnectionLost = ''CONNECTION_LOST''"

fun file_error_code :: "file_error \<Rightarrow> string" where
    "file_error_code SftpNotOpen = ''SFTP_NOT_OPEN''"
  | "file_error_code SftpOperationFailed = ''SFTP_OPERATION_FAILED''"
  | "file_error_code SftpPathInvalid = ''SFTP_PATH_INVALID''"
  | "file_error_code SftpNotDirectory = ''SFTP_NOT_DIRECTORY''"
  | "file_error_code SftpNotFile = ''SFTP_NOT_FILE''"
  | "file_error_code SftpNotFound = ''SFTP_NOT_FOUND''"
  | "file_error_code SftpPermissionDenied = ''SFTP_PERMISSION_DENIED''"
  | "file_error_code SftpAlreadyExists = ''SFTP_ALREADY_EXISTS''"
  | "file_error_code SftpDeleteLimitExceeded = ''SFTP_DELETE_LIMIT_EXCEEDED''"
  | "file_error_code SftpImageTooLarge = ''SFTP_IMAGE_TOO_LARGE''"
  | "file_error_code SftpImageUnsupported = ''SFTP_IMAGE_UNSUPPORTED''"
  | "file_error_code SftpImageInvalid = ''SFTP_IMAGE_INVALID''"
  | "file_error_code SftpTextTooLarge = ''SFTP_TEXT_TOO_LARGE''"
  | "file_error_code SftpTextUnsupported = ''SFTP_TEXT_UNSUPPORTED''"
  | "file_error_code SftpTextEncodingUnsupported = ''SFTP_TEXT_ENCODING_UNSUPPORTED''"
  | "file_error_code LocalFileInvalid = ''LOCAL_FILE_INVALID''"
  | "file_error_code TransferNotFound = ''TRANSFER_NOT_FOUND''"
  | "file_error_code TransferStateInvalid = ''TRANSFER_STATE_INVALID''"
  | "file_error_code TransferCancelled = ''TRANSFER_CANCELLED''"
  | "file_error_code TransferFailed = ''TRANSFER_FAILED''"

fun remote_error_code :: "remote_error \<Rightarrow> string" where
    "remote_error_code ExecFailed = ''EXEC_FAILED''"
  | "remote_error_code ExecTimedOut = ''EXEC_TIMED_OUT''"
  | "remote_error_code ExecOutputLimit = ''EXEC_OUTPUT_LIMIT''"
  | "remote_error_code UnsupportedRemote = ''UNSUPPORTED_REMOTE''"
  | "remote_error_code InvalidOperation = ''INVALID_OPERATION''"
  | "remote_error_code DeploymentNameConflict = ''DEPLOYMENT_NAME_CONFLICT''"
  | "remote_error_code DeploymentPathConflict = ''DEPLOYMENT_PATH_CONFLICT''"
  | "remote_error_code DeploymentServiceConflict = ''DEPLOYMENT_SERVICE_CONFLICT''"
  | "remote_error_code DeploymentGitTargetNotEmpty = ''DEPLOYMENT_GIT_TARGET_NOT_EMPTY''"
  | "remote_error_code DeploymentGitPathDenied = ''DEPLOYMENT_GIT_PATH_DENIED''"
  | "remote_error_code AgentFleetTargetInvalid = ''AGENT_FLEET_TARGET_INVALID''"
  | "remote_error_code AgentFleetTargetMismatch = ''AGENT_FLEET_TARGET_MISMATCH''"
  | "remote_error_code AgentFleetTargetLimit = ''AGENT_FLEET_TARGET_LIMIT''"
  | "remote_error_code AgentFleetPlanInvalid = ''AGENT_FLEET_PLAN_INVALID''"
  | "remote_error_code AgentFleetPlanCycle = ''AGENT_FLEET_PLAN_CYCLE''"
  | "remote_error_code AgentFleetProductionParallelBlocked = ''AGENT_FLEET_PRODUCTION_PARALLEL_BLOCKED''"

fun cloud_error_code :: "cloud_error \<Rightarrow> string" where
    "cloud_error_code VaultLocked = ''VAULT_LOCKED''"
  | "cloud_error_code VaultInvalid = ''VAULT_INVALID''"
  | "cloud_error_code PlatformKeyStoreUnavailable = ''PLATFORM_KEY_STORE_UNAVAILABLE''"
  | "cloud_error_code CredentialNotFound = ''CREDENTIAL_NOT_FOUND''"
  | "cloud_error_code CloudInvalid = ''CLOUD_INVALID''"
  | "cloud_error_code CloudCrypto = ''CLOUD_CRYPTO_ERROR''"
  | "cloud_error_code CloudDecrypt = ''CLOUD_DECRYPT_FAILED''"
  | "cloud_error_code CloudImportNotFound = ''CLOUD_IMPORT_NOT_FOUND''"
  | "cloud_error_code CloudRecoveryRequired = ''CLOUD_RECOVERY_REQUIRED''"
  | "cloud_error_code CloudPolicyDenied = ''CLOUD_POLICY_DENIED''"
  | "cloud_error_code CloudPolicyUnavailable = ''CLOUD_POLICY_UNAVAILABLE''"

fun model_error_code :: "model_error \<Rightarrow> string" where
    "model_error_code ModelInvalid = ''MODEL_INVALID''"
  | "model_error_code ModelUnavailable = ''MODEL_UNAVAILABLE''"
  | "model_error_code ModelTimeout = ''MODEL_TIMEOUT''"
  | "model_error_code ModelAuthFailed = ''MODEL_AUTH_FAILED''"
  | "model_error_code ModelCreditInsufficient = ''MODEL_CREDIT_INSUFFICIENT''"
  | "model_error_code ModelRateLimited = ''MODEL_RATE_LIMITED''"
  | "model_error_code ModelResponseInvalid = ''MODEL_RESPONSE_INVALID''"
  | "model_error_code ModelResponseEmpty = ''MODEL_RESPONSE_EMPTY''"
  | "model_error_code ModelJsonInvalid = ''MODEL_JSON_INVALID''"
  | "model_error_code ModelDecisionInvalid = ''MODEL_DECISION_INVALID''"
  | "model_error_code ModelCommandInvalid = ''MODEL_COMMAND_INVALID''"
  | "model_error_code ModelUsageInvalid = ''MODEL_USAGE_INVALID''"
  | "model_error_code ModelProviderResponseInvalid = ''MODEL_PROVIDER_RESPONSE_INVALID''"
  | "model_error_code ModelOauthUnsupported = ''MODEL_OAUTH_UNSUPPORTED''"
  | "model_error_code ModelOauthCancelled = ''MODEL_OAUTH_CANCELLED''"

fun update_error_code :: "update_error \<Rightarrow> string" where
    "update_error_code UpdateNotConfigured = ''UPDATE_NOT_CONFIGURED''"
  | "update_error_code UpdateCheckFailed = ''UPDATE_CHECK_FAILED''"
  | "update_error_code UpdateNotReady = ''UPDATE_NOT_READY''"
  | "update_error_code UpdateDownloadFailed = ''UPDATE_DOWNLOAD_FAILED''"
  | "update_error_code UpdateBusy = ''UPDATE_BUSY''"
  | "update_error_code UpdateInstallFailed = ''UPDATE_INSTALL_FAILED''"

fun ext_error_code :: "ext_error \<Rightarrow> string" where
    "ext_error_code PluginPackageInvalid = ''PLUGIN_PACKAGE_INVALID''"
  | "ext_error_code PluginManifestInvalid = ''PLUGIN_MANIFEST_INVALID''"
  | "ext_error_code PluginVersionIncompatible = ''PLUGIN_VERSION_INCOMPATIBLE''"
  | "ext_error_code PluginAlreadyInstalled = ''PLUGIN_ALREADY_INSTALLED''"
  | "ext_error_code PluginNotFound = ''PLUGIN_NOT_FOUND''"
  | "ext_error_code PluginDisabled = ''PLUGIN_DISABLED''"
  | "ext_error_code PluginPermissionDenied = ''PLUGIN_PERMISSION_DENIED''"
  | "ext_error_code PluginWorkflowNotFound = ''PLUGIN_WORKFLOW_NOT_FOUND''"
  | "ext_error_code PluginWorkflowInvalid = ''PLUGIN_WORKFLOW_INVALID''"
  | "ext_error_code PluginActionNotFound = ''PLUGIN_ACTION_NOT_FOUND''"
  | "ext_error_code PluginPolicyDenied = ''PLUGIN_POLICY_DENIED''"
  | "ext_error_code PluginCancelled = ''PLUGIN_CANCELLED''"
  | "ext_error_code PluginExecutionFailed = ''PLUGIN_EXECUTION_FAILED''"
  | "ext_error_code PluginSignatureMissing = ''PLUGIN_SIGNATURE_MISSING''"
  | "ext_error_code PluginSignatureInvalid = ''PLUGIN_SIGNATURE_INVALID''"
  | "ext_error_code PluginSigningKeyUnknown = ''PLUGIN_SIGNING_KEY_UNKNOWN''"
  | "ext_error_code PluginSigningKeyRevoked = ''PLUGIN_SIGNING_KEY_REVOKED''"
  | "ext_error_code PluginPublisherMismatch = ''PLUGIN_PUBLISHER_MISMATCH''"
  | "ext_error_code PluginRevoked = ''PLUGIN_REVOKED''"
  | "ext_error_code PluginVersionRevoked = ''PLUGIN_VERSION_REVOKED''"
  | "ext_error_code PluginUpdatePermissionReviewRequired = ''PLUGIN_UPDATE_PERMISSION_REVIEW_REQUIRED''"
  | "ext_error_code PluginPlanStale = ''PLUGIN_PLAN_STALE''"
  | "ext_error_code PluginMarketplaceUnavailable = ''PLUGIN_MARKETPLACE_UNAVAILABLE''"
  | "ext_error_code PluginHashMismatch = ''PLUGIN_HASH_MISMATCH''"

fun app_error_code :: "app_error \<Rightarrow> string" where
    "app_error_code (Route e) = route_error_code e"
  | "app_error_code (Tunnel e) = tunnel_error_code e"
  | "app_error_code (Core e) = core_error_code e"
  | "app_error_code (File e) = file_error_code e"
  | "app_error_code (Remote e) = remote_error_code e"
  | "app_error_code (Cloud e) = cloud_error_code e"
  | "app_error_code (Model e) = model_error_code e"
  | "app_error_code (Update e) = update_error_code e"
  | "app_error_code (Ext e) = ext_error_code e"
  | "app_error_code Storage = ''STORAGE_ERROR''"

text \<open>Only the two gateway errors carry an endpoint for the interface.\<close>

fun app_error_endpoint :: "app_error \<Rightarrow> string option" where
  "app_error_endpoint (Route (BastionKokoUnreachable endpoint)) = Some endpoint"
| "app_error_endpoint (Route (BastionGatewayUnreachable endpoint)) = Some endpoint"
| "app_error_endpoint _ = None"

text \<open>\<open>format_ssh_endpoint\<close>: an IPv6 host is put in brackets.\<close>

definition format_ssh_endpoint :: "string \<Rightarrow> u16 \<Rightarrow> string" where
  "format_ssh_endpoint host port =
     (if CHR '':'' \<in> set host \<and> \<not> starts_with host ''[''
      then ''['' @ host @ '']:'' @ nat_digits (unat port)
      else host @ '':'' @ nat_digits (unat port))"

section \<open>PluginError\<close>

datatype plugin_error =
    InvalidPackage
  | InvalidManifest string
  | IncompatibleVersion
  | AlreadyInstalled
  | NotFound
  | Disabled
  | PermissionDenied string
  | WorkflowNotFound string
  | WorkflowValidation string
  | ActionNotFound string
  | PolicyDenied
  | Cancelled
  | RemoteExecution string
  | SignatureMissing
  | SignatureInvalid
  | SigningKeyUnknown
  | SigningKeyRevoked
  | PublisherMismatch
  | PluginRevoked
  | PluginVersionRevoked
  | UpdatePermissionReviewRequired
  | PlanStale
  | MarketplaceUnavailable
  | HashMismatch
  | Storage_p

fun plugin_error_code :: "plugin_error \<Rightarrow> string" where
    "plugin_error_code InvalidPackage = ''PLUGIN_PACKAGE_INVALID''"
  | "plugin_error_code (InvalidManifest _) = ''PLUGIN_MANIFEST_INVALID''"
  | "plugin_error_code IncompatibleVersion = ''PLUGIN_VERSION_INCOMPATIBLE''"
  | "plugin_error_code AlreadyInstalled = ''PLUGIN_ALREADY_INSTALLED''"
  | "plugin_error_code NotFound = ''PLUGIN_NOT_FOUND''"
  | "plugin_error_code Disabled = ''PLUGIN_DISABLED''"
  | "plugin_error_code (PermissionDenied _) = ''PLUGIN_PERMISSION_DENIED''"
  | "plugin_error_code (WorkflowNotFound _) = ''PLUGIN_WORKFLOW_NOT_FOUND''"
  | "plugin_error_code (WorkflowValidation _) = ''PLUGIN_WORKFLOW_INVALID''"
  | "plugin_error_code (ActionNotFound _) = ''PLUGIN_ACTION_NOT_FOUND''"
  | "plugin_error_code PolicyDenied = ''PLUGIN_POLICY_DENIED''"
  | "plugin_error_code Cancelled = ''PLUGIN_CANCELLED''"
  | "plugin_error_code (RemoteExecution _) = ''PLUGIN_EXECUTION_FAILED''"
  | "plugin_error_code SignatureMissing = ''PLUGIN_SIGNATURE_MISSING''"
  | "plugin_error_code SignatureInvalid = ''PLUGIN_SIGNATURE_INVALID''"
  | "plugin_error_code SigningKeyUnknown = ''PLUGIN_SIGNING_KEY_UNKNOWN''"
  | "plugin_error_code SigningKeyRevoked = ''PLUGIN_SIGNING_KEY_REVOKED''"
  | "plugin_error_code PublisherMismatch = ''PLUGIN_PUBLISHER_MISMATCH''"
  | "plugin_error_code PluginRevoked = ''PLUGIN_REVOKED''"
  | "plugin_error_code PluginVersionRevoked = ''PLUGIN_VERSION_REVOKED''"
  | "plugin_error_code UpdatePermissionReviewRequired = ''PLUGIN_UPDATE_PERMISSION_REVIEW_REQUIRED''"
  | "plugin_error_code PlanStale = ''PLUGIN_PLAN_STALE''"
  | "plugin_error_code MarketplaceUnavailable = ''PLUGIN_MARKETPLACE_UNAVAILABLE''"
  | "plugin_error_code HashMismatch = ''PLUGIN_HASH_MISMATCH''"
  | "plugin_error_code Storage_p = ''STORAGE_ERROR''"

text \<open>\<open>impl From<PluginError> for AppError\<close>.\<close>

fun app_error_from_plugin :: "plugin_error \<Rightarrow> app_error" where
    "app_error_from_plugin InvalidPackage = Ext PluginPackageInvalid"
  | "app_error_from_plugin (InvalidManifest _) = Ext PluginManifestInvalid"
  | "app_error_from_plugin IncompatibleVersion = Ext PluginVersionIncompatible"
  | "app_error_from_plugin AlreadyInstalled = Ext PluginAlreadyInstalled"
  | "app_error_from_plugin NotFound = Ext PluginNotFound"
  | "app_error_from_plugin Disabled = Ext PluginDisabled"
  | "app_error_from_plugin (PermissionDenied _) = Ext PluginPermissionDenied"
  | "app_error_from_plugin (WorkflowNotFound _) = Ext PluginWorkflowNotFound"
  | "app_error_from_plugin (WorkflowValidation _) = Ext PluginWorkflowInvalid"
  | "app_error_from_plugin (ActionNotFound _) = Ext PluginActionNotFound"
  | "app_error_from_plugin PolicyDenied = Ext PluginPolicyDenied"
  | "app_error_from_plugin Cancelled = Ext PluginCancelled"
  | "app_error_from_plugin (RemoteExecution _) = Ext PluginExecutionFailed"
  | "app_error_from_plugin SignatureMissing = Ext PluginSignatureMissing"
  | "app_error_from_plugin SignatureInvalid = Ext PluginSignatureInvalid"
  | "app_error_from_plugin SigningKeyUnknown = Ext PluginSigningKeyUnknown"
  | "app_error_from_plugin SigningKeyRevoked = Ext PluginSigningKeyRevoked"
  | "app_error_from_plugin PublisherMismatch = Ext PluginPublisherMismatch"
  | "app_error_from_plugin PluginRevoked = Ext ext_error.PluginRevoked"
  | "app_error_from_plugin PluginVersionRevoked = Ext ext_error.PluginVersionRevoked"
  | "app_error_from_plugin UpdatePermissionReviewRequired = Ext PluginUpdatePermissionReviewRequired"
  | "app_error_from_plugin PlanStale = Ext PluginPlanStale"
  | "app_error_from_plugin MarketplaceUnavailable = Ext PluginMarketplaceUnavailable"
  | "app_error_from_plugin HashMismatch = Ext PluginHashMismatch"
  | "app_error_from_plugin Storage_p = Storage"

section \<open>Codes identify errors\<close>

text \<open>
  The codes are the protocol: the interface and the stored records see nothing else. The
  partial inverse below shows that no two variants share a code.
\<close>

definition all_app_errors :: "app_error list" where
  "all_app_errors =
     map Route [InvalidJumpHost, ProfileInUseAsJumpHost, JumpPreparationExpired, JumpForwardingDenied, JumpTargetUnreachable, BastionUnavailable, BastionKokoUnreachable '''', BastionGatewayUnreachable '''', BastionProviderNotFound, BastionAuthFailed, BastionAwaitingUser, BastionPermissionDenied, HelperMissing, HelperVersionMismatch, HelperProxyFailed] @
     map Tunnel [TunnelConnectionRequired, TunnelInvalid, TunnelNotFound, TunnelRunning, TunnelStopped, TunnelPortInUse, TunnelBindFailed, TunnelDenied, TunnelTargetFailed, TunnelSessionMismatch, TunnelLimit] @
     map Core [InvalidProfile, ImportInvalid, InvalidGroup, ProfileNotFound, GroupNotFound, ConnectionRefused, ConnectionTimeout, AuthFailed, PrivateKeyInvalid, PassphraseRequired, HostKeyUnknown, HostKeyChanged, HostVerificationExpired, SessionNotFound, ConnectionLost] @
     map File [SftpNotOpen, SftpOperationFailed, SftpPathInvalid, SftpNotDirectory, SftpNotFile, SftpNotFound, SftpPermissionDenied, SftpAlreadyExists, SftpDeleteLimitExceeded, SftpImageTooLarge, SftpImageUnsupported, SftpImageInvalid, SftpTextTooLarge, SftpTextUnsupported, SftpTextEncodingUnsupported, LocalFileInvalid, TransferNotFound, TransferStateInvalid, TransferCancelled, TransferFailed] @
     map Remote [ExecFailed, ExecTimedOut, ExecOutputLimit, UnsupportedRemote, InvalidOperation, DeploymentNameConflict, DeploymentPathConflict, DeploymentServiceConflict, DeploymentGitTargetNotEmpty, DeploymentGitPathDenied, AgentFleetTargetInvalid, AgentFleetTargetMismatch, AgentFleetTargetLimit, AgentFleetPlanInvalid, AgentFleetPlanCycle, AgentFleetProductionParallelBlocked] @
     map Cloud [VaultLocked, VaultInvalid, PlatformKeyStoreUnavailable, CredentialNotFound, CloudInvalid, CloudCrypto, CloudDecrypt, CloudImportNotFound, CloudRecoveryRequired, CloudPolicyDenied, CloudPolicyUnavailable] @
     map Model [ModelInvalid, ModelUnavailable, ModelTimeout, ModelAuthFailed, ModelCreditInsufficient, ModelRateLimited, ModelResponseInvalid, ModelResponseEmpty, ModelJsonInvalid, ModelDecisionInvalid, ModelCommandInvalid, ModelUsageInvalid, ModelProviderResponseInvalid, ModelOauthUnsupported, ModelOauthCancelled] @
     map Update [UpdateNotConfigured, UpdateCheckFailed, UpdateNotReady, UpdateDownloadFailed, UpdateBusy, UpdateInstallFailed] @
     map Ext [PluginPackageInvalid, PluginManifestInvalid, PluginVersionIncompatible, PluginAlreadyInstalled, PluginNotFound, PluginDisabled, PluginPermissionDenied, PluginWorkflowNotFound, PluginWorkflowInvalid, PluginActionNotFound, PluginPolicyDenied, PluginCancelled, PluginExecutionFailed, PluginSignatureMissing, PluginSignatureInvalid, PluginSigningKeyUnknown, PluginSigningKeyRevoked, PluginPublisherMismatch, ext_error.PluginRevoked, ext_error.PluginVersionRevoked, PluginUpdatePermissionReviewRequired, PluginPlanStale, PluginMarketplaceUnavailable, PluginHashMismatch] @
     [Storage]"

text \<open>The endpoint is a payload, not part of the identity.\<close>

fun erase_endpoint :: "app_error \<Rightarrow> app_error" where
  "erase_endpoint (Route (BastionKokoUnreachable _)) = Route (BastionKokoUnreachable '''')"
| "erase_endpoint (Route (BastionGatewayUnreachable _)) = Route (BastionGatewayUnreachable '''')"
| "erase_endpoint e = e"

text \<open>A fingerprint that separates the codes, so that they are compared as numbers.\<close>

definition code_fingerprint :: "string \<Rightarrow> int" where
  "code_fingerprint s = foldl (\<lambda>n c. (n * 131 + byte c) mod 10009) 0 s"

lemma app_error_fingerprints_distinct:
  "distinct (map (\<lambda>e. code_fingerprint (app_error_code e)) all_app_errors)"
  by code_simp

lemma app_error_codes_inj: "inj_on app_error_code (set all_app_errors)"
  using app_error_fingerprints_distinct
  by (auto simp: distinct_map inj_on_def)

lemma erase_endpoint_listed: "erase_endpoint e \<in> set all_app_errors"
proof (cases e)
  case (Route x)
  then show ?thesis by (cases x) (simp_all add: all_app_errors_def)
next
  case (Tunnel x)
  then show ?thesis by (cases x) (simp_all add: all_app_errors_def)
next
  case (Core x)
  then show ?thesis by (cases x) (simp_all add: all_app_errors_def)
next
  case (File x)
  then show ?thesis by (cases x) (simp_all add: all_app_errors_def)
next
  case (Remote x)
  then show ?thesis by (cases x) (simp_all add: all_app_errors_def)
next
  case (Cloud x)
  then show ?thesis by (cases x) (simp_all add: all_app_errors_def)
next
  case (Model x)
  then show ?thesis by (cases x) (simp_all add: all_app_errors_def)
next
  case (Update x)
  then show ?thesis by (cases x) (simp_all add: all_app_errors_def)
next
  case (Ext x)
  then show ?thesis by (cases x) (simp_all add: all_app_errors_def)
next
  case Storage
  then show ?thesis by (simp add: all_app_errors_def)
qed

lemma app_error_code_erase [simp]: "app_error_code (erase_endpoint e) = app_error_code e"
  by (cases e rule: erase_endpoint.cases) simp_all

text \<open>
  Two errors have the same code exactly when they are the same variant: the code that
  crosses the IPC boundary identifies the error.
\<close>

lemma app_error_code_identifies:
  "app_error_code a = app_error_code b \<longleftrightarrow> erase_endpoint a = erase_endpoint b"
proof
  assume "app_error_code a = app_error_code b"
  then have "app_error_code (erase_endpoint a) = app_error_code (erase_endpoint b)" by simp
  with app_error_codes_inj erase_endpoint_listed [of a] erase_endpoint_listed [of b]
  show "erase_endpoint a = erase_endpoint b"
    by (blast dest: inj_onD)
next
  assume "erase_endpoint a = erase_endpoint b"
  then show "app_error_code a = app_error_code b" by (metis app_error_code_erase)
qed

text \<open>
  Converting a plugin error to the application's error keeps its code, so a plugin
  failure is reported under one code whichever layer reports it.
\<close>

lemma plugin_error_code_preserved:
  "app_error_code (app_error_from_plugin e) = plugin_error_code e"
  by (cases e) simp_all

end
