(* ===== verification/Json.thy ===== *)
theory Json
  imports Rust_Str
begin

text \<open>
  \<open>serde_json::Value\<close> as the sources use it. The crate is built without
  \<open>preserve_order\<close> (src-tauri/Cargo.toml), so an object is a B-tree map: its entries are
  kept in key order, here as a sorted association list. A number is a \<open>u64\<close>, a negative
  integer or a float, the last one by its printed text.
\<close>

section \<open>Values\<close>

datatype json_number = PosInt u64 | NegInt int | Float string

datatype json =
    JNull
  | JBool bool
  | JNumber json_number
  | JString string
  | JArray "json list"
  | JObject "(string \<times> json) list"

text \<open>\<open>Map::insert\<close>: sorted position, replacing an equal key.\<close>

fun obj_insert :: "string \<Rightarrow> 'v \<Rightarrow> (string \<times> 'v) list \<Rightarrow> (string \<times> 'v) list" where
  "obj_insert k v [] = [(k, v)]"
| "obj_insert k v ((k', v') # kvs) =
     (if k = k' then (k, v) # kvs
      else if k < k' then (k, v) # (k', v') # kvs
      else (k', v') # obj_insert k v kvs)"

text \<open>Collecting pairs into a map; a later pair replaces an earlier one with its key.\<close>

definition obj_collect :: "(string \<times> 'v) list \<Rightarrow> (string \<times> 'v) list" where
  "obj_collect kvs = fold (\<lambda>(k, v) m. obj_insert k v m) kvs []"

definition obj_sorted :: "(string \<times> 'v) list \<Rightarrow> bool" where
  "obj_sorted m \<longleftrightarrow> sorted_wrt (<) (map fst m)"

text \<open>Every object inside a value has its keys in order, as \<open>serde_json\<close> builds them.\<close>

fun json_wf :: "json \<Rightarrow> bool" where
  "json_wf (JArray items) = (\<forall>v \<in> set items. json_wf v)"
| "json_wf (JObject m) = (obj_sorted m \<and> (\<forall>kv \<in> set m. json_wf (snd kv)))"
| "json_wf _ = True"

fun as_object :: "json \<Rightarrow> (string \<times> json) list option" where
  "as_object (JObject m) = Some m"
| "as_object _ = None"

fun as_str :: "json \<Rightarrow> string option" where
  "as_str (JString s) = Some s"
| "as_str _ = None"

fun as_u64 :: "json \<Rightarrow> u64 option" where
  "as_u64 (JNumber (PosInt n)) = Some n"
| "as_u64 _ = None"

text \<open>\<open>Value::get\<close> with a string key.\<close>

definition json_get :: "json \<Rightarrow> string \<Rightarrow> json option" where
  "json_get v k = Option.bind (as_object v) (\<lambda>m. map_of m k)"

text \<open>\<open>Number::to_string\<close>.\<close>

fun number_to_string :: "json_number \<Rightarrow> string" where
  "number_to_string (PosInt n) = nat_digits (unat n)"
| "number_to_string (NegInt i) = (if i < 0 then ''-'' @ nat_digits (nat (- i)) else nat_digits (nat i))"
| "number_to_string (Float t) = t"

section \<open>Compact text\<close>

text \<open>\<open>[&str]::join\<close>.\<close>

fun str_join :: "string \<Rightarrow> string list \<Rightarrow> string" where
  "str_join sep [] = []"
| "str_join sep [s] = s"
| "str_join sep (s # t # ss) = s @ sep @ str_join sep (t # ss)"

definition hex_digit :: "nat \<Rightarrow> char" where
  "hex_digit n = (if n < 10 then char_of (48 + n) else char_of (87 + n))"

definition escape_byte :: "char \<Rightarrow> string" where
  "escape_byte c =
     (if byte c = (34 :: int) then [CHR 0x5C, CHR 0x22]
      else if byte c = (92 :: int) then [CHR 0x5C, CHR 0x5C]
      else if byte c = (8 :: int) then [CHR 0x5C, CHR ''b'']
      else if byte c = (9 :: int) then [CHR 0x5C, CHR ''t'']
      else if byte c = (10 :: int) then [CHR 0x5C, CHR ''n'']
      else if byte c = (12 :: int) then [CHR 0x5C, CHR ''f'']
      else if byte c = (13 :: int) then [CHR 0x5C, CHR ''r'']
      else if byte c < (32 :: int)
        then CHR 0x5C # ''u00'' @ [hex_digit (of_char c div 16), hex_digit (of_char c mod 16)]
      else [c])"

definition quote_json :: "string \<Rightarrow> string" where
  "quote_json s = CHR 0x22 # concat (map escape_byte s) @ [CHR 0x22]"

text \<open>\<open>Display\<close> and \<open>to_string\<close> of a value.\<close>

fun json_text :: "json \<Rightarrow> string" where
  "json_text JNull = ''null''"
| "json_text (JBool b) = (if b then ''true'' else ''false'')"
| "json_text (JNumber n) = number_to_string n"
| "json_text (JString s) = quote_json s"
| "json_text (JArray items) = ''['' @ str_join '','' (map json_text items) @ '']''"
| "json_text (JObject m) =
     ''{'' @ str_join '','' (map (\<lambda>kv. quote_json (fst kv) @ '':'' @ json_text (snd kv)) m) @ ''}''"

section \<open>Objects behave as maps\<close>

lemma map_of_obj_insert [simp]:
  "map_of (obj_insert k v m) = (map_of m)(k \<mapsto> v)"
  by (induction m) (auto simp: fun_eq_iff)

lemma keys_obj_insert: "fst ` set (obj_insert k v m) = insert k (fst ` set m)"
  by (simp flip: dom_map_of_conv_image_fst)

lemma obj_sorted_insert: "obj_sorted m \<Longrightarrow> obj_sorted (obj_insert k v m)"
proof (induction m)
  case (Cons kv m)
  obtain k' v' where kv: "kv = (k', v')" by (cases kv)
  from Cons.prems have tail: "obj_sorted m" and head: "\<forall>x \<in> fst ` set m. k' < x"
    by (auto simp: obj_sorted_def kv)
  show ?case
  proof (cases "k = k'")
    case True
    with Cons.prems show ?thesis by (auto simp: obj_sorted_def kv)
  next
    case neq: False
    show ?thesis
    proof (cases "k < k'")
      case True
      with Cons.prems neq show ?thesis by (auto simp: obj_sorted_def kv)
    next
      case False
      with neq have "k' < k" by simp
      with head have "\<forall>x \<in> fst ` set (obj_insert k v m). k' < x"
        by (simp add: keys_obj_insert)
      with Cons.IH [OF tail] neq False show ?thesis
        by (simp add: obj_sorted_def kv)
    qed
  qed
qed (simp add: obj_sorted_def)

lemma obj_sorted_fold:
  "obj_sorted m \<Longrightarrow> obj_sorted (fold (\<lambda>(k, v) m. obj_insert k v m) kvs m)"
  by (induction kvs arbitrary: m) (auto simp: obj_sorted_insert)

lemma obj_sorted_collect [simp]: "obj_sorted (obj_collect kvs)"
  unfolding obj_collect_def by (rule obj_sorted_fold) (simp add: obj_sorted_def)

lemma obj_sorted_distinct: "obj_sorted m \<Longrightarrow> distinct (map fst m)"
  unfolding obj_sorted_def by (induction m) auto

text \<open>Inserting the entries of an ordered object one by one rebuilds it.\<close>

lemma obj_insert_last:
  "(\<forall>x \<in> fst ` set m. x < k) \<Longrightarrow> obj_insert k v m = m @ [(k, v)]"
  by (induction m) (auto dest: less_imp_not_less)

lemma obj_fold_sorted:
  "obj_sorted (m @ kvs) \<Longrightarrow> fold (\<lambda>(k, v) m. obj_insert k v m) kvs m = m @ kvs"
proof (induction kvs arbitrary: m)
  case (Cons kv kvs)
  obtain k v where kv: "kv = (k, v)" by (cases kv)
  from Cons.prems have "\<forall>x \<in> fst ` set m. x < k"
    by (auto simp: obj_sorted_def kv sorted_wrt_append)
  then have "obj_insert k v m = m @ [(k, v)]" by (rule obj_insert_last)
  with Cons.IH [of "m @ [(k, v)]"] Cons.prems show ?case by (simp add: kv)
qed simp

lemma obj_collect_sorted: "obj_sorted kvs \<Longrightarrow> obj_collect kvs = kvs"
  unfolding obj_collect_def using obj_fold_sorted [of "[]" kvs] by simp

lemma map_of_Some_key: "map_of m k = Some v \<Longrightarrow> k \<in> fst ` set m"
  by (metis map_of_eq_None_iff option.distinct(1))

text \<open>An object with one entry under the only key a reader asks for.\<close>

lemma singleton_object: "length m = 1 \<Longrightarrow> map_of m k = Some v \<Longrightarrow> m = [(k, v)]"
  by (cases m) (auto split: if_splits)

end
