(* ===== verification/Tools.thy ===== *)
theory Tools
  imports Domain_Errors Json
begin

text \<open>
  The native tool catalogue (src-tauri/src/tools): tool names, risk levels, the descriptor
  table with its JSON schemas (descriptor.rs), the allow-list policy (policy.rs), the closed
  invocation vocabulary with the parser that turns a model's arguments into a read
  invocation (registry.rs), and the allow-listed terminal commands (terminal.rs).
\<close>

section \<open>Names, risk and scope\<close>

datatype native_tool_name =
    SystemInfo
  | SystemDisk
  | ServiceStatus
  | ServiceLogs
  | NetworkPortCheck
  | HttpRequest
  | NginxTest
  | DnsResolve
  | TlsInspect
  | NetworkListeners
  | ProcessList
  | FileInspect
  | SystemDirectoryUsage
  | SystemLargeFiles
  | DockerList
  | DockerInspect
  | DockerLogs
  | FilePatch
  | ServiceRestart
  | ServiceReload
  | NginxReload
  | DockerRestart
  | FilesystemInodeUsage
  | BlockDevicesList
  | TerminalExecReadonly

definition READ_ONLY :: "native_tool_name list" where
  "READ_ONLY =
     [SystemInfo, SystemDisk, ServiceStatus, ServiceLogs, NetworkPortCheck, HttpRequest,
     NginxTest, DnsResolve, TlsInspect, NetworkListeners, ProcessList, FileInspect,
     SystemDirectoryUsage, SystemLargeFiles, DockerList, DockerInspect, DockerLogs,
     FilesystemInodeUsage, BlockDevicesList, TerminalExecReadonly]"

definition ALL_TOOLS :: "native_tool_name list" where
  "ALL_TOOLS =
     [SystemInfo, SystemDisk, ServiceStatus, ServiceLogs, NetworkPortCheck, HttpRequest,
     NginxTest, DnsResolve, TlsInspect, NetworkListeners, ProcessList, FileInspect,
     SystemDirectoryUsage, SystemLargeFiles, DockerList, DockerInspect, DockerLogs,
     FilesystemInodeUsage, BlockDevicesList, TerminalExecReadonly, FilePatch, ServiceRestart,
     ServiceReload, NginxReload, DockerRestart]"

fun tool_as_str :: "native_tool_name \<Rightarrow> string" where
    "tool_as_str SystemInfo = ''system.info''"
  | "tool_as_str SystemDisk = ''system.disk_usage''"
  | "tool_as_str ServiceStatus = ''service.status''"
  | "tool_as_str ServiceLogs = ''service.logs''"
  | "tool_as_str NetworkPortCheck = ''network.port_check''"
  | "tool_as_str HttpRequest = ''http.request''"
  | "tool_as_str NginxTest = ''nginx.test''"
  | "tool_as_str DnsResolve = ''dns.resolve''"
  | "tool_as_str TlsInspect = ''tls.inspect''"
  | "tool_as_str NetworkListeners = ''network.listeners''"
  | "tool_as_str ProcessList = ''process.list''"
  | "tool_as_str FileInspect = ''file.inspect''"
  | "tool_as_str SystemDirectoryUsage = ''system.directory_usage''"
  | "tool_as_str SystemLargeFiles = ''system.large_files''"
  | "tool_as_str DockerList = ''docker.list''"
  | "tool_as_str DockerInspect = ''docker.inspect''"
  | "tool_as_str DockerLogs = ''docker.logs''"
  | "tool_as_str FilePatch = ''file.patch''"
  | "tool_as_str ServiceRestart = ''service.restart''"
  | "tool_as_str ServiceReload = ''service.reload''"
  | "tool_as_str NginxReload = ''nginx.reload''"
  | "tool_as_str DockerRestart = ''docker.restart''"
  | "tool_as_str FilesystemInodeUsage = ''filesystem.inode_usage''"
  | "tool_as_str BlockDevicesList = ''block_devices.list''"
  | "tool_as_str TerminalExecReadonly = ''terminal.exec_readonly''"

datatype risk_level = R0 | R1 | R2 | R3 | R4

fun risk_rank :: "risk_level \<Rightarrow> nat" where
  "risk_rank R0 = 0"
| "risk_rank R1 = 1"
| "risk_rank R2 = 2"
| "risk_rank R3 = 3"
| "risk_rank R4 = 4"

lemma risk_rank_inj: "risk_rank a = risk_rank b \<Longrightarrow> a = b"
  by (cases a; cases b) simp_all

text \<open>The derived order of the enum.\<close>

instantiation risk_level :: linorder
begin

definition less_eq_risk_level :: "risk_level \<Rightarrow> risk_level \<Rightarrow> bool" where
  "less_eq_risk_level a b \<longleftrightarrow> risk_rank a \<le> risk_rank b"

definition less_risk_level :: "risk_level \<Rightarrow> risk_level \<Rightarrow> bool" where
  "less_risk_level a b \<longleftrightarrow> risk_rank a < risk_rank b"

instance
  by intro_classes (auto simp: less_eq_risk_level_def less_risk_level_def dest: risk_rank_inj)

end

lemmas risk_order = less_eq_risk_level_def less_risk_level_def

fun risk_debug :: "risk_level \<Rightarrow> string" where
  "risk_debug R0 = ''R0''"
| "risk_debug R1 = ''R1''"
| "risk_debug R2 = ''R2''"
| "risk_debug R3 = ''R3''"
| "risk_debug R4 = ''R4''"

datatype mutability = Read | Write

datatype resource_impact = Low | Medium | HighIo | HighCpu | LongRunning | ExternalCost

datatype tool_scope = Server | Session | Workspace | External

record tool_descriptor =
  td_name :: native_tool_name
  td_description :: string
  td_input_schema :: json
  td_output_schema :: json
  td_risk_level :: risk_level
  td_mutability :: mutability
  td_requires_approval :: bool
  td_supports_rollback :: bool
  td_scope :: tool_scope
  td_resource_impact :: resource_impact
  td_timeout_ms :: u64

section \<open>Schemas\<close>

text \<open>A \<open>json!\<close> object literal.\<close>

definition js :: "(string \<times> json) list \<Rightarrow> json" where
  "js kvs = JObject (obj_collect kvs)"

abbreviation js_num :: "u64 \<Rightarrow> json" where
  "js_num n \<equiv> JNumber (PosInt n)"

abbreviation js_type :: "string \<Rightarrow> string \<times> json" where
  "js_type t \<equiv> (''type'', JString t)"

definition empty_input :: json where
  "empty_input =
     js [js_type ''object'', (''properties'', js []), (''additionalProperties'', JBool False)]"

definition object_input :: "(string \<times> json) list \<Rightarrow> json" where
  "object_input properties =
     (let ps = obj_collect properties;
          required = map (JString \<circ> fst) ps
      in js [js_type ''object'', (''properties'', JObject ps), (''required'', JArray required),
             (''additionalProperties'', JBool False)])"

definition object_output :: "(string \<times> json) list \<Rightarrow> json" where
  "object_output properties =
     (let ps = obj_collect properties;
          required = map (JString \<circ> fst) ps
      in js [js_type ''object'', (''properties'', JObject ps), (''required'', JArray required),
             (''additionalProperties'', JBool False)])"

definition generic_object_output :: json where
  "generic_object_output =
     js [js_type ''object'', (''properties'', js []), (''required'', JArray [])]"

text \<open>The two property schemas that recur in the table.\<close>

abbreviation str_schema :: "u64 \<Rightarrow> u64 \<Rightarrow> json" where
  "str_schema lo hi \<equiv>
     js [js_type ''string'', (''minLength'', js_num lo), (''maxLength'', js_num hi)]"

abbreviation int_schema :: "u64 \<Rightarrow> u64 \<Rightarrow> json" where
  "int_schema lo hi \<equiv>
     js [js_type ''integer'', (''minimum'', js_num lo), (''maximum'', js_num hi)]"

definition write_input_schema :: "native_tool_name \<Rightarrow> json" where
  "write_input_schema name =
     (case name of
        FilePatch \<Rightarrow> object_input
          [(''path'', str_schema 1 4096), (''expected'', str_schema 1 524288),
           (''replacement'', js [js_type ''string'', (''maxLength'', js_num 524288)])]
      | ServiceRestart \<Rightarrow> object_input [(''service'', str_schema 1 128)]
      | ServiceReload \<Rightarrow> object_input [(''service'', str_schema 1 128)]
      | NginxReload \<Rightarrow> empty_input
      | DockerRestart \<Rightarrow> object_input [(''container'', str_schema 1 256)]
      | _ \<Rightarrow> empty_input)"

definition write_output_schema :: "native_tool_name \<Rightarrow> json" where
  "write_output_schema name =
     (case name of
        FilePatch \<Rightarrow> object_output
          [(''path'', js [js_type ''string'']),
           (''bytes'', js [js_type ''integer'', (''minimum'', js_num 0)]),
           (''verified'', js [js_type ''boolean''])]
      | _ \<Rightarrow> object_output
          [(''service'', js [js_type ''string'']), (''action'', js [js_type ''string'']),
           (''verified'', js [js_type ''boolean''])])"

section \<open>The descriptor table\<close>

definition descriptor ::
  "native_tool_name \<Rightarrow> string \<Rightarrow> json \<Rightarrow> json \<Rightarrow> risk_level \<Rightarrow> resource_impact \<Rightarrow>
   tool_descriptor" where
  "descriptor name description input_schema output_schema risk_level impact =
     \<lparr>td_name = name, td_description = description, td_input_schema = input_schema,
      td_output_schema = output_schema, td_risk_level = risk_level, td_mutability = Read,
      td_requires_approval = False, td_supports_rollback = False, td_scope = Session,
      td_resource_impact = impact, td_timeout_ms = 30000\<rparr>"

definition write_descriptor ::
  "native_tool_name \<Rightarrow> string \<Rightarrow> risk_level \<Rightarrow> bool \<Rightarrow> tool_descriptor" where
  "write_descriptor name description risk_level supports_rollback =
     \<lparr>td_name = name, td_description = description,
            td_input_schema = write_input_schema name,
      td_output_schema = write_output_schema name, td_risk_level = risk_level,
      td_mutability = Write, td_requires_approval = True,
      td_supports_rollback = supports_rollback, td_scope = Session,
      td_resource_impact = Medium, td_timeout_ms = 30000\<rparr>"

definition host_descriptors :: "tool_descriptor list" where
  "host_descriptors =
     [descriptor SystemInfo
         ''Collect basic operating system and host information.''
         empty_input
         (object_output [(''hostname'', js [js_type ''string'']),
           (''operatingSystem'', js [js_type ''string'']),
           (''kernelRelease'', js [js_type ''string'']),
           (''architecture'', js [js_type ''string''])]) R0 Low,
      descriptor SystemDisk
         ''Collect mounted filesystem capacity and utilization.''
         empty_input
         (object_output [(''disks'', js [js_type ''array'', (''items'', js [js_type ''object'',
            (''properties'', js [(''mount'', js [js_type ''string'']), (''usedBytes'',
            js [js_type ''integer'', (''minimum'', js_num 0)]), (''totalBytes'',
            js [js_type ''integer'', (''minimum'', js_num 0)]), (''usagePercent'',
            js [js_type ''number'', (''minimum'', js_num 0)])]), (''required'',
            JArray [JString ''mount'', JString ''usedBytes'', JString ''totalBytes'',
            JString ''usagePercent'']), (''additionalProperties'', JBool False)])])]) R0 Low,
      descriptor ServiceStatus
         ''Read the current status of one system service.''
         (object_input [(''service'', str_schema 1 128)])
         (object_output [(''service'', js [js_type ''object'', (''properties'', js [(''name'',
            js [js_type ''string'']), (''status'', js [(''enum'', JArray [JString ''active'',
            JString ''inactive'', JString ''failed'', JString ''unknown''])])]), (''required'',
            JArray [JString ''name'', JString ''status'']), (''additionalProperties'',
            JBool False)])]) R0 Low,
      descriptor ServiceLogs
         ''Read a bounded tail of logs for one system service.''
         (object_input [(''service'', str_schema 1 128), (''lines'', int_schema 20 500)])
         (object_output [(''service'', js [js_type ''string'']),
           (''entries'', js [js_type ''array'', (''items'',
            js [js_type ''string''])])]) R1 LongRunning,
      descriptor NetworkPortCheck
         ''Check TCP reachability from the selected server session.''
         (object_input [(''host'', str_schema 1 255), (''port'', int_schema 1 65535)])
         (object_output [(''host'', js [js_type ''string'']),
           (''port'', int_schema 1 65535),
           (''reachable'', js [js_type ''boolean''])]) R1 Medium,
      descriptor HttpRequest
         ''Perform one bounded HTTP GET request from the selected server session.''
         (object_input [(''url'', str_schema 8 2048)])
         (object_output [(''statusCode'', int_schema 100 599),
           (''contentType'', js [(''type'', JArray [JString ''string'', JString ''null''])]),
           (''bodyPreview'', js [js_type ''string'']),
           (''bodyBytes'', js [js_type ''integer'', (''minimum'', js_num 0)])]) R1 ExternalCost,
      descriptor NginxTest
         ''Validate the active Nginx configuration without reloading it.''
         empty_input
         (object_output [(''valid'', js [js_type ''boolean'']),
           (''configFile'', js [(''type'', JArray [JString ''string'', JString ''null''])]),
           (''errorFile'', js [(''type'', JArray [JString ''string'', JString ''null''])]),
           (''errorLine'', js [(''type'', JArray [JString ''integer'', JString ''null'']),
            (''minimum'', js_num 1)]),
           (''errorMessage'', js [(''type'', JArray [JString ''string'', JString ''null''])]),
           (''rawSummary'', js [js_type ''string'', (''maxLength'', js_num 16384)])]) R1 Low]"

definition diagnostic_descriptors :: "tool_descriptor list" where
  "diagnostic_descriptors =
     [descriptor DnsResolve
         ''Resolve one DNS name from the target.''
         (object_input [(''host'', str_schema 1 255)])
         generic_object_output R1 Medium,
      descriptor TlsInspect
         ''Inspect one TLS endpoint without sending application data.''
         (object_input [(''host'', str_schema 1 255), (''port'', int_schema 1 65535)])
         generic_object_output R1 ExternalCost,
      descriptor NetworkListeners
         ''List bounded TCP listeners.''
         empty_input
         generic_object_output R1 Medium,
      descriptor ProcessList
         ''List bounded high-CPU processes.''
         empty_input
         generic_object_output R1 HighCpu,
      descriptor FileInspect
         ''Inspect bounded metadata and redacted text for one explicit remote file.''
         (object_input [(''path'', str_schema 1 4096)])
         generic_object_output R1 Medium,
      descriptor SystemDirectoryUsage
         ''Measure immediate children of one explicit directory.''
         (object_input [(''path'', str_schema 1 4096)])
         generic_object_output R1 HighIo,
      descriptor SystemLargeFiles
         ''List bounded large regular files below one explicit directory.''
         (object_input [(''path'', str_schema 1 4096), (''minimumBytes'',
            int_schema 1048576 1099511627776)])
         generic_object_output R1 HighIo,
      descriptor DockerList
         ''List bounded Docker container state.''
         empty_input
         generic_object_output R1 Medium,
      descriptor DockerInspect
         ''Inspect one validated Docker container.''
         (object_input [(''container'', str_schema 1 256)])
         generic_object_output R1 Medium,
      descriptor DockerLogs
         ''Read a bounded Docker log tail.''
         (object_input [(''container'', str_schema 1 256), (''lines'', int_schema 20 500)])
         generic_object_output R1 LongRunning,
      descriptor FilesystemInodeUsage
         ''Collect inode utilization for mounted filesystems (df -i).''
         empty_input
         generic_object_output R0 Low,
      descriptor BlockDevicesList
         ''List block devices and mount relationships (lsblk).''
         empty_input
         generic_object_output R0 Low,
      descriptor TerminalExecReadonly
         ''Execute one allowlisted read-only command when no typed tool exists.''
         (object_input [(''command'', str_schema 1 256)])
         generic_object_output R1 Medium]"

definition repair_descriptors :: "tool_descriptor list" where
  "repair_descriptors =
     [write_descriptor FilePatch ''Apply one exact bounded text replacement.'' R3 True,
      write_descriptor ServiceRestart ''Restart one validated system service.'' R3 False,
      write_descriptor ServiceReload ''Reload one validated system service.'' R2 False,
      write_descriptor NginxReload ''Reload Nginx after configuration validation.'' R2 False,
      write_descriptor DockerRestart ''Restart one validated Docker container.'' R3 False]"

definition native_descriptors :: "tool_descriptor list" where
  "native_descriptors = host_descriptors @ diagnostic_descriptors @ repair_descriptors"

definition resource_impact_for :: "native_tool_name \<Rightarrow> resource_impact" where
  "resource_impact_for name =
     (case find (\<lambda>d. td_name d = name) native_descriptors of
        Some d \<Rightarrow> td_resource_impact d
      | None \<Rightarrow> Medium)"

section \<open>Invocations\<close>

datatype native_tool_invocation =
    InvSystemInfo
  | InvSystemDisk
  | InvServiceStatus string
  | InvServiceLogs string u32
  | InvNetworkPortCheck string u16
  | InvHttpRequest string
  | InvNginxTest
  | InvDnsResolve string
  | InvTlsInspect string u16
  | InvNetworkListeners
  | InvProcessList
  | InvFileInspect string
  | InvSystemDirectoryUsage string
  | InvSystemLargeFiles string u64
  | InvDockerList
  | InvDockerInspect string
  | InvDockerLogs string u32
  | InvFilePatch string string string
  | InvServiceRestart string
  | InvServiceReload string
  | InvNginxReload
  | InvDockerRestart string
  | InvFilesystemInodeUsage
  | InvBlockDevicesList
  | InvTerminalExecReadonly string

fun invocation_name :: "native_tool_invocation \<Rightarrow> native_tool_name" where
    "invocation_name InvSystemInfo = SystemInfo"
  | "invocation_name InvSystemDisk = SystemDisk"
  | "invocation_name (InvServiceStatus _) = ServiceStatus"
  | "invocation_name (InvServiceLogs _ _) = ServiceLogs"
  | "invocation_name (InvNetworkPortCheck _ _) = NetworkPortCheck"
  | "invocation_name (InvHttpRequest _) = HttpRequest"
  | "invocation_name InvNginxTest = NginxTest"
  | "invocation_name (InvDnsResolve _) = DnsResolve"
  | "invocation_name (InvTlsInspect _ _) = TlsInspect"
  | "invocation_name InvNetworkListeners = NetworkListeners"
  | "invocation_name InvProcessList = ProcessList"
  | "invocation_name (InvFileInspect _) = FileInspect"
  | "invocation_name (InvSystemDirectoryUsage _) = SystemDirectoryUsage"
  | "invocation_name (InvSystemLargeFiles _ _) = SystemLargeFiles"
  | "invocation_name InvDockerList = DockerList"
  | "invocation_name (InvDockerInspect _) = DockerInspect"
  | "invocation_name (InvDockerLogs _ _) = DockerLogs"
  | "invocation_name (InvFilePatch _ _ _) = FilePatch"
  | "invocation_name (InvServiceRestart _) = ServiceRestart"
  | "invocation_name (InvServiceReload _) = ServiceReload"
  | "invocation_name InvNginxReload = NginxReload"
  | "invocation_name (InvDockerRestart _) = DockerRestart"
  | "invocation_name InvFilesystemInodeUsage = FilesystemInodeUsage"
  | "invocation_name InvBlockDevicesList = BlockDevicesList"
  | "invocation_name (InvTerminalExecReadonly _) = TerminalExecReadonly"

section \<open>Allow-listed terminal commands\<close>

definition ALLOWED_READONLY_COMMANDS :: "string list" where
  "ALLOWED_READONLY_COMMANDS =
     [''uptime'', ''whoami'', ''id'', ''uname -a'', ''uname -r'', ''uname -m'', ''free -h'',
      ''free -b'', ''df -h'', ''df -i'', ''lsblk'', ''lsblk -b'', ''cat /proc/loadavg'',
      ''cat /proc/meminfo'']"

definition shell_meta :: "string" where
  "shell_meta = '';|&$<>'' @ [CHR 0x60, NL, CR]"

definition validate_readonly_command :: "string \<Rightarrow> (unit, app_error) result" where
  "validate_readonly_command command =
     (let trimmed = trim command in
      if trimmed = [] \<or> 256 < length trimmed then Err (Remote InvalidOperation)
      else if length (str_lines trimmed) \<noteq> 1 \<or> list_ex (\<lambda>c. c \<in> set shell_meta) trimmed
        then Err (Remote InvalidOperation)
      else if list_ex (eq_ignore_ascii_case trimmed) ALLOWED_READONLY_COMMANDS then Ok ()
      else Err (Remote InvalidOperation))"

section \<open>Parsing a model's arguments\<close>

abbreviation invalid_response :: "('a, app_error) result" where
  "invalid_response \<equiv> Err (Model ModelResponseInvalid)"

type_synonym json_object = "(string \<times> json) list"

definition no_arguments :: "json_object \<Rightarrow> (unit, app_error) result" where
  "no_arguments arguments = (if arguments = [] then Ok () else invalid_response)"

definition required_string :: "json_object \<Rightarrow> string \<Rightarrow> (string, app_error) result" where
  "required_string arguments key =
     ok_or (Model ModelResponseInvalid) (Option.bind (map_of arguments key) as_str)"

definition only_string :: "json_object \<Rightarrow> string \<Rightarrow> (string, app_error) result" where
  "only_string arguments key =
     (if length arguments \<noteq> 1 then invalid_response else required_string arguments key)"

definition bounded_string :: "string \<Rightarrow> nat \<Rightarrow> nat \<Rightarrow> (string, app_error) result" where
  "bounded_string value minimum maximum =
     (if minimum \<le> length value \<and> length value \<le> maximum \<and> \<not> has_control value
      then Ok value else invalid_response)"

definition identifier_byte :: "char \<Rightarrow> bool" where
  "identifier_byte b \<longleftrightarrow> is_ascii_alphanumeric b \<or> b \<in> set ''._@:-''"

definition identifier_arg :: "string \<Rightarrow> nat \<Rightarrow> (string, app_error) result" where
  "identifier_arg value maximum =
     result_bind (bounded_string value 1 maximum)
       (\<lambda>value. if list_all identifier_byte value then Ok value else invalid_response)"

definition host :: "string \<Rightarrow> (string, app_error) result" where
  "host value =
     result_bind (bounded_string value 1 255)
       (\<lambda>value. if \<not> starts_with value ''-'' \<and> \<not> has_whitespace value then Ok value
                 else invalid_response)"

definition path :: "string \<Rightarrow> (string, app_error) result" where
  "path value =
     result_bind (bounded_string value 1 4096)
       (\<lambda>value. if starts_with value ''/'' then Ok value else invalid_response)"

definition u32_try_from :: "u64 \<Rightarrow> u32 option" where
  "u32_try_from n = (if n < 2 ^ 32 then Some (ucast n) else None)"

definition u16_try_from :: "u64 \<Rightarrow> u16 option" where
  "u16_try_from n = (if n < 2 ^ 16 then Some (ucast n) else None)"

definition bounded_u32 :: "json_object \<Rightarrow> string \<Rightarrow> u32 \<Rightarrow> u32 \<Rightarrow> (u32, app_error) result" where
  "bounded_u32 arguments key minimum maximum =
     (if length arguments \<noteq> 2 then invalid_response
      else result_bind
        (ok_or (Model ModelResponseInvalid)
          (Option.bind (Option.bind (map_of arguments key) as_u64) u32_try_from))
        (\<lambda>value. if minimum \<le> value \<and> value \<le> maximum then Ok value else invalid_response))"

definition bounded_u64 :: "json_object \<Rightarrow> string \<Rightarrow> u64 \<Rightarrow> u64 \<Rightarrow> (u64, app_error) result" where
  "bounded_u64 arguments key minimum maximum =
     (if length arguments \<noteq> 2 then invalid_response
      else case Option.bind (map_of arguments key) as_u64 of
          Some value \<Rightarrow>
            if minimum \<le> value \<and> value \<le> maximum then Ok value else invalid_response
        | None \<Rightarrow> invalid_response)"

definition port :: "json_object \<Rightarrow> (u16, app_error) result" where
  "port arguments =
     (if length arguments \<noteq> 2 then invalid_response
      else case Option.bind (Option.bind (map_of arguments ''port'') as_u64) u16_try_from of
          Some value \<Rightarrow> if 0 < value then Ok value else invalid_response
        | None \<Rightarrow> invalid_response)"

text \<open>\<open>NativeToolInvocation::from_model_read_call\<close>.\<close>

definition from_model_read_call ::
  "native_tool_name \<Rightarrow> json \<Rightarrow> (native_tool_invocation, app_error) result" where
  "from_model_read_call name args =
     result_bind (ok_or (Model ModelResponseInvalid) (as_object args)) (\<lambda>arguments.
     (case name of
        SystemInfo \<Rightarrow> result_bind (no_arguments arguments) (\<lambda>_. Ok InvSystemInfo)
      | SystemDisk \<Rightarrow> result_bind (no_arguments arguments) (\<lambda>_. Ok InvSystemDisk)
      | ServiceStatus \<Rightarrow>
          result_bind (only_string arguments ''service'') (\<lambda>s.
          result_bind (identifier_arg s 128) (\<lambda>s. Ok (InvServiceStatus s)))
      | ServiceLogs \<Rightarrow>
          result_bind (required_string arguments ''service'') (\<lambda>s.
          result_bind (identifier_arg s 128) (\<lambda>s.
          result_bind (bounded_u32 arguments ''lines'' 20 500) (\<lambda>n. Ok (InvServiceLogs s n))))
      | NetworkPortCheck \<Rightarrow>
          result_bind (required_string arguments ''host'') (\<lambda>h.
          result_bind (host h) (\<lambda>h.
          result_bind (port arguments) (\<lambda>p. Ok (InvNetworkPortCheck h p))))
      | HttpRequest \<Rightarrow>
          result_bind (only_string arguments ''url'') (\<lambda>u.
          result_bind (bounded_string u 8 2048) (\<lambda>u. Ok (InvHttpRequest u)))
      | NginxTest \<Rightarrow> result_bind (no_arguments arguments) (\<lambda>_. Ok InvNginxTest)
      | DnsResolve \<Rightarrow>
          result_bind (only_string arguments ''host'') (\<lambda>h.
          result_bind (host h) (\<lambda>h. Ok (InvDnsResolve h)))
      | TlsInspect \<Rightarrow>
          result_bind (required_string arguments ''host'') (\<lambda>h.
          result_bind (host h) (\<lambda>h.
          result_bind (port arguments) (\<lambda>p. Ok (InvTlsInspect h p))))
      | NetworkListeners \<Rightarrow> result_bind (no_arguments arguments) (\<lambda>_. Ok InvNetworkListeners)
      | ProcessList \<Rightarrow> result_bind (no_arguments arguments) (\<lambda>_. Ok InvProcessList)
      | FileInspect \<Rightarrow>
          result_bind (only_string arguments ''path'') (\<lambda>p.
          result_bind (path p) (\<lambda>p. Ok (InvFileInspect p)))
      | SystemDirectoryUsage \<Rightarrow>
          result_bind (only_string arguments ''path'') (\<lambda>p.
          result_bind (path p) (\<lambda>p. Ok (InvSystemDirectoryUsage p)))
      | SystemLargeFiles \<Rightarrow>
          result_bind (required_string arguments ''path'') (\<lambda>p.
          result_bind (path p) (\<lambda>p.
          result_bind (bounded_u64 arguments ''minimumBytes'' 1048576 1099511627776) (\<lambda>n.
          Ok (InvSystemLargeFiles p n))))
      | DockerList \<Rightarrow> result_bind (no_arguments arguments) (\<lambda>_. Ok InvDockerList)
      | DockerInspect \<Rightarrow>
          result_bind (only_string arguments ''container'') (\<lambda>c.
          result_bind (identifier_arg c 256) (\<lambda>c. Ok (InvDockerInspect c)))
      | DockerLogs \<Rightarrow>
          result_bind (required_string arguments ''container'') (\<lambda>c.
          result_bind (identifier_arg c 256) (\<lambda>c.
          result_bind (bounded_u32 arguments ''lines'' 20 500) (\<lambda>n. Ok (InvDockerLogs c n))))
      | FilesystemInodeUsage \<Rightarrow>
          result_bind (no_arguments arguments) (\<lambda>_. Ok InvFilesystemInodeUsage)
      | BlockDevicesList \<Rightarrow> result_bind (no_arguments arguments) (\<lambda>_. Ok InvBlockDevicesList)
      | TerminalExecReadonly \<Rightarrow>
          result_bind (only_string arguments ''command'') (\<lambda>c.
          result_bind (bounded_string c 1 256) (\<lambda>c.
          result_bind (validate_readonly_command c) (\<lambda>_. Ok (InvTerminalExecReadonly c))))
      | FilePatch \<Rightarrow> invalid_response
      | ServiceRestart \<Rightarrow> invalid_response
      | ServiceReload \<Rightarrow> invalid_response
      | NginxReload \<Rightarrow> invalid_response
      | DockerRestart \<Rightarrow> invalid_response))"

section \<open>The registry and the result envelope\<close>

text \<open>
  \<open>NativeToolRegistry\<close> keys the table by name; a later descriptor replaces an earlier one.
  Executing a tool runs a remote probe through the session manager, which is the parameter
  \<open>remote\<close>: it returns the collected data and whether the output was cut.
\<close>

definition registry_descriptor :: "native_tool_name \<Rightarrow> tool_descriptor option" where
  "registry_descriptor name = map_of (rev (map (\<lambda>d. (td_name d, d)) native_descriptors)) name"

definition registry_descriptors :: "tool_descriptor list" where
  "registry_descriptors = List.map_filter registry_descriptor ALL_TOOLS"

record 'd tool_result =
  tr_invocation_id :: uuid
  tr_tool_name :: native_tool_name
  tr_success :: bool
  tr_summary :: string
  tr_data :: "'d option"
  tr_error_code :: "string option"
  tr_warnings :: "string list"
  tr_started_at_epoch_ms :: u64
  tr_duration_ms :: u64
  tr_truncated :: bool
  tr_cancelled :: bool
  tr_untrusted_remote_data :: bool

fun outcome_summary :: "native_tool_invocation \<Rightarrow> string" where
    "outcome_summary InvSystemInfo = ''system-info-collected''"
  | "outcome_summary InvSystemDisk = ''system-disk-collected''"
  | "outcome_summary (InvServiceStatus _) = ''service-status-collected''"
  | "outcome_summary (InvServiceLogs _ _) = ''service-logs-collected''"
  | "outcome_summary (InvNetworkPortCheck _ _) = ''network-port-checked''"
  | "outcome_summary (InvHttpRequest _) = ''http-request-completed''"
  | "outcome_summary InvNginxTest = ''nginx-configuration-tested''"
  | "outcome_summary (InvDnsResolve _) = ''dns-resolved''"
  | "outcome_summary (InvTlsInspect _ _) = ''tls-inspected''"
  | "outcome_summary InvNetworkListeners = ''network-listeners-collected''"
  | "outcome_summary InvProcessList = ''process-list-collected''"
  | "outcome_summary (InvFileInspect _) = ''file-inspected''"
  | "outcome_summary (InvSystemDirectoryUsage _) = ''directory-usage-collected''"
  | "outcome_summary (InvSystemLargeFiles _ _) = ''large-files-collected''"
  | "outcome_summary InvDockerList = ''docker-list-collected''"
  | "outcome_summary (InvDockerInspect _) = ''docker-inspected''"
  | "outcome_summary (InvDockerLogs _ _) = ''docker-logs-collected''"
  | "outcome_summary (InvFilePatch _ _ _) = ''file-patch-applied''"
  | "outcome_summary (InvServiceRestart _) = ''service-restarted''"
  | "outcome_summary (InvServiceReload _) = ''service-reloaded''"
  | "outcome_summary InvNginxReload = ''nginx-reloaded''"
  | "outcome_summary (InvDockerRestart _) = ''docker-restarted''"
  | "outcome_summary InvFilesystemInodeUsage = ''inode-usage-collected''"
  | "outcome_summary InvBlockDevicesList = ''block-devices-collected''"
  | "outcome_summary (InvTerminalExecReadonly _) = ''terminal-readonly-completed''"

text \<open>Only the log and HTTP probes report a cut; every other arm fixes the flag to false.\<close>

fun outcome_truncated :: "native_tool_invocation \<Rightarrow> bool \<Rightarrow> bool" where
  "outcome_truncated (InvServiceLogs _ _) was_cut = was_cut"
| "outcome_truncated (InvHttpRequest _) was_cut = was_cut"
| "outcome_truncated _ was_cut = False"

definition registry_execute ::
  "(native_tool_invocation \<Rightarrow> app_error + ('d \<times> bool)) \<Rightarrow> u64 \<Rightarrow> u64 \<Rightarrow> uuid \<Rightarrow>
   native_tool_invocation \<Rightarrow> 'd tool_result" where
  "registry_execute remote started duration invocation_id invocation =
     (let (success, summary, data, error_code, truncated) =
        (case remote invocation of
           Inr (data, was_cut) \<Rightarrow> (True, outcome_summary invocation, Some data, None,
                               outcome_truncated invocation was_cut)
         | Inl error \<Rightarrow> (False, ''tool-execution-failed'', None,
                         Some (app_error_code error), False))
      in \<lparr>tr_invocation_id = invocation_id, tr_tool_name = invocation_name invocation,
          tr_success = success, tr_summary = summary, tr_data = data,
          tr_error_code = error_code,
          tr_warnings = (if truncated then [''remote-output-truncated''] else []),
          tr_started_at_epoch_ms = started, tr_duration_ms = duration,
          tr_truncated = truncated, tr_cancelled = False, tr_untrusted_remote_data = True\<rparr>)"

section \<open>The tool policy\<close>

datatype tool_policy_denial =
    NotAllowlisted
  | RiskCeilingExceeded
  | WriteToolsDisabled
  | ApprovalEngineUnavailable
  | ScopeNotAllowed
  | AgentPolicyDenied

fun tool_policy_denial_code :: "tool_policy_denial \<Rightarrow> string" where
  "tool_policy_denial_code NotAllowlisted = ''TOOL_NOT_ALLOWLISTED''"
| "tool_policy_denial_code RiskCeilingExceeded = ''TOOL_RISK_CEILING_EXCEEDED''"
| "tool_policy_denial_code WriteToolsDisabled = ''TOOL_WRITE_DISABLED''"
| "tool_policy_denial_code ApprovalEngineUnavailable = ''TOOL_APPROVAL_UNAVAILABLE''"
| "tool_policy_denial_code ScopeNotAllowed = ''TOOL_SCOPE_NOT_ALLOWED''"
| "tool_policy_denial_code AgentPolicyDenied = ''AGENT_POLICY_DENIED''"

datatype tool_policy_decision = Allowed | Blocked tool_policy_denial

record tool_policy =
  tp_allowlist :: "native_tool_name set"
  tp_max_risk :: risk_level
  tp_writes_enabled :: bool
  tp_approval_engine_available :: bool

definition foundation :: tool_policy where
  "foundation =
     \<lparr>tp_allowlist = set READ_ONLY, tp_max_risk = R1, tp_writes_enabled = False,
      tp_approval_engine_available = False\<rparr>"

definition restricted :: "native_tool_name list \<Rightarrow> risk_level \<Rightarrow> tool_policy" where
  "restricted allowlist max_risk =
     \<lparr>tp_allowlist = set (filter (\<lambda>name. name \<in> tp_allowlist foundation) allowlist),
      tp_max_risk = min max_risk (tp_max_risk foundation), tp_writes_enabled = False,
      tp_approval_engine_available = False\<rparr>"

definition approved_repair :: tool_policy where
  "approved_repair =
     \<lparr>tp_allowlist = set ALL_TOOLS, tp_max_risk = R3, tp_writes_enabled = True,
      tp_approval_engine_available = True\<rparr>"

definition tool_policy_evaluate :: "tool_policy \<Rightarrow> tool_descriptor \<Rightarrow> tool_policy_decision" where
  "tool_policy_evaluate p d =
     (let denial =
        (if td_name d \<notin> tp_allowlist p then Some NotAllowlisted
         else if td_mutability d \<noteq> Read \<and> \<not> tp_writes_enabled p then Some WriteToolsDisabled
         else if td_requires_approval d \<and> \<not> tp_approval_engine_available p
           then Some ApprovalEngineUnavailable
         else if td_scope d \<noteq> Session then Some ScopeNotAllowed
         else if tp_max_risk p < td_risk_level d then Some RiskCeilingExceeded
         else None)
      in case denial of None \<Rightarrow> Allowed | Some reason \<Rightarrow> Blocked reason)"

section \<open>The table agrees with the name lists\<close>

lemma descriptor_sel [simp]:
  "td_name (descriptor n d i q r m) = n" "td_mutability (descriptor n d i q r m) = Read"
  "td_requires_approval (descriptor n d i q r m) = False"
  "td_scope (descriptor n d i q r m) = Session" "td_risk_level (descriptor n d i q r m) = r"
  "td_input_schema (descriptor n d i q r m) = i"
  "td_resource_impact (descriptor n d i q r m) = m"
  by (simp_all add: descriptor_def)

lemma write_descriptor_sel [simp]:
  "td_name (write_descriptor n d r b) = n" "td_mutability (write_descriptor n d r b) = Write"
  "td_requires_approval (write_descriptor n d r b) = True"
  "td_scope (write_descriptor n d r b) = Session" "td_risk_level (write_descriptor n d r b) = r"
  "td_input_schema (write_descriptor n d r b) = write_input_schema n"
  "td_resource_impact (write_descriptor n d r b) = Medium"
  by (simp_all add: write_descriptor_def)

lemmas table_defs =
  native_descriptors_def host_descriptors_def diagnostic_descriptors_def repair_descriptors_def

lemma names_of_table: "map td_name native_descriptors = ALL_TOOLS"
  by (simp add: table_defs ALL_TOOLS_def)

lemma all_tools_complete: "name \<in> set ALL_TOOLS"
  by (cases name) (simp_all add: ALL_TOOLS_def)

lemma all_tools_distinct: "distinct ALL_TOOLS"
  by (simp add: ALL_TOOLS_def)

lemma find_descriptor:
  "\<exists>d. find (\<lambda>d. td_name d = name) native_descriptors = Some d \<and> td_name d = name
      \<and> d \<in> set native_descriptors"
proof (cases "find (\<lambda>d. td_name d = name) native_descriptors")
  case None
  then have "name \<notin> set (map td_name native_descriptors)" by (auto simp: find_None_set)
  then show ?thesis by (simp add: names_of_table all_tools_complete)
next
  case (Some d)
  with find_Some_set [OF Some] show ?thesis by auto
qed

text \<open>
  What the policies read of a descriptor: its name, whether it only reads, whether it needs
  approval, its scope and its risk. One evaluation of the table settles all of it.
\<close>

definition row_ok :: "native_tool_name \<Rightarrow> bool \<Rightarrow> bool \<Rightarrow> bool \<Rightarrow> nat \<Rightarrow> bool" where
  "row_ok name reads approval session risk \<longleftrightarrow>
     reads = (name \<in> set READ_ONLY) \<and> approval = (\<not> reads) \<and> session
     \<and> (risk \<le> 1) = reads \<and> risk \<le> 3"

definition descriptor_ok :: "tool_descriptor \<Rightarrow> bool" where
  "descriptor_ok d \<longleftrightarrow>
     row_ok (td_name d) (td_mutability d = Read) (td_requires_approval d)
       (td_scope d = Session) (risk_rank (td_risk_level d))"

lemma descriptor_ok_descriptor [simp]:
  "descriptor_ok (descriptor n d i q r m) \<longleftrightarrow> row_ok n True False True (risk_rank r)"
  "descriptor_ok (write_descriptor n d r b) \<longleftrightarrow> row_ok n False True True (risk_rank r)"
  by (simp_all add: descriptor_ok_def)

lemma table_ok: "list_all descriptor_ok native_descriptors"
  by (simp add: table_defs row_ok_def READ_ONLY_def)

lemma table_descriptor_ok: "d \<in> set native_descriptors \<Longrightarrow> descriptor_ok d"
  using table_ok by (simp add: list_all_iff)

lemma table_read_iff:
  "d \<in> set native_descriptors \<Longrightarrow> td_mutability d = Read \<longleftrightarrow> td_name d \<in> set READ_ONLY"
  by (drule table_descriptor_ok) (simp add: descriptor_ok_def row_ok_def)

lemma table_scope: "d \<in> set native_descriptors \<Longrightarrow> td_scope d = Session"
  by (drule table_descriptor_ok) (simp add: descriptor_ok_def row_ok_def)

lemma table_approval_iff:
  "d \<in> set native_descriptors \<Longrightarrow> td_requires_approval d \<longleftrightarrow> td_mutability d \<noteq> Read"
  by (drule table_descriptor_ok) (simp add: descriptor_ok_def row_ok_def)

lemma table_risk:
  "d \<in> set native_descriptors \<Longrightarrow> td_risk_level d \<le> R1 \<longleftrightarrow> td_mutability d = Read"
  by (drule table_descriptor_ok) (simp add: descriptor_ok_def row_ok_def risk_order)

lemma table_risk_repair: "d \<in> set native_descriptors \<Longrightarrow> td_risk_level d \<le> R3"
  by (drule table_descriptor_ok) (simp add: descriptor_ok_def row_ok_def risk_order)

lemma tool_policy_Allowed_iff:
  "tool_policy_evaluate p d = Allowed \<longleftrightarrow>
     td_name d \<in> tp_allowlist p \<and> (td_mutability d = Read \<or> tp_writes_enabled p)
     \<and> (td_requires_approval d \<longrightarrow> tp_approval_engine_available p)
     \<and> td_scope d = Session \<and> td_risk_level d \<le> tp_max_risk p"
  by (auto simp: tool_policy_evaluate_def Let_def not_less)

end
