(* ===== verification/Tools_Contract.thy ===== *)
theory Tools_Contract
  imports Tools
begin

text \<open>
  What the tool catalogue promises: the parser of model arguments admits only read tools with
  checked operands, agrees with the published input schemas, and the allow-list policies
  separate the table into reads and writes.
\<close>

section \<open>What the parser accepts\<close>

text \<open>
  The reading of a published input schema that the table needs: an object with exactly the
  listed keys, strings bounded in characters (JSON Schema counts characters, the parser bytes),
  integers bounded in value.
\<close>

fun schema_num :: "json \<Rightarrow> string \<Rightarrow> u64 \<Rightarrow> u64" where
  "schema_num schema k dflt =
     (case json_get schema k of Some (JNumber (PosInt n)) \<Rightarrow> n | _ \<Rightarrow> dflt)"

fun schema_field_ok :: "json \<Rightarrow> json \<Rightarrow> bool" where
  "schema_field_ok schema (JString s) \<longleftrightarrow>
     json_get schema ''type'' = Some (JString ''string'')
     \<and> unat (schema_num schema ''minLength'' 0) \<le> char_count s
     \<and> char_count s \<le> unat (schema_num schema ''maxLength'' (- 1))"
| "schema_field_ok schema (JNumber (PosInt n)) \<longleftrightarrow>
     json_get schema ''type'' = Some (JString ''integer'')
     \<and> schema_num schema ''minimum'' 0 \<le> n \<and> n \<le> schema_num schema ''maximum'' (- 1)"
| "schema_field_ok schema _ \<longleftrightarrow> False"

definition schema_keys :: "json \<Rightarrow> string set" where
  "schema_keys schema =
     (case json_get schema ''properties'' of Some (JObject ps) \<Rightarrow> fst ` set ps | _ \<Rightarrow> {})"

definition schema_accepts :: "json \<Rightarrow> json \<Rightarrow> bool" where
  "schema_accepts schema v \<longleftrightarrow>
     (case v of
        JObject m \<Rightarrow> fst ` set m = schema_keys schema
          \<and> (\<forall>(k, x) \<in> set m.
               case Option.bind (json_get schema ''properties'') (\<lambda>ps. json_get ps k) of
                 Some field \<Rightarrow> schema_field_ok field x | None \<Rightarrow> False)
      | _ \<Rightarrow> False)"

lemma json_get_js [simp]: "json_get (js kvs) k = map_of (rev kvs) k"
proof -
  have "map_of (fold (\<lambda>(k, v) m. obj_insert k v m) kvs m) k =
          (case map_of (rev kvs) k of Some v \<Rightarrow> Some v | None \<Rightarrow> map_of m k)" for m
    by (induction kvs arbitrary: m)
      (auto simp: map_add_def split: option.splits)
  from this [of "[]"] show ?thesis
    by (simp add: js_def json_get_def obj_collect_def split: option.splits)
qed

lemma json_get_object_input:
  "json_get (object_input ps) ''properties'' = Some (js ps)"
  by (simp add: object_input_def Let_def js_def [symmetric])

lemma keys_js: "(case js ps of JObject m \<Rightarrow> fst ` set m | _ \<Rightarrow> {}) = fst ` set ps"
proof -
  have "fst ` set (fold (\<lambda>(k, v) m. obj_insert k v m) ps m) = fst ` set ps \<union> fst ` set m" for m
    by (induction ps arbitrary: m) (simp_all add: keys_obj_insert case_prod_beta)
  from this [of "[]"] show ?thesis by (simp add: js_def obj_collect_def)
qed

lemma schema_keys_object_input [simp]: "schema_keys (object_input ps) = fst ` set ps"
  by (simp add: schema_keys_def json_get_object_input keys_js)

lemma accepts_no_arguments: "schema_accepts empty_input (JObject [])"
  by (simp add: schema_accepts_def schema_keys_def empty_input_def js_def [of "[]"] obj_collect_def)

lemma str_schema_field [simp]:
  "schema_field_ok (str_schema lo hi) (JString s) \<longleftrightarrow> unat lo \<le> char_count s \<and> char_count s \<le> unat hi"
  by simp

lemma int_schema_field [simp]:
  "schema_field_ok (int_schema lo hi) (JNumber (PosInt n)) \<longleftrightarrow> lo \<le> n \<and> n \<le> hi"
  by simp

lemma accepts_object_input:
  assumes "fst ` set m = fst ` set ps"
    and "\<And>k x. (k, x) \<in> set m \<Longrightarrow> \<exists>f. map_of (rev ps) k = Some f \<and> schema_field_ok f x"
  shows "schema_accepts (object_input ps) (JObject m)"
  using assms by (fastforce simp: schema_accepts_def json_get_object_input)

lemma two_keys:
  assumes "length m = 2" "map_of m k1 = Some x1" "map_of m k2 = Some x2" "k1 \<noteq> k2"
  shows "set m = {(k1, x1), (k2, x2)}"
proof -
  obtain a b where m: "m = [a, b]" using assms(1) by (auto simp: length_Suc_conv numeral_2_eq_2)
  show ?thesis using assms(2-4) unfolding m by (cases a; cases b) (auto split: if_splits)
qed

lemma only_string_Ok:
  "only_string m k = Ok s \<longleftrightarrow> m = [(k, JString s)]"
proof
  assume "only_string m k = Ok s"
  then have "length m = 1" and "Option.bind (map_of m k) as_str = Some s"
    by (auto simp: only_string_def required_string_def result_simps split: if_splits)
  then have "map_of m k = Some (JString s)"
    by (auto simp: bind_eq_Some_conv elim!: as_str.elims)
  with \<open>length m = 1\<close> show "m = [(k, JString s)]" by (rule singleton_object)
qed (simp add: only_string_def required_string_def)

lemma required_string_Ok: "required_string m k = Ok s \<longleftrightarrow> map_of m k = Some (JString s)"
  by (auto simp: required_string_def result_simps bind_eq_Some_conv elim!: as_str.elims)

lemma bounded_string_Ok:
  "bounded_string v lo hi = Ok w \<longleftrightarrow> w = v \<and> lo \<le> length v \<and> length v \<le> hi \<and> \<not> has_control v"
  by (auto simp: bounded_string_def)

lemma identifier_arg_Ok:
  "identifier_arg v hi = Ok w \<longleftrightarrow> w = v \<and> 1 \<le> length v \<and> length v \<le> hi \<and> \<not> has_control v
     \<and> list_all identifier_byte v"
  by (auto simp: identifier_arg_def result_simps bounded_string_Ok)

lemma host_Ok:
  "host v = Ok w \<longleftrightarrow> w = v \<and> 1 \<le> length v \<and> length v \<le> 255 \<and> \<not> has_control v
     \<and> \<not> starts_with v ''-'' \<and> \<not> has_whitespace v"
  by (auto simp: host_def result_simps bounded_string_Ok)

lemma path_Ok:
  "path v = Ok w \<longleftrightarrow> w = v \<and> 1 \<le> length v \<and> length v \<le> 4096 \<and> \<not> has_control v
     \<and> starts_with v ''/''"
  by (auto simp: path_def result_simps bounded_string_Ok)

lemma as_u64_Some: "as_u64 v = Some n \<longleftrightarrow> v = JNumber (PosInt n)"
  by (cases v rule: as_u64.cases) auto


text \<open>What each operand of an accepted read invocation satisfies.\<close>

fun operands_ok :: "native_tool_invocation \<Rightarrow> bool" where
  "operands_ok (InvServiceStatus s) \<longleftrightarrow> list_all identifier_byte s \<and> s \<noteq> []"
| "operands_ok (InvServiceLogs s n) \<longleftrightarrow> list_all identifier_byte s \<and> s \<noteq> [] \<and> 20 \<le> n \<and> n \<le> 500"
| "operands_ok (InvNetworkPortCheck h p) \<longleftrightarrow>
     h \<noteq> [] \<and> \<not> starts_with h ''-'' \<and> \<not> has_whitespace h \<and> \<not> has_control h \<and> 0 < p"
| "operands_ok (InvHttpRequest u) \<longleftrightarrow> \<not> has_control u"
| "operands_ok (InvDnsResolve h) \<longleftrightarrow>
     h \<noteq> [] \<and> \<not> starts_with h ''-'' \<and> \<not> has_whitespace h \<and> \<not> has_control h"
| "operands_ok (InvTlsInspect h p) \<longleftrightarrow>
     h \<noteq> [] \<and> \<not> starts_with h ''-'' \<and> \<not> has_whitespace h \<and> \<not> has_control h \<and> 0 < p"
| "operands_ok (InvFileInspect p) \<longleftrightarrow> starts_with p ''/'' \<and> \<not> has_control p"
| "operands_ok (InvSystemDirectoryUsage p) \<longleftrightarrow> starts_with p ''/'' \<and> \<not> has_control p"
| "operands_ok (InvSystemLargeFiles p n) \<longleftrightarrow>
     starts_with p ''/'' \<and> \<not> has_control p \<and> 1048576 \<le> n \<and> n \<le> 1099511627776"
| "operands_ok (InvDockerInspect c) \<longleftrightarrow> list_all identifier_byte c \<and> c \<noteq> []"
| "operands_ok (InvDockerLogs c n) \<longleftrightarrow> list_all identifier_byte c \<and> c \<noteq> [] \<and> 20 \<le> n \<and> n \<le> 500"
| "operands_ok (InvTerminalExecReadonly c) \<longleftrightarrow>
     (\<exists>a \<in> set ALLOWED_READONLY_COMMANDS. eq_ignore_ascii_case (trim c) a) \<and> \<not> has_control c"
| "operands_ok _ \<longleftrightarrow> True"

lemma validate_readonly_Ok:
  "validate_readonly_command c = Ok u \<Longrightarrow>
     \<exists>a \<in> set ALLOWED_READONLY_COMMANDS. eq_ignore_ascii_case (trim c) a"
  by (auto simp: validate_readonly_command_def Let_def list_ex_iff split: if_splits)

lemma bounded_u32_Ok:
  "bounded_u32 m k lo hi = Ok n \<Longrightarrow>
     length m = 2 \<and> (\<exists>v. map_of m k = Some (JNumber (PosInt v)) \<and> v < 2 ^ 32 \<and> n = ucast v)
     \<and> lo \<le> n \<and> n \<le> hi"
  by (auto simp: bounded_u32_def result_simps bind_eq_Some_conv as_u64_Some u32_try_from_def
      split: if_splits)

lemma bounded_u64_Ok:
  "bounded_u64 m k lo hi = Ok n \<Longrightarrow>
     length m = 2 \<and> map_of m k = Some (JNumber (PosInt n)) \<and> lo \<le> n \<and> n \<le> hi"
  by (auto simp: bounded_u64_def bind_eq_Some_conv as_u64_Some split: if_splits option.splits)

lemma port_Ok:
  "port m = Ok n \<Longrightarrow>
     length m = 2 \<and> (\<exists>v. map_of m ''port'' = Some (JNumber (PosInt v)) \<and> v < 2 ^ 16 \<and> n = ucast v)
     \<and> 0 < n"
  by (auto simp: port_def bind_eq_Some_conv as_u64_Some u16_try_from_def
      split: if_splits option.splits)

lemmas parse_Ok = only_string_Ok required_string_Ok identifier_arg_Ok host_Ok path_Ok
  bounded_string_Ok

text \<open>What comes out of the parser: the requested name, a read tool, checked operands.\<close>

lemma parsed_invocation:
  assumes "from_model_read_call name args = Ok i"
  shows "invocation_name i = name \<and> name \<in> set READ_ONLY \<and> operands_ok i"
proof -
  obtain m where m: "as_object args = Some m"
    using assms by (auto simp: from_model_read_call_def result_simps)
  show ?thesis
    using assms
    by (cases name)
      (auto simp: from_model_read_call_def m result_simps parse_Ok READ_ONLY_def
        dest!: bounded_u32_Ok bounded_u64_Ok port_Ok validate_readonly_Ok)
qed

text \<open>The input schemas of the read tools, by name.\<close>

definition read_input_schema :: "native_tool_name \<Rightarrow> json" where
  "read_input_schema name =
     (case name of
        ServiceStatus \<Rightarrow> object_input [(''service'', str_schema 1 128)]
      | ServiceLogs \<Rightarrow> object_input [(''service'', str_schema 1 128), (''lines'', int_schema 20 500)]
      | NetworkPortCheck \<Rightarrow> object_input [(''host'', str_schema 1 255), (''port'', int_schema 1 65535)]
      | HttpRequest \<Rightarrow> object_input [(''url'', str_schema 8 2048)]
      | DnsResolve \<Rightarrow> object_input [(''host'', str_schema 1 255)]
      | TlsInspect \<Rightarrow> object_input [(''host'', str_schema 1 255), (''port'', int_schema 1 65535)]
      | FileInspect \<Rightarrow> object_input [(''path'', str_schema 1 4096)]
      | SystemDirectoryUsage \<Rightarrow> object_input [(''path'', str_schema 1 4096)]
      | SystemLargeFiles \<Rightarrow> object_input [(''path'', str_schema 1 4096),
          (''minimumBytes'', int_schema 1048576 1099511627776)]
      | DockerInspect \<Rightarrow> object_input [(''container'', str_schema 1 256)]
      | DockerLogs \<Rightarrow> object_input [(''container'', str_schema 1 256), (''lines'', int_schema 20 500)]
      | TerminalExecReadonly \<Rightarrow> object_input [(''command'', str_schema 1 256)]
      | _ \<Rightarrow> empty_input)"

definition schema_row_ok :: "tool_descriptor \<Rightarrow> bool" where
  "schema_row_ok d \<longleftrightarrow> (td_mutability d = Read \<longrightarrow> td_input_schema d = read_input_schema (td_name d))"

lemma schema_row_ok_descriptor [simp]:
  "schema_row_ok (descriptor n d i q r m) \<longleftrightarrow> i = read_input_schema n"
  "schema_row_ok (write_descriptor n d r b)"
  by (simp_all add: schema_row_ok_def)

lemma table_schemas: "list_all schema_row_ok native_descriptors"
  by (simp add: table_defs read_input_schema_def)

lemma registry_descriptor_Some:
  "registry_descriptor name = Some d \<Longrightarrow> d \<in> set native_descriptors \<and> td_name d = name"
  by (auto simp: registry_descriptor_def dest!: map_of_SomeD)

lemma registry_read_schema:
  assumes "registry_descriptor name = Some d" and "name \<in> set READ_ONLY"
  shows "td_input_schema d = read_input_schema name"
proof -
  from registry_descriptor_Some [OF assms(1)] assms(2) table_read_iff [of d] table_schemas
  show ?thesis by (auto simp: list_all_iff schema_row_ok_def)
qed

text \<open>Every Rust string is well-formed UTF-8, so those inside a \<open>serde_json::Value\<close> are.\<close>

definition texts_ok :: "json \<Rightarrow> bool" where
  "texts_ok v \<longleftrightarrow>
     (case v of JObject m \<Rightarrow> list_all (\<lambda>(_, x). case x of JString s \<Rightarrow> utf8_valid s | _ \<Rightarrow> True) m | _ \<Rightarrow> True)"

lemma texts_okD: "texts_ok (JObject m) \<Longrightarrow> map_of m k = Some (JString s) \<Longrightarrow> utf8_valid s"
  by (drule map_of_SomeD) (auto simp: texts_ok_def list_all_iff)

lemma text_length: "utf8_valid s \<Longrightarrow> s \<noteq> [] \<Longrightarrow> length s \<le> n \<Longrightarrow> 1 \<le> char_count s \<and> char_count s \<le> n"
  using utf8_char_count [of s] char_count_le_length [of s] by simp

text \<open>An object with one bounded string, or one bounded string and one bounded number.\<close>

lemma accepts_string:
  "unat lo \<le> char_count s \<Longrightarrow> char_count s \<le> unat hi \<Longrightarrow>
     schema_accepts (object_input [(k, str_schema lo hi)]) (JObject [(k, JString s)])"
  by (rule accepts_object_input) (auto simp del: schema_field_ok.simps)

lemma accepts_string_number:
  assumes "length m = 2" "map_of m k1 = Some (JString s)"
    and "map_of m k2 = Some (JNumber (PosInt n))" and "k1 \<noteq> k2"
    and "texts_ok (JObject m)" "s \<noteq> []" "length s \<le> unat hi" "lo2 \<le> n" "n \<le> hi2"
  shows "schema_accepts (object_input [(k1, str_schema 1 hi), (k2, int_schema lo2 hi2)]) (JObject m)"
proof (rule accepts_object_input)
  note m = two_keys [OF assms(1-4)]
  show "fst ` set m = fst ` set [(k1, str_schema 1 hi), (k2, int_schema lo2 hi2)]"
    by (simp add: m)
  fix k x assume "(k, x) \<in> set m"
  then consider "k = k1" "x = JString s" | "k = k2" "x = JNumber (PosInt n)"
    unfolding m by blast
  then show "\<exists>f. map_of (rev [(k1, str_schema 1 hi), (k2, int_schema lo2 hi2)]) k = Some f
      \<and> schema_field_ok f x"
  proof cases
    case 1
    with assms(4) have "map_of (rev [(k1, str_schema 1 hi), (k2, int_schema lo2 hi2)]) k
        = Some (str_schema 1 hi)"
      by (simp del: str_schema_field int_schema_field)
    moreover have "schema_field_ok (str_schema 1 hi) x"
      using text_length [OF texts_okD [OF assms(5,2)] assms(6,7)] unfolding 1 by (subst str_schema_field) simp
    ultimately show ?thesis by blast
  next
    case 2
    then have "map_of (rev [(k1, str_schema 1 hi), (k2, int_schema lo2 hi2)]) k
        = Some (int_schema lo2 hi2)" by simp
    moreover have "schema_field_ok (int_schema lo2 hi2) x"
      using assms(8,9) unfolding 2 by (subst int_schema_field) simp
    ultimately show ?thesis by blast
  qed
qed

lemma ucast_in_range:
  fixes v :: u64
  shows "v < 2 ^ 32 \<Longrightarrow> (20 :: u32) \<le> ucast v \<Longrightarrow> ucast v \<le> (500 :: u32) \<Longrightarrow> 20 \<le> v \<and> v \<le> 500"
    and "v < 2 ^ 16 \<Longrightarrow> (0 :: u16) < ucast v \<Longrightarrow> 1 \<le> v \<and> v \<le> 65535"
  subgoal by (simp add: word_le_nat_alt word_less_nat_alt unsigned_ucast_eq take_bit_nat_eq_self)
  subgoal by (simp add: word_le_nat_alt word_less_nat_alt unsigned_ucast_eq take_bit_nat_eq_self)
  done


lemma parsed_name_reads: "from_model_read_call name args = Ok i \<Longrightarrow> name \<in> set READ_ONLY"
  by (drule parsed_invocation) blast

lemma ucast_lines:
  "(v :: u64) < 2 ^ 32 \<Longrightarrow> (20 :: u32) \<le> ucast v \<Longrightarrow> ucast v \<le> (500 :: u32) \<Longrightarrow> 20 \<le> v \<and> v \<le> 500"
  by (simp add: word_le_nat_alt word_less_nat_alt unsigned_ucast_eq take_bit_nat_eq_self)

lemma ucast_port:
  assumes "(v :: u64) < 2 ^ 16" and "(0 :: u16) < ucast v"
  shows "1 \<le> v \<and> v \<le> 65535"
proof -
  have "unat v < 2 ^ 16" using assms(1) by (simp add: word_less_nat_alt)
  moreover from this have "0 < unat v"
    using assms(2) by (simp add: word_less_nat_alt unsigned_ucast_eq take_bit_nat_eq_self)
  ultimately show ?thesis by (simp add: word_le_nat_alt)
qed

lemma lines_in_schema:
  assumes "bounded_u32 m k 20 500 = Ok n"
  obtains v where "length m = 2" "map_of m k = Some (JNumber (PosInt v))" "20 \<le> v" "v \<le> 500"
  using bounded_u32_Ok [OF assms] ucast_lines by blast

lemma port_in_schema:
  assumes "port m = Ok n"
  obtains v where "length m = 2" "map_of m ''port'' = Some (JNumber (PosInt v))" "1 \<le> v" "v \<le> 65535"
  using port_Ok [OF assms] ucast_port by blast

text \<open>The three shapes of the parser's arms, each against its schema.\<close>

lemma no_arguments_schema:
  "no_arguments m = Ok u \<Longrightarrow> schema_accepts empty_input (JObject m)"
  by (simp add: no_arguments_def accepts_no_arguments split: if_splits)

lemma string_schema:
  assumes "only_string m k = Ok s" and "texts_ok (JObject m)" and "s \<noteq> []" and "length s \<le> unat hi"
  shows "schema_accepts (object_input [(k, str_schema 1 hi)]) (JObject m)"
proof -
  have m: "m = [(k, JString s)]" using assms(1) by (simp only: only_string_Ok)
  with assms(2) have "utf8_valid s" using texts_okD [of m k s] by simp
  from text_length [OF this assms(3,4)] show ?thesis unfolding m by (intro accepts_string) simp_all
qed

lemma parse_service: "identifier_arg s n = Ok t \<Longrightarrow> s \<noteq> [] \<and> length s \<le> n"
  and parse_host: "host s = Ok t \<Longrightarrow> s \<noteq> [] \<and> length s \<le> 255"
  and parse_path: "path s = Ok t \<Longrightarrow> s \<noteq> [] \<and> length s \<le> 4096"
  and parse_bounded: "bounded_string s lo hi = Ok t \<Longrightarrow> lo \<le> length s \<and> length s \<le> hi"
  by (auto simp: identifier_arg_Ok host_Ok path_Ok bounded_string_Ok)

lemmas parse_bounds = parse_service parse_host parse_path parse_bounded

lemma no_arguments_call:
  assumes "name \<in> {SystemInfo, SystemDisk, NginxTest, NetworkListeners, ProcessList, DockerList,
      FilesystemInodeUsage, BlockDevicesList}"
    and "from_model_read_call name (JObject m) = Ok i"
  shows "schema_accepts (read_input_schema name) (JObject m)"
proof -
  from assms have "read_input_schema name = empty_input" and "no_arguments m = Ok ()"
    by (auto simp: from_model_read_call_def read_input_schema_def result_simps)
  then show ?thesis by (simp add: no_arguments_schema)
qed

lemma string_call:
  assumes "name \<in> {ServiceStatus, DnsResolve, FileInspect, SystemDirectoryUsage,
      DockerInspect, TerminalExecReadonly}"
    and "from_model_read_call name (JObject m) = Ok i" and "texts_ok (JObject m)"
  shows "schema_accepts (read_input_schema name) (JObject m)"
  using assms
  by (auto simp: from_model_read_call_def read_input_schema_def result_simps
      simp del: str_schema_field dest!: parse_bounds intro!: string_schema)

lemma string_number_call:
  assumes "name \<in> {ServiceLogs, NetworkPortCheck, TlsInspect, SystemLargeFiles, DockerLogs}"
    and "from_model_read_call name (JObject m) = Ok i" and "texts_ok (JObject m)"
  shows "schema_accepts (read_input_schema name) (JObject m)"
  using assms
  by (auto simp: from_model_read_call_def read_input_schema_def result_simps required_string_Ok
      dest!: parse_bounds bounded_u64_Ok elim!: lines_in_schema port_in_schema
      intro!: accepts_string_number)

text \<open>
  The one length on which parser and schema differ: a URL of at least 8 bytes but fewer than 8
  characters.
\<close>

definition short_url :: "native_tool_name \<Rightarrow> json \<Rightarrow> bool" where
  "short_url name args \<longleftrightarrow>
     name = HttpRequest
     \<and> (case args of JObject [(k, JString u)] \<Rightarrow> k = ''url'' \<and> char_count u < 8 | _ \<Rightarrow> False)"

lemma url_call:
  assumes "from_model_read_call HttpRequest (JObject m) = Ok i"
  shows "schema_accepts (read_input_schema HttpRequest) (JObject m) \<longleftrightarrow> \<not> short_url HttpRequest (JObject m)"
proof -
  obtain u where m: "m = [(''url'', JString u)]" and len: "length u \<le> 2048"
    using assms by (auto simp: from_model_read_call_def result_simps only_string_Ok bounded_string_Ok)
  have "char_count u \<le> 2048" using len char_count_le_length [of u] by simp
  then show ?thesis
    by (simp add: m short_url_def schema_accepts_def read_input_schema_def json_get_object_input
        del: schema_field_ok.simps) linarith
qed

lemma parsed_in_schema:
  assumes "from_model_read_call name args = Ok i" and "registry_descriptor name = Some d" and "texts_ok args"
  shows "schema_accepts (td_input_schema d) args \<longleftrightarrow> \<not> short_url name args"
proof -
  obtain m where m: "args = JObject m"
    using assms by (cases args) (auto simp: from_model_read_call_def result_simps)
  have "name \<in> set READ_ONLY" using assms(1) by (rule parsed_name_reads)
  moreover from this have "td_input_schema d = read_input_schema name"
    by (rule registry_read_schema [OF assms(2)])
  moreover have "schema_accepts (read_input_schema name) args \<longleftrightarrow> \<not> short_url name args"
  proof -
    note call = assms(1) [unfolded m] and texts = assms(3) [unfolded m]
    consider "name \<in> {SystemInfo, SystemDisk, NginxTest, NetworkListeners, ProcessList, DockerList,
        FilesystemInodeUsage, BlockDevicesList}"
      | "name \<in> {ServiceStatus, DnsResolve, FileInspect, SystemDirectoryUsage,
          DockerInspect, TerminalExecReadonly}"
      | "name \<in> {ServiceLogs, NetworkPortCheck, TlsInspect, SystemLargeFiles, DockerLogs}"
      | "name = HttpRequest"
      using \<open>name \<in> set READ_ONLY\<close> unfolding READ_ONLY_def by fastforce
    then show ?thesis
    proof cases
      case 1 with no_arguments_call [OF 1 call] show ?thesis by (auto simp: m short_url_def)
    next
      case 2 with string_call [OF 2 call texts] show ?thesis by (auto simp: m short_url_def)
    next
      case 3 with string_number_call [OF 3 call texts] show ?thesis by (auto simp: m short_url_def)
    next
      case 4 with url_call call show ?thesis by (simp add: m)
    qed
  qed
  ultimately show ?thesis by simp
qed

lemma registry_descriptor_total: "\<exists>d. registry_descriptor name = Some d"
proof -
  have "name \<in> fst ` set (map (\<lambda>d. (td_name d, d)) native_descriptors)"
    using all_tools_complete [of name] by (simp add: image_image flip: names_of_table)
  then show ?thesis
    unfolding registry_descriptor_def
    by (metis map_of_eq_None_iff not_Some_eq set_rev)
qed

text \<open>
  C32. What the parser of model arguments lets through. The arguments it accepts for a tool are
  admitted by the input schema of that tool's descriptor, lengths counted in characters as JSON
  Schema does, with one exception: a URL of fewer than 8 characters that has 8 bytes. No write
  gets through: the tool is the named one and only reads. And the operands are checked, so that
  identifiers are plain, hosts cannot look like options, paths are absolute, counts and ports
  are in range and a terminal command is one of the listed ones.
\<close>

theorem from_model_read_call_sound:
  assumes "from_model_read_call name args = Ok i" and "registry_descriptor name = Some d" and "texts_ok args"
  shows "(schema_accepts (td_input_schema d) args \<longleftrightarrow> \<not> short_url name args)
    \<and> invocation_name i = name \<and> td_mutability d = Read \<and> operands_ok i"
proof -
  from registry_descriptor_Some [OF assms(2)] have d: "d \<in> set native_descriptors" "td_name d = name"
    by auto
  from parsed_invocation [OF assms(1)] table_read_iff [OF d(1)] d(2) parsed_in_schema [OF assms]
  show ?thesis by simp
qed

definition two_byte_text :: "nat \<Rightarrow> string" where
  "two_byte_text n = concat (replicate n [CHR 0xC3, CHR 0xA9])"

lemma from_model_read_call_sound_witness:
  "(\<exists>d. registry_descriptor FileInspect = Some d \<and> td_mutability d = Read
     \<and> schema_accepts (td_input_schema d) (js [(''path'', JString ''/var/log'')]))
   \<and> (\<exists>d i. registry_descriptor HttpRequest = Some d
     \<and> from_model_read_call HttpRequest (js [(''url'', JString (two_byte_text 5))]) = Ok i
     \<and> \<not> schema_accepts (td_input_schema d) (js [(''url'', JString (two_byte_text 5))]))"
proof
  have "from_model_read_call FileInspect (js [(''path'', JString ''/var/log'')])
      = Ok (InvFileInspect ''/var/log'')" by code_simp
  moreover obtain d where "registry_descriptor FileInspect = Some d"
    using registry_descriptor_total by blast
  moreover have "texts_ok (js [(''path'', JString ''/var/log'')])"
    and "\<not> short_url FileInspect (js [(''path'', JString ''/var/log'')])" by code_simp+
  ultimately show "\<exists>d. registry_descriptor FileInspect = Some d \<and> td_mutability d = Read
     \<and> schema_accepts (td_input_schema d) (js [(''path'', JString ''/var/log'')])"
    using from_model_read_call_sound by blast
next
  let ?args = "js [(''url'', JString (two_byte_text 5))]"
  have "from_model_read_call HttpRequest ?args = Ok (InvHttpRequest (two_byte_text 5))" by code_simp
  moreover obtain d where "registry_descriptor HttpRequest = Some d"
    using registry_descriptor_total by blast
  moreover have "texts_ok ?args" and "short_url HttpRequest ?args" by code_simp+
  ultimately show "\<exists>d i. registry_descriptor HttpRequest = Some d
     \<and> from_model_read_call HttpRequest ?args = Ok i \<and> \<not> schema_accepts (td_input_schema d) ?args"
    using from_model_read_call_sound by blast
qed

text \<open>
  The policies over the published table: the foundation policy allows exactly the tools
  that only read, a restricted policy allows a subset of that, inside its own list and risk
  ceiling, and the repair policy allows every tool.
\<close>

lemma tool_policies_over_table:
  assumes "d \<in> set native_descriptors"
  shows "(tool_policy_evaluate foundation d = Allowed \<longleftrightarrow> td_mutability d = Read)
    \<and> (tool_policy_evaluate (restricted names ceiling) d = Allowed \<longleftrightarrow>
         tool_policy_evaluate foundation d = Allowed \<and> td_name d \<in> set names
         \<and> td_risk_level d \<le> ceiling)
    \<and> tool_policy_evaluate approved_repair d = Allowed"
proof -
  note rows = table_read_iff [OF assms] table_scope [OF assms] table_approval_iff [OF assms]
    table_risk [OF assms] table_risk_repair [OF assms] all_tools_complete
  have "td_risk_level d \<le> min ceiling R1 \<longleftrightarrow> td_risk_level d \<le> ceiling \<and> td_risk_level d \<le> R1"
    by simp
  with rows show ?thesis
    by (auto simp: tool_policy_Allowed_iff foundation_def restricted_def approved_repair_def)
qed

lemma tool_policies_over_table_witness:
  "\<exists>d. td_name d = FilePatch \<and> tool_policy_evaluate foundation d \<noteq> Allowed
     \<and> tool_policy_evaluate approved_repair d = Allowed"
proof -
  obtain d where d: "d \<in> set native_descriptors" "td_name d = FilePatch"
    using find_descriptor by blast
  then have "td_mutability d \<noteq> Read" by (simp add: table_read_iff READ_ONLY_def)
  with tool_policies_over_table [OF d(1)] d(2) show ?thesis by blast
qed

end
