(* ===== verification/Storage.thy ===== *)
theory Storage
  imports Domain_Errors
begin

text \<open>
  Durable storage (src-tauri/src/storage): the atomic JSON file repository of
  json\_repository.rs and the SQLite catalog of catalog\_database.rs, whose three tables are
  rewritten in one transaction, with the catalog's record types (src-tauri/src/domain).
  Both meet one interface, \<open>snapshot_repository\<close>: a save either fails and leaves the store
  as it was, or the next load returns what was saved. Encoding and decoding of JSON, the file
  system and the SQL engine are not in the repository: a load sees a file that is missing,
  decodes, does not decode or cannot be read, and a write is given the outcome of each of its
  steps.
\<close>

section \<open>The interface\<close>

text \<open>
  \<open>w\<close> is the outcome of the system calls of one write; \<open>writable\<close> says which values the store
  can represent and \<open>canon\<close> the order in which it gives them back.
\<close>

locale snapshot_repository =
  fixes load :: "'s \<Rightarrow> ('v, app_error) result"
    and save :: "'w \<Rightarrow> 'v \<Rightarrow> 's \<Rightarrow> (unit, app_error) result \<times> 's"
    and writable :: "'v \<Rightarrow> bool"
    and canon :: "'v \<Rightarrow> 'v"
  assumes save_failed: "save w v s = (r, s') \<Longrightarrow> r \<noteq> Ok () \<Longrightarrow> s' = s"
    and save_stored: "save w v s = (Ok (), s') \<Longrightarrow> writable v \<Longrightarrow> load s' = Ok (canon v)"

text \<open>Read, change, write back: the shape of every mutation of a stored collection.\<close>

definition read_modify_write ::
  "('s \<Rightarrow> ('v, app_error) result) \<Rightarrow> ('w \<Rightarrow> 'v \<Rightarrow> 's \<Rightarrow> (unit, app_error) result \<times> 's) \<Rightarrow>
   ('v \<Rightarrow> 'v) \<Rightarrow> 'w \<Rightarrow> 's \<Rightarrow> (unit, app_error) result \<times> 's" where
  "read_modify_write load save f w s =
     (case load s of Ok v \<Rightarrow> save w (f v) s | Err e \<Rightarrow> (Err e, s) | Panic \<Rightarrow> (Panic, s))"

context snapshot_repository
begin

text \<open>Nothing in between: the store is as before, or holds the change of what it held.\<close>

lemma rmw_atomic:
  assumes "read_modify_write load save f w s = (r, s')"
    and "\<And>v. load s = Ok v \<Longrightarrow> writable (f v)"
  shows "(r \<noteq> Ok () \<and> s' = s)
    \<or> (r = Ok () \<and> (\<exists>v. load s = Ok v \<and> load s' = Ok (canon (f v))))"
proof (cases "load s")
  case (Ok v)
  with assms have saved: "save w (f v) s = (r, s')" and w: "writable (f v)"
    by (auto simp: read_modify_write_def)
  show ?thesis
  proof (cases "r = Ok ()")
    case True
    with saved w Ok show ?thesis using save_stored by blast
  next
    case False
    with saved show ?thesis using save_failed by blast
  qed
qed (use assms in \<open>auto simp: read_modify_write_def\<close>)

lemma rmw_invariant:
  assumes rmw: "read_modify_write load save f w s = (r, s')"
    and pre: "\<And>v. load s = Ok v \<Longrightarrow> P v" "\<And>v. load s = Ok v \<Longrightarrow> writable (f v)"
    and keeps: "\<And>v. P v \<Longrightarrow> P (canon (f v))"
    and post: "load s' = Ok v'"
  shows "P v'"
proof -
  from rmw_atomic [OF rmw pre(2)] consider "s' = s"
    | v where "load s = Ok v" "load s' = Ok (canon (f v))" by blast
  then show ?thesis
  proof cases
    case 1
    with pre(1) post show ?thesis by simp
  next
    case 2
    have "P (canon (f v))" by (rule keeps [OF pre(1) [OF 2(1)]])
    with 2(2) post show ?thesis by simp
  qed
qed

end

section \<open>JSON files\<close>

datatype 'a stored_file = Missing | Contents 'a | Malformed | Unreadable

text \<open>\<open>load_or_default\<close>: only a missing file is the default; a damaged one is an error.\<close>

fun load_or_default :: "'a \<Rightarrow> 'a stored_file \<Rightarrow> ('a, app_error) result" where
  "load_or_default dflt (Contents v) = Ok v"
| "load_or_default dflt Missing = Ok dflt"
| "load_or_default dflt Malformed = Err Storage"
| "load_or_default dflt Unreadable = Err Storage"

text \<open>
  The steps of \<open>persist_atomic\<close>, in order, and whether each succeeded. The value reaches the
  path only by the final rename.
\<close>

record persist_steps =
  ps_encoded :: bool
  ps_has_parent :: bool
  ps_dir_created :: bool
  ps_temp_created :: bool
  ps_written :: bool
  ps_flushed :: bool
  ps_synced :: bool
  ps_renamed :: bool

definition persist_atomic ::
  "persist_steps \<Rightarrow> 'a \<Rightarrow> 'a stored_file \<Rightarrow> (unit, app_error) result \<times> 'a stored_file" where
  "persist_atomic w bytes target =
     (if \<not> ps_has_parent w then (Err Storage, target)
      else if \<not> ps_dir_created w then (Err Storage, target)
      else if \<not> ps_temp_created w then (Err Storage, target)
      else if \<not> ps_written w then (Err Storage, target)
      else if \<not> ps_flushed w then (Err Storage, target)
      else if \<not> ps_synced w then (Err Storage, target)
      else if \<not> ps_renamed w then (Err Storage, target)
      else (Ok (), Contents bytes))"

definition save_atomic ::
  "persist_steps \<Rightarrow> 'a \<Rightarrow> 'a stored_file \<Rightarrow> (unit, app_error) result \<times> 'a stored_file" where
  "save_atomic w v target =
     (if \<not> ps_encoded w then (Err Storage, target) else persist_atomic w v target)"

abbreviation all_steps_ok :: persist_steps where
  "all_steps_ok \<equiv> \<lparr>ps_encoded = True, ps_has_parent = True, ps_dir_created = True,
     ps_temp_created = True, ps_written = True, ps_flushed = True, ps_synced = True,
     ps_renamed = True\<rparr>"

lemma save_atomic_cases:
  "save_atomic w v target = (Ok (), Contents v) \<or> save_atomic w v target = (Err Storage, target)"
  by (simp add: save_atomic_def persist_atomic_def)

lemma save_atomic_all_ok [simp]: "save_atomic all_steps_ok v target = (Ok (), Contents v)"
  by (simp add: save_atomic_def persist_atomic_def)

interpretation json_repository: snapshot_repository "load_or_default dflt" save_atomic "\<lambda>_. True" "\<lambda>v. v"
proof
  fix w and v :: 'a and s s' r
  show "save_atomic w v s = (r, s') \<Longrightarrow> r \<noteq> Ok () \<Longrightarrow> s' = s"
    using save_atomic_cases [of w v s] by auto
  show "save_atomic w v s = (Ok (), s') \<Longrightarrow> True \<Longrightarrow> load_or_default dflt s' = Ok v"
    using save_atomic_cases [of w v s] by auto
qed


section \<open>The catalog's records\<close>

record host_group =
  hg_id :: uuid
  hg_name :: string
  hg_sort_order :: "32 word"
  hg_collapsed :: bool
  hg_created_at :: string
  hg_updated_at :: string

record known_host =
  kh_route_scope :: string
  kh_host :: string
  kh_port :: u16
  kh_key_type :: string
  kh_fingerprint :: string
  kh_created_at :: string
  kh_updated_at :: string

datatype auth_method = Password | PrivateKey

datatype key_source = KeyFile string | Vault uuid

record bastion_route =
  br_bastion_id :: uuid
  br_provider :: string
  br_asset_id :: string
  br_account_id :: "string option"
  br_api_base_url :: "string option"
  br_org_id :: "string option"
  br_cli_path :: "string option"
  br_cluster_name :: "string option"
  br_insecure :: bool

datatype connection_route = Direct | JumpHost uuid | Bastion bastion_route

datatype os_distribution =
    Ubuntu | Debian | Fedora | Centos | RedHat | RockyLinux | AlmaLinux | ArchLinux | Manjaro
  | OpenSuse | AlpineLinux | AmazonLinux | OracleLinux | LinuxMint | KaliLinux | Gentoo | VoidLinux
  | NixOs | MacOs | FreeBsd | Linux

record server_profile =
  sp_id :: uuid
  sp_name :: string
  sp_host :: string
  sp_port :: u16
  sp_username :: string
  sp_group_id :: "uuid option"
  sp_auth_method :: auth_method
  sp_key_source :: "key_source option"
  sp_connection_route :: connection_route
  sp_sort_order :: "32 word"
  sp_created_at :: string
  sp_updated_at :: string
  sp_last_connected_at :: "string option"
  sp_os_distribution :: "os_distribution option"

section \<open>Tables\<close>

text \<open>
  The statements of catalog\_database.rs on one table: \<open>DELETE FROM t\<close>, one \<open>INSERT\<close> per row,
  which fails when the primary key is taken, and \<open>COMMIT\<close>; a failure before the commit leaves
  the table as it was. \<open>io_ok\<close> is whether the engine carried the statements out. A listing
  is the rows in the order of its \<open>ORDER BY\<close> clause.
\<close>

fun insert_rows :: "('r \<Rightarrow> 'k) \<Rightarrow> 'r list \<Rightarrow> 'r list \<Rightarrow> ('r list, app_error) result" where
  "insert_rows key [] t = Ok t"
| "insert_rows key (r # rs) t =
     (if key r \<in> key ` set t then Err Storage else insert_rows key rs (t @ [r]))"

definition replace_table ::
  "('r \<Rightarrow> 'k) \<Rightarrow> bool \<Rightarrow> 'r list \<Rightarrow> 'r list \<Rightarrow> (unit, app_error) result \<times> 'r list" where
  "replace_table key io_ok rows table =
     (case insert_rows key rows [] of
        Ok t \<Rightarrow> if io_ok then (Ok (), t) else (Err Storage, table)
      | _ \<Rightarrow> (Err Storage, table))"

lemma insert_rows_distinct:
  "insert_rows key rs t =
     (if distinct (map key rs) \<and> key ` set rs \<inter> key ` set t = {} then Ok (t @ rs) else Err Storage)"
  by (induction rs arbitrary: t) auto

lemma replace_table_eq:
  "replace_table key io_ok rows table =
     (if distinct (map key rows) \<and> io_ok then (Ok (), rows) else (Err Storage, table))"
  by (simp add: replace_table_def insert_rows_distinct)

text \<open>Signed order of an \<open>INTEGER\<close> column that holds an \<open>i32\<close>.\<close>

type_synonym i32 = "32 word"

definition i32_key :: "i32 \<Rightarrow> int" where
  "i32_key n = sint n"

text \<open>
  Groups. The \<open>id\<close> column holds the canonical text of the identifier, which the model keeps as
  the identifier; the two orders agree. \<open>collapsed\<close> is stored as 0 or 1.
\<close>

record stored_group =
  sg_id :: uuid
  sg_name :: string
  sg_sort_order :: i32
  sg_collapsed :: int
  sg_created_at :: string
  sg_updated_at :: string

definition stored_group_from :: "host_group \<Rightarrow> stored_group" where
  "stored_group_from g =
     \<lparr>sg_id = hg_id g, sg_name = hg_name g, sg_sort_order = hg_sort_order g,
      sg_collapsed = (if hg_collapsed g then 1 else 0), sg_created_at = hg_created_at g,
      sg_updated_at = hg_updated_at g\<rparr>"

definition host_group_try_from :: "stored_group \<Rightarrow> (host_group, app_error) result" where
  "host_group_try_from g =
     result_bind
       (if sg_collapsed g = 0 then Ok False else if sg_collapsed g = 1 then Ok True else Err Storage)
       (\<lambda>collapsed. Ok \<lparr>hg_id = sg_id g, hg_name = sg_name g, hg_sort_order = sg_sort_order g,
          hg_collapsed = collapsed, hg_created_at = sg_created_at g,
          hg_updated_at = sg_updated_at g\<rparr>)"

definition group_order :: "stored_group \<Rightarrow> int \<times> uuid" where
  "group_order g = (i32_key (sg_sort_order g), sg_id g)"

definition list_groups :: "stored_group list \<Rightarrow> (host_group list, app_error) result" where
  "list_groups table = try_map host_group_try_from (sort_key group_order table)"

definition replace_groups ::
  "bool \<Rightarrow> host_group list \<Rightarrow> stored_group list \<Rightarrow> (unit, app_error) result \<times> stored_group list" where
  "replace_groups io_ok groups table =
     replace_table sg_id io_ok (map stored_group_from groups) table"

text \<open>Known hosts. The port column is wider than a port, so reading it can fail.\<close>

record stored_known_host =
  sk_route_scope :: string
  sk_host :: string
  sk_port :: int
  sk_key_type :: string
  sk_fingerprint :: string
  sk_created_at :: string
  sk_updated_at :: string

definition stored_known_host_from :: "known_host \<Rightarrow> stored_known_host" where
  "stored_known_host_from h =
     \<lparr>sk_route_scope = kh_route_scope h, sk_host = kh_host h, sk_port = uint (kh_port h),
      sk_key_type = kh_key_type h, sk_fingerprint = kh_fingerprint h,
      sk_created_at = kh_created_at h, sk_updated_at = kh_updated_at h\<rparr>"

definition parse_port :: "int \<Rightarrow> (u16, app_error) result" where
  "parse_port value =
     (if value < 0 \<or> 2 ^ 16 \<le> value then Err Storage
      else if (of_int value :: u16) = 0 then Err Storage
      else Ok (of_int value))"

definition known_host_try_from :: "stored_known_host \<Rightarrow> (known_host, app_error) result" where
  "known_host_try_from h =
     result_bind (parse_port (sk_port h)) (\<lambda>port.
       Ok \<lparr>kh_route_scope = sk_route_scope h, kh_host = sk_host h, kh_port = port,
           kh_key_type = sk_key_type h, kh_fingerprint = sk_fingerprint h,
           kh_created_at = sk_created_at h, kh_updated_at = sk_updated_at h\<rparr>)"

definition sk_key :: "stored_known_host \<Rightarrow> string \<times> string \<times> int" where
  "sk_key h = (sk_route_scope h, sk_host h, sk_port h)"

definition list_known_hosts :: "stored_known_host list \<Rightarrow> (known_host list, app_error) result" where
  "list_known_hosts table = try_map known_host_try_from (sort_key sk_key table)"

definition replace_known_hosts ::
  "bool \<Rightarrow> known_host list \<Rightarrow> stored_known_host list \<Rightarrow>
   (unit, app_error) result \<times> stored_known_host list" where
  "replace_known_hosts io_ok hosts table =
     replace_table sk_key io_ok (map stored_known_host_from hosts) table"

text \<open>
  Profiles. The columns that hold JSON text are kept as the values they encode; the port goes
  through the wider column.
\<close>

definition profile_port_ok :: "server_profile \<Rightarrow> (server_profile, app_error) result" where
  "profile_port_ok p =
     result_bind (parse_port (uint (sp_port p))) (\<lambda>port. Ok (p\<lparr>sp_port := port\<rparr>))"

definition profile_order :: "server_profile \<Rightarrow> int \<times> uuid" where
  "profile_order p = (i32_key (sp_sort_order p), sp_id p)"

definition list_profiles :: "server_profile list \<Rightarrow> (server_profile list, app_error) result" where
  "list_profiles table = try_map profile_port_ok (sort_key profile_order table)"

definition replace_profiles ::
  "bool \<Rightarrow> server_profile list \<Rightarrow> server_profile list \<Rightarrow>
   (unit, app_error) result \<times> server_profile list" where
  "replace_profiles io_ok profiles table = replace_table sp_id io_ok profiles table"

section \<open>The catalog is a snapshot repository\<close>

lemma try_map_all_Ok: "(\<And>x. x \<in> set xs \<Longrightarrow> f x = Ok (g x)) \<Longrightarrow> try_map f xs = Ok (map g xs)"
  by (induction xs) auto

text \<open>A row type whose conversion undoes the storing of every representable record.\<close>

lemma table_load_saved:
  assumes "replace_table key io_ok (map enc rows) table = (Ok (), table')"
    and "\<And>x. x \<in> set rows \<Longrightarrow> dec (enc x) = Ok x"
  shows "try_map dec (sort_key ord table') = Ok (sort_key (ord \<circ> enc) rows)"
proof -
  from assms(1) have t: "table' = map enc rows" by (auto simp: replace_table_eq split: if_splits)
  have "try_map dec (map enc xs) = Ok xs" if "set xs \<subseteq> set rows" for xs
    using that assms(2) by (induction xs) auto
  then show ?thesis by (simp add: t sort_key_map)
qed

lemma host_group_roundtrip [simp]: "host_group_try_from (stored_group_from g) = Ok g"
  by (simp add: host_group_try_from_def stored_group_from_def)

lemma parse_port_uint: "p \<noteq> 0 \<Longrightarrow> parse_port (uint p) = Ok p"
  using uint_lt2p [of p] by (simp add: parse_port_def not_le)

lemma parse_port_zero [simp]: "parse_port 0 = Err Storage"
  by (simp add: parse_port_def)

lemma known_host_roundtrip:
  "kh_port h \<noteq> 0 \<Longrightarrow> known_host_try_from (stored_known_host_from h) = Ok h"
  by (simp add: known_host_try_from_def stored_known_host_from_def parse_port_uint)

lemma profile_roundtrip: "sp_port p \<noteq> 0 \<Longrightarrow> profile_port_ok p = Ok p"
  by (simp add: profile_port_ok_def parse_port_uint)

interpretation group_table: snapshot_repository list_groups replace_groups "\<lambda>_. True"
  "sort_key (group_order \<circ> stored_group_from)"
proof
  fix w v s s' r
  show "replace_groups w v s = (r, s') \<Longrightarrow> r \<noteq> Ok () \<Longrightarrow> s' = s"
    by (auto simp: replace_groups_def replace_table_eq split: if_splits)
  show "replace_groups w v s = (Ok (), s') \<Longrightarrow> True \<Longrightarrow>
      list_groups s' = Ok (sort_key (group_order \<circ> stored_group_from) v)"
    unfolding replace_groups_def list_groups_def by (rule table_load_saved) auto
qed

interpretation known_host_table: snapshot_repository list_known_hosts replace_known_hosts
  "list_all (\<lambda>h. kh_port h \<noteq> 0)" "sort_key (sk_key \<circ> stored_known_host_from)"
proof
  fix w v s s' r
  show "replace_known_hosts w v s = (r, s') \<Longrightarrow> r \<noteq> Ok () \<Longrightarrow> s' = s"
    by (auto simp: replace_known_hosts_def replace_table_eq split: if_splits)
  show "replace_known_hosts w v s = (Ok (), s') \<Longrightarrow> list_all (\<lambda>h. kh_port h \<noteq> 0) v \<Longrightarrow>
      list_known_hosts s' = Ok (sort_key (sk_key \<circ> stored_known_host_from) v)"
    unfolding replace_known_hosts_def list_known_hosts_def
    by (rule table_load_saved) (auto simp: list_all_iff known_host_roundtrip)
qed

interpretation profile_table: snapshot_repository list_profiles replace_profiles
  "list_all (\<lambda>p. sp_port p \<noteq> 0)" "sort_key profile_order"
proof
  fix w v s s' r
  show "replace_profiles w v s = (r, s') \<Longrightarrow> r \<noteq> Ok () \<Longrightarrow> s' = s"
    by (auto simp: replace_profiles_def replace_table_eq split: if_splits)
  assume "replace_profiles w v s = (Ok (), s')" and ok: "list_all (\<lambda>p. sp_port p \<noteq> 0) v"
  then have "replace_table sp_id w (map (\<lambda>p. p) v) s = (Ok (), s')"
    by (simp add: replace_profiles_def)
  from table_load_saved [OF this, of profile_port_ok profile_order] ok
  show "list_profiles s' = Ok (sort_key profile_order v)"
    by (simp add: list_profiles_def list_all_iff profile_roundtrip comp_def)
qed

end
