(* ===== verification/Policy.thy ===== *)
theory Policy
  imports Tools Storage
begin

text \<open>
  The agent policy (src-tauri/src/policy): rules with a scope, a condition and an effect
  (model.rs), the sealing and evaluation of a rule set (engine.rs), and the service that
  loads, audits and publishes decisions, with the built-in default rules (service.rs).
  The JSON encoding of the rules and SHA-256 are not in the repository: \<open>digest\<close> is the
  composed function from the rule list to the printed hash.
\<close>

section \<open>Rules and requests\<close>

datatype policy_decision = Allow | RequireApproval | RequireStepApproval | Deny

fun precedence :: "policy_decision \<Rightarrow> nat" where
  "precedence Allow = 0"
| "precedence RequireApproval = 1"
| "precedence RequireStepApproval = 2"
| "precedence Deny = 3"

datatype policy_execution_strategy = Sequential | Parallel | Canary | Rolling

datatype policy_invocation_source =
  NativeTool | AgentRuntime | OperationsPack | Skill | Mcp | MultiServerChangeSet

datatype policy_scope =
    Global
  | Environment string
  | Group uuid
  | ServerScope uuid
  | ToolScope native_tool_name

fun specificity :: "policy_scope \<Rightarrow> nat" where
  "specificity Global = 0"
| "specificity (Environment _) = 1"
| "specificity (Group _) = 2"
| "specificity (ServerScope _) = 3"
| "specificity (ToolScope _) = 4"

record policy_target =
  pt_server_id :: uuid
  pt_group_id :: "uuid option"
  pt_environment :: "string option"

fun scope_matches :: "policy_scope \<Rightarrow> policy_target \<Rightarrow> native_tool_name \<Rightarrow> bool" where
  "scope_matches Global target tool = True"
| "scope_matches (Environment environment) target tool =
     (case pt_environment target of
        Some value \<Rightarrow> eq_ignore_ascii_case value environment | None \<Rightarrow> False)"
| "scope_matches (Group group_id) target tool = (pt_group_id target = Some group_id)"
| "scope_matches (ServerScope server_id) target tool = (pt_server_id target = server_id)"
| "scope_matches (ToolScope expected) target tool = (expected = tool)"

text \<open>\<open>usize\<close> on the 64-bit targets the application ships for.\<close>

type_synonym usize = "64 word"

record policy_condition =
  pc_tool :: "native_tool_name option"
  pc_risk_level :: "risk_level option"
  pc_minimum_target_count :: "usize option"
  pc_execution_strategy :: "policy_execution_strategy option"
  pc_resource_impact :: "resource_impact option"

record policy_effect =
  pf_decision :: policy_decision
  pf_max_targets :: "usize option"
  pf_reason :: string

record policy_rule =
  pr_id :: string
  pr_scope :: policy_scope
  pr_condition :: policy_condition
  pr_effect :: policy_effect
  pr_enabled :: bool

record policy_set =
  ps_policy_version :: u64
  ps_policy_hash :: string
  ps_rules :: "policy_rule list"

record policy_evaluation_request =
  rq_target :: policy_target
  rq_tool :: native_tool_name
  rq_risk_level :: risk_level
  rq_resource_impact :: resource_impact
  rq_target_count :: usize
  rq_execution_strategy :: policy_execution_strategy
  rq_source :: policy_invocation_source

record policy_matched_rule =
  mr_rule_id :: string
  mr_scope :: policy_scope
  mr_decision :: policy_decision
  mr_reason :: string

record policy_evaluation =
  pe_decision :: policy_decision
  pe_matched_rules :: "policy_matched_rule list"
  pe_reason :: string
  pe_scope :: policy_scope
  pe_policy_version :: u64
  pe_policy_hash :: string

definition permits_execution :: "policy_evaluation \<Rightarrow> bool" where
  "permits_execution e \<longleftrightarrow> pe_decision e \<noteq> Deny"

record policy_snapshot =
  sn_policy_version :: u64
  sn_policy_hash :: string
  sn_decision :: policy_decision
  sn_matched_rule_ids :: "string list"

definition policy_snapshot_from :: "policy_evaluation \<Rightarrow> policy_snapshot" where
  "policy_snapshot_from e =
     \<lparr>sn_policy_version = pe_policy_version e, sn_policy_hash = pe_policy_hash e,
      sn_decision = pe_decision e, sn_matched_rule_ids = map mr_rule_id (pe_matched_rules e)\<rparr>"

section \<open>The engine\<close>

fun is_none_or :: "('a \<Rightarrow> bool) \<Rightarrow> 'a option \<Rightarrow> bool" where
  "is_none_or P None = True"
| "is_none_or P (Some x) = P x"

definition matches_rule :: "policy_rule \<Rightarrow> policy_evaluation_request \<Rightarrow> bool" where
  "matches_rule rule request \<longleftrightarrow>
     scope_matches (pr_scope rule) (rq_target request) (rq_tool request)
     \<and> is_none_or (\<lambda>tool. tool = rq_tool request) (pc_tool (pr_condition rule))
     \<and> is_none_or (\<lambda>risk. risk = rq_risk_level request) (pc_risk_level (pr_condition rule))
     \<and> is_none_or (\<lambda>count. count \<le> rq_target_count request)
         (pc_minimum_target_count (pr_condition rule))
     \<and> is_none_or (\<lambda>strategy. strategy = rq_execution_strategy request)
         (pc_execution_strategy (pr_condition rule))
     \<and> is_none_or (\<lambda>impact. impact = rq_resource_impact request)
         (pc_resource_impact (pr_condition rule))"

definition seal :: "(policy_rule list \<Rightarrow> string) \<Rightarrow> policy_set \<Rightarrow> policy_set" where
  "seal digest s =
     (let rules = sort_key pr_id (ps_rules s)
      in s\<lparr>ps_policy_hash := digest rules, ps_rules := rules\<rparr>)"

definition rule_key :: "policy_rule \<Rightarrow> nat \<times> string" where
  "rule_key r = (specificity (pr_scope r), pr_id r)"

definition matching_rules :: "policy_set \<Rightarrow> policy_evaluation_request \<Rightarrow> policy_rule list" where
  "matching_rules s request =
     sort_key rule_key (filter (\<lambda>rule. pr_enabled rule \<and> matches_rule rule request) (ps_rules s))"

definition target_limit :: "policy_rule list \<Rightarrow> (policy_rule \<times> usize) option" where
  "target_limit rules =
     min_by_key snd
       (List.map_filter (\<lambda>rule. map_option (\<lambda>limit. (rule, limit)) (pf_max_targets (pr_effect rule)))
          rules)"

definition limit_denied :: "policy_rule list \<Rightarrow> usize \<Rightarrow> policy_rule option" where
  "limit_denied rules target_count =
     (case target_limit rules of
        Some (rule, limit) \<Rightarrow> if limit < target_count then Some rule else None
      | None \<Rightarrow> None)"

definition inherited_deny :: "policy_rule list \<Rightarrow> policy_rule option" where
  "inherited_deny rules = find (\<lambda>rule. pf_decision (pr_effect rule) = Deny) rules"

definition most_specific :: "policy_rule list \<Rightarrow> policy_rule option" where
  "most_specific rules =
     (if rules = [] then None
      else let max_specificity = specificity (pr_scope (last rules))
           in max_by_key (\<lambda>rule. precedence (pf_decision (pr_effect rule)))
                (filter (\<lambda>rule. specificity (pr_scope rule) = max_specificity) rules))"

definition policy_evaluate :: "policy_set \<Rightarrow> policy_evaluation_request \<Rightarrow> policy_evaluation" where
  "policy_evaluate s request =
     (let rules = matching_rules s request;
          denied = limit_denied rules (rq_target_count request);
          decisive = (case denied of Some rule \<Rightarrow> Some rule
                      | None \<Rightarrow> case inherited_deny rules of Some rule \<Rightarrow> Some rule
                                | None \<Rightarrow> most_specific rules);
          (decision, reason, scope) =
            (case denied of
               Some rule \<Rightarrow> (Deny, ''POLICY_TARGET_LIMIT_EXCEEDED'', pr_scope rule)
             | None \<Rightarrow> (case decisive of
                 Some rule \<Rightarrow> (pf_decision (pr_effect rule), pf_reason (pr_effect rule), pr_scope rule)
               | None \<Rightarrow> (Deny, ''POLICY_NO_MATCH'', Global)))
      in \<lparr>pe_decision = decision,
          pe_matched_rules =
            map (\<lambda>rule. \<lparr>mr_rule_id = pr_id rule, mr_scope = pr_scope rule,
                          mr_decision = pf_decision (pr_effect rule),
                          mr_reason = pf_reason (pr_effect rule)\<rparr>) rules,
          pe_reason = reason, pe_scope = scope,
          pe_policy_version = ps_policy_version s, pe_policy_hash = ps_policy_hash s\<rparr>)"

section \<open>The default rules\<close>

definition global_rule ::
  "string \<Rightarrow> risk_level option \<Rightarrow> resource_impact option \<Rightarrow> policy_decision \<Rightarrow> string \<Rightarrow>
   usize option \<Rightarrow> policy_rule" where
  "global_rule i risk impact decision reason max_targets =
     \<lparr>pr_id = i, pr_scope = Global,
      pr_condition = \<lparr>pc_tool = None, pc_risk_level = risk, pc_minimum_target_count = None,
                      pc_execution_strategy = None, pc_resource_impact = impact\<rparr>,
      pr_effect = \<lparr>pf_decision = decision, pf_max_targets = max_targets, pf_reason = reason\<rparr>,
      pr_enabled = True\<rparr>"

definition default_policy :: policy_set where
  "default_policy =
     \<lparr>ps_policy_version = 1, ps_policy_hash = [],
      ps_rules =
        [global_rule ''global-agent-baseline'' None None Allow ''POLICY_GLOBAL_ALLOW'' (Some 10),
         global_rule ''high-io-scan-approval'' None (Some HighIo) RequireApproval
           ''POLICY_HIGH_IO_APPROVAL_REQUIRED'' None,
         global_rule ''risk-r2-approval'' (Some R2) None RequireApproval
           ''POLICY_RISK_APPROVAL_REQUIRED'' None,
         global_rule ''risk-r3-approval'' (Some R3) None RequireApproval
           ''POLICY_RISK_APPROVAL_REQUIRED'' None,
         global_rule ''risk-r4-step-approval'' (Some R4) None RequireStepApproval
           ''POLICY_STEP_APPROVAL_REQUIRED'' None,
         \<lparr>pr_id = ''production-parallel-all-denied'', pr_scope = Environment ''production'',
          pr_condition = \<lparr>pc_tool = None, pc_risk_level = None, pc_minimum_target_count = Some 2,
                          pc_execution_strategy = Some Parallel, pc_resource_impact = None\<rparr>,
          pr_effect = \<lparr>pf_decision = Deny, pf_max_targets = None,
                       pf_reason = ''POLICY_PRODUCTION_PARALLEL_DENIED''\<rparr>,
          pr_enabled = True\<rparr>]\<rparr>"

section \<open>The service\<close>

definition MAX_POLICY_AUDIT_RECORDS :: nat where
  "MAX_POLICY_AUDIT_RECORDS = 2000"

record policy_audit_record =
  ar_id :: uuid
  ar_decision :: policy_decision
  ar_matched_rule_ids :: "string list"
  ar_reason :: string
  ar_policy_version :: u64
  ar_policy_hash :: string
  ar_target :: uuid
  ar_tool :: string
  ar_source :: policy_invocation_source
  ar_timestamp_epoch_ms :: u64

record agent_policy_service =
  sv_set :: policy_set
  sv_repository :: "policy_set stored_file option"
  sv_audit_repository :: "policy_audit_record list stored_file option"

definition policy_set_default :: policy_set where
  "policy_set_default = \<lparr>ps_policy_version = 0, ps_policy_hash = [], ps_rules = []\<rparr>"

definition policy_service_new :: "(policy_rule list \<Rightarrow> string) \<Rightarrow> policy_set \<Rightarrow> agent_policy_service" where
  "policy_service_new digest s =
     \<lparr>sv_set = seal digest s, sv_repository = None, sv_audit_repository = None\<rparr>"

definition policy_service_at_path ::
  "(policy_rule list \<Rightarrow> string) \<Rightarrow> policy_set stored_file \<Rightarrow> policy_audit_record list stored_file \<Rightarrow>
   agent_policy_service" where
  "policy_service_at_path digest policy_file audit_file =
     \<lparr>sv_set = seal digest default_policy, sv_repository = Some policy_file,
      sv_audit_repository = Some audit_file\<rparr>"

definition policy_service_load ::
  "(policy_rule list \<Rightarrow> string) \<Rightarrow> persist_steps \<Rightarrow> agent_policy_service \<Rightarrow>
   (unit, app_error) result \<times> agent_policy_service" where
  "policy_service_load digest w service =
     (case sv_repository service of
        None \<Rightarrow> (Ok (), service)
      | Some repository \<Rightarrow>
          (case load_or_default policy_set_default repository of
             Ok loaded \<Rightarrow>
               (let sealed = (if ps_rules loaded = [] then seal digest default_policy
                              else seal digest loaded)
                in case save_atomic w sealed repository of
                     (Ok u, repository') \<Rightarrow>
                       (Ok (), service\<lparr>sv_repository := Some repository', sv_set := sealed\<rparr>)
                   | (r, repository') \<Rightarrow> (r, service\<lparr>sv_repository := Some repository'\<rparr>))
           | Err e \<Rightarrow> (Err e, service)
           | Panic \<Rightarrow> (Panic, service)))"

definition current_matches :: "agent_policy_service \<Rightarrow> policy_snapshot \<Rightarrow> bool" where
  "current_matches service snapshot \<longleftrightarrow>
     ps_policy_version (sv_set service) = sn_policy_version snapshot
     \<and> ps_policy_hash (sv_set service) = sn_policy_hash snapshot"

definition command_approval_identity :: "agent_policy_service \<Rightarrow> u64 \<times> string" where
  "command_approval_identity service =
     (ps_policy_version (sv_set service), ps_policy_hash (sv_set service))"

definition audit_record ::
  "uuid \<Rightarrow> u64 \<Rightarrow> policy_evaluation_request \<Rightarrow> policy_evaluation \<Rightarrow> policy_audit_record" where
  "audit_record i now request e =
     \<lparr>ar_id = i, ar_decision = pe_decision e,
      ar_matched_rule_ids = map mr_rule_id (pe_matched_rules e), ar_reason = pe_reason e,
      ar_policy_version = pe_policy_version e, ar_policy_hash = pe_policy_hash e,
      ar_target = pt_server_id (rq_target request), ar_tool = tool_as_str (rq_tool request),
      ar_source = rq_source request, ar_timestamp_epoch_ms = now\<rparr>"

definition push_audit :: "policy_audit_record \<Rightarrow> policy_audit_record list \<Rightarrow> policy_audit_record list" where
  "push_audit r records =
     (let records = records @ [r]
      in if MAX_POLICY_AUDIT_RECORDS < length records
         then keep_last MAX_POLICY_AUDIT_RECORDS records else records)"

definition policy_service_evaluate ::
  "uuid \<Rightarrow> u64 \<Rightarrow> persist_steps \<Rightarrow> policy_evaluation_request \<Rightarrow> agent_policy_service \<Rightarrow>
   (policy_evaluation, app_error) result \<times> agent_policy_service" where
  "policy_service_evaluate i now w request service =
     (let evaluation = policy_evaluate (sv_set service) request in
      case sv_audit_repository service of
        None \<Rightarrow> (Ok evaluation, service)
      | Some repository \<Rightarrow>
          (case read_modify_write (load_or_default []) save_atomic
                  (push_audit (audit_record i now request evaluation)) w repository of
             (Ok u, repository') \<Rightarrow>
               (Ok evaluation, service\<lparr>sv_audit_repository := Some repository'\<rparr>)
           | (Err e, repository') \<Rightarrow>
               (Err e, service\<lparr>sv_audit_repository := Some repository'\<rparr>)
           | (Panic, repository') \<Rightarrow>
               (Panic, service\<lparr>sv_audit_repository := Some repository'\<rparr>)))"

record effective_agent_policy =
  ep_target :: policy_target
  ep_policy_version :: u64
  ep_policy_hash :: string
  ep_evaluations :: "policy_evaluation list"

definition effective_for_server :: "policy_target \<Rightarrow> agent_policy_service \<Rightarrow> effective_agent_policy" where
  "effective_for_server target service =
     \<lparr>ep_target = target, ep_policy_version = ps_policy_version (sv_set service),
      ep_policy_hash = ps_policy_hash (sv_set service),
      ep_evaluations =
        map (\<lambda>d. policy_evaluate (sv_set service)
               \<lparr>rq_target = target, rq_tool = td_name d, rq_risk_level = td_risk_level d,
                rq_resource_impact = td_resource_impact d, rq_target_count = 1,
                rq_execution_strategy = Sequential, rq_source = NativeTool\<rparr>)
          native_descriptors\<rparr>"

section \<open>What a decision means\<close>

text \<open>
  The decision by itself: any exceeded target limit and any matching \<open>Deny\<close> deny, at
  whatever scope they stand; nothing matching denies; otherwise the strictest decision of
  the most specific matching rules stands. It speaks of the set of matching rules, so the
  order in which the rules are kept cannot matter.
\<close>

definition decision_of_rank :: "nat \<Rightarrow> policy_decision" where
  "decision_of_rank n =
     (if n = 0 then Allow else if n = 1 then RequireApproval
      else if n = 2 then RequireStepApproval else Deny)"

definition rule_decision :: "policy_rule \<Rightarrow> policy_decision" where
  "rule_decision r = pf_decision (pr_effect r)"

definition top_rules :: "policy_rule set \<Rightarrow> policy_rule set" where
  "top_rules M = {r \<in> M. \<forall>q \<in> M. specificity (pr_scope q) \<le> specificity (pr_scope r)}"

definition exceeds_limit :: "usize \<Rightarrow> policy_rule \<Rightarrow> bool" where
  "exceeds_limit n r \<longleftrightarrow>
     (case pf_max_targets (pr_effect r) of Some limit \<Rightarrow> limit < n | None \<Rightarrow> False)"

definition decision_spec :: "policy_rule set \<Rightarrow> usize \<Rightarrow> policy_decision" where
  "decision_spec M n =
     (if M = {} \<or> (\<exists>r \<in> M. exceeds_limit n r \<or> rule_decision r = Deny) then Deny
      else decision_of_rank (Max ((precedence \<circ> rule_decision) ` top_rules M)))"

definition matching_set :: "policy_set \<Rightarrow> policy_evaluation_request \<Rightarrow> policy_rule set" where
  "matching_set s request = {r \<in> set (ps_rules s). pr_enabled r \<and> matches_rule r request}"

lemma set_matching_rules [simp]: "set (matching_rules s request) = matching_set s request"
  by (simp add: matching_rules_def matching_set_def)

lemma decision_of_precedence [simp]: "decision_of_rank (precedence d) = d"
  by (cases d) (simp_all add: decision_of_rank_def)

lemma limit_denied_iff:
  "(\<exists>r. limit_denied rules n = Some r) \<longleftrightarrow> (\<exists>r \<in> set rules. exceeds_limit n r)"
proof -
  let ?ls = "List.map_filter (\<lambda>rule. map_option (\<lambda>limit. (rule, limit))
               (pf_max_targets (pr_effect rule))) rules"
  have ls: "(r, l) \<in> set ?ls \<longleftrightarrow> r \<in> set rules \<and> pf_max_targets (pr_effect r) = Some l" for r l
    by (force simp: List.map_filter_def)
  show ?thesis
  proof (cases "target_limit rules")
    case None
    then have "?ls = []" by (simp add: target_limit_def min_by_key_None)
    with None ls show ?thesis
      by (auto simp: limit_denied_def exceeds_limit_def split: option.splits)
  next
    case (Some rl)
    obtain r l where rl: "rl = (r, l)" by (cases rl)
    from Some have m: "(r, l) \<in> set ?ls" "\<forall>y \<in> set ?ls. l \<le> snd y"
      using min_by_key_Some [of snd ?ls "(r, l)"] by (auto simp: target_limit_def rl)
    show ?thesis
    proof
      assume "\<exists>r. limit_denied rules n = Some r"
      with Some have "l < n" by (auto simp: limit_denied_def rl split: if_splits)
      moreover from m(1) ls have "r \<in> set rules" "pf_max_targets (pr_effect r) = Some l" by auto
      ultimately show "\<exists>r \<in> set rules. exceeds_limit n r"
        by (intro bexI [of _ r]) (simp_all add: exceeds_limit_def)
    next
      assume "\<exists>r \<in> set rules. exceeds_limit n r"
      then obtain q k where "(q, k) \<in> set ?ls" "k < n"
        using ls by (auto simp: exceeds_limit_def split: option.splits)
      with m(2) have "l < n" by fastforce
      with Some show "\<exists>r. limit_denied rules n = Some r" by (simp add: limit_denied_def rl)
    qed
  qed
qed

lemma inherited_deny_iff:
  "(\<exists>r. inherited_deny rules = Some r) \<longleftrightarrow> (\<exists>r \<in> set rules. rule_decision r = Deny)"
  using find_None_set [of "\<lambda>rule. pf_decision (pr_effect rule) = Deny" rules]
  by (auto simp: inherited_deny_def rule_decision_def)

lemma inherited_deny_Some: "inherited_deny rules = Some r \<Longrightarrow> rule_decision r = Deny"
  by (auto simp: inherited_deny_def rule_decision_def dest!: find_Some_set)

text \<open>The last of the sorted matches has the greatest specificity.\<close>

lemma last_most_specific:
  assumes "matching_rules s request \<noteq> []" and "q \<in> matching_set s request"
  shows "specificity (pr_scope q) \<le> specificity (pr_scope (last (matching_rules s request)))"
proof -
  let ?R = "matching_rules s request"
  have "sorted (map rule_key ?R)" by (simp add: matching_rules_def)
  moreover obtain i where i: "i < length ?R" "q = ?R ! i"
    using assms(2) by (metis in_set_conv_nth set_matching_rules)
  ultimately have "rule_key (?R ! i) \<le> rule_key (?R ! (length ?R - 1))"
    by (simp add: sorted_iff_nth_mono)
  then show ?thesis
    using i assms(1) by (auto simp: rule_key_def last_conv_nth)
qed

lemma most_specific_decision:
  assumes "matching_set s request \<noteq> {}"
  shows "\<exists>r. most_specific (matching_rules s request) = Some r
    \<and> rule_decision r
       = decision_of_rank (Max ((precedence \<circ> rule_decision) ` top_rules (matching_set s request)))"
proof -
  let ?R = "matching_rules s request" and ?M = "matching_set s request"
  let ?top = "filter (\<lambda>r. specificity (pr_scope r) = specificity (pr_scope (last ?R))) ?R"
  have ne: "?R \<noteq> []" using assms by (metis set_empty set_matching_rules)
  then have last_in: "last ?R \<in> ?M" by (metis last_in_set set_matching_rules)
  have top: "set ?top = top_rules ?M"
    using last_most_specific [OF ne] last_in by (auto simp: top_rules_def intro: antisym)
  have "?top \<noteq> []" using top last_in ne last_most_specific [OF ne]
    by (metis (mono_tags, lifting) filter_empty_conv last_in_set)
  then obtain r where r: "max_by_key (\<lambda>rule. precedence (pf_decision (pr_effect rule))) ?top = Some r"
    using max_by_key_None [of "\<lambda>rule. precedence (pf_decision (pr_effect rule))" ?top] by auto
  from max_by_key_Some [OF r] have r_in: "r \<in> top_rules ?M"
    and r_max: "\<forall>q \<in> top_rules ?M. precedence (rule_decision q) \<le> precedence (rule_decision r)"
    using top by (auto simp: rule_decision_def)
  have "finite (top_rules ?M)" using top by (metis List.finite_set)
  with r_in r_max have "Max ((precedence \<circ> rule_decision) ` top_rules ?M)
      = precedence (rule_decision r)"
    by (intro Max_eqI) auto
  with r ne show ?thesis by (simp add: most_specific_def Let_def)
qed

lemma policy_evaluate_fields [simp]:
  "pe_policy_version (policy_evaluate s request) = ps_policy_version s"
  "pe_policy_hash (policy_evaluate s request) = ps_policy_hash s"
  "map mr_rule_id (pe_matched_rules (policy_evaluate s request))
     = map pr_id (matching_rules s request)"
  by (simp_all add: policy_evaluate_def Let_def case_prod_beta comp_def)

lemma decision_eq_spec:
  "pe_decision (policy_evaluate s request)
     = decision_spec (matching_set s request) (rq_target_count request)"
proof (cases "\<exists>r. limit_denied (matching_rules s request) (rq_target_count request) = Some r")
  case True
  then obtain r where r: "limit_denied (matching_rules s request) (rq_target_count request) = Some r" ..
  then have "\<exists>r \<in> matching_set s request. exceeds_limit (rq_target_count request) r"
    using limit_denied_iff [of "matching_rules s request" "rq_target_count request"] by auto
  then show ?thesis by (auto simp: policy_evaluate_def r decision_spec_def)
next
  case no_limit: False
  then have none: "limit_denied (matching_rules s request) (rq_target_count request) = None" by simp
  have no_exceed: "\<not> (\<exists>r \<in> matching_set s request. exceeds_limit (rq_target_count request) r)"
    using no_limit limit_denied_iff [of "matching_rules s request" "rq_target_count request"] by simp
  show ?thesis
  proof (cases "inherited_deny (matching_rules s request)")
    case (Some r)
    then have "\<exists>r \<in> matching_set s request. rule_decision r = Deny"
      using inherited_deny_iff [of "matching_rules s request"] by auto
    with Some none inherited_deny_Some [OF Some] show ?thesis
      by (auto simp: policy_evaluate_def decision_spec_def rule_decision_def)
  next
    case no_deny: None
    then have "\<not> (\<exists>r \<in> matching_set s request. rule_decision r = Deny)"
      using inherited_deny_iff [of "matching_rules s request"] by simp
    with no_exceed most_specific_decision [of s request] none no_deny show ?thesis
      by (cases "matching_set s request = {}")
        (auto simp: policy_evaluate_def decision_spec_def rule_decision_def most_specific_def
          simp flip: set_empty)
  qed
qed

lemma finite_matching_set [simp]: "finite (matching_set s request)"
  by (simp add: matching_set_def)

lemma top_rules_nonempty: "finite M \<Longrightarrow> M \<noteq> {} \<Longrightarrow> top_rules M \<noteq> {}"
proof -
  assume M: "finite M" "M \<noteq> {}"
  let ?f = "\<lambda>r. specificity (pr_scope r)"
  from M have "Max (?f ` M) \<in> ?f ` M" by simp
  then obtain r where "r \<in> M" "Max (?f ` M) = ?f r" by blast
  then have "r \<in> top_rules M" using M by (auto simp: top_rules_def intro: Max_ge simp flip: \<open>Max (?f ` M) = ?f r\<close>)
  then show ?thesis by blast
qed

lemma decision_spec_permits:
  assumes "finite M"
  shows "decision_spec M n \<noteq> Deny \<longleftrightarrow>
    M \<noteq> {} \<and> \<not> (\<exists>r \<in> M. exceeds_limit n r \<or> rule_decision r = Deny)"
proof (cases "M = {} \<or> (\<exists>r \<in> M. exceeds_limit n r \<or> rule_decision r = Deny)")
  case False
  let ?P = "(precedence \<circ> rule_decision) ` top_rules M"
  have "finite (top_rules M)" using assms by (rule rev_finite_subset) (auto simp: top_rules_def)
  then have "Max ?P \<in> ?P" using False assms top_rules_nonempty by (intro Max_in) auto
  then obtain r where r: "r \<in> top_rules M" "Max ?P = precedence (rule_decision r)" by auto
  then have "r \<in> M" by (simp add: top_rules_def)
  with False have "rule_decision r \<noteq> Deny" by blast
  with False r(2) show ?thesis by (simp add: decision_spec_def)
qed (auto simp: decision_spec_def)

lemma decision_by_matching_set:
  "matching_set s request = matching_set t request' \<Longrightarrow>
   rq_target_count request = rq_target_count request' \<Longrightarrow>
   pe_decision (policy_evaluate s request) = pe_decision (policy_evaluate t request')"
  by (simp add: decision_eq_spec)

lemma sort_key_distinct_unique:
  assumes "distinct (map k xs)" "distinct (map k ys)" and "set xs = set ys"
  shows "sort_key k xs = sort_key k ys"
proof -
  have "map k (sort_key k xs) = map k (sort_key k ys)"
    using assms by (intro sorted_distinct_set_unique) (simp_all add: distinct_map)
  moreover have "inj_on k (set (sort_key k xs) \<union> set (sort_key k ys))"
    using assms by (simp add: distinct_map)
  ultimately show ?thesis by (rule map_inj_on)
qed

lemma sort_key_idem: "sort_key k (sort_key k xs) = sort_key k xs"
  by (rule sort_key_id_if_sorted) simp

lemma matching_set_seal [simp]: "matching_set (seal digest s) request = matching_set s request"
  by (simp add: seal_def Let_def matching_set_def)

text \<open>
  C31. The evaluation of a rule set is the declarative decision over its matching rules. It
  permits an execution exactly when something matches, no matching rule's target limit is
  exceeded and none denies, at whatever scope; and it reports the rules that matched.
\<close>

theorem policy_evaluate_refines_spec:
  "pe_decision (policy_evaluate s request)
     = decision_spec (matching_set s request) (rq_target_count request)
   \<and> (permits_execution (policy_evaluate s request) \<longleftrightarrow>
        matching_set s request \<noteq> {}
        \<and> \<not> (\<exists>r \<in> matching_set s request.
               exceeds_limit (rq_target_count request) r \<or> rule_decision r = Deny))
   \<and> mr_rule_id ` set (pe_matched_rules (policy_evaluate s request)) = pr_id ` matching_set s request"
proof -
  have "mr_rule_id ` set (pe_matched_rules (policy_evaluate s request))
      = set (map pr_id (matching_rules s request))"
    by (simp only: policy_evaluate_fields(3) flip: set_map)
  then have "mr_rule_id ` set (pe_matched_rules (policy_evaluate s request)) = pr_id ` matching_set s request"
    by simp
  then show ?thesis
    by (simp add: permits_execution_def decision_eq_spec decision_spec_permits)
qed

text \<open>
  Sealing fixes the order and the hash of the rules without changing any decision: sets
  that hold the same rules under distinct ids seal to the same rules and hash whatever order
  they came in, sealing again changes nothing, and the sealed set decides as the original.
\<close>

lemma seal_canonical:
  assumes "distinct (map pr_id (ps_rules s))" and "distinct (map pr_id (ps_rules t))"
    and "set (ps_rules s) = set (ps_rules t)"
  shows "ps_rules (seal digest s) = ps_rules (seal digest t)
    \<and> ps_policy_hash (seal digest s) = ps_policy_hash (seal digest t)
    \<and> seal digest (seal digest s) = seal digest s
    \<and> pe_decision (policy_evaluate (seal digest s) request) = pe_decision (policy_evaluate s request)
    \<and> pe_decision (policy_evaluate (seal digest s) request) = pe_decision (policy_evaluate t request)"
proof -
  have "matching_set s request = matching_set t request"
    using assms(3) by (simp add: matching_set_def)
  then have "pe_decision (policy_evaluate (seal digest s) request) = pe_decision (policy_evaluate s request)"
    "pe_decision (policy_evaluate s request) = pe_decision (policy_evaluate t request)"
    using decision_by_matching_set [of "seal digest s" request s request]
      decision_by_matching_set [of s request t request] by auto
  with sort_key_distinct_unique [OF assms] show ?thesis
    by (simp add: seal_def Let_def sort_key_idem)
qed

lemma default_ids_distinct: "distinct (map pr_id (ps_rules default_policy))"
  by (simp add: default_policy_def global_rule_def)

lemma seal_canonical_witness:
  "ps_rules (seal (\<lambda>rules. concat (map pr_id rules))
       (default_policy\<lparr>ps_rules := rev (ps_rules default_policy)\<rparr>))
     = ps_rules (seal (\<lambda>rules. concat (map pr_id rules)) default_policy)"
proof -
  let ?t = "default_policy\<lparr>ps_rules := rev (ps_rules default_policy)\<rparr>"
  have "distinct (map pr_id (ps_rules ?t))" "set (ps_rules ?t) = set (ps_rules default_policy)"
    using default_ids_distinct by (simp_all flip: rev_map)
  then show ?thesis using seal_canonical default_ids_distinct by blast
qed

section \<open>The default policy\<close>

abbreviation "baseline_rule \<equiv>
  global_rule ''global-agent-baseline'' None None Allow ''POLICY_GLOBAL_ALLOW'' (Some 10)"
abbreviation "high_io_rule \<equiv> global_rule ''high-io-scan-approval'' None (Some HighIo) RequireApproval
  ''POLICY_HIGH_IO_APPROVAL_REQUIRED'' None"
abbreviation "r2_rule \<equiv> global_rule ''risk-r2-approval'' (Some R2) None RequireApproval
  ''POLICY_RISK_APPROVAL_REQUIRED'' None"
abbreviation "r3_rule \<equiv> global_rule ''risk-r3-approval'' (Some R3) None RequireApproval
  ''POLICY_RISK_APPROVAL_REQUIRED'' None"
abbreviation "r4_rule \<equiv> global_rule ''risk-r4-step-approval'' (Some R4) None RequireStepApproval
  ''POLICY_STEP_APPROVAL_REQUIRED'' None"
abbreviation "production_rule \<equiv> last (ps_rules default_policy)"

definition in_production :: "policy_target \<Rightarrow> bool" where
  "in_production target \<longleftrightarrow> scope_matches (Environment ''production'') target SystemInfo"

lemma global_rule_sel [simp]:
  "pr_scope (global_rule i k m d r x) = Global" "pr_enabled (global_rule i k m d r x)"
  "rule_decision (global_rule i k m d r x) = d"
  "exceeds_limit n (global_rule i k m d r x) \<longleftrightarrow> (case x of Some limit \<Rightarrow> limit < n | None \<Rightarrow> False)"
  by (simp_all add: global_rule_def rule_decision_def exceeds_limit_def)

lemma global_rule_matches [simp]:
  "matches_rule (global_rule i k m d r x) rq \<longleftrightarrow>
     is_none_or (\<lambda>risk. risk = rq_risk_level rq) k
     \<and> is_none_or (\<lambda>impact. impact = rq_resource_impact rq) m"
  by (simp add: matches_rule_def global_rule_def)

lemma production_rule_sel:
  "pr_enabled production_rule" "rule_decision production_rule = Deny"
  "matches_rule production_rule rq \<longleftrightarrow>
     in_production (rq_target rq) \<and> 2 \<le> rq_target_count rq \<and> rq_execution_strategy rq = Parallel"
  by (auto simp: default_policy_def rule_decision_def matches_rule_def in_production_def)

lemma default_rules:
  "set (ps_rules default_policy) =
     {baseline_rule, high_io_rule, r2_rule, r3_rule, r4_rule, production_rule}"
  by (simp add: default_policy_def)

lemma filter_insert_set: "{r \<in> insert a A. P r} = (if P a then {a} else {}) \<union> {r \<in> A. P r}"
  and filter_empty_set: "{r \<in> {}. P r} = {}"
  by auto

lemma default_matching:
  "matching_set default_policy rq =
     {baseline_rule}
     \<union> (if rq_resource_impact rq = HighIo then {high_io_rule} else {})
     \<union> (if rq_risk_level rq = R2 then {r2_rule} else {})
     \<union> (if rq_risk_level rq = R3 then {r3_rule} else {})
     \<union> (if rq_risk_level rq = R4 then {r4_rule} else {})
     \<union> (if in_production (rq_target rq) \<and> 2 \<le> rq_target_count rq
          \<and> rq_execution_strategy rq = Parallel then {production_rule} else {})"
  by (simp only: matching_set_def default_rules filter_insert_set filter_empty_set
      global_rule_sel global_rule_matches production_rule_sel is_none_or.simps
      simp_thms if_True Un_empty_right eq_commute [of "_ :: risk_level" "rq_risk_level rq"]
      eq_commute [of "_ :: resource_impact" "rq_resource_impact rq"] Un_assoc)

lemma image_if: "f ` (if b then A else B) = (if b then f ` A else f ` B)"
  by simp

lemma default_decision:
  "pe_decision (policy_evaluate (seal digest default_policy) rq) =
     (if 10 < rq_target_count rq then Deny
      else if in_production (rq_target rq) \<and> 2 \<le> rq_target_count rq
           \<and> rq_execution_strategy rq = Parallel then Deny
      else if rq_risk_level rq = R4 then RequireStepApproval
      else if rq_risk_level rq = R2 \<or> rq_risk_level rq = R3 \<or> rq_resource_impact rq = HighIo
        then RequireApproval
      else Allow)"
proof -
  let ?M = "matching_set default_policy rq"
  have spec: "pe_decision (policy_evaluate (seal digest default_policy) rq)
      = decision_spec ?M (rq_target_count rq)"
    by (simp add: decision_eq_spec)
  show ?thesis
  proof (cases "10 < rq_target_count rq \<or> (in_production (rq_target rq) \<and> 2 \<le> rq_target_count rq
           \<and> rq_execution_strategy rq = Parallel)")
    case True
    then have "\<exists>r \<in> ?M. exceeds_limit (rq_target_count rq) r \<or> rule_decision r = Deny"
      by (auto simp: default_matching production_rule_sel)
    with True show ?thesis by (auto simp: spec decision_spec_def)
  next
    case False
    then have global: "\<forall>r \<in> ?M. pr_scope r = Global" and
      fine: "\<not> (\<exists>r \<in> ?M. exceeds_limit (rq_target_count rq) r \<or> rule_decision r = Deny)"
      by (auto simp: default_matching)
    from global have "top_rules ?M = ?M" by (auto simp: top_rules_def)
    moreover have "?M \<noteq> {}" by (simp add: default_matching)
    ultimately have decided: "decision_spec ?M (rq_target_count rq)
        = decision_of_rank (Max (precedence ` rule_decision ` ?M))"
      using fine by (simp add: decision_spec_def image_comp)
    from False have no_production: "\<not> (in_production (rq_target rq) \<and> 2 \<le> rq_target_count rq
        \<and> rq_execution_strategy rq = Parallel)" by blast
    have "rule_decision ` ?M = {Allow}
        \<union> (if rq_resource_impact rq = HighIo then {RequireApproval} else {})
        \<union> (if rq_risk_level rq = R2 then {RequireApproval} else {})
        \<union> (if rq_risk_level rq = R3 then {RequireApproval} else {})
        \<union> (if rq_risk_level rq = R4 then {RequireStepApproval} else {})"
      by (simp only: default_matching image_Un image_if image_insert image_empty
          global_rule_sel no_production if_False Un_empty_right)
    with False show ?thesis
      by (cases "rq_risk_level rq"; cases "rq_resource_impact rq = HighIo")
        (simp_all add: spec decided decision_of_rank_def)
  qed
qed

lemma table_risk_cases:
  "d \<in> set native_descriptors \<Longrightarrow> td_risk_level d \<noteq> R4
     \<and> (td_risk_level d = R2 \<or> td_risk_level d = R3 \<longleftrightarrow> td_mutability d \<noteq> Read)"
  using table_risk [of d] table_risk_repair [of d]
  by (cases "td_risk_level d") (auto simp: risk_order)

lemma default_effective:
  assumes "d \<in> set native_descriptors"
  shows "pe_decision (policy_evaluate (seal digest default_policy)
     \<lparr>rq_target = target, rq_tool = td_name d, rq_risk_level = td_risk_level d,
      rq_resource_impact = td_resource_impact d, rq_target_count = 1,
      rq_execution_strategy = Sequential, rq_source = NativeTool\<rparr>) =
     (if td_mutability d = Read \<and> td_resource_impact d \<noteq> HighIo then Allow else RequireApproval)"
  using table_risk_cases [OF assms] by (auto simp: default_decision)

text \<open>
  The built-in policy, decided in full: more than ten targets are denied, so is a parallel
  execution over several production targets; risk R4 asks for approval of every step, risk R2
  or R3 or a high-I/O scan for approval, and everything else runs. Hence the decisions
  published for any server deny no tool, ask for approval of every tool that writes and of
  every high-I/O scan, and allow the rest.
\<close>

lemma default_policy_decision:
  "pe_decision (policy_evaluate (seal digest default_policy) rq) =
     (if 10 < rq_target_count rq then Deny
      else if in_production (rq_target rq) \<and> 2 \<le> rq_target_count rq
           \<and> rq_execution_strategy rq = Parallel then Deny
      else if rq_risk_level rq = R4 then RequireStepApproval
      else if rq_risk_level rq = R2 \<or> rq_risk_level rq = R3 \<or> rq_resource_impact rq = HighIo
        then RequireApproval
      else Allow)
   \<and> map pe_decision
        (ep_evaluations (effective_for_server target (policy_service_new digest default_policy)))
      = map (\<lambda>d. if td_mutability d = Read \<and> td_resource_impact d \<noteq> HighIo
                  then Allow else RequireApproval) native_descriptors"
proof (intro conjI)
  show "map pe_decision
        (ep_evaluations (effective_for_server target (policy_service_new digest default_policy)))
      = map (\<lambda>d. if td_mutability d = Read \<and> td_resource_impact d \<noteq> HighIo
                  then Allow else RequireApproval) native_descriptors"
    using default_effective [of _ digest target]
    by (simp add: effective_for_server_def policy_service_new_def cong: map_cong)
qed (rule default_decision)

lemma policy_service_evaluate_cases:
  "policy_service_evaluate i now w rq s = (r, s') \<Longrightarrow>
     sv_set s' = sv_set s \<and> (\<forall>e. r = Ok e \<longrightarrow> e = policy_evaluate (sv_set s) rq)"
  by (auto simp: policy_service_evaluate_def Let_def split: option.splits prod.splits result.splits)

section \<open>The audit log\<close>

lemma push_audit_facts:
  "length (push_audit r records) \<le> MAX_POLICY_AUDIT_RECORDS \<and> push_audit r records \<noteq> []
     \<and> last (push_audit r records) = r \<and> (\<exists>old. records @ [r] = old @ push_audit r records)"
proof -
  let ?all = "records @ [r]" and ?n = MAX_POLICY_AUDIT_RECORDS
  have kept: "push_audit r records = keep_last ?n ?all"
    by (simp add: push_audit_def Let_def)
  have "?all = take (length ?all - ?n) ?all @ keep_last ?n ?all"
    unfolding keep_last_def by (rule append_take_drop_id [symmetric])
  moreover have n: "0 < ?n" by (simp add: MAX_POLICY_AUDIT_RECORDS_def)
  moreover have "last (keep_last ?n ?all) = r" using last_keep_last [OF n, of ?all] by simp
  moreover have "length (keep_last ?n ?all) = min (length ?all) ?n" by simp
  then have "length (keep_last ?n ?all) \<le> ?n" "0 < length (keep_last ?n ?all)"
    using n by (simp_all del: length_keep_last)
  ultimately show ?thesis unfolding kept by (metis length_greater_0_conv)
qed

text \<open>
  A decision that the service returns has been written to its audit log as the newest
  record, behind a suffix of the earlier ones, and the log never exceeds 2000 records. If the
  log cannot be read or written no decision is returned and nothing changes.
\<close>

lemma returned_decision_is_audited:
  assumes "sv_audit_repository service = Some repository"
    and "policy_service_evaluate i now w request service = (r, service')"
  shows "(r = Ok (policy_evaluate (sv_set service) request)
      \<and> (\<exists>records kept old.
            load_or_default [] repository = Ok records
            \<and> service' = service\<lparr>sv_audit_repository := Some (Contents kept)\<rparr>
            \<and> records @ [audit_record i now request (policy_evaluate (sv_set service) request)]
                = old @ kept
            \<and> kept \<noteq> [] \<and> length kept \<le> MAX_POLICY_AUDIT_RECORDS))
    \<or> (r = Err Storage \<and> service' = service)"
proof -
  let ?e = "policy_evaluate (sv_set service) request"
  let ?push = "push_audit (audit_record i now request ?e)"
  show ?thesis
  proof (cases "load_or_default [] repository")
    case (Ok records)
    from save_atomic_cases [of w "?push records" repository] consider
      (saved) "save_atomic w (?push records) repository = (Ok (), Contents (?push records))"
    | (failed) "save_atomic w (?push records) repository = (Err Storage, repository)" by blast
    then show ?thesis
    proof cases
      case saved
      with assms Ok have "r = Ok ?e"
        "service' = service\<lparr>sv_audit_repository := Some (Contents (?push records))\<rparr>"
        by (auto simp: policy_service_evaluate_def read_modify_write_def Let_def)
      with Ok push_audit_facts show ?thesis by blast
    next
      case failed
      with assms Ok show ?thesis
        by (auto simp: policy_service_evaluate_def read_modify_write_def Let_def)
    qed
  next
    case (Err e)
    then have "e = Storage" by (cases repository) auto
    with assms Err show ?thesis
      by (auto simp: policy_service_evaluate_def read_modify_write_def Let_def)
  next
    case Panic
    then show ?thesis by (cases repository) auto
  qed
qed

abbreviation (input) "example_request \<equiv>
  \<lparr>rq_target = \<lparr>pt_server_id = 7, pt_group_id = None, pt_environment = None\<rparr>,
   rq_tool = DockerList, rq_risk_level = R1, rq_resource_impact = Medium, rq_target_count = 1,
   rq_execution_strategy = Sequential, rq_source = NativeTool\<rparr>"

lemma returned_decision_is_audited_witness:
  "\<exists>service'. policy_service_evaluate 1 0 all_steps_ok example_request
        (policy_service_at_path (\<lambda>_. []) Missing Missing)
      = (Ok (policy_evaluate (seal (\<lambda>_. []) default_policy) example_request), service')
    \<and> sv_set service' = seal (\<lambda>_. []) default_policy"
proof -
  let ?s = "policy_service_at_path (\<lambda>_. []) Missing Missing"
  obtain r s' where run: "policy_service_evaluate 1 0 all_steps_ok example_request ?s = (r, s')"
    by (metis surj_pair)
  then have "r \<noteq> Err Storage"
    by (auto simp: policy_service_evaluate_def policy_service_at_path_def read_modify_write_def Let_def)
  with returned_decision_is_audited [OF _ run, of Missing]
  have "r = Ok (policy_evaluate (sv_set ?s) example_request)" "sv_set s' = sv_set ?s"
    by (auto simp: policy_service_at_path_def)
  with run show ?thesis by (simp add: policy_service_at_path_def)
qed

end
