(* ===== verification/Change_Sets.thy ===== *)
theory Change_Sets
  imports Policy
begin

text \<open>
  Change sets (src-tauri/src/agentic/changes.rs): the drafts of write steps that the agent and
  the plugins propose, and the service that reviews, approves, executes and rolls them back.
\<close>

section \<open>Drafts\<close>

datatype change_step_draft =
    DraftFilePatch string string string
  | DraftServiceRestart string
  | DraftServiceReload string
  | DraftNginxReload
  | DraftDockerRestart string

end
