(* ===== verification/Tool_Execution.thy ===== *)
theory Tool_Execution
  imports Tools_Contract Policy
begin

text \<open>
  The execution of native tools (src-tauri/src/tools): the requests and their authority, the
  order policy, allow-list, audit, remote call, audit of execution.rs, and the audit log of
  audit.rs. The remote side, the session table, the clock and fresh identifiers are the world
  of an execution; so is what other executions do to the shared audit file while this one does
  not hold its lock. The calls handed to the session are kept as a trace.
\<close>

section \<open>Requests\<close>

record tool_execution_authority =
  ta_agent_run_id :: uuid
  ta_change_set_id :: uuid
  ta_change_set_version :: u64
  ta_rollback :: bool

text \<open>Of the cancellation channel, the request says whether it has one.\<close>

record native_tool_request =
  nq_request_id :: uuid
  nq_invocation_id :: uuid
  nq_session_id :: uuid
  nq_invocation :: native_tool_invocation
  nq_cancellation :: bool
  nq_agent_run_id :: "uuid option"
  nq_authority :: "tool_execution_authority option"

definition request_new :: "uuid \<Rightarrow> uuid \<Rightarrow> uuid \<Rightarrow> native_tool_invocation \<Rightarrow> native_tool_request" where
  "request_new request_id invocation_id session_id invocation =
     \<lparr>nq_request_id = request_id, nq_invocation_id = invocation_id, nq_session_id = session_id,
      nq_invocation = invocation, nq_cancellation = False, nq_agent_run_id = None,
      nq_authority = None\<rparr>"

definition request_with_cancellation ::
  "uuid \<Rightarrow> uuid \<Rightarrow> uuid \<Rightarrow> native_tool_invocation \<Rightarrow> native_tool_request" where
  "request_with_cancellation request_id invocation_id session_id invocation =
     \<lparr>nq_request_id = request_id, nq_invocation_id = invocation_id, nq_session_id = session_id,
      nq_invocation = invocation, nq_cancellation = True, nq_agent_run_id = None,
      nq_authority = None\<rparr>"

definition request_with_cancellation_for_agent ::
  "uuid \<Rightarrow> uuid \<Rightarrow> uuid \<Rightarrow> uuid \<Rightarrow> native_tool_invocation \<Rightarrow> native_tool_request" where
  "request_with_cancellation_for_agent request_id invocation_id agent_run_id session_id invocation =
     (request_with_cancellation request_id invocation_id session_id invocation)
       \<lparr>nq_agent_run_id := Some agent_run_id\<rparr>"

definition request_approved ::
  "uuid \<Rightarrow> uuid \<Rightarrow> uuid \<Rightarrow> native_tool_invocation \<Rightarrow> tool_execution_authority \<Rightarrow> native_tool_request" where
  "request_approved request_id invocation_id session_id invocation authority =
     \<lparr>nq_request_id = request_id, nq_invocation_id = invocation_id, nq_session_id = session_id,
      nq_invocation = invocation, nq_cancellation = False,
      nq_agent_run_id = Some (ta_agent_run_id authority), nq_authority = Some authority\<rparr>"

definition request_approved_rollback ::
  "uuid \<Rightarrow> uuid \<Rightarrow> uuid \<Rightarrow> native_tool_invocation \<Rightarrow> tool_execution_authority \<Rightarrow> native_tool_request" where
  "request_approved_rollback request_id invocation_id session_id invocation authority =
     request_approved request_id invocation_id session_id invocation (authority\<lparr>ta_rollback := True\<rparr>)"

section \<open>What the audit keeps of an input\<close>

datatype sanitized_tool_input =
    SanNone
  | SanService "string option" "u32 option"
  | SanNetworkEndpoint "string option" u16
  | SanHttpOrigin "string option"
  | SanRemotePath "string option"

definition then_some :: "bool \<Rightarrow> 'a \<Rightarrow> 'a option" where
  "then_some b x = (if b then Some x else None)"

definition sanitized_remote_path :: "string \<Rightarrow> string option" where
  "sanitized_remote_path p = then_some (p \<noteq> [] \<and> length p \<le> 4096 \<and> \<not> has_control p) p"

definition sanitized_identifier :: "string \<Rightarrow> nat \<Rightarrow> string option" where
  "sanitized_identifier value max_bytes =
     then_some (value \<noteq> [] \<and> length value \<le> max_bytes
       \<and> list_all (\<lambda>b. is_ascii_alphanumeric b \<or> b \<in> set ''._@:-'') value) value"

definition sanitized_host :: "string \<Rightarrow> string option" where
  "sanitized_host h =
     then_some (h \<noteq> [] \<and> length h \<le> 255 \<and> \<not> starts_with h ''-''
       \<and> \<not> (has_whitespace h \<or> has_control h)) h"

definition strip_prefix :: "string \<Rightarrow> string \<Rightarrow> string option" where
  "strip_prefix s p = (if starts_with s p then Some (drop (length p) s) else None)"

definition sanitized_http_origin :: "string \<Rightarrow> string option" where
  "sanitized_http_origin url =
     (if 2048 < length url \<or> CHR ''@'' \<in> set url \<or> has_whitespace url \<or> has_control url then None
      else case (case strip_prefix url ''http://'' of Some rest \<Rightarrow> Some (''http'', rest)
                 | None \<Rightarrow> map_option (Pair ''https'') (strip_prefix url ''https://'')) of
             None \<Rightarrow> None
           | Some (scheme, remainder) \<Rightarrow>
               (let authority = hd (split_pred (\<lambda>c. c \<in> set ''/?#'') remainder)
                in if authority = [] then None else Some (scheme @ ''://'' @ authority)))"

fun sanitized_input :: "native_tool_invocation \<Rightarrow> sanitized_tool_input" where
  "sanitized_input InvSystemInfo = SanNone"
| "sanitized_input InvSystemDisk = SanNone"
| "sanitized_input InvNginxTest = SanNone"
| "sanitized_input InvNginxReload = SanNone"
| "sanitized_input InvNetworkListeners = SanNone"
| "sanitized_input InvProcessList = SanNone"
| "sanitized_input InvDockerList = SanNone"
| "sanitized_input InvFilesystemInodeUsage = SanNone"
| "sanitized_input InvBlockDevicesList = SanNone"
| "sanitized_input (InvServiceStatus service) = SanService (sanitized_identifier service 128) None"
| "sanitized_input (InvServiceLogs service n) = SanService (sanitized_identifier service 128) (Some n)"
| "sanitized_input (InvNetworkPortCheck h p) = SanNetworkEndpoint (sanitized_host h) p"
| "sanitized_input (InvTlsInspect h p) = SanNetworkEndpoint (sanitized_host h) p"
| "sanitized_input (InvDnsResolve h) = SanNetworkEndpoint (sanitized_host h) 0"
| "sanitized_input (InvHttpRequest url) = SanHttpOrigin (sanitized_http_origin url)"
| "sanitized_input (InvFilePatch p _ _) = SanRemotePath (sanitized_remote_path p)"
| "sanitized_input (InvFileInspect p) = SanRemotePath (sanitized_remote_path p)"
| "sanitized_input (InvSystemDirectoryUsage p) = SanRemotePath (sanitized_remote_path p)"
| "sanitized_input (InvSystemLargeFiles p _) = SanRemotePath (sanitized_remote_path p)"
| "sanitized_input (InvDockerInspect c) = SanService (sanitized_identifier c 256) None"
| "sanitized_input (InvDockerRestart c) = SanService (sanitized_identifier c 256) None"
| "sanitized_input (InvDockerLogs c n) = SanService (sanitized_identifier c 256) (Some n)"
| "sanitized_input (InvServiceRestart service) = SanService (sanitized_identifier service 128) None"
| "sanitized_input (InvServiceReload service) = SanService (sanitized_identifier service 128) None"
| "sanitized_input (InvTerminalExecReadonly command) =
     SanHttpOrigin (then_some (length command \<le> 256 \<and> \<not> has_control command) command)"

section \<open>The audit log\<close>

datatype tool_audit_status =
  AuditPolicyBlocked | AuditInProgress | AuditSucceeded | AuditFailed | AuditCancelled

datatype tool_approval_audit = ApprovalNotRequired | ApprovalApproved | ApprovalUnavailable

datatype tool_verification_audit =
  VerificationNotApplicable | VerificationPending | VerificationSucceeded | VerificationFailed

datatype tool_rollback_audit =
  RollbackNotSupported | RollbackAvailable | RollbackExecuted | RollbackAuditFailed

definition MAX_TOOL_AUDIT_RECORDS :: nat where
  "MAX_TOOL_AUDIT_RECORDS = 2000"

record tool_audit_record =
  tu_id :: uuid
  tu_request_id :: uuid
  tu_invocation_id :: uuid
  tu_agent_run_id :: "uuid option"
  tu_model :: "string option"
  tu_change_set_id :: "uuid option"
  tu_change_set_version :: "u64 option"
  tu_profile_id :: "uuid option"
  tu_session_id :: uuid
  tu_tool_name :: native_tool_name
  tu_sanitized_input :: sanitized_tool_input
  tu_risk_level :: risk_level
  tu_mutability :: mutability
  tu_scope :: tool_scope
  tu_policy_decision :: tool_policy_decision
  tu_approval :: tool_approval_audit
  tu_status :: tool_audit_status
  tu_verification :: tool_verification_audit
  tu_rollback :: tool_rollback_audit
  tu_started_at_epoch_ms :: u64
  tu_completed_at_epoch_ms :: "u64 option"
  tu_cancellation_requested_at_epoch_ms :: "u64 option"
  tu_duration_ms :: "u64 option"
  tu_succeeded :: "bool option"
  tu_error_code :: "string option"
  tu_truncated :: bool

type_synonym tool_audit_file = "tool_audit_record list stored_file"

definition push_record :: "tool_audit_record \<Rightarrow> tool_audit_record list \<Rightarrow> tool_audit_record list" where
  "push_record r records =
     (let records = records @ [r]
      in if MAX_TOOL_AUDIT_RECORDS < length records
         then keep_last MAX_TOOL_AUDIT_RECORDS records else records)"

definition audit_append ::
  "persist_steps \<Rightarrow> tool_audit_record \<Rightarrow> tool_audit_file \<Rightarrow> (unit, app_error) result \<times> tool_audit_file"
  where
  "audit_append disk r file = read_modify_write (load_or_default []) save_atomic (push_record r) disk file"

text \<open>Updates the first record of an invocation; its absence is a storage error.\<close>

definition audit_update ::
  "(tool_audit_record \<Rightarrow> tool_audit_record) \<Rightarrow> persist_steps \<Rightarrow> uuid \<Rightarrow> tool_audit_file \<Rightarrow>
   (unit, app_error) result \<times> tool_audit_file" where
  "audit_update f disk invocation_id file =
     (case load_or_default [] file of
        Ok records \<Rightarrow>
          (case find (\<lambda>r. tu_invocation_id r = invocation_id) records of
             None \<Rightarrow> (Err Storage, file)
           | Some _ \<Rightarrow>
               save_atomic disk (update_first (\<lambda>r. tu_invocation_id r = invocation_id) f records) file)
      | Err e \<Rightarrow> (Err e, file)
      | Panic \<Rightarrow> (Panic, file))"

definition completed_record ::
  "uuid option \<Rightarrow> 'd tool_result \<Rightarrow> u64 \<Rightarrow> tool_audit_record \<Rightarrow> tool_audit_record" where
  "completed_record profile_id res completed_at r =
     (let r = r\<lparr>tu_profile_id := profile_id,
               tu_status := (if tr_cancelled res then AuditCancelled
                             else if tr_success res then AuditSucceeded else AuditFailed),
               tu_completed_at_epoch_ms := Some completed_at,
               tu_duration_ms := Some (tr_duration_ms res),
               tu_succeeded := Some (tr_success res),
               tu_error_code := tr_error_code res,
               tu_truncated := tr_truncated res\<rparr>
      in if tu_mutability r = Write
         then r\<lparr>tu_verification := (if tr_success res then VerificationSucceeded else VerificationFailed),
                tu_rollback := (if tu_rollback r = RollbackExecuted \<and> \<not> tr_success res
                                then RollbackAuditFailed else tu_rollback r)\<rparr>
         else r)"

definition audit_complete ::
  "persist_steps \<Rightarrow> uuid \<Rightarrow> uuid option \<Rightarrow> 'd tool_result \<Rightarrow> u64 \<Rightarrow> tool_audit_file \<Rightarrow>
   (unit, app_error) result \<times> tool_audit_file" where
  "audit_complete disk invocation_id profile_id res completed_at =
     audit_update (completed_record profile_id res completed_at) disk invocation_id"

definition mark_cancellation_requested ::
  "persist_steps \<Rightarrow> uuid \<Rightarrow> u64 \<Rightarrow> tool_audit_file \<Rightarrow> (unit, app_error) result \<times> tool_audit_file" where
  "mark_cancellation_requested disk invocation_id requested_at =
     audit_update (\<lambda>r. r\<lparr>tu_cancellation_requested_at_epoch_ms := Some requested_at\<rparr>) disk invocation_id"

section \<open>Executing a request\<close>

text \<open>
  How the race of the remote call with its timeout and its cancellation ends; the last only
  happens to a request with a channel.
\<close>

datatype 'd race = RemoteDone "app_error + ('d \<times> bool)" | RemoteTimedOut | RemoteCancelled

text \<open>
  The world of one execution. Clock readings, writes and the moments at which others may have
  changed the audit file are numbered in the order of the code.
\<close>

record 'd exec_world =
  xw_now :: "nat \<Rightarrow> u64"
  xw_elapsed :: "nat \<Rightarrow> u64"
  xw_uuid :: "nat \<Rightarrow> uuid"
  xw_disk :: "nat \<Rightarrow> persist_steps"
  xw_profile :: "nat \<Rightarrow> app_error + uuid"
  xw_others :: "nat \<Rightarrow> tool_audit_file \<Rightarrow> tool_audit_file"
  xw_cancel_requested :: bool
  xw_race :: "'d race"

record exec_state =
  xs_agent_policy :: agent_policy_service
  xs_audit :: tool_audit_file
  xs_sent :: "(uuid \<times> native_tool_invocation) list"

definition tool_failure ::
  "uuid \<Rightarrow> native_tool_name \<Rightarrow> string \<Rightarrow> u64 \<Rightarrow> u64 \<Rightarrow> 'd tool_result" where
  "tool_failure invocation_id name code started duration =
     \<lparr>tr_invocation_id = invocation_id, tr_tool_name = name, tr_success = False,
      tr_summary = ''tool-execution-failed'', tr_data = None, tr_error_code = Some code,
      tr_warnings = [], tr_started_at_epoch_ms = started, tr_duration_ms = duration,
      tr_truncated = False, tr_cancelled = False, tr_untrusted_remote_data = False\<rparr>"

definition tool_cancelled :: "uuid \<Rightarrow> native_tool_name \<Rightarrow> u64 \<Rightarrow> u64 \<Rightarrow> 'd tool_result" where
  "tool_cancelled invocation_id name started duration =
     (tool_failure invocation_id name ''TOOL_CANCELLED'' started duration)
       \<lparr>tr_summary := ''tool-execution-cancelled'', tr_cancelled := True\<rparr>"

definition execution_request :: "'d exec_world \<Rightarrow> uuid \<Rightarrow> tool_descriptor \<Rightarrow> policy_evaluation_request" where
  "execution_request w session_id d =
     \<lparr>rq_target = \<lparr>pt_server_id = (case xw_profile w 0 of Inr p \<Rightarrow> p | Inl _ \<Rightarrow> session_id),
                   pt_group_id = None, pt_environment = None\<rparr>,
      rq_tool = td_name d, rq_risk_level = td_risk_level d, rq_resource_impact = td_resource_impact d,
      rq_target_count = 1, rq_execution_strategy = Sequential, rq_source = NativeTool\<rparr>"

definition execution_decision ::
  "tool_policy \<Rightarrow> tool_descriptor \<Rightarrow> policy_evaluation \<Rightarrow> tool_execution_authority option \<Rightarrow>
   tool_policy_decision" where
  "execution_decision p d e authority =
     (let decision = (if permits_execution e then tool_policy_evaluate p d else Blocked AgentPolicyDenied)
      in if td_requires_approval d \<and> authority = None then Blocked ApprovalEngineUnavailable
         else decision)"

definition opening_record ::
  "'d exec_world \<Rightarrow> native_tool_request \<Rightarrow> tool_descriptor \<Rightarrow> tool_policy_decision \<Rightarrow> tool_audit_record"
  where
  "opening_record w request d decision =
     (let authority = nq_authority request;
          blocked = (decision \<noteq> Allowed);
          run = (case authority of Some a \<Rightarrow> Some (ta_agent_run_id a) | None \<Rightarrow> nq_agent_run_id request)
      in \<lparr>tu_id = xw_uuid w 0, tu_request_id = nq_request_id request,
          tu_invocation_id = nq_invocation_id request, tu_agent_run_id = run,
          tu_model = map_option (\<lambda>_. ''runory-local-doctor-v1'') run,
          tu_change_set_id = map_option ta_change_set_id authority,
          tu_change_set_version = map_option ta_change_set_version authority,
          tu_profile_id = None, tu_session_id = nq_session_id request, tu_tool_name = td_name d,
          tu_sanitized_input = sanitized_input (nq_invocation request),
          tu_risk_level = td_risk_level d, tu_mutability = td_mutability d, tu_scope = td_scope d,
          tu_policy_decision = decision,
          tu_approval = (if td_requires_approval d
             then (if authority \<noteq> None then ApprovalApproved else ApprovalUnavailable)
             else ApprovalNotRequired),
          tu_status = (if blocked then AuditPolicyBlocked else AuditInProgress),
          tu_verification = (if td_mutability d = Write then VerificationPending
             else VerificationNotApplicable),
          tu_rollback = (if (case authority of Some a \<Rightarrow> ta_rollback a | None \<Rightarrow> False) then RollbackExecuted
             else if td_supports_rollback d then RollbackAvailable else RollbackNotSupported),
          tu_started_at_epoch_ms = xw_now w 0,
          tu_completed_at_epoch_ms = (if blocked then Some (xw_now w 1) else None),
          tu_cancellation_requested_at_epoch_ms = None,
          tu_duration_ms = (if blocked then Some (xw_elapsed w 0) else None),
          tu_succeeded = (if blocked then Some False else None),
          tu_error_code = (case decision of Allowed \<Rightarrow> None
             | Blocked reason \<Rightarrow> Some (tool_policy_denial_code reason)),
          tu_truncated = False\<rparr>)"

text \<open>The first half: descriptor, policy, decision and the opening record.\<close>

definition open_execution ::
  "'d exec_world \<Rightarrow> tool_policy \<Rightarrow> native_tool_request \<Rightarrow> exec_state \<Rightarrow>
   (tool_descriptor \<times> tool_policy_decision, app_error) result \<times> exec_state" where
  "open_execution w p request s =
     (case registry_descriptor (invocation_name (nq_invocation request)) of
        None \<Rightarrow> (Err (Remote InvalidOperation), s)
      | Some d \<Rightarrow>
          (case policy_service_evaluate (xw_uuid w 1) (xw_now w 5) (xw_disk w 0)
                  (execution_request w (nq_session_id request) d) (xs_agent_policy s) of
             (Err e, service) \<Rightarrow> (Err e, s\<lparr>xs_agent_policy := service\<rparr>)
           | (Panic, service) \<Rightarrow> (Panic, s\<lparr>xs_agent_policy := service\<rparr>)
           | (Ok e, service) \<Rightarrow>
               (let decision = execution_decision p d e (nq_authority request);
                    s = s\<lparr>xs_agent_policy := service\<rparr>
                in case audit_append (xw_disk w 1) (opening_record w request d decision)
                          (xw_others w 0 (xs_audit s)) of
                     (Ok _, file) \<Rightarrow> (Ok (d, decision), s\<lparr>xs_audit := file\<rparr>)
                   | (Err e, file) \<Rightarrow> (Err e, s\<lparr>xs_audit := file\<rparr>)
                   | (Panic, file) \<Rightarrow> (Panic, s\<lparr>xs_audit := file\<rparr>))))"

text \<open>Closing the record: \<open>complete(..).await?; Ok(result)\<close>, after others had their turn.\<close>

definition close_execution ::
  "'d exec_world \<Rightarrow> uuid \<Rightarrow> uuid option \<Rightarrow> 'd tool_result \<Rightarrow> exec_state \<Rightarrow>
   ('d tool_result, app_error) result \<times> exec_state" where
  "close_execution w invocation_id profile_id res s =
     (case audit_complete (xw_disk w 3) invocation_id profile_id res (xw_now w 3)
             (xw_others w 2 (xs_audit s)) of
        (Ok _, file) \<Rightarrow> (Ok res, s\<lparr>xs_audit := file\<rparr>)
      | (Err e, file) \<Rightarrow> (Err e, s\<lparr>xs_audit := file\<rparr>)
      | (Panic, file) \<Rightarrow> (Panic, s\<lparr>xs_audit := file\<rparr>))"

definition cancel_execution ::
  "'d exec_world \<Rightarrow> uuid \<Rightarrow> uuid option \<Rightarrow> 'd tool_result \<Rightarrow> exec_state \<Rightarrow>
   ('d tool_result, app_error) result \<times> exec_state" where
  "cancel_execution w invocation_id profile_id res s =
     (case mark_cancellation_requested (xw_disk w 2) invocation_id (xw_now w 2)
             (xw_others w 1 (xs_audit s)) of
        (Ok _, file) \<Rightarrow> close_execution w invocation_id profile_id res (s\<lparr>xs_audit := file\<rparr>)
      | (Err e, file) \<Rightarrow> (Err e, s\<lparr>xs_audit := file\<rparr>)
      | (Panic, file) \<Rightarrow> (Panic, s\<lparr>xs_audit := file\<rparr>))"

definition perform_execution ::
  "'d exec_world \<Rightarrow> native_tool_request \<Rightarrow> tool_descriptor \<Rightarrow> exec_state \<Rightarrow>
   ('d tool_result, app_error) result \<times> exec_state" where
  "perform_execution w request d s =
     (let i = nq_invocation_id request; started = xw_now w 0 in
      if nq_cancellation request \<and> xw_cancel_requested w
      then cancel_execution w i None (tool_cancelled i (td_name d) started (xw_elapsed w 1)) s
      else case xw_profile w 1 of
             Inl e \<Rightarrow> close_execution w i None
                        (tool_failure i (td_name d) (app_error_code e) started (xw_elapsed w 1)) s
           | Inr profile \<Rightarrow>
               (let s = s\<lparr>xs_sent := xs_sent s @ [(nq_session_id request, nq_invocation request)]\<rparr> in
                case xw_race w of
                  RemoteDone outcome \<Rightarrow>
                    close_execution w i (Some profile)
                      (registry_execute (\<lambda>_. outcome) (xw_now w 4) (xw_elapsed w 2) i
                         (nq_invocation request)) s
                | RemoteTimedOut \<Rightarrow>
                    close_execution w i (Some profile)
                      (tool_failure i (td_name d) ''EXEC_TIMED_OUT'' started (xw_elapsed w 1)) s
                | RemoteCancelled \<Rightarrow>
                    cancel_execution w i (Some profile)
                      (tool_cancelled i (td_name d) started (xw_elapsed w 1)) s))"

definition tool_execute ::
  "'d exec_world \<Rightarrow> tool_policy \<Rightarrow> native_tool_request \<Rightarrow> exec_state \<Rightarrow>
   ('d tool_result, app_error) result \<times> exec_state" where
  "tool_execute w p request s =
     (case open_execution w p request s of
        (Err e, s) \<Rightarrow> (Err e, s)
      | (Panic, s) \<Rightarrow> (Panic, s)
      | (Ok (d, decision), s) \<Rightarrow>
          (case decision of
             Blocked reason \<Rightarrow>
               (Ok (tool_failure (nq_invocation_id request) (td_name d)
                      (tool_policy_denial_code reason) (xw_now w 0) (xw_elapsed w 0)), s)
           | Allowed \<Rightarrow> perform_execution w request d s))"

section \<open>Nothing is sent unless allowed, authorized and audited\<close>

lemma execution_decision_Allowed_iff:
  "execution_decision p d e authority = Allowed \<longleftrightarrow>
     permits_execution e \<and> tool_policy_evaluate p d = Allowed
     \<and> (td_requires_approval d \<longrightarrow> authority \<noteq> None)"
  by (auto simp: execution_decision_def)

lemma push_record_last: "\<exists>kept. push_record r records = kept @ [r]"
proof -
  let ?all = "records @ [r]"
  have "last (push_record r records) = r" "push_record r records \<noteq> []"
    using last_keep_last [of MAX_TOOL_AUDIT_RECORDS ?all]
    by (auto simp: push_record_def Let_def MAX_TOOL_AUDIT_RECORDS_def keep_last_def)
  then show ?thesis by (metis append_butlast_last_id)
qed

lemma audit_append_Ok:
  assumes "audit_append disk r file = (Ok u, file')"
  shows "\<exists>kept. file' = Contents (kept @ [r])"
proof -
  from assms obtain records where "save_atomic disk (push_record r records) file = (Ok u, file')"
    by (auto simp: audit_append_def read_modify_write_def split: result.splits)
  then have "file' = Contents (push_record r records)"
    using save_atomic_cases [of disk "push_record r records" "file"] by auto
  then show ?thesis using push_record_last [of r records] by auto
qed

lemma open_execution_Ok:
  assumes "open_execution w p request s = (Ok (d, decision), s')"
  shows "d \<in> set native_descriptors \<and> td_name d = invocation_name (nq_invocation request)
    \<and> decision = execution_decision p d
         (policy_evaluate (sv_set (xs_agent_policy s)) (execution_request w (nq_session_id request) d))
         (nq_authority request)
    \<and> xs_sent s' = xs_sent s
    \<and> (\<exists>kept. xs_audit s' = Contents (kept @ [opening_record w request d decision]))"
proof -
  from assms obtain e service where
    d: "registry_descriptor (invocation_name (nq_invocation request)) = Some d"
    and ev: "policy_service_evaluate (xw_uuid w 1) (xw_now w 5) (xw_disk w 0)
        (execution_request w (nq_session_id request) d) (xs_agent_policy s) = (Ok e, service)"
    and dec: "decision = execution_decision p d e (nq_authority request)"
    and app: "\<exists>u file. audit_append (xw_disk w 1) (opening_record w request d decision)
        (xw_others w 0 (xs_audit s)) = (Ok u, file)
        \<and> s' = s\<lparr>xs_agent_policy := service, xs_audit := file\<rparr>"
    by (auto simp: open_execution_def Let_def split: option.splits result.splits prod.splits)
  from policy_service_evaluate_cases [OF ev]
  have "e = policy_evaluate (sv_set (xs_agent_policy s)) (execution_request w (nq_session_id request) d)"
    by auto
  with dec app audit_append_Ok registry_descriptor_Some [OF d] show ?thesis by fastforce
qed

lemma open_execution_sent: "xs_sent (snd (open_execution w p request s)) = xs_sent s"
  by (auto simp: open_execution_def Let_def split: option.splits result.splits prod.splits)

lemma close_execution_sent [simp]: "xs_sent (snd (close_execution w i q res s)) = xs_sent s"
  by (auto simp: close_execution_def split: result.splits prod.splits)

lemma cancel_execution_sent [simp]: "xs_sent (snd (cancel_execution w i q res s)) = xs_sent s"
  by (auto simp: cancel_execution_def split: result.splits prod.splits)

lemma perform_execution_sent:
  "xs_sent (snd (perform_execution w request d s)) \<in>
     {xs_sent s, xs_sent s @ [(nq_session_id request, nq_invocation request)]}"
  by (auto simp: perform_execution_def Let_def split: sum.splits race.splits)

lemma tool_execute_cases:
  assumes "tool_execute w p request s = (r, s')"
  obtains (early) "xs_sent s' = xs_sent s" "\<not> is_ok r"
  | (blocked) d reason where "open_execution w p request s = (Ok (d, Blocked reason), s')"
      "r = Ok (tool_failure (nq_invocation_id request) (td_name d)
             (tool_policy_denial_code reason) (xw_now w 0) (xw_elapsed w 0))"
  | (performed) d s1 where "open_execution w p request s = (Ok (d, Allowed), s1)"
      "perform_execution w request d s1 = (r, s')"
proof (cases "open_execution w p request s")
  case (Pair r0 s1)
  have sent: "xs_sent s1 = xs_sent s" using open_execution_sent [of w p request s] Pair by simp
  show thesis
  proof (cases r0)
    case (Ok dd)
    then show thesis
      using assms Pair blocked performed
      by (cases dd; cases "snd dd") (auto simp: tool_execute_def)
  qed (use assms Pair sent early in \<open>auto simp: tool_execute_def\<close>)
qed

text \<open>
  C4. An invocation reaches a session at most once per execution, and only when the policy
  rules permit it for that server, the tool policy allows it, and - unless the tool only
  reads - the request carries the authority of an approved change; by then the audit file
  ends in its opening record, in progress, with the sanitized input only.
\<close>

theorem remote_calls_authorized_and_audited:
  assumes "tool_execute w p request s = (r, s')" and "xs_sent s' \<noteq> xs_sent s"
  shows "xs_sent s' = xs_sent s @ [(nq_session_id request, nq_invocation request)]
    \<and> (\<exists>d s1 kept. open_execution w p request s = (Ok (d, Allowed), s1)
         \<and> d \<in> set native_descriptors \<and> td_name d = invocation_name (nq_invocation request)
         \<and> permits_execution (policy_evaluate (sv_set (xs_agent_policy s))
              (execution_request w (nq_session_id request) d))
         \<and> tool_policy_evaluate p d = Allowed
         \<and> (td_name d \<in> set READ_ONLY \<or> nq_authority request \<noteq> None)
         \<and> xs_audit s1 = Contents (kept @ [opening_record w request d Allowed]))"
  using assms(1)
proof (cases rule: tool_execute_cases)
  case early
  with assms(2) show ?thesis by simp
next
  case (blocked d reason)
  with assms(2) open_execution_sent [of w p request s] show ?thesis by simp
next
  case (performed d s1)
  from perform_execution_sent [of w request d s1] performed open_execution_sent [of w p request s] assms(2)
  have "xs_sent s' = xs_sent s @ [(nq_session_id request, nq_invocation request)]" by auto
  moreover note open_execution_Ok [OF performed(1)]
  ultimately show ?thesis
    using performed(1) table_approval_iff [of d] table_read_iff [of d]
      execution_decision_Allowed_iff [of p d _ "nq_authority request"]
    by (metis (no_types, lifting))
qed

section \<open>A returned result is what the audit says\<close>

definition audited :: "tool_audit_file \<Rightarrow> uuid \<Rightarrow> 'd tool_result \<Rightarrow> bool" where
  "audited file i res \<longleftrightarrow>
     (\<exists>records r. file = Contents records \<and> r \<in> set records \<and> tu_invocation_id r = i
        \<and> tu_status r \<noteq> AuditInProgress \<and> tu_succeeded r = Some (tr_success res)
        \<and> tu_error_code r = tr_error_code res \<and> tu_duration_ms r = Some (tr_duration_ms res)
        \<and> tu_completed_at_epoch_ms r \<noteq> None)"

lemma update_first_hits: "find P xs = Some x \<Longrightarrow> f x \<in> set (update_first P f xs)"
  by (induction xs) (auto split: if_splits)

lemma audit_complete_Ok:
  assumes "audit_complete disk i q res now file = (Ok u, file')"
  shows "audited file' i res"
proof -
  let ?P = "\<lambda>r. tu_invocation_id r = i" and ?f = "completed_record q res now"
  from assms obtain records r where f: "find ?P records = Some r"
    and saved: "save_atomic disk (update_first ?P ?f records) file = (Ok u, file')"
    by (auto simp: audit_complete_def audit_update_def split: result.splits option.splits)
  from saved have "file' = Contents (update_first ?P ?f records)"
    using save_atomic_cases [of disk "update_first ?P ?f records" "file"] by auto
  moreover have "?f r \<in> set (update_first ?P ?f records)" using f by (rule update_first_hits)
  moreover have "tu_invocation_id r = i" using find_Some_set [OF f] by simp
  ultimately show ?thesis
    unfolding audited_def
    by (intro exI [of _ "update_first ?P ?f records"] exI [of _ "?f r"])
      (simp add: completed_record_def Let_def)
qed

lemma close_execution_Ok:
  "close_execution w i q res s = (Ok res', s') \<Longrightarrow> res' = res \<and> audited (xs_audit s') i res"
  using audit_complete_Ok
  by (fastforce simp: close_execution_def split: result.splits prod.splits)

lemma cancel_execution_Ok:
  "cancel_execution w i q res s = (Ok res', s') \<Longrightarrow> res' = res \<and> audited (xs_audit s') i res"
  using close_execution_Ok
  by (fastforce simp: cancel_execution_def split: result.splits prod.splits)

lemma perform_execution_Ok:
  "perform_execution w request d s = (Ok res, s') \<Longrightarrow>
     audited (xs_audit s') (nq_invocation_id request) res"
  unfolding perform_execution_def Let_def
  by (auto split: if_splits sum.splits race.splits dest!: close_execution_Ok cancel_execution_Ok)

text \<open>
  C39. A result that is returned, whether the call was blocked, cancelled, timed out, failed or
  succeeded, is the one the audit file holds for its invocation, closed.
\<close>

theorem returned_result_is_audited:
  assumes "tool_execute w p request s = (Ok res, s')"
  shows "audited (xs_audit s') (nq_invocation_id request) res"
  using assms
proof (cases rule: tool_execute_cases)
  case (blocked d reason)
  from open_execution_Ok [OF blocked(1)] obtain kept
    where "xs_audit s' = Contents (kept @ [opening_record w request d (Blocked reason)])" by blast
  with blocked(2) show ?thesis
    unfolding audited_def
    by (intro exI [of _ "kept @ [opening_record w request d (Blocked reason)]"]
        exI [of _ "opening_record w request d (Blocked reason)"])
      (simp add: opening_record_def tool_failure_def Let_def)
qed (auto dest: perform_execution_Ok)

section \<open>A lost outcome\<close>

lemma audit_complete_unsaved:
  assumes "\<not> ps_synced disk"
  shows "audit_complete disk i q res now log = (Err Storage, log)"
proof -
  have "save_atomic disk v log = (Err Storage, log)" for v
    using assms by (simp add: save_atomic_def persist_atomic_def)
  then show ?thesis
    by (cases log) (auto simp: audit_complete_def audit_update_def split: option.splits)
qed

text \<open>
  The outcome of a call that was made is lost when its record cannot be closed: whatever the
  remote side did and answered, the execution returns a storage error, with which a caller
  cannot tell a change that was made from one that was not.
\<close>

lemma outcome_lost_when_audit_fails:
  assumes "open_execution w p request s = (Ok (d, Allowed), s1)"
    and "\<not> (nq_cancellation request \<and> xw_cancel_requested w)"
    and "xw_profile w 1 = Inr profile" and "xw_race w = RemoteDone outcome"
    and "\<not> ps_synced (xw_disk w 3)"
  shows "\<exists>s'. tool_execute w p request s = (Err Storage, s')
    \<and> xs_sent s' = xs_sent s @ [(nq_session_id request, nq_invocation request)]"
proof -
  have "xs_sent s1 = xs_sent s" using open_execution_sent [of w p request s] assms(1) by simp
  moreover have "perform_execution w request d s1
      = close_execution w (nq_invocation_id request) (Some profile)
          (registry_execute (\<lambda>_. outcome) (xw_now w 4) (xw_elapsed w 2) (nq_invocation_id request)
             (nq_invocation request))
          (s1\<lparr>xs_sent := xs_sent s1 @ [(nq_session_id request, nq_invocation request)]\<rparr>)"
    unfolding perform_execution_def Let_def if_not_P [OF assms(2)] assms(3,4) by simp
  ultimately show ?thesis
    by (simp add: tool_execute_def assms(1) close_execution_def audit_complete_unsaved [OF assms(5)])
qed

section \<open>Concrete executions\<close>

text \<open>An approved file patch on a fresh audit log; the last write may fail.\<close>

definition patch_world :: "'d \<Rightarrow> bool \<Rightarrow> 'd exec_world" where
  "patch_world data closes =
     \<lparr>xw_now = (\<lambda>_. 0), xw_elapsed = (\<lambda>_. 0), xw_uuid = (\<lambda>_. 0),
      xw_disk = (\<lambda>n. all_steps_ok\<lparr>ps_synced := closes \<or> n \<noteq> 3\<rparr>),
      xw_profile = (\<lambda>_. Inr 7), xw_others = (\<lambda>_ log. log), xw_cancel_requested = False,
      xw_race = RemoteDone (Inr (data, False))\<rparr>"

definition patch_request :: native_tool_request where
  "patch_request = request_approved 1 2 7 (InvFilePatch ''/etc/app.conf'' ''a=1'' ''a=2'')
     \<lparr>ta_agent_run_id = 3, ta_change_set_id = 4, ta_change_set_version = 1, ta_rollback = False\<rparr>"

definition first_execution :: exec_state where
  "first_execution = \<lparr>xs_agent_policy = policy_service_new (\<lambda>_. []) default_policy,
     xs_audit = Missing, xs_sent = []\<rparr>"

lemma patch_opens:
  "\<exists>d s1. open_execution (patch_world () closes) approved_repair patch_request first_execution
     = (Ok (d, Allowed), s1) \<and> xs_sent s1 = []"
proof -
  have "map_prod (\<lambda>r. case r of Ok (d, decision) \<Rightarrow> decision = Allowed | _ \<Rightarrow> False) xs_sent
      (open_execution (patch_world () closes) approved_repair patch_request first_execution) = (True, [])"
    by (cases closes; simp only:) code_simp+
  then show ?thesis
    by (cases "open_execution (patch_world () closes) approved_repair patch_request first_execution")
      (auto split: result.splits)
qed

lemma outcome_lost_when_audit_fails_witness:
  "\<exists>s'. tool_execute (patch_world () False) approved_repair patch_request first_execution = (Err Storage, s')
    \<and> xs_sent s' = [(7, InvFilePatch ''/etc/app.conf'' ''a=1'' ''a=2'')]"
proof -
  from patch_opens [of False] obtain d s1 where
    "open_execution (patch_world () False) approved_repair patch_request first_execution = (Ok (d, Allowed), s1)"
    by blast
  from outcome_lost_when_audit_fails [OF this] show ?thesis
    by (simp add: patch_world_def patch_request_def request_approved_def first_execution_def)
qed

lemma patch_succeeds:
  "map_prod (\<lambda>r. case r of Ok res \<Rightarrow> tr_success res | _ \<Rightarrow> False) xs_sent
     (tool_execute (patch_world () True) approved_repair patch_request first_execution)
   = (True, [(7, InvFilePatch ''/etc/app.conf'' ''a=1'' ''a=2'')])"
  by code_simp

lemma patch_execution:
  obtains res s' where
    "tool_execute (patch_world () True) approved_repair patch_request first_execution = (Ok res, s')"
    "tr_success res" "xs_sent s' = [(7, InvFilePatch ''/etc/app.conf'' ''a=1'' ''a=2'')]"
  using patch_succeeds
  by (cases "tool_execute (patch_world () True) approved_repair patch_request first_execution")
    (auto split: result.splits)

lemma remote_calls_authorized_and_audited_witness:
  "\<exists>d s1 kept. open_execution (patch_world () True) approved_repair patch_request first_execution
       = (Ok (d, Allowed), s1)
     \<and> td_name d = FilePatch
     \<and> xs_audit s1 = Contents (kept @ [opening_record (patch_world () True) patch_request d Allowed])"
proof (rule patch_execution)
  fix res s'
  assume run: "tool_execute (patch_world () True) approved_repair patch_request first_execution = (Ok res, s')"
    and "xs_sent s' = [(7, InvFilePatch ''/etc/app.conf'' ''a=1'' ''a=2'')]"
  then have "xs_sent s' \<noteq> xs_sent first_execution" by (simp add: first_execution_def)
  from remote_calls_authorized_and_audited [OF run this] show ?thesis
    by (auto simp: patch_request_def request_approved_def)
qed

lemma returned_result_is_audited_witness:
  "\<exists>res s'. tool_execute (patch_world () True) approved_repair patch_request first_execution = (Ok res, s')
     \<and> tr_success res \<and> audited (xs_audit s') 2 res"
proof (rule patch_execution)
  fix res s'
  assume run: "tool_execute (patch_world () True) approved_repair patch_request first_execution = (Ok res, s')"
    and "tr_success res"
  moreover have "nq_invocation_id patch_request = 2"
    by (simp add: patch_request_def request_approved_def)
  ultimately show ?thesis using returned_result_is_audited [OF run] by auto
qed

end
