(* ===== verification/Change_Set_Model.thy ===== *)
theory Change_Set_Model
  imports Change_Sets Tool_Execution "HOL-Library.AList"
begin

text \<open>
  The data of change sets (src-tauri/src/agentic/changes.rs) and the pure functions on them:
  the reviewed steps and what a user sees of them, the validation of a draft, the tool calls a
  step stands for, the combination of the policy's answers for its steps, and the records that
  survive a restart with their recovery. The answers of tools carry the data of
  tools/result.rs; its floating-point fields are kept by their printed text.
\<close>

section \<open>Tool data\<close>

datatype service_status = ServiceActive | ServiceInactive | ServiceFailed | ServiceUnknown

record service_health =
  sh_name :: string
  sh_status :: service_status

record disk_usage =
  du_mount :: string
  du_used_bytes :: u64
  du_total_bytes :: u64
  du_usage_percent :: string

record nginx_test_data =
  nt_valid :: bool
  nt_config_file :: "string option"
  nt_error_file :: "string option"
  nt_error_line :: "u32 option"
  nt_error_message :: "string option"
  nt_raw_summary :: string

datatype tool_data =
    DataSystemInfo string string string string
  | DataSystemDisk "disk_usage list"
  | DataServiceStatus service_health
  | DataServiceLogs string "string list"
  | DataNetworkPortCheck string u16 bool
  | DataHttpResponse u16 "string option" string u64
  | DataNginxTest nginx_test_data
  | DataFilePatch string u64 bool
  | DataServiceChange string string bool
  | DataDiagnostic string json

section \<open>Change sets\<close>

definition MAX_STEPS :: nat where "MAX_STEPS = 12"
definition MAX_PATCH_BYTES :: nat where "MAX_PATCH_BYTES = 512 * 1024"
definition MAX_PERSISTED_CHANGE_SETS :: nat where "MAX_PERSISTED_CHANGE_SETS = 2000"
definition CHANGE_SET_SCHEMA_VERSION :: "8 word" where "CHANGE_SET_SCHEMA_VERSION = 1"

record change_set_draft_request =
  dq_agent_run_id :: uuid
  dq_session_id :: uuid
  dq_title :: string
  dq_steps :: "change_step_draft list"

datatype approval_state = ApprovalDraft | ApprovalGiven | ApprovalRejected | ApprovalInvalidated

datatype execution_state =
    NotStarted | Executing | Committed | ExecutionFailed | RolledBack | RollbackFailed | Interrupted

datatype change_step_state =
  ChangeStepPending | ChangeStepSucceeded | ChangeStepFailed | ChangeStepRolledBack

datatype change_set_recovery_state = Live | MetadataOnly

record change_step =
  gs_id :: uuid
  gs_order :: u32
  gs_tool_name :: string
  gs_risk :: risk_level
  gs_preview :: string
  gs_verification_plan_code :: string
  gs_rollback_capability :: string
  gs_state :: change_step_state
  gs_error_code :: "string option"

record change_precondition =
  cp_step_id :: uuid
  cp_target_id :: uuid
  cp_check_tool :: string
  cp_observed_at_epoch_ms :: u64
  cp_state :: string

record change_set =
  cs_id :: uuid
  cs_agent_run_id :: uuid
  cs_session_id :: uuid
  cs_title :: string
  cs_version :: u64
  cs_risk :: risk_level
  cs_steps :: "change_step list"
  cs_approval_state :: approval_state
  cs_approved_version :: "u64 option"
  cs_execution_state :: execution_state
  cs_recovery_state :: change_set_recovery_state
  cs_preconditions :: "change_precondition list"
  cs_policy_evaluation :: "policy_evaluation option"
  cs_policy_snapshot :: "policy_snapshot option"
  cs_approved_step_ids :: "uuid list"

record precondition_binding =
  pb_invocation :: native_tool_invocation
  pb_digest :: string

text \<open>\<open>PolicyCheckContext\<close> and \<open>ChangePolicyBinding\<close> have the same fields.\<close>

record policy_check_context =
  pk_target :: policy_target
  pk_target_count :: usize
  pk_execution_strategy :: policy_execution_strategy
  pk_source :: policy_invocation_source

record stored_change_set =
  sd_public :: change_set
  sd_payloads :: "change_step_draft list"
  sd_precondition_bindings :: "precondition_binding list"
  sd_policy_binding :: "policy_check_context option"

section \<open>Validation of a draft\<close>

definition valid_service :: "string \<Rightarrow> bool" where
  "valid_service service \<longleftrightarrow>
     service \<noteq> [] \<and> length service \<le> 128
     \<and> list_all (\<lambda>b. is_ascii_alphanumeric b \<or> b \<in> set ''._@:-'') service"

fun valid_step :: "change_step_draft \<Rightarrow> bool" where
  "valid_step (DraftFilePatch p expected replacement) \<longleftrightarrow>
     p \<noteq> [] \<and> length p \<le> 4096 \<and> expected \<noteq> [] \<and> expected \<noteq> replacement
     \<and> length expected \<le> MAX_PATCH_BYTES \<and> length replacement \<le> MAX_PATCH_BYTES"
| "valid_step (DraftServiceRestart service) \<longleftrightarrow> valid_service service"
| "valid_step (DraftServiceReload service) \<longleftrightarrow> valid_service service"
| "valid_step DraftNginxReload \<longleftrightarrow> True"
| "valid_step (DraftDockerRestart container) \<longleftrightarrow> valid_service container"

definition validate_draft :: "change_set_draft_request \<Rightarrow> (unit, app_error) result" where
  "validate_draft request =
     (if trim (dq_title request) = [] \<or> 256 < length (dq_title request) \<or> dq_steps request = []
         \<or> MAX_STEPS < length (dq_steps request)
      then Err (Remote InvalidOperation)
      else try_for_each (\<lambda>step. if valid_step step then Ok () else Err (Remote InvalidOperation))
             (dq_steps request))"

section \<open>What a user sees of a step\<close>

text \<open>The first line, cut at most 160 bytes in, at a character boundary.\<close>

fun boundary_below :: "string \<Rightarrow> nat \<Rightarrow> nat" where
  "boundary_below s 0 = 0"
| "boundary_below s (Suc n) = (if is_char_boundary s (Suc n) then Suc n else boundary_below s n)"

definition ellipsis_char :: string where
  "ellipsis_char = [CHR 0xE2, CHR 0x80, CHR 0xA6]"

definition preview_line :: "string \<Rightarrow> string" where
  "preview_line value =
     (let first = (case str_lines value of [] \<Rightarrow> [] | l # _ \<Rightarrow> l)
      in if length first \<le> 160 then first
         else take (boundary_below first 160) first @ ellipsis_char)"

fun step_facts :: "change_step_draft \<Rightarrow> string \<times> risk_level \<times> string \<times> string \<times> string" where
  "step_facts (DraftFilePatch p expected replacement) =
     (''file.patch'', R3,
      ''--- '' @ p @ [NL] @ ''+++ '' @ p @ [NL] @ ''-'' @ preview_line expected @ [NL] @ ''+''
        @ preview_line replacement,
      ''read-back-exact-content'', ''snapshot-and-reverse-patch'')"
| "step_facts (DraftServiceRestart service) =
     (''service.restart'', R3, ''restart '' @ service, ''service-active'', ''not-supported'')"
| "step_facts (DraftServiceReload service) =
     (''service.reload'', R2, ''reload '' @ service, ''service-active'', ''not-supported'')"
| "step_facts DraftNginxReload =
     (''nginx.reload'', R2, ''reload nginx'', ''nginx-test-before-and-after'', ''not-supported'')"
| "step_facts (DraftDockerRestart container) =
     (''docker.restart'', R3, ''restart docker container '' @ container, ''container-running'',
      ''not-supported'')"

definition public_step :: "uuid \<Rightarrow> nat \<Rightarrow> change_step_draft \<Rightarrow> change_step" where
  "public_step i index step =
     (let (tool_name, risk, preview, verification, rollback) = step_facts step
      in \<lparr>gs_id = i, gs_order = of_nat index + 1, gs_tool_name = tool_name, gs_risk = risk,
          gs_preview = preview, gs_verification_plan_code = verification,
          gs_rollback_capability = rollback, gs_state = ChangeStepPending, gs_error_code = None\<rparr>)"

definition public_steps :: "(nat \<Rightarrow> uuid) \<Rightarrow> change_step_draft list \<Rightarrow> change_step list" where
  "public_steps fresh steps = map (\<lambda>(index, step). public_step (fresh index) index step) (enumerate 0 steps)"

text \<open>\<open>max().unwrap_or(R2)\<close> over the steps' risks.\<close>

definition steps_risk :: "change_step list \<Rightarrow> risk_level" where
  "steps_risk steps = (if steps = [] then R2 else Max (set (map gs_risk steps)))"

section \<open>The tool calls of a step\<close>

fun invocation :: "change_step_draft \<Rightarrow> native_tool_invocation" where
  "invocation (DraftFilePatch p expected replacement) = InvFilePatch p expected replacement"
| "invocation (DraftServiceRestart service) = InvServiceRestart service"
| "invocation (DraftServiceReload service) = InvServiceReload service"
| "invocation DraftNginxReload = InvNginxReload"
| "invocation (DraftDockerRestart container) = InvDockerRestart container"

fun precondition_invocation :: "change_step_draft \<Rightarrow> native_tool_invocation" where
  "precondition_invocation (DraftFilePatch p _ _) = InvFileInspect p"
| "precondition_invocation (DraftServiceRestart service) = InvServiceStatus service"
| "precondition_invocation (DraftServiceReload service) = InvServiceStatus service"
| "precondition_invocation DraftNginxReload = InvNginxTest"
| "precondition_invocation (DraftDockerRestart container) = InvDockerInspect container"

definition verification_invocation :: "change_step_draft \<Rightarrow> native_tool_invocation" where
  "verification_invocation = precondition_invocation"

fun as_bool :: "json \<Rightarrow> bool option" where
  "as_bool (JBool b) = Some b"
| "as_bool _ = None"

definition verification_plan_satisfied :: "string \<Rightarrow> tool_data tool_result \<Rightarrow> bool" where
  "verification_plan_satisfied plan res =
     (if plan = ''service-active''
        then (case tr_data res of Some (DataServiceStatus h) \<Rightarrow> sh_status h = ServiceActive | _ \<Rightarrow> False)
      else if plan = ''nginx-test-before-and-after''
        then (case tr_data res of Some (DataNginxTest t) \<Rightarrow> nt_valid t | _ \<Rightarrow> False)
      else if plan = ''container-running''
        then (case tr_data res of
                Some (DataDiagnostic category entries) \<Rightarrow>
                  category = ''docker-inspect''
                  \<and> Option.bind (json_get entries ''running'') as_bool = Some True
              | _ \<Rightarrow> False)
      else tr_success res)"

section \<open>Combining the policy's answers\<close>

text \<open>\<open>Vec::dedup_by\<close> on the rule id: of adjacent equal ones the first stays.\<close>

fun dedup_rules :: "policy_matched_rule list \<Rightarrow> policy_matched_rule list" where
  "dedup_rules (a # b # rules) =
     (if mr_rule_id a = mr_rule_id b then dedup_rules (a # rules) else a # dedup_rules (b # rules))"
| "dedup_rules rules = rules"

definition combine_policy_evaluations ::
  "policy_evaluation list \<Rightarrow> (policy_evaluation, app_error) result" where
  "combine_policy_evaluations evaluations =
     (case evaluations of
        [] \<Rightarrow> Err (Remote InvalidOperation)
      | first # _ \<Rightarrow>
          if list_ex (\<lambda>e. pe_policy_version e \<noteq> pe_policy_version first
                         \<or> pe_policy_hash e \<noteq> pe_policy_hash first) evaluations
          then Err (Remote InvalidOperation)
          else result_bind (ok_or (Remote InvalidOperation)
                 (max_by_key (\<lambda>e. precedence (pe_decision e)) evaluations)) (\<lambda>decisive.
               Ok \<lparr>pe_decision = pe_decision decisive,
                   pe_matched_rules = dedup_rules (sort_key mr_rule_id
                     (concat (map pe_matched_rules evaluations))),
                   pe_reason = pe_reason decisive, pe_scope = pe_scope decisive,
                   pe_policy_version = pe_policy_version first, pe_policy_hash = pe_policy_hash first\<rparr>))"

section \<open>What survives a restart\<close>

record persisted_change_step =
  ds_id :: uuid
  ds_order :: u32
  ds_tool_name :: string
  ds_risk :: risk_level
  ds_verification_plan_code :: string
  ds_rollback_capability :: string
  ds_state :: change_step_state
  ds_error_code :: "string option"

record persisted_change_set =
  dc_schema_version :: "8 word"
  dc_id :: uuid
  dc_agent_run_id :: uuid
  dc_session_id :: uuid
  dc_version :: u64
  dc_risk :: risk_level
  dc_steps :: "persisted_change_step list"
  dc_execution_state :: execution_state
  dc_policy_snapshot :: "policy_snapshot option"
  dc_approved_step_ids :: "uuid list"

definition persisted_step :: "change_step \<Rightarrow> persisted_change_step" where
  "persisted_step step =
     \<lparr>ds_id = gs_id step, ds_order = gs_order step, ds_tool_name = gs_tool_name step,
      ds_risk = gs_risk step, ds_verification_plan_code = gs_verification_plan_code step,
      ds_rollback_capability = gs_rollback_capability step, ds_state = gs_state step,
      ds_error_code = gs_error_code step\<rparr>"

definition to_persisted :: "stored_change_set \<Rightarrow> persisted_change_set" where
  "to_persisted stored =
     (let p = sd_public stored
      in \<lparr>dc_schema_version = CHANGE_SET_SCHEMA_VERSION, dc_id = cs_id p,
          dc_agent_run_id = cs_agent_run_id p, dc_session_id = cs_session_id p,
          dc_version = cs_version p, dc_risk = cs_risk p, dc_steps = map persisted_step (cs_steps p),
          dc_execution_state = cs_execution_state p, dc_policy_snapshot = cs_policy_snapshot p,
          dc_approved_step_ids = cs_approved_step_ids p\<rparr>)"

definition stable_name :: "string list \<Rightarrow> string \<Rightarrow> (string, app_error) result" where
  "stable_name names value = (if value \<in> set names then Ok value else Err Storage)"

definition persisted_tool_name :: "string \<Rightarrow> (string, app_error) result" where
  "persisted_tool_name =
     stable_name [''file.patch'', ''service.restart'', ''service.reload'', ''nginx.reload'']"

definition persisted_verification_code :: "string \<Rightarrow> (string, app_error) result" where
  "persisted_verification_code =
     stable_name [''read-back-exact-content'', ''service-active'', ''nginx-test-before-and-after'']"

definition persisted_rollback_code :: "string \<Rightarrow> (string, app_error) result" where
  "persisted_rollback_code = stable_name [''snapshot-and-reverse-patch'', ''not-supported'']"

definition valid_stable_code :: "string \<Rightarrow> bool" where
  "valid_stable_code value \<longleftrightarrow>
     value \<noteq> [] \<and> length value \<le> 64
     \<and> list_all (\<lambda>b. is_ascii_upper b \<or> is_ascii_digit b \<or> b = CHR ''_'') value"

definition recovered_step :: "persisted_change_step \<Rightarrow> (change_step, app_error) result" where
  "recovered_step step =
     result_bind (persisted_tool_name (ds_tool_name step)) (\<lambda>tool_name.
     result_bind (persisted_verification_code (ds_verification_plan_code step)) (\<lambda>verification.
     result_bind (persisted_rollback_code (ds_rollback_capability step)) (\<lambda>rollback.
     Ok \<lparr>gs_id = ds_id step, gs_order = ds_order step, gs_tool_name = tool_name,
         gs_risk = ds_risk step, gs_preview = ''recovery-payload-unavailable'',
         gs_verification_plan_code = verification, gs_rollback_capability = rollback,
         gs_state = ds_state step,
         gs_error_code = Option.bind (ds_error_code step)
           (\<lambda>code. if valid_stable_code code then Some code else None)\<rparr>)))"

definition recovered_change_set :: "persisted_change_set \<Rightarrow> (change_set, app_error) result" where
  "recovered_change_set r =
     result_bind (try_map recovered_step (dc_steps r)) (\<lambda>steps.
     Ok \<lparr>cs_id = dc_id r, cs_agent_run_id = dc_agent_run_id r, cs_session_id = dc_session_id r,
         cs_title = ''recovered-change-set'', cs_version = dc_version r, cs_risk = dc_risk r,
         cs_steps = steps, cs_approval_state = ApprovalInvalidated, cs_approved_version = None,
         cs_execution_state = (if dc_execution_state r = Executing then Interrupted
                               else dc_execution_state r),
         cs_recovery_state = MetadataOnly, cs_preconditions = [], cs_policy_evaluation = None,
         cs_policy_snapshot = dc_policy_snapshot r, cs_approved_step_ids = dc_approved_step_ids r\<rparr>)"

end
