(* ===== verification/Change_Set_Service.thy ===== *)
theory Change_Set_Service
  imports Change_Set_Model
begin

text \<open>
  The change-set service (agentic/changes.rs): its items behind one lock, their persistence,
  and the operations that draft, revise, review, approve and reject a change set. An operation
  locks, works and unlocks, possibly more than once; before every lock other tasks may have
  changed the items, and while an operation waits for the policy or a tool the world moves on.
  The world answers by the number of the question, so the same definitions describe every
  interleaving. \<open>HashMap\<close> iteration order does not matter, since every listing is sorted by id.
\<close>

section \<open>The service and its world\<close>

record change_service =
  sc_items :: "(uuid \<times> stored_change_set) list"
  sc_repository :: "persisted_change_set list stored_file option"

definition service_default :: change_service where
  "service_default = \<lparr>sc_items = [], sc_repository = None\<rparr>"

definition service_at_path :: "persisted_change_set list stored_file \<Rightarrow> change_service" where
  "service_at_path file = \<lparr>sc_items = [], sc_repository = Some file\<rparr>"

text \<open>
  \<open>gw_digest\<close> is \<open>result_digest\<close>: SHA-256 of the JSON text of the four stable parts of a result.
  \<open>gw_tool\<close> is the tool execution service.
\<close>

record change_world =
  gw_others :: "nat \<Rightarrow> change_service \<Rightarrow> change_service"
  gw_disk :: "nat \<Rightarrow> persist_steps"
  gw_uuid :: "nat \<Rightarrow> uuid"
  gw_now :: "nat \<Rightarrow> u64"
  gw_policy :: "nat \<Rightarrow> agent_policy_service"
  gw_tool :: "nat \<Rightarrow> native_tool_request \<Rightarrow> (tool_data tool_result, app_error) result"
  gw_digest :: "native_tool_name \<times> bool \<times> tool_data option \<times> string option \<Rightarrow> string"

text \<open>The progress of an operation: the service, the next question, and the tool calls made.\<close>

record change_exec =
  cx_service :: change_service
  cx_tick :: nat
  cx_calls :: "(nat \<times> native_tool_request) list"

definition lock :: "change_world \<Rightarrow> change_exec \<Rightarrow> change_exec" where
  "lock w cx = cx\<lparr>cx_service := gw_others w (cx_tick cx) (cx_service cx), cx_tick := Suc (cx_tick cx)\<rparr>"

definition call_tool ::
  "change_world \<Rightarrow> native_tool_request \<Rightarrow> change_exec \<Rightarrow>
   (tool_data tool_result, app_error) result \<times> change_exec" where
  "call_tool w request cx =
     (gw_tool w (cx_tick cx) request,
      cx\<lparr>cx_tick := Suc (cx_tick cx), cx_calls := cx_calls cx @ [(cx_tick cx, request)]\<rparr>)"

definition evaluate_policy ::
  "change_world \<Rightarrow> policy_evaluation_request \<Rightarrow> change_exec \<Rightarrow>
   (policy_evaluation, app_error) result \<times> change_exec" where
  "evaluate_policy w request cx =
     (let t = cx_tick cx
      in (fst (policy_service_evaluate (gw_uuid w t) (gw_now w t) (gw_disk w t) request (gw_policy w t)),
          cx\<lparr>cx_tick := Suc t\<rparr>))"

definition result_digest :: "change_world \<Rightarrow> tool_data tool_result \<Rightarrow> string" where
  "result_digest w res = gw_digest w (tr_tool_name res, tr_success res, tr_data res, tr_error_code res)"

section \<open>Persistence\<close>

definition item :: "uuid \<Rightarrow> change_service \<Rightarrow> stored_change_set option" where
  "item i s = map_of (sc_items s) i"

definition persist_locked ::
  "persist_steps \<Rightarrow> change_service \<Rightarrow> (unit, app_error) result \<times> change_service" where
  "persist_locked disk s =
     (case sc_repository s of
        None \<Rightarrow> (Ok (), s)
      | Some repository \<Rightarrow>
          (let records = sort_key dc_id (map (to_persisted \<circ> snd) (sc_items s));
               kept = (if MAX_PERSISTED_CHANGE_SETS < length records
                       then keep_last MAX_PERSISTED_CHANGE_SETS records else records);
               (r, file) = save_atomic disk kept repository
           in (r, s\<lparr>sc_repository := Some file\<rparr>)))"

definition put_item :: "uuid \<Rightarrow> stored_change_set \<Rightarrow> change_service \<Rightarrow> change_service" where
  "put_item i stored s = s\<lparr>sc_items := AList.update i stored (sc_items s)\<rparr>"

text \<open>
  The end of a locked section that changed item \<open>i\<close>: persist, and put the previous value back
  when that fails. \<open>commit\<close> keeps the change instead.
\<close>

definition commit_or_restore ::
  "persist_steps \<Rightarrow> uuid \<Rightarrow> stored_change_set \<Rightarrow> stored_change_set \<Rightarrow> change_service \<Rightarrow>
   (change_set, app_error) result \<times> change_service" where
  "commit_or_restore disk i previous stored s =
     (case persist_locked disk (put_item i stored s) of
        (Ok _, s) \<Rightarrow> (Ok (sd_public stored), s)
      | (Err e, s) \<Rightarrow> (Err e, put_item i previous s)
      | (Panic, s) \<Rightarrow> (Panic, s))"

definition commit ::
  "persist_steps \<Rightarrow> uuid \<Rightarrow> stored_change_set \<Rightarrow> change_service \<Rightarrow>
   (change_set, app_error) result \<times> change_service" where
  "commit disk i stored s =
     (case persist_locked disk (put_item i stored s) of
        (Ok _, s) \<Rightarrow> (Ok (sd_public stored), s)
      | (Err e, s) \<Rightarrow> (Err e, s)
      | (Panic, s) \<Rightarrow> (Panic, s))"

definition load_records ::
  "persisted_change_set list \<Rightarrow> (uuid \<times> stored_change_set) list \<Rightarrow>
   (unit, app_error) result \<times> (uuid \<times> stored_change_set) list" where
  "load_records records items =
     fold (\<lambda>r (res, items).
       case res of
         Ok _ \<Rightarrow> (case recovered_change_set r of
             Ok p \<Rightarrow> (Ok (), AList.update (cs_id p) \<lparr>sd_public = p, sd_payloads = [],
                        sd_precondition_bindings = [], sd_policy_binding = None\<rparr> items)
           | Err e \<Rightarrow> (Err e, items)
           | Panic \<Rightarrow> (Panic, items))
       | _ \<Rightarrow> (res, items)) records (Ok (), items)"

definition service_load :: "persist_steps \<Rightarrow> change_service \<Rightarrow> (unit, app_error) result \<times> change_service" where
  "service_load disk s =
     (case sc_repository s of
        None \<Rightarrow> (Ok (), s)
      | Some repository \<Rightarrow>
          (case load_or_default [] repository of
             Err e \<Rightarrow> (Err e, s)
           | Panic \<Rightarrow> (Panic, s)
           | Ok persisted \<Rightarrow>
               (case load_records (take MAX_PERSISTED_CHANGE_SETS
                        (filter (\<lambda>r. dc_schema_version r = CHANGE_SET_SCHEMA_VERSION) persisted)) [] of
                  (Ok _, items) \<Rightarrow> persist_locked disk (s\<lparr>sc_items := items\<rparr>)
                | (Err e, items) \<Rightarrow> (Err e, s\<lparr>sc_items := items\<rparr>)
                | (Panic, items) \<Rightarrow> (Panic, s\<lparr>sc_items := items\<rparr>))))"

section \<open>Locked sections\<close>

abbreviation invalid_operation :: "('a, app_error) result" where
  "invalid_operation \<equiv> Err (Remote InvalidOperation)"

definition new_item :: "(nat \<Rightarrow> uuid) \<Rightarrow> change_set_draft_request \<Rightarrow> stored_change_set" where
  "new_item fresh request =
     (let steps = public_steps (\<lambda>n. fresh (Suc n)) (dq_steps request)
      in \<lparr>sd_public = \<lparr>cs_id = fresh 0, cs_agent_run_id = dq_agent_run_id request,
            cs_session_id = dq_session_id request, cs_title = dq_title request, cs_version = 1,
            cs_risk = steps_risk steps, cs_steps = steps, cs_approval_state = ApprovalDraft,
            cs_approved_version = None, cs_execution_state = NotStarted, cs_recovery_state = Live,
            cs_preconditions = [], cs_policy_evaluation = None, cs_policy_snapshot = None,
            cs_approved_step_ids = []\<rparr>,
          sd_payloads = dq_steps request, sd_precondition_bindings = [], sd_policy_binding = None\<rparr>)"

text \<open>\<open>draft\<close> locks three times: to insert, to persist, and to remove the item again.\<close>

definition draft ::
  "change_world \<Rightarrow> (nat \<Rightarrow> uuid) \<Rightarrow> change_set_draft_request \<Rightarrow> change_exec \<Rightarrow>
   (change_set, app_error) result \<times> change_exec" where
  "draft w fresh request cx =
     (case validate_draft request of
        Err e \<Rightarrow> (Err e, cx)
      | Panic \<Rightarrow> (Panic, cx)
      | Ok _ \<Rightarrow>
          (let new = new_item fresh request;
               cx = lock w cx;
               cx = cx\<lparr>cx_service := put_item (fresh 0) new (cx_service cx)\<rparr>;
               cx = lock w cx
           in case persist_locked (gw_disk w (cx_tick cx)) (cx_service cx) of
                (Ok _, s) \<Rightarrow> (Ok (sd_public new), cx\<lparr>cx_service := s\<rparr>)
              | (Panic, s) \<Rightarrow> (Panic, cx\<lparr>cx_service := s\<rparr>)
              | (Err e, s) \<Rightarrow>
                  (let cx = lock w (cx\<lparr>cx_service := s\<rparr>);
                       s = cx_service cx
                   in (Err e, cx\<lparr>cx_service := s\<lparr>sc_items := AList.delete (fresh 0) (sc_items s)\<rparr>\<rparr>))))"

definition get_change_set :: "uuid \<Rightarrow> change_service \<Rightarrow> (change_set, app_error) result" where
  "get_change_set i s = ok_or (Remote InvalidOperation) (map_option sd_public (item i s))"

definition list_change_sets :: "change_service \<Rightarrow> change_set list" where
  "list_change_sets s = sort_key cs_id (map (sd_public \<circ> snd) (sc_items s))"

definition precondition_binding_digest ::
  "(string \<Rightarrow> string) \<Rightarrow> uuid \<Rightarrow> u64 \<Rightarrow> change_service \<Rightarrow> (string, app_error) result" where
  "precondition_binding_digest sha i version s =
     (case item i s of
        None \<Rightarrow> invalid_operation
      | Some stored \<Rightarrow>
          if cs_version (sd_public stored) \<noteq> version \<or> cs_recovery_state (sd_public stored) \<noteq> Live
             \<or> length (sd_precondition_bindings stored) \<noteq> length (cs_steps (sd_public stored))
          then invalid_operation
          else Ok (sha (concat (map pb_digest (sd_precondition_bindings stored)))))"

text \<open>The guard shared by the review operations.\<close>

definition reviewable :: "u64 \<Rightarrow> change_set \<Rightarrow> bool" where
  "reviewable version p \<longleftrightarrow>
     cs_version p = version \<and> cs_execution_state p = NotStarted \<and> cs_recovery_state p = Live"

definition revised_item ::
  "(nat \<Rightarrow> uuid) \<Rightarrow> change_set_draft_request \<Rightarrow> stored_change_set \<Rightarrow> stored_change_set" where
  "revised_item fresh request stored =
     (let steps = public_steps fresh (dq_steps request);
          p = sd_public stored
      in \<lparr>sd_public = p\<lparr>cs_version := saturating_add (cs_version p) 1,
            cs_agent_run_id := dq_agent_run_id request, cs_session_id := dq_session_id request,
            cs_title := dq_title request, cs_steps := steps, cs_risk := steps_risk steps,
            cs_approval_state := ApprovalInvalidated, cs_approved_version := None,
            cs_preconditions := [], cs_policy_evaluation := None, cs_policy_snapshot := None,
            cs_approved_step_ids := []\<rparr>,
          sd_payloads = dq_steps request, sd_precondition_bindings = [], sd_policy_binding = None\<rparr>)"

definition revise ::
  "persist_steps \<Rightarrow> (nat \<Rightarrow> uuid) \<Rightarrow> uuid \<Rightarrow> change_set_draft_request \<Rightarrow> change_service \<Rightarrow>
   (change_set, app_error) result \<times> change_service" where
  "revise disk fresh i request s =
     (case validate_draft request of
        Err e \<Rightarrow> (Err e, s)
      | Panic \<Rightarrow> (Panic, s)
      | Ok _ \<Rightarrow>
          (case item i s of
             None \<Rightarrow> (invalid_operation, s)
           | Some stored \<Rightarrow>
               if cs_execution_state (sd_public stored) \<noteq> NotStarted
                  \<or> cs_recovery_state (sd_public stored) \<noteq> Live
               then (invalid_operation, s)
               else commit_or_restore disk i stored (revised_item fresh request stored) s))"

definition approved :: "u64 \<Rightarrow> change_set \<Rightarrow> change_set" where
  "approved version p = p\<lparr>cs_approval_state := ApprovalGiven, cs_approved_version := Some version\<rparr>"

definition approve ::
  "persist_steps \<Rightarrow> uuid \<Rightarrow> u64 \<Rightarrow> change_service \<Rightarrow> (change_set, app_error) result \<times> change_service" where
  "approve disk i version s =
     (case item i s of
        None \<Rightarrow> (invalid_operation, s)
      | Some stored \<Rightarrow>
          (let p = sd_public stored
           in if \<not> reviewable version p
                 \<or> is_none_or (\<lambda>e. \<not> permits_execution e) (cs_policy_evaluation p)
                 \<or> cs_policy_snapshot p = None
                 \<or> (case cs_policy_evaluation p of
                      Some e \<Rightarrow> pe_decision e = RequireStepApproval | None \<Rightarrow> False)
              then (invalid_operation, s)
              else commit_or_restore disk i stored (stored\<lparr>sd_public := approved version p\<rparr>) s))"

definition approve_step ::
  "persist_steps \<Rightarrow> uuid \<Rightarrow> u64 \<Rightarrow> uuid \<Rightarrow> change_service \<Rightarrow>
   (change_set, app_error) result \<times> change_service" where
  "approve_step disk i version step_id s =
     (case item i s of
        None \<Rightarrow> (invalid_operation, s)
      | Some stored \<Rightarrow>
          (let p = sd_public stored
           in if \<not> reviewable version p \<or> cs_policy_snapshot p = None
                 \<or> is_none_or (\<lambda>e. pe_decision e \<noteq> RequireStepApproval) (cs_policy_evaluation p)
                 \<or> step_id \<notin> gs_id ` set (cs_steps p)
              then (invalid_operation, s)
              else
                (let ids = (if step_id \<in> set (cs_approved_step_ids p) then cs_approved_step_ids p
                            else sort (cs_approved_step_ids p @ [step_id]));
                     p' = p\<lparr>cs_approved_step_ids := ids\<rparr>;
                     p'' = (if length ids = length (cs_steps p') then approved version p' else p')
                 in commit_or_restore disk i stored (stored\<lparr>sd_public := p''\<rparr>) s)))"

definition reject ::
  "persist_steps \<Rightarrow> uuid \<Rightarrow> u64 \<Rightarrow> change_service \<Rightarrow> (change_set, app_error) result \<times> change_service" where
  "reject disk i version s =
     (case item i s of
        None \<Rightarrow> (invalid_operation, s)
      | Some stored \<Rightarrow>
          if \<not> reviewable version (sd_public stored) then (invalid_operation, s)
          else commit_or_restore disk i stored
                 (stored\<lparr>sd_public := (sd_public stored)\<lparr>cs_approval_state := ApprovalRejected,
                    cs_approved_version := None\<rparr>\<rparr>) s)"

end
