(* ===== verification/Change_Set_Run.thy ===== *)
theory Change_Set_Run
  imports Change_Set_Service
begin

text \<open>
  The operations of the change-set service that ask the policy or run tools (agentic/changes.rs):
  the policy check, the capture of preconditions, the execution with its durable claim and its
  rollback, the rollback of a finished change set and its verification.
\<close>

section \<open>The policy check\<close>

definition step_request ::
  "policy_check_context \<Rightarrow> native_tool_name \<Rightarrow> risk_level \<Rightarrow> policy_evaluation_request" where
  "step_request ctx tool risk =
     \<lparr>rq_target = pk_target ctx, rq_tool = tool, rq_risk_level = risk,
      rq_resource_impact = resource_impact_for tool, rq_target_count = pk_target_count ctx,
      rq_execution_strategy = pk_execution_strategy ctx, rq_source = pk_source ctx\<rparr>"

text \<open>One evaluation per payload; the risk is read from the step at the same position.\<close>

fun evaluate_payloads ::
  "change_world \<Rightarrow> policy_check_context \<Rightarrow> change_step list \<Rightarrow> change_step_draft list \<Rightarrow> change_exec \<Rightarrow>
   (policy_evaluation list, app_error) result \<times> change_exec" where
  "evaluate_payloads w ctx steps [] cx = (Ok [], cx)"
| "evaluate_payloads w ctx [] (payload # payloads) cx = (Panic, cx)"
| "evaluate_payloads w ctx (step # steps) (payload # payloads) cx =
     (case evaluate_policy w (step_request ctx (invocation_name (invocation payload)) (gs_risk step)) cx of
        (Err e, cx) \<Rightarrow> (Err e, cx)
      | (Panic, cx) \<Rightarrow> (Panic, cx)
      | (Ok e, cx) \<Rightarrow>
          (case evaluate_payloads w ctx steps payloads cx of
             (Ok es, cx) \<Rightarrow> (Ok (e # es), cx)
           | (r, cx) \<Rightarrow> (r, cx)))"

definition checked_item :: "policy_evaluation \<Rightarrow> policy_check_context \<Rightarrow> stored_change_set \<Rightarrow> stored_change_set" where
  "checked_item e ctx stored =
     (let p = (sd_public stored)\<lparr>cs_policy_evaluation := Some e,
                 cs_policy_snapshot := Some (policy_snapshot_from e)\<rparr>;
          p = (if permits_execution e then p
               else p\<lparr>cs_approval_state := ApprovalInvalidated, cs_approved_version := None\<rparr>)
      in stored\<lparr>sd_public := p, sd_policy_binding := Some ctx\<rparr>)"

text \<open>Runs a locked section that ends in a write.\<close>

definition in_lock ::
  "change_world \<Rightarrow> (persist_steps \<Rightarrow> change_service \<Rightarrow> ('a, app_error) result \<times> change_service) \<Rightarrow>
   change_exec \<Rightarrow> ('a, app_error) result \<times> change_exec" where
  "in_lock w section cx =
     (let cx = lock w cx; (r, s) = section (gw_disk w (cx_tick cx)) (cx_service cx)
      in (r, cx\<lparr>cx_service := s\<rparr>))"

definition commit_check ::
  "uuid \<Rightarrow> u64 \<Rightarrow> policy_evaluation \<Rightarrow> policy_check_context \<Rightarrow> persist_steps \<Rightarrow> change_service \<Rightarrow>
   (change_set, app_error) result \<times> change_service" where
  "commit_check i version e ctx disk s =
     (case item i s of
        None \<Rightarrow> (invalid_operation, s)
      | Some stored \<Rightarrow>
          if cs_version (sd_public stored) \<noteq> version then (invalid_operation, s)
          else commit disk i (checked_item e ctx stored) s)"

definition check_policy ::
  "change_world \<Rightarrow> uuid \<Rightarrow> u64 \<Rightarrow> policy_check_context \<Rightarrow> change_exec \<Rightarrow>
   (change_set, app_error) result \<times> change_exec" where
  "check_policy w i version ctx cx =
     (let cx = lock w cx in
      case item i (cx_service cx) of
        None \<Rightarrow> (invalid_operation, cx)
      | Some stored \<Rightarrow>
          if cs_version (sd_public stored) \<noteq> version \<or> cs_recovery_state (sd_public stored) \<noteq> Live
             \<or> pk_target_count ctx = 0
          then (invalid_operation, cx)
          else
            (case evaluate_payloads w ctx (cs_steps (sd_public stored)) (sd_payloads stored) cx of
               (Err e, cx) \<Rightarrow> (Err e, cx)
             | (Panic, cx) \<Rightarrow> (Panic, cx)
             | (Ok evaluations, cx) \<Rightarrow>
                 (case combine_policy_evaluations evaluations of
                    Err e \<Rightarrow> (Err e, cx)
                  | Panic \<Rightarrow> (Panic, cx)
                  | Ok evaluation \<Rightarrow> in_lock w (commit_check i version evaluation ctx) cx)))"

section \<open>Preconditions\<close>

definition read_request :: "change_world \<Rightarrow> uuid \<Rightarrow> native_tool_invocation \<Rightarrow> change_exec \<Rightarrow> native_tool_request" where
  "read_request w session_id operation cx = request_new (gw_uuid w (cx_tick cx)) (gw_uuid w (cx_tick cx)) session_id operation"

definition approved_request ::
  "change_world \<Rightarrow> uuid \<Rightarrow> native_tool_invocation \<Rightarrow> tool_execution_authority \<Rightarrow> change_exec \<Rightarrow> native_tool_request"
  where
  "approved_request w session_id operation authority cx =
     request_approved (gw_uuid w (cx_tick cx)) (gw_uuid w (cx_tick cx)) session_id operation authority"

fun capture_checks ::
  "change_world \<Rightarrow> uuid \<Rightarrow> change_step list \<Rightarrow> change_step_draft list \<Rightarrow> change_exec \<Rightarrow>
   ((precondition_binding \<times> change_precondition) list, app_error) result \<times> change_exec" where
  "capture_checks w session_id steps [] cx = (Ok [], cx)"
| "capture_checks w session_id steps (payload # payloads) cx =
     (let check = precondition_invocation payload in
      case call_tool w (read_request w session_id check cx) cx of
        (Err e, cx) \<Rightarrow> (Err e, cx)
      | (Panic, cx) \<Rightarrow> (Panic, cx)
      | (Ok res, cx) \<Rightarrow>
          if \<not> tr_success res then (invalid_operation, cx)
          else case steps of
              [] \<Rightarrow> (Panic, cx)
            | step # steps \<Rightarrow>
                (case capture_checks w session_id steps payloads cx of
                   (Ok captured, cx) \<Rightarrow>
                     (Ok ((\<lparr>pb_invocation = check, pb_digest = result_digest w res\<rparr>,
                           \<lparr>cp_step_id = gs_id step, cp_target_id = session_id,
                            cp_check_tool = tool_as_str (invocation_name check),
                            cp_observed_at_epoch_ms = tr_started_at_epoch_ms res,
                            cp_state = ''captured''\<rparr>) # captured), cx)
                 | (r, cx) \<Rightarrow> (r, cx)))"

definition commit_preconditions ::
  "uuid \<Rightarrow> u64 \<Rightarrow> (precondition_binding \<times> change_precondition) list \<Rightarrow> persist_steps \<Rightarrow> change_service \<Rightarrow>
   (change_set, app_error) result \<times> change_service" where
  "commit_preconditions i version captured disk s =
     (case item i s of
        None \<Rightarrow> (invalid_operation, s)
      | Some stored \<Rightarrow>
          if cs_version (sd_public stored) \<noteq> version \<or> cs_execution_state (sd_public stored) \<noteq> NotStarted
          then (invalid_operation, s)
          else commit disk i
                 (stored\<lparr>sd_precondition_bindings := map fst captured,
                         sd_public := (sd_public stored)\<lparr>cs_preconditions := map snd captured\<rparr>\<rparr>) s)"

definition capture_preconditions ::
  "change_world \<Rightarrow> uuid \<Rightarrow> u64 \<Rightarrow> change_exec \<Rightarrow> (change_set, app_error) result \<times> change_exec" where
  "capture_preconditions w i version cx =
     (let cx = lock w cx in
      case item i (cx_service cx) of
        None \<Rightarrow> (invalid_operation, cx)
      | Some stored \<Rightarrow>
          if \<not> reviewable version (sd_public stored) then (invalid_operation, cx)
          else
            (case capture_checks w (cs_session_id (sd_public stored)) (cs_steps (sd_public stored))
                    (sd_payloads stored) cx of
               (Err e, cx) \<Rightarrow> (Err e, cx)
             | (Panic, cx) \<Rightarrow> (Panic, cx)
             | (Ok captured, cx) \<Rightarrow> in_lock w (commit_preconditions i version captured) cx))"

definition approve_with_preconditions ::
  "change_world \<Rightarrow> uuid \<Rightarrow> u64 \<Rightarrow> change_exec \<Rightarrow> (change_set, app_error) result \<times> change_exec" where
  "approve_with_preconditions w i version cx =
     (case capture_preconditions w i version cx of
        (Ok _, cx) \<Rightarrow> in_lock w (\<lambda>disk. approve disk i version) cx
      | (r, cx) \<Rightarrow> (r, cx))"

definition invalidated :: "change_set \<Rightarrow> change_set" where
  "invalidated p = p\<lparr>cs_approval_state := ApprovalInvalidated, cs_approved_version := None\<rparr>"

definition invalidate_with ::
  "(change_set \<Rightarrow> change_set) \<Rightarrow> uuid \<Rightarrow> u64 \<Rightarrow> persist_steps \<Rightarrow> change_service \<Rightarrow>
   (change_set, app_error) result \<times> change_service" where
  "invalidate_with f i version disk s =
     (case item i s of
        None \<Rightarrow> (invalid_operation, s)
      | Some stored \<Rightarrow>
          if cs_version (sd_public stored) \<noteq> version then (invalid_operation, s)
          else commit disk i (stored\<lparr>sd_public := f (sd_public stored)\<rparr>) s)"

definition invalidate_for_policy_change ::
  "uuid \<Rightarrow> u64 \<Rightarrow> persist_steps \<Rightarrow> change_service \<Rightarrow> (change_set, app_error) result \<times> change_service" where
  "invalidate_for_policy_change = invalidate_with invalidated"

definition invalidate_for_precondition_change ::
  "uuid \<Rightarrow> u64 \<Rightarrow> persist_steps \<Rightarrow> change_service \<Rightarrow> (change_set, app_error) result \<times> change_service" where
  "invalidate_for_precondition_change =
     invalidate_with (\<lambda>p. (invalidated p)\<lparr>cs_preconditions :=
        map (\<lambda>c. c\<lparr>cp_state := ''changed''\<rparr>) (cs_preconditions p)\<rparr>)"

section \<open>Execution\<close>

text \<open>The preconditions are read again; a difference invalidates the approval.\<close>

fun recheck ::
  "change_world \<Rightarrow> uuid \<Rightarrow> u64 \<Rightarrow> uuid \<Rightarrow> precondition_binding list \<Rightarrow> change_exec \<Rightarrow>
   (unit, app_error) result \<times> change_exec" where
  "recheck w i version session_id [] cx = (Ok (), cx)"
| "recheck w i version session_id (b # bindings) cx =
     (case call_tool w (read_request w session_id (pb_invocation b) cx) cx of
        (Err e, cx) \<Rightarrow> (Err e, cx)
      | (Panic, cx) \<Rightarrow> (Panic, cx)
      | (Ok res, cx) \<Rightarrow>
          if \<not> tr_success res \<or> result_digest w res \<noteq> pb_digest b
          then (case in_lock w (invalidate_for_precondition_change i version) cx of
                  (Ok _, cx) \<Rightarrow> (invalid_operation, cx)
                | (Err e, cx) \<Rightarrow> (Err e, cx)
                | (Panic, cx) \<Rightarrow> (Panic, cx))
          else recheck w i version session_id bindings cx)"

definition claimable :: "u64 \<Rightarrow> stored_change_set \<Rightarrow> bool" where
  "claimable version stored \<longleftrightarrow>
     (let p = sd_public stored
      in cs_version p = version \<and> cs_approved_version p = Some version
         \<and> cs_approval_state p = ApprovalGiven \<and> cs_execution_state p = NotStarted
         \<and> cs_recovery_state p = Live \<and> length (sd_payloads stored) = length (cs_steps p))"

definition claim ::
  "uuid \<Rightarrow> u64 \<Rightarrow> persist_steps \<Rightarrow> change_service \<Rightarrow>
   (change_set \<times> change_step_draft list, app_error) result \<times> change_service" where
  "claim i version disk s =
     (case item i s of
        None \<Rightarrow> (invalid_operation, s)
      | Some stored \<Rightarrow>
          if \<not> claimable version stored then (invalid_operation, s)
          else
            (let claimed = stored\<lparr>sd_public := (sd_public stored)\<lparr>cs_execution_state := Executing\<rparr>\<rparr>
             in case commit_or_restore disk i stored claimed s of
                  (Ok p, s) \<Rightarrow> (Ok (p, sd_payloads stored), s)
                | (Err e, s) \<Rightarrow> (Err e, s)
                | (Panic, s) \<Rightarrow> (Panic, s)))"

definition store_execution_snapshot ::
  "uuid \<Rightarrow> change_set \<Rightarrow> persist_steps \<Rightarrow> change_service \<Rightarrow> (change_set, app_error) result \<times> change_service" where
  "store_execution_snapshot i p disk s =
     (case item i s of
        None \<Rightarrow> (invalid_operation, s)
      | Some stored \<Rightarrow> commit disk i (stored\<lparr>sd_public := p\<rparr>) s)"

definition set_change_step :: "nat \<Rightarrow> (change_step \<Rightarrow> change_step) \<Rightarrow> change_set \<Rightarrow> change_set" where
  "set_change_step index f p = p\<lparr>cs_steps := (cs_steps p)[index := f (cs_steps p ! index)]\<rparr>"

text \<open>The reverse patches of the completed file steps, the last one first.\<close>

fun reverse_patches ::
  "change_world \<Rightarrow> tool_execution_authority \<Rightarrow> (nat \<times> change_step_draft) list \<Rightarrow> bool \<Rightarrow> bool \<Rightarrow> change_set \<Rightarrow>
   change_exec \<Rightarrow> bool \<times> bool \<times> change_set \<times> change_exec" where
  "reverse_patches w authority [] attempted failed p cx = (attempted, failed, p, cx)"
| "reverse_patches w authority ((index, step) # rest) attempted failed p cx =
     (case step of
        DraftFilePatch f expected replacement \<Rightarrow>
          (case call_tool w (approved_request w (cs_session_id p) (InvFilePatch f replacement expected)
                   (authority\<lparr>ta_rollback := True\<rparr>) cx) cx of
             (r, cx) \<Rightarrow>
               if (case r of Ok res \<Rightarrow> tr_success res | _ \<Rightarrow> False)
               then reverse_patches w authority rest True failed
                      (set_change_step index (\<lambda>s. s\<lparr>gs_state := ChangeStepRolledBack\<rparr>) p) cx
               else reverse_patches w authority rest True True p cx)
      | _ \<Rightarrow> reverse_patches w authority rest attempted failed p cx)"

fun is_file_patch :: "change_step_draft \<Rightarrow> bool" where
  "is_file_patch (DraftFilePatch _ _ _) = True"
| "is_file_patch _ = False"

definition rollback_files ::
  "change_world \<Rightarrow> tool_execution_authority \<Rightarrow> (nat \<times> change_step_draft) list \<Rightarrow> change_set \<Rightarrow> change_exec \<Rightarrow>
   change_set \<times> change_exec" where
  "rollback_files w authority completed p cx =
     (case reverse_patches w authority (rev completed) False
             (list_ex (\<lambda>(_, step). \<not> is_file_patch step) completed) p cx of
        (attempted, failed, p, cx) \<Rightarrow>
          (if attempted
           then p\<lparr>cs_execution_state := (if failed then RollbackFailed else RolledBack)\<rparr> else p, cx))"

definition failed_step :: "nat \<Rightarrow> string option \<Rightarrow> change_set \<Rightarrow> change_set" where
  "failed_step index code p =
     (set_change_step index (\<lambda>s. s\<lparr>gs_state := ChangeStepFailed, gs_error_code := code\<rparr>) p)
       \<lparr>cs_execution_state := ExecutionFailed\<rparr>"

text \<open>
  The loop over the payloads, with the position, the change set as this task sees it and the
  completed steps. An early \<open>?\<close> is \<open>Err\<close>; \<open>break\<close> and the end of the loop are \<open>Ok\<close>.
\<close>

fun execute_steps ::
  "change_world \<Rightarrow> uuid \<Rightarrow> tool_execution_authority \<Rightarrow> nat \<Rightarrow> change_step_draft list \<Rightarrow>
   (nat \<times> change_step_draft) list \<Rightarrow> change_set \<Rightarrow> change_exec \<Rightarrow> (change_set, app_error) result \<times> change_exec"
  where
  "execute_steps w i authority index [] completed p cx = (Ok p, cx)"
| "execute_steps w i authority index (payload # payloads) completed p cx =
     (case call_tool w (approved_request w (cs_session_id p) (invocation payload) authority cx) cx of
        (Panic, cx) \<Rightarrow> (Panic, cx)
      | (Err e, cx) \<Rightarrow>
          (case rollback_files w authority completed (failed_step index (Some (app_error_code e)) p) cx of
             (p, cx) \<Rightarrow> in_lock w (store_execution_snapshot i p) cx)
      | (Ok res, cx) \<Rightarrow>
          if tr_success res
          then (let p = set_change_step index (\<lambda>s. s\<lparr>gs_state := ChangeStepSucceeded\<rparr>) p
                in case in_lock w (store_execution_snapshot i p) cx of
                     (Ok _, cx) \<Rightarrow>
                       execute_steps w i authority (Suc index) payloads (completed @ [(index, payload)]) p cx
                   | (Err e, cx) \<Rightarrow> (Err e, cx)
                   | (Panic, cx) \<Rightarrow> (Panic, cx))
          else (case rollback_files w authority completed (failed_step index (tr_error_code res) p) cx of
                  (p, cx) \<Rightarrow> (Ok p, cx)))"

definition run_claimed ::
  "change_world \<Rightarrow> uuid \<Rightarrow> change_set \<Rightarrow> change_step_draft list \<Rightarrow> change_exec \<Rightarrow>
   (change_set, app_error) result \<times> change_exec" where
  "run_claimed w i p payloads cx =
     (let authority = \<lparr>ta_agent_run_id = cs_agent_run_id p, ta_change_set_id = cs_id p,
                       ta_change_set_version = cs_version p, ta_rollback = False\<rparr>
      in case execute_steps w i authority 0 payloads [] p cx of
           (Err e, cx) \<Rightarrow> (Err e, cx)
         | (Panic, cx) \<Rightarrow> (Panic, cx)
         | (Ok p, cx) \<Rightarrow>
             in_lock w (store_execution_snapshot i
               (if cs_execution_state p = Executing then p\<lparr>cs_execution_state := Committed\<rparr> else p)) cx)"

definition execute_with_policy ::
  "change_world \<Rightarrow> uuid \<Rightarrow> u64 \<Rightarrow> change_exec \<Rightarrow> (change_set, app_error) result \<times> change_exec" where
  "execute_with_policy w i version cx =
     (let cx = lock w cx in
      case item i (cx_service cx) of
        None \<Rightarrow> (invalid_operation, cx)
      | Some stored \<Rightarrow>
         (case (cs_policy_snapshot (sd_public stored), sd_policy_binding stored) of
            (Some snapshot, Some binding) \<Rightarrow>
              if \<not> current_matches (gw_policy w (cx_tick cx)) snapshot
              then (case in_lock w (invalidate_for_policy_change i version) cx of
                      (Ok _, cx) \<Rightarrow> (invalid_operation, cx)
                    | (r, cx) \<Rightarrow> (r, cx))
              else
                (case check_policy w i version binding cx of
                   (Err e, cx) \<Rightarrow> (Err e, cx)
                 | (Panic, cx) \<Rightarrow> (Panic, cx)
                 | (Ok checked, cx) \<Rightarrow>
                     if is_none_or (\<lambda>e. \<not> permits_execution e) (cs_policy_evaluation checked)
                     then (invalid_operation, cx)
                     else
                       (let cx = lock w cx in
                        case item i (cx_service cx) of
                          None \<Rightarrow> (invalid_operation, cx)
                        | Some stored \<Rightarrow>
                            if length (sd_precondition_bindings stored) \<noteq> length (sd_payloads stored)
                            then (invalid_operation, cx)
                            else
                              (case recheck w i version (cs_session_id (sd_public stored))
                                      (sd_precondition_bindings stored) cx of
                                 (Err e, cx) \<Rightarrow> (Err e, cx)
                               | (Panic, cx) \<Rightarrow> (Panic, cx)
                               | (Ok _, cx) \<Rightarrow>
                                   (case in_lock w (claim i version) cx of
                                      (Err e, cx) \<Rightarrow> (Err e, cx)
                                    | (Panic, cx) \<Rightarrow> (Panic, cx)
                                    | (Ok (p, payloads), cx) \<Rightarrow> run_claimed w i p payloads cx))))
          | _ \<Rightarrow> (invalid_operation, cx)))"

section \<open>Rollback and verification\<close>

definition rollback_allowed :: "u64 \<Rightarrow> stored_change_set \<Rightarrow> bool" where
  "rollback_allowed version stored \<longleftrightarrow>
     cs_version (sd_public stored) = version \<and> cs_recovery_state (sd_public stored) = Live
     \<and> cs_execution_state (sd_public stored) \<in> {Committed, ExecutionFailed}
     \<and> length (sd_payloads stored) = length (cs_steps (sd_public stored))"

definition rollback ::
  "change_world \<Rightarrow> uuid \<Rightarrow> u64 \<Rightarrow> change_exec \<Rightarrow> (change_set, app_error) result \<times> change_exec" where
  "rollback w i version cx =
     (let cx = lock w cx in
      case item i (cx_service cx) of
        None \<Rightarrow> (invalid_operation, cx)
      | Some stored \<Rightarrow>
          if \<not> rollback_allowed version stored then (invalid_operation, cx)
          else
            (let p = sd_public stored;
                 authority = \<lparr>ta_agent_run_id = cs_agent_run_id p, ta_change_set_id = cs_id p,
                              ta_change_set_version = cs_version p, ta_rollback = True\<rparr>;
                 completed = filter (\<lambda>(index, _). gs_state (cs_steps p ! index) = ChangeStepSucceeded)
                               (enumerate 0 (sd_payloads stored));
                 (p, cx) = rollback_files w authority completed p cx;
                 p = (if cs_execution_state p \<in> {RolledBack, RollbackFailed} then p
                      else p\<lparr>cs_execution_state := RollbackFailed\<rparr>)
             in in_lock w (store_execution_snapshot i p) cx))"

fun verify_steps ::
  "change_world \<Rightarrow> uuid \<Rightarrow> change_step list \<Rightarrow> change_step_draft list \<Rightarrow> change_exec \<Rightarrow>
   (bool, app_error) result \<times> change_exec" where
  "verify_steps w session_id [] payloads cx = (Ok True, cx)"
| "verify_steps w session_id (step # steps) payloads cx =
     (if gs_state step \<noteq> ChangeStepSucceeded then (Ok False, cx)
      else case payloads of
          [] \<Rightarrow> (invalid_operation, cx)
        | payload # payloads \<Rightarrow>
            (case call_tool w (read_request w session_id (verification_invocation payload) cx) cx of
               (Err e, cx) \<Rightarrow> (Err e, cx)
             | (Panic, cx) \<Rightarrow> (Panic, cx)
             | (Ok res, cx) \<Rightarrow>
                 if \<not> tr_success res \<or> \<not> verification_plan_satisfied (gs_verification_plan_code step) res
                 then (Ok False, cx)
                 else verify_steps w session_id steps payloads cx))"

definition verify_execution ::
  "change_world \<Rightarrow> uuid \<Rightarrow> u64 \<Rightarrow> change_exec \<Rightarrow> (bool, app_error) result \<times> change_exec" where
  "verify_execution w i version cx =
     (let cx = lock w cx in
      case item i (cx_service cx) of
        None \<Rightarrow> (invalid_operation, cx)
      | Some stored \<Rightarrow>
          if cs_version (sd_public stored) \<noteq> version then (invalid_operation, cx)
          else if cs_execution_state (sd_public stored) \<noteq> Committed then (Ok False, cx)
          else verify_steps w (cs_session_id (sd_public stored)) (cs_steps (sd_public stored))
                 (sd_payloads stored) cx)"

end
