(* ===== verification/Change_Set_Safety.thy ===== *)
theory Change_Set_Safety
  imports Change_Set_Run
begin

text \<open>
  What the execution of a change set may do to a server (agentic/changes.rs): the tool calls of
  an execution and of a rollback, in which order, and under which claim - whatever other tasks
  do to the service meanwhile and whatever the policy and the tools answer.
\<close>

section \<open>Progress\<close>

text \<open>\<open>cx'\<close> is later than \<open>cx\<close>, and the calls made in between are \<open>new\<close>.\<close>

definition extends :: "change_exec \<Rightarrow> change_exec \<Rightarrow> (nat \<times> native_tool_request) list \<Rightarrow> bool" where
  "extends cx cx' new \<longleftrightarrow>
     cx_calls cx' = cx_calls cx @ new \<and> cx_tick cx \<le> cx_tick cx'
     \<and> list_all (\<lambda>(t, q). cx_tick cx \<le> t \<and> t < cx_tick cx') new"

named_theorems progress \<open>what each piece of an operation adds to the trace\<close>

lemma extends_refl [simp]: "extends cx cx []"
  by (simp add: extends_def)

lemma extends_trans:
  "extends a b xs \<Longrightarrow> extends b c ys \<Longrightarrow> extends a c (xs @ ys)"
  by (fastforce simp: extends_def list_all_iff)

lemma extends_silent [trans]: "extends a b [] \<Longrightarrow> extends b c ys \<Longrightarrow> extends a c ys"
  using extends_trans [of a b "[]" c ys] by simp

lemma extends_then_silent [trans]: "extends a b xs \<Longrightarrow> extends b c [] \<Longrightarrow> extends a c xs"
  using extends_trans [of a b xs c "[]"] by simp

lemma extends_lock [progress]: "extends cx (lock w cx) []"
  by (simp add: extends_def lock_def)

lemma extends_in_lock [progress]: "in_lock w section cx = (r, cx') \<Longrightarrow> extends cx cx' []"
  by (auto simp: in_lock_def extends_def lock_def Let_def split: prod.splits)

lemma extends_call [progress]: "call_tool w q cx = (r, cx') \<Longrightarrow> extends cx cx' [(cx_tick cx, q)]"
  by (auto simp: call_tool_def extends_def)

lemma extends_evaluate [progress]: "evaluate_policy w q cx = (r, cx') \<Longrightarrow> extends cx cx' []"
  by (auto simp: evaluate_policy_def extends_def Let_def)

lemma extends_evaluate_payloads [progress]:
  "evaluate_payloads w ctx steps payloads cx = (r, cx') \<Longrightarrow> extends cx cx' []"
proof (induction w ctx steps payloads cx arbitrary: r cx' rule: evaluate_payloads.induct)
  case (3 w ctx step steps payload payloads cx)
  let ?q = "step_request ctx (invocation_name (invocation payload)) (gs_risk step)"
  obtain r1 cx1 where e: "evaluate_policy w ?q cx = (r1, cx1)" by fastforce
  note first = extends_evaluate [OF e]
  show ?case
  proof (cases r1)
    case (Ok x)
    obtain r2 cx2 where rest: "evaluate_payloads w ctx steps payloads cx1 = (r2, cx2)" by fastforce
    have "extends cx1 cx2 []" using "3.IH" [OF e [symmetric]] Ok rest by simp
    moreover have "cx' = cx2" using "3.prems" e Ok rest by (auto split: result.splits)
    ultimately show ?thesis using extends_silent [OF first] by simp
  qed (use "3.prems" e first in auto)
qed simp_all

lemma extends_check_policy [progress]:
  assumes "check_policy w i version ctx cx = (r, cx')"
  shows "extends cx cx' []"
proof -
  let ?cx = "lock w cx"
  have l: "extends cx ?cx []" by (rule extends_lock)
  show ?thesis
  proof (cases "item i (cx_service ?cx)")
    case None
    with assms l show ?thesis by (simp add: check_policy_def)
  next
    case (Some stored)
    obtain r1 cx1 where e: "evaluate_payloads w ctx (cs_steps (sd_public stored)) (sd_payloads stored) ?cx
        = (r1, cx1)" by fastforce
    from extends_silent [OF l extends_evaluate_payloads [OF e]] have "extends cx cx1 []" .
    with assms Some e l show ?thesis
      by (auto simp: check_policy_def Let_def split: if_splits result.splits
          intro: extends_silent [OF _ extends_in_lock])
  qed
qed

section \<open>Reads\<close>

definition reads_only :: "(nat \<times> native_tool_request) list \<Rightarrow> bool" where
  "reads_only calls \<longleftrightarrow> list_all (\<lambda>(t, q). nq_authority q = None) calls"

lemma reads_only_simps [simp]:
  "reads_only []" "reads_only (xs @ ys) \<longleftrightarrow> reads_only xs \<and> reads_only ys"
  "reads_only ((t, read_request w sid op cx) # ys) \<longleftrightarrow> reads_only ys"
  by (simp_all add: reads_only_def read_request_def request_new_def)

lemma extends_recheck:
  "recheck w i version sid bindings cx = (r, cx') \<Longrightarrow> \<exists>reads. extends cx cx' reads \<and> reads_only reads"
proof (induction bindings arbitrary: cx)
  case Nil
  then show ?case by (auto intro: exI [of _ "[]"])
next
  case (Cons b bindings)
  let ?q = "read_request w sid (pb_invocation b) cx"
  obtain r1 cx1 where call: "call_tool w ?q cx = (r1, cx1)" by fastforce
  note first = extends_call [OF call]
  have stop: ?case if "extends cx1 cx' []"
    using extends_then_silent [OF first that] by (intro exI [of _ "[(cx_tick cx, ?q)]"]) simp
  show ?case
  proof (cases r1)
    case (Ok res)
    show ?thesis
    proof (cases "\<not> tr_success res \<or> result_digest w res \<noteq> pb_digest b")
      case True
      obtain r2 cx2 where "in_lock w (invalidate_for_precondition_change i version) cx1 = (r2, cx2)" by fastforce
      with Cons.prems call Ok True extends_in_lock show ?thesis
        by (intro stop) (auto split: result.splits)
    next
      case False
      with Cons.prems call Ok have "recheck w i version sid bindings cx1 = (r, cx')" by simp
      from Cons.IH [OF this] obtain reads where "extends cx1 cx' reads" "reads_only reads" by blast
      with extends_trans [OF first, of cx' reads] show ?thesis
        by (intro exI [of _ "[(cx_tick cx, ?q)] @ reads"]) simp
    qed
  qed (use Cons.prems call stop in auto)
qed

section \<open>Writes\<close>

fun undo :: "change_step_draft \<Rightarrow> native_tool_invocation list" where
  "undo (DraftFilePatch f expected replacement) = [InvFilePatch f replacement expected]"
| "undo _ = []"

definition invocations :: "(nat \<times> native_tool_request) list \<Rightarrow> native_tool_invocation list" where
  "invocations calls = map (\<lambda>(t, q). nq_invocation q) calls"

definition authorized_by ::
  "tool_execution_authority \<Rightarrow> uuid \<Rightarrow> (nat \<times> native_tool_request) list \<Rightarrow> bool" where
  "authorized_by authority sid calls \<longleftrightarrow>
     list_all (\<lambda>(t, q). nq_authority q = Some authority \<and> nq_session_id q = sid) calls"

lemma authorized_by_simps [simp]:
  "authorized_by a sid []"
  "authorized_by a sid (c # calls) \<longleftrightarrow>
     nq_authority (snd c) = Some a \<and> nq_session_id (snd c) = sid \<and> authorized_by a sid calls"
  by (auto simp: authorized_by_def split: prod.splits)

lemma invocations_simps [simp]:
  "invocations [] = []" "invocations (c # calls) = nq_invocation (snd c) # invocations calls"
  by (auto simp: invocations_def split: prod.splits)

lemma approved_request_sel [simp]:
  "nq_authority (approved_request w sid op a cx) = Some a"
  "nq_session_id (approved_request w sid op a cx) = sid"
  "nq_invocation (approved_request w sid op a cx) = op"
  by (simp_all add: approved_request_def request_approved_def)

lemma set_step_session [simp]: "cs_session_id (set_change_step n f p) = cs_session_id p"
  by (simp add: set_change_step_def)

lemma failed_step_session [simp]: "cs_session_id (failed_step n code p) = cs_session_id p"
  by (simp add: failed_step_def)

lemma extends_reverse_patches:
  "reverse_patches w authority steps attempted failed p cx = (a, f, p', cx') \<Longrightarrow>
     \<exists>rvs. extends cx cx' rvs \<and> invocations rvs = concat (map (\<lambda>e. undo (snd e)) steps)
       \<and> authorized_by (authority\<lparr>ta_rollback := True\<rparr>) (cs_session_id p) rvs"
proof (induction steps arbitrary: attempted failed p cx)
  case Nil
  then show ?case by (auto intro: exI [of _ "[]"])
next
  case (Cons entry steps)
  obtain index step where entry: "entry = (index, step)" by fastforce
  show ?case
  proof (cases step)
    case (DraftFilePatch filename expected replacement)
    let ?a = "authority\<lparr>ta_rollback := True\<rparr>"
    let ?q = "approved_request w (cs_session_id p) (InvFilePatch filename replacement expected) ?a cx"
    obtain r1 cx1 where call: "call_tool w ?q cx = (r1, cx1)" by fastforce
    note first = extends_call [OF call]
    obtain failed1 p1 where rest:
        "reverse_patches w authority steps True failed1 p1 cx1 = (a, f, p', cx')"
      and sid: "cs_session_id p1 = cs_session_id p"
      using Cons.prems call by (auto simp: entry DraftFilePatch split: if_splits)
    from Cons.IH [OF rest] obtain rvs where rvs: "extends cx1 cx' rvs"
      "invocations rvs = concat (map (\<lambda>e. undo (snd e)) steps)" "authorized_by ?a (cs_session_id p1) rvs"
      by blast
    with extends_trans [OF first rvs(1)] sid show ?thesis
      by (intro exI [of _ "(cx_tick cx, ?q) # rvs"]) (simp add: entry DraftFilePatch)
  qed (use Cons entry in \<open>auto\<close>)
qed

lemma extends_rollback_files:
  assumes "rollback_files w authority completed p cx = (p', cx')"
  shows "\<exists>rvs. extends cx cx' rvs \<and> invocations rvs = concat (map undo (rev (map snd completed)))
    \<and> authorized_by (authority\<lparr>ta_rollback := True\<rparr>) (cs_session_id p) rvs"
proof -
  let ?failed = "list_ex (\<lambda>(_, step). \<not> is_file_patch step) completed"
  obtain a f p1 cx1 where "reverse_patches w authority (rev completed) False ?failed p cx = (a, f, p1, cx1)"
    by (metis prod_cases4)
  with assms extends_reverse_patches [OF this] show ?thesis
    by (auto simp: rollback_files_def rev_map comp_def)
qed

text \<open>
  The calls of a claimed change set: a prefix of its steps in order, and after a failed step the
  reverse patches of the file steps before it, the last one first.
\<close>

definition step_calls ::
  "tool_execution_authority \<Rightarrow> uuid \<Rightarrow> change_step_draft list \<Rightarrow> change_step_draft list \<Rightarrow>
   (nat \<times> native_tool_request) list \<Rightarrow> bool" where
  "step_calls authority sid before payloads calls \<longleftrightarrow>
     (\<exists>n forward rvs. calls = forward @ rvs \<and> n \<le> length payloads
        \<and> invocations forward = map invocation (take n payloads) \<and> authorized_by authority sid forward
        \<and> (rvs = [] \<or> (0 < n
             \<and> invocations rvs = concat (map undo (rev (before @ take (n - 1) payloads)))
             \<and> authorized_by (authority\<lparr>ta_rollback := True\<rparr>) sid rvs)))"

lemma step_calls_first:
  "step_calls authority sid before (payload # payloads) [c]"
  if "nq_authority (snd c) = Some authority" "nq_session_id (snd c) = sid"
    "nq_invocation (snd c) = invocation payload"
  unfolding step_calls_def
  using that by (intro exI [of _ 1] exI [of _ "[c]"] exI [of _ "[]"]) simp

lemma step_calls_undone:
  "step_calls authority sid before (payload # payloads) (c # rvs)"
  if "nq_authority (snd c) = Some authority" "nq_session_id (snd c) = sid"
    "nq_invocation (snd c) = invocation payload"
    "invocations rvs = concat (map undo (rev before))"
    "authorized_by (authority\<lparr>ta_rollback := True\<rparr>) sid rvs"
  unfolding step_calls_def
  using that by (intro exI [of _ 1] exI [of _ "[c]"] exI [of _ rvs]) simp

lemma step_calls_next:
  assumes "step_calls authority sid (before @ [payload]) payloads calls"
    and "nq_authority (snd c) = Some authority" "nq_session_id (snd c) = sid"
    "nq_invocation (snd c) = invocation payload"
  shows "step_calls authority sid before (payload # payloads) (c # calls)"
proof -
  from assms(1) obtain n forward rvs where "calls = forward @ rvs" "n \<le> length payloads"
    "invocations forward = map invocation (take n payloads)" "authorized_by authority sid forward"
    "rvs = [] \<or> (0 < n
       \<and> invocations rvs = concat (map undo (rev ((before @ [payload]) @ take (n - 1) payloads)))
       \<and> authorized_by (authority\<lparr>ta_rollback := True\<rparr>) sid rvs)"
    by (auto simp: step_calls_def)
  with assms(2-4) show ?thesis
    unfolding step_calls_def
    by (intro exI [of _ "Suc n"] exI [of _ "c # forward"] exI [of _ rvs]) (cases n; auto)
qed

lemma extends_execute_steps:
  "execute_steps w i authority index payloads completed p cx = (r, cx') \<Longrightarrow>
     \<exists>calls. extends cx cx' calls
       \<and> step_calls authority (cs_session_id p) (map snd completed) payloads calls"
proof (induction payloads arbitrary: index completed p cx)
  case Nil
  then show ?case
    by (auto simp: step_calls_def intro!: exI [of _ "[]"])
next
  case (Cons payload payloads)
  let ?q = "approved_request w (cs_session_id p) (invocation payload) authority cx"
  obtain r1 cx1 where call: "call_tool w ?q cx = (r1, cx1)" by fastforce
  note first = extends_call [OF call]
  have undone: "\<exists>calls. extends cx cx' calls
       \<and> step_calls authority (cs_session_id p) (map snd completed) (payload # payloads) calls"
    if rb: "rollback_files w authority completed (failed_step index code p) cx1 = (p2, cx2)"
      and rest: "extends cx2 cx' []" for code p2 cx2
  proof -
    from extends_rollback_files [OF rb] obtain rvs where "extends cx1 cx2 rvs"
      "invocations rvs = concat (map undo (rev (map snd completed)))"
      "authorized_by (authority\<lparr>ta_rollback := True\<rparr>) (cs_session_id p) rvs" by auto
    with extends_trans [OF first extends_then_silent [OF _ rest]] show ?thesis
      by (intro exI [of _ "(cx_tick cx, ?q) # rvs"]) (auto intro: step_calls_undone)
  qed
  show ?case
  proof (cases r1)
    case Panic
    with Cons.prems call first show ?thesis
      by (intro exI [of _ "[(cx_tick cx, ?q)]"]) (auto intro: step_calls_first)
  next
    case (Err e)
    obtain p2 cx2 where "rollback_files w authority completed
        (failed_step index (Some (app_error_code e)) p) cx1 = (p2, cx2)" by fastforce
    with Cons.prems call Err extends_in_lock show ?thesis by (intro undone) auto
  next
    case (Ok res)
    show ?thesis
    proof (cases "tr_success res")
      case False
      obtain p2 cx2 where "rollback_files w authority completed
          (failed_step index (tr_error_code res) p) cx1 = (p2, cx2)" by fastforce
      with Cons.prems call Ok False show ?thesis by (intro undone) auto
    next
      case True
      let ?p = "set_change_step index (\<lambda>s. s\<lparr>gs_state := ChangeStepSucceeded\<rparr>) p"
      obtain r2 cx2 where store: "in_lock w (store_execution_snapshot i ?p) cx1 = (r2, cx2)" by fastforce
      note stored = extends_then_silent [OF first extends_in_lock [OF store]]
      show ?thesis
      proof (cases r2)
        case (Ok p2)
        with Cons.prems call \<open>r1 = Ok res\<close> True store
        have "execute_steps w i authority (Suc index) payloads (completed @ [(index, payload)]) ?p cx2 = (r, cx')"
          by (simp add: Let_def)
        from Cons.IH [OF this] obtain calls where "extends cx2 cx' calls"
          "step_calls authority (cs_session_id p) (map snd completed @ [payload]) payloads calls" by auto
        with extends_trans [OF stored] show ?thesis
          by (intro exI [of _ "(cx_tick cx, ?q) # calls"]) (auto intro: step_calls_next)
      qed (use Cons.prems call \<open>r1 = Ok res\<close> True store stored in
          \<open>auto simp: Let_def intro!: exI [of _ "[(cx_tick cx, ?q)]"] intro: step_calls_first\<close>)
    qed
  qed
qed

section \<open>The claim\<close>

definition executing :: "stored_change_set \<Rightarrow> change_set" where
  "executing stored = (sd_public stored)\<lparr>cs_execution_state := Executing\<rparr>"

definition change_authority :: "change_set \<Rightarrow> bool \<Rightarrow> tool_execution_authority" where
  "change_authority p is_rollback =
     \<lparr>ta_agent_run_id = cs_agent_run_id p, ta_change_set_id = cs_id p,
      ta_change_set_version = cs_version p, ta_rollback = is_rollback\<rparr>"

lemma claim_Ok:
  "claim i version disk s = (Ok (p, payloads), s') \<Longrightarrow>
     \<exists>stored. item i s = Some stored \<and> claimable version stored \<and> p = executing stored
       \<and> payloads = sd_payloads stored"
  by (auto simp: claim_def commit_or_restore_def executing_def Let_def
      split: option.splits if_splits result.splits prod.splits)

lemma in_lock_claim:
  assumes "in_lock w (claim i version) cx = (Ok (p, payloads), cx')"
  shows "\<exists>s stored s'. item i s = Some stored \<and> s = gw_others w (cx_tick cx) (cx_service cx)
    \<and> claimable version stored \<and> p = executing stored \<and> payloads = sd_payloads stored
    \<and> claim i version (gw_disk w (Suc (cx_tick cx))) s = (Ok (p, payloads), s') \<and> cx_service cx' = s'"
proof -
  let ?s = "gw_others w (cx_tick cx) (cx_service cx)"
  from assms obtain s' where "claim i version (gw_disk w (Suc (cx_tick cx))) ?s = (Ok (p, payloads), s')"
    "cx_service cx' = s'"
    by (auto simp: in_lock_def lock_def Let_def split: prod.splits)
  with claim_Ok show ?thesis by blast
qed

lemma extends_run_claimed:
  assumes "run_claimed w i p payloads cx = (r, cx')"
  shows "\<exists>calls. extends cx cx' calls
    \<and> step_calls (change_authority p False) (cs_session_id p) [] payloads calls"
proof -
  let ?a = "change_authority p False"
  obtain r1 cx1 where run: "execute_steps w i ?a 0 payloads [] p cx = (r1, cx1)" by fastforce
  from extends_execute_steps [OF run] obtain calls
    where "extends cx cx1 calls" "step_calls ?a (cs_session_id p) [] payloads calls" by auto
  moreover have "extends cx1 cx' []"
    using assms run by (auto simp: run_claimed_def change_authority_def Let_def
        split: result.splits intro: extends_in_lock)
  ultimately show ?thesis using extends_then_silent by blast
qed

text \<open>Either nothing but reads, or reads, then a claim, then the calls of what was claimed.\<close>

definition claimed_writes ::
  "change_world \<Rightarrow> uuid \<Rightarrow> u64 \<Rightarrow> (nat \<times> native_tool_request) list \<Rightarrow> (nat \<times> native_tool_request) list \<Rightarrow> bool" where
  "claimed_writes w i version reads writes \<longleftrightarrow>
     (\<exists>t before s stored s'.
        claim i version (gw_disk w (Suc t)) s = (Ok (executing stored, sd_payloads stored), s')
        \<and> s = gw_others w t before \<and> item i s = Some stored \<and> claimable version stored
        \<and> list_all (\<lambda>(t', _). t' < t) reads \<and> list_all (\<lambda>(t', _). t < t') writes
        \<and> step_calls (change_authority (sd_public stored) False) (cs_session_id (sd_public stored)) []
            (sd_payloads stored) writes)"

lemma claim_and_run:
  assumes "in_lock w (claim i version) cx = (Ok (p, payloads), cx1)"
    and "run_claimed w i p payloads cx1 = (r, cx2)"
    and reads: "extends start cx reads"
  shows "\<exists>writes. cx_calls cx2 = cx_calls start @ reads @ writes \<and> claimed_writes w i version reads writes"
proof -
  from in_lock_claim [OF assms(1)] obtain s stored s' where claim: "item i s = Some stored"
    "s = gw_others w (cx_tick cx) (cx_service cx)" "claimable version stored" "p = executing stored"
    "payloads = sd_payloads stored"
    "claim i version (gw_disk w (Suc (cx_tick cx))) s = (Ok (p, payloads), s')"
    by blast
  from extends_run_claimed [OF assms(2)] obtain writes where writes: "extends cx1 cx2 writes"
    "step_calls (change_authority p False) (cs_session_id p) [] payloads writes" by blast
  from assms(1) have "cx_tick cx1 = Suc (cx_tick cx)"
    by (auto simp: in_lock_def lock_def Let_def split: prod.splits)
  moreover have "cx_calls cx1 = cx_calls cx"
    using extends_in_lock [OF assms(1)] by (simp add: extends_def)
  ultimately have "cx_calls cx2 = cx_calls start @ reads @ writes"
    "list_all (\<lambda>(t', _). t' < cx_tick cx) reads" "list_all (\<lambda>(t', _). cx_tick cx < t') writes"
    using writes(1) reads by (auto simp: extends_def list_all_iff)
  moreover from writes(2) have "step_calls (change_authority (sd_public stored) False)
      (cs_session_id (sd_public stored)) [] (sd_payloads stored) writes"
    by (simp add: claim(4,5) executing_def change_authority_def)
  ultimately show ?thesis
    using claim unfolding claimed_writes_def by blast
qed

lemma silent_claimed:
  "extends cx cx' reads \<Longrightarrow> reads_only reads \<Longrightarrow>
   \<exists>reads writes. cx_calls cx' = cx_calls cx @ reads @ writes \<and> reads_only reads
     \<and> (writes = [] \<or> claimed_writes w i version reads writes)"
  by (intro exI [of _ reads] exI [of _ "[]"]) (simp add: extends_def)

text \<open>The last part of an execution: the preconditions are read again, the item claimed, the steps run.\<close>

lemma recheck_claim_and_run:
  assumes "extends cx cx2 []" and re: "recheck w i version session bindings cx2 = (r3, cx3)"
    and cl: "in_lock w (claim i version) cx3 = (r4, cx4)"
    and run: "(case r3 of Err e \<Rightarrow> (Err e, cx3) | Panic \<Rightarrow> (Panic, cx3)
       | Ok _ \<Rightarrow> (case r4 of Err e \<Rightarrow> (Err e, cx4) | Panic \<Rightarrow> (Panic, cx4)
           | Ok (p, payloads) \<Rightarrow> run_claimed w i p payloads cx4)) = (r, cx')"
  shows "\<exists>reads writes. cx_calls cx' = cx_calls cx @ reads @ writes \<and> reads_only reads
    \<and> (writes = [] \<or> claimed_writes w i version reads writes)"
proof -
  from extends_recheck [OF re] obtain reads where "extends cx2 cx3 reads" and reads: "reads_only reads"
    by blast
  with extends_silent [OF assms(1)] have l3: "extends cx cx3 reads" by blast
  show ?thesis
  proof (cases "\<exists>u p payloads. r3 = Ok u \<and> r4 = Ok (p, payloads)")
    case True
    then obtain p payloads where "r3 = Ok ()" "r4 = Ok (p, payloads)" by auto
    with run have "run_claimed w i p payloads cx4 = (r, cx')" by simp
    from claim_and_run [OF _ this l3] cl \<open>r4 = Ok (p, payloads)\<close> reads show ?thesis by blast
  next
    case False
    with run have "cx' = cx3 \<or> cx' = cx4" by (cases r3; cases r4) auto
    with silent_claimed [OF l3 reads]
      silent_claimed [OF extends_then_silent [OF l3 extends_in_lock [OF cl]] reads]
    show ?thesis by blast
  qed
qed

text \<open>
  C1. Whatever other tasks, the policy and the tools do, an execution touches the server only
  under a claim: first come calls that only read, without any authority; a writing call is
  made only after the item was found approved at exactly this version, not started, live and
  with all its payloads, and the claim was saved. From then on the calls are the claimed steps
  in their order, each under the authority of this change set and version, and after a failure
  the reverse patches of the completed file steps before the failed one, the last one first.
\<close>

theorem execution_writes_only_what_it_claimed:
  assumes "execute_with_policy w i version cx = (r, cx')"
  shows "\<exists>reads writes. cx_calls cx' = cx_calls cx @ reads @ writes \<and> reads_only reads
    \<and> (writes = [] \<or> claimed_writes w i version reads writes)"
proof (cases "\<exists>stored snapshot binding. item i (cx_service (lock w cx)) = Some stored
    \<and> cs_policy_snapshot (sd_public stored) = Some snapshot \<and> sd_policy_binding stored = Some binding
    \<and> current_matches (gw_policy w (cx_tick (lock w cx))) snapshot")
  case False
  then have "extends cx cx' []"
    using assms extends_lock [of cx w] by (auto simp: execute_with_policy_def Let_def
        split: option.splits if_splits result.splits prod.splits
        intro: extends_silent [OF _ extends_in_lock])
  then show ?thesis by (rule silent_claimed) simp
next
  case True
  let ?cx0 = "lock w cx"
  from True obtain stored snapshot binding where
    found: "item i (cx_service ?cx0) = Some stored" "cs_policy_snapshot (sd_public stored) = Some snapshot"
      "sd_policy_binding stored = Some binding" "current_matches (gw_policy w (cx_tick ?cx0)) snapshot"
    by blast
  obtain r1 cx1 where check: "check_policy w i version binding ?cx0 = (r1, cx1)" by fastforce
  note l1 = extends_silent [OF extends_lock [of cx w] extends_check_policy [OF check]]
  let ?cx2 = "lock w cx1"
  note l2 = extends_silent [OF l1 extends_lock [of cx1 w]]
  show ?thesis
  proof (cases "\<exists>checked stored. r1 = Ok checked
      \<and> \<not> is_none_or (\<lambda>e. \<not> permits_execution e) (cs_policy_evaluation checked)
      \<and> item i (cx_service ?cx2) = Some stored
      \<and> length (sd_precondition_bindings stored) = length (sd_payloads stored)")
    case False
    then have "cx' = cx1 \<or> cx' = ?cx2"
      using assms found check by (cases r1) (auto simp: execute_with_policy_def Let_def
          split: option.splits if_splits)
    with silent_claimed [OF l1] silent_claimed [OF l2] show ?thesis by auto
  next
    case True
    then obtain checked stored2 where ok: "r1 = Ok checked"
      "\<not> is_none_or (\<lambda>e. \<not> permits_execution e) (cs_policy_evaluation checked)"
      "item i (cx_service ?cx2) = Some stored2"
      "length (sd_precondition_bindings stored2) = length (sd_payloads stored2)" by blast
    obtain r3 cx3 where re: "recheck w i version (cs_session_id (sd_public stored2))
        (sd_precondition_bindings stored2) ?cx2 = (r3, cx3)" by fastforce
    obtain r4 cx4 where cl: "in_lock w (claim i version) cx3 = (r4, cx4)" by fastforce
    show ?thesis
      by (rule recheck_claim_and_run [OF l2 re cl, where r = r])
        (use assms found check ok re cl in
          \<open>cases r3; cases r4; simp add: execute_with_policy_def Let_def\<close>)
  qed
qed

section \<open>A concrete execution\<close>

definition one_rule :: policy_set where
  "one_rule = \<lparr>ps_policy_version = 1, ps_policy_hash = [],
     ps_rules = [global_rule ''all'' None None Allow ''OPEN'' None]\<rparr>"

definition open_evaluation :: policy_evaluation where
  "open_evaluation = \<lparr>pe_decision = Allow,
     pe_matched_rules = [\<lparr>mr_rule_id = ''all'', mr_scope = Global, mr_decision = Allow, mr_reason = ''OPEN''\<rparr>],
     pe_reason = ''OPEN'', pe_scope = Global, pe_policy_version = 1, pe_policy_hash = []\<rparr>"

definition calm_world :: "(nat \<Rightarrow> native_tool_request \<Rightarrow> (tool_data tool_result, app_error) result) \<Rightarrow> change_world" where
  "calm_world tool =
     \<lparr>gw_others = (\<lambda>_ s. s), gw_disk = (\<lambda>_. all_steps_ok), gw_uuid = (\<lambda>_. 0), gw_now = (\<lambda>_. 0),
      gw_policy = (\<lambda>_. \<lparr>sv_set = one_rule, sv_repository = None, sv_audit_repository = None\<rparr>),
      gw_tool = tool, gw_digest = (\<lambda>_. ''d'')\<rparr>"

text \<open>An approved change set of two steps, and a server on which the second step fails.\<close>

definition demo_context :: policy_check_context where
  "demo_context = \<lparr>pk_target = \<lparr>pt_server_id = 2, pt_group_id = None, pt_environment = None\<rparr>,
     pk_target_count = 1, pk_execution_strategy = Sequential, pk_source = NativeTool\<rparr>"

definition demo_item :: stored_change_set where
  "demo_item =
     \<lparr>sd_public = \<lparr>cs_id = 10, cs_agent_run_id = 1, cs_session_id = 2, cs_title = ''tune'', cs_version = 1,
        cs_risk = R3,
        cs_steps = [public_step 11 0 (DraftFilePatch ''/etc/a'' ''x'' ''y''),
                    public_step 12 1 (DraftServiceRestart ''nginx'')],
        cs_approval_state = ApprovalGiven, cs_approved_version = Some 1, cs_execution_state = NotStarted,
        cs_recovery_state = Live, cs_preconditions = [], cs_policy_evaluation = Some open_evaluation,
        cs_policy_snapshot = Some (policy_snapshot_from open_evaluation), cs_approved_step_ids = []\<rparr>,
      sd_payloads = [DraftFilePatch ''/etc/a'' ''x'' ''y'', DraftServiceRestart ''nginx''],
      sd_precondition_bindings =
        [\<lparr>pb_invocation = InvFileInspect ''/etc/a'', pb_digest = ''d''\<rparr>,
         \<lparr>pb_invocation = InvServiceStatus ''nginx'', pb_digest = ''d''\<rparr>],
      sd_policy_binding = Some demo_context\<rparr>"

definition demo_exec :: change_exec where
  "demo_exec = \<lparr>cx_service = \<lparr>sc_items = [(10, demo_item)], sc_repository = None\<rparr>, cx_tick = 0, cx_calls = []\<rparr>"

definition restart_fails :: "nat \<Rightarrow> native_tool_request \<Rightarrow> (tool_data tool_result, app_error) result" where
  "restart_fails t q =
     Ok ((tool_failure 0 (invocation_name (nq_invocation q)) ''EXEC_FAILED'' 0 0)
           \<lparr>tr_success := (case nq_invocation q of InvServiceRestart _ \<Rightarrow> False | _ \<Rightarrow> True)\<rparr>)"

lemma demo_run:
  "map_prod (\<lambda>r. case r of Ok p \<Rightarrow> Some (cs_execution_state p) | _ \<Rightarrow> None) (\<lambda>cx. invocations (cx_calls cx))
     (execute_with_policy (calm_world restart_fails) 10 1 demo_exec)
   = (Some RolledBack,
      [InvFileInspect ''/etc/a'', InvServiceStatus ''nginx'',
       InvFilePatch ''/etc/a'' ''x'' ''y'', InvServiceRestart ''nginx'',
       InvFilePatch ''/etc/a'' ''y'' ''x''])"
  by code_simp

lemma execution_writes_only_what_it_claimed_witness:
  "\<exists>r cx' reads writes. execute_with_policy (calm_world restart_fails) 10 1 demo_exec = (r, cx')
     \<and> cx_calls cx' = reads @ writes \<and> reads_only reads
     \<and> claimed_writes (calm_world restart_fails) 10 1 reads writes"
proof -
  let ?w = "calm_world restart_fails"
  obtain r cx' where run: "execute_with_policy ?w 10 1 demo_exec = (r, cx')" by fastforce
  from execution_writes_only_what_it_claimed [OF run] obtain reads writes where
    split: "cx_calls cx' = cx_calls demo_exec @ reads @ writes" "reads_only reads"
      "writes = [] \<or> claimed_writes ?w 10 1 reads writes" by blast
  have "\<not> reads_only (cx_calls cx')"
  proof -
    have "list_ex (\<lambda>(t, q). nq_authority q \<noteq> None)
        (cx_calls (snd (execute_with_policy ?w 10 1 demo_exec)))"
      by code_simp
    then show ?thesis by (fastforce simp: run reads_only_def list_ex_iff list_all_iff)
  qed
  then have "writes \<noteq> []" using split by (auto simp: demo_exec_def)
  with run split show ?thesis by (auto simp: demo_exec_def)
qed

end
