(* ===== verification/File_Patch.thy ===== *)
theory File_Patch
  imports Change_Set_Safety
begin

text \<open>
  The file patches behind change sets: the patch itself (tools/change.rs, \<open>file_patch\<close>), the
  remote text files it reads and writes (ssh/sftp.rs, \<open>read_text\<close> and \<open>write_text\<close>), and what
  the reverse patches of a rollback restore. The remote files are a map from canonical paths to
  texts; path resolution is done by the server and is an argument, as is the outcome of every
  request of a write. Other processes may change the files between two requests of a patch.
\<close>

section \<open>Matching\<close>

text \<open>\<open>str::matches(p).count()\<close>: non-overlapping, left to right; the empty pattern matches at
  every character boundary.\<close>

function str_count :: "string \<Rightarrow> string \<Rightarrow> nat" where
  "str_count p s =
     (if p = [] then char_count s + 1
      else case str_find s p of None \<Rightarrow> 0
           | Some i \<Rightarrow> Suc (str_count p (drop (i + length p) s)))"
  by pat_completeness auto
termination
proof (relation "measure (\<lambda>(p, s). length s)", simp)
  fix p s :: string and i
  assume p: "p \<noteq> []" and f: "str_find s p = Some i"
  from p str_find_Some [OF f] show "((p, drop (i + length p) s), p, s) \<in> measure (\<lambda>(p, s). length s)"
    by (cases p) auto
qed

declare str_count.simps [simp del]

text \<open>\<open>str::replacen(p, r, 1)\<close>.\<close>

definition replace_first :: "string \<Rightarrow> string \<Rightarrow> string \<Rightarrow> string" where
  "replace_first p r s =
     (case str_find s p of None \<Rightarrow> s | Some i \<Rightarrow> take i s @ r @ drop (i + length p) s)"

section \<open>Remote text files\<close>

type_synonym remote_files = "string \<rightharpoonup> string"

definition MAX_AI_FILE_BYTES :: nat where "MAX_AI_FILE_BYTES = 512 * 1024"

text \<open>
  A file is read when its path resolves, its requests succeed, it is small enough and its bytes
  are UTF-8. Below: whether each request of a write succeeds, and the error of the first that does not.\<close>

record sftp_steps =
  so_create :: bool
  so_write :: bool
  so_flush :: bool
  so_sync :: bool
  so_close :: bool
  so_exists_known :: bool
  so_remove :: bool
  so_rename :: bool
  so_cleanup :: bool
  so_error :: app_error

definition read_text ::
  "(string, app_error) result \<Rightarrow> bool \<Rightarrow> app_error \<Rightarrow> remote_files \<Rightarrow> (string \<times> string, app_error) result" where
  "read_text source readable err files =
     result_bind source (\<lambda>p.
       case files p of
         None \<Rightarrow> Err err
       | Some content \<Rightarrow>
           if MAX_AI_FILE_BYTES < length content then Err (Remote InvalidOperation)
           else if \<not> readable then Err err
           else if \<not> utf8_valid content then Err (Remote InvalidOperation) else Ok (p, content))"

text \<open>The requests after the temporary file was created, and its removal when one fails.\<close>

definition replace_destination ::
  "sftp_steps \<Rightarrow> string \<Rightarrow> string \<Rightarrow> string \<Rightarrow> remote_files \<Rightarrow> (unit, app_error) result \<times> remote_files" where
  "replace_destination w temporary destination content files =
     (if \<not> so_write w then (Err (File SftpOperationFailed), files)
      else
        (let files = files(temporary \<mapsto> content) in
         if \<not> so_flush w \<or> \<not> so_sync w \<or> \<not> so_close w then (Err (File SftpOperationFailed), files)
         else
           (let exists = so_exists_known w \<and> files destination \<noteq> None in
            if exists \<and> \<not> so_remove w then (Err (so_error w), files)
            else
              (let files = (if exists then files(destination := None) else files) in
               if \<not> so_rename w then (Err (so_error w), files)
               else (Ok (), files(temporary := None, destination \<mapsto> content))))))"

definition write_text ::
  "sftp_steps \<Rightarrow> (string, app_error) result \<Rightarrow> string \<Rightarrow> string \<Rightarrow> remote_files \<Rightarrow>
   (string \<times> nat, app_error) result \<times> remote_files" where
  "write_text w dest temporary content files =
     (if MAX_AI_FILE_BYTES < length content \<or> CHR 0x00 \<in> set content
      then (Err (Remote InvalidOperation), files)
      else case dest of
          Err e \<Rightarrow> (Err e, files)
        | Panic \<Rightarrow> (Panic, files)
        | Ok destination \<Rightarrow>
            if \<not> so_create w then (Err (so_error w), files)
            else
              (case replace_destination w temporary destination content (files(temporary \<mapsto> [])) of
                 (Ok _, files) \<Rightarrow> (Ok (destination, length content), files)
               | (Err e, files) \<Rightarrow> (Err e, if so_cleanup w then files(temporary := None) else files)
               | (Panic, files) \<Rightarrow> (Panic, files)))"

section \<open>The patch\<close>

record patch_io =
  io_source :: "nat \<Rightarrow> string \<Rightarrow> (string, app_error) result"
  io_dest :: "nat \<Rightarrow> string \<Rightarrow> (string, app_error) result"
  io_temporary :: "nat \<Rightarrow> string"
  io_steps :: "nat \<Rightarrow> sftp_steps"
  io_readable :: "nat \<Rightarrow> bool"
  io_read_error :: "nat \<Rightarrow> app_error"
  io_others :: "nat \<Rightarrow> remote_files \<Rightarrow> remote_files"

definition io_read :: "patch_io \<Rightarrow> nat \<Rightarrow> string \<Rightarrow> remote_files \<Rightarrow> (string \<times> string, app_error) result" where
  "io_read io n p files = read_text (io_source io n p) (io_readable io n) (io_read_error io n) files"

definition io_write ::
  "patch_io \<Rightarrow> nat \<Rightarrow> string \<Rightarrow> string \<Rightarrow> remote_files \<Rightarrow> (string \<times> nat, app_error) result \<times> remote_files" where
  "io_write io n p content files =
     write_text (io_steps io n) (io_dest io n p) (io_temporary io n) content files"

definition patch_arguments_ok :: "string \<Rightarrow> string \<Rightarrow> bool" where
  "patch_arguments_ok expected replacement \<longleftrightarrow>
     expected \<noteq> [] \<and> expected \<noteq> replacement \<and> length expected \<le> 512 * 1024
     \<and> length replacement \<le> 512 * 1024"

definition file_patch ::
  "patch_io \<Rightarrow> string \<Rightarrow> string \<Rightarrow> string \<Rightarrow> remote_files \<Rightarrow>
   (tool_data, app_error) result \<times> remote_files" where
  "file_patch io p expected replacement files =
     (if \<not> patch_arguments_ok expected replacement then (Err (Remote InvalidOperation), files)
      else
        (let files = io_others io 0 files in
         case io_read io 0 p files of
           Err e \<Rightarrow> (Err e, files)
         | Panic \<Rightarrow> (Panic, files)
         | Ok (_, current) \<Rightarrow>
             if str_count expected current \<noteq> 1 then (Err (Remote InvalidOperation), files)
             else
               (let updated = replace_first expected replacement current in
                case io_write io 1 p updated (io_others io 1 files) of
                  (Err e, files) \<Rightarrow> (Err e, files)
                | (Panic, files) \<Rightarrow> (Panic, files)
                | (Ok (resolved, bytes), files) \<Rightarrow>
                    (let files = io_others io 2 files in
                     case io_read io 2 resolved files of
                       Err e \<Rightarrow> (Err e, files)
                     | Panic \<Rightarrow> (Panic, files)
                     | Ok (_, verified) \<Rightarrow>
                         if verified \<noteq> updated
                         then (Err (File SftpOperationFailed),
                               snd (io_write io 3 resolved current (io_others io 3 files)))
                         else (Ok (DataFilePatch resolved (of_nat bytes) True), files)))))"

section \<open>What a write leaves\<close>

text \<open>
  Writing a remote text is not atomic. If it succeeds, the destination holds the new text and
  nothing else changed. If it fails, no other file changed, but the destination may be gone:
  this happens exactly when it existed, was removed, and the temporary file then could not be
  renamed - and with the clean-up of the temporary file the new text is gone as well.
\<close>

lemma failed_write_can_lose_the_file:
  assumes "write_text w (Ok d) temporary content files = (r, files')"
    and "files temporary = None" and "temporary \<noteq> d"
  shows "case r of
      Ok (d', n) \<Rightarrow> d' = d \<and> n = length content \<and> files' = files(d \<mapsto> content)
    | Err e \<Rightarrow> (\<forall>q. q \<notin> {d, temporary} \<longrightarrow> files' q = files q)
        \<and> (so_cleanup w \<longrightarrow> files' temporary = None)
        \<and> files' d \<in> {files d, None}
        \<and> (files d \<noteq> None \<longrightarrow>
             (files' d = None \<longleftrightarrow>
                length content \<le> MAX_AI_FILE_BYTES \<and> CHR 0x00 \<notin> set content \<and> so_create w
                \<and> so_write w \<and> so_flush w \<and> so_sync w \<and> so_close w \<and> so_exists_known w
                \<and> so_remove w \<and> \<not> so_rename w))
    | Panic \<Rightarrow> False"
  using assms
  by (auto simp: write_text_def replace_destination_def Let_def split: if_splits result.splits)

definition failing_rename :: sftp_steps where
  "failing_rename = \<lparr>so_create = True, so_write = True, so_flush = True, so_sync = True,
     so_close = True, so_exists_known = True, so_remove = True, so_rename = False,
     so_cleanup = True, so_error = File SftpOperationFailed\<rparr>"

lemma failed_write_can_lose_the_file_witness:
  "\<exists>files'. write_text failing_rename (Ok ''/etc/app'') ''/etc/tmp'' ''new'' [''/etc/app'' \<mapsto> ''old'']
       = (Err (File SftpOperationFailed), files')
     \<and> files' ''/etc/app'' = None \<and> files' ''/etc/tmp'' = None"
proof -
  let ?files = "[''/etc/app'' \<mapsto> ''old''] :: remote_files"
  obtain r files' where run: "write_text failing_rename (Ok ''/etc/app'') ''/etc/tmp'' ''new'' ?files
      = (r, files')" by fastforce
  then have r: "r = Err (File SftpOperationFailed)"
    by (auto simp: write_text_def replace_destination_def failing_rename_def MAX_AI_FILE_BYTES_def
        split: if_splits)
  from failed_write_can_lose_the_file [OF run] show ?thesis
    using run unfolding r by (auto simp: failing_rename_def MAX_AI_FILE_BYTES_def)
qed

section \<open>An undisturbed patch\<close>

text \<open>
  What a patch makes of the text of a file when nothing interferes: the guards of reading,
  matching and writing, in one place.
\<close>

definition patch_text :: "string \<Rightarrow> string \<Rightarrow> string \<Rightarrow> (string, app_error) result" where
  "patch_text expected replacement current =
     (let updated = replace_first expected replacement current in
      if patch_arguments_ok expected replacement
         \<and> length current \<le> MAX_AI_FILE_BYTES \<and> utf8_valid current \<and> str_count expected current = 1
         \<and> length updated \<le> MAX_AI_FILE_BYTES \<and> CHR 0x00 \<notin> set updated
      then Ok updated else Err (Remote InvalidOperation))"

text \<open>
  Nothing interferes: every request succeeds, no other process changes a file, paths resolve to
  fixed canonical ones, and the temporary names are new.
\<close>

definition undisturbed :: "(string \<Rightarrow> string) \<Rightarrow> remote_files \<Rightarrow> patch_io \<Rightarrow> bool" where
  "undisturbed canon files io \<longleftrightarrow>
     (\<forall>p. canon (canon p) = canon p)
     \<and> (\<forall>n p. io_source io n p = Ok (canon p) \<and> io_dest io n p = Ok (canon p) \<and> io_readable io n)
     \<and> (\<forall>n fs. io_others io n fs = fs)
     \<and> (\<forall>n. files (io_temporary io n) = None)
     \<and> (\<forall>n. so_create (io_steps io n) \<and> so_write (io_steps io n) \<and> so_flush (io_steps io n)
          \<and> so_sync (io_steps io n) \<and> so_close (io_steps io n) \<and> so_exists_known (io_steps io n)
          \<and> so_remove (io_steps io n) \<and> so_rename (io_steps io n))"

lemma undisturbed_dom: "dom files = dom files' \<Longrightarrow> undisturbed canon files io \<longleftrightarrow> undisturbed canon files' io"
  unfolding undisturbed_def by (metis (full_types) domIff)

lemma undisturbed_write:
  assumes "undisturbed canon files io" and "files (canon p) = Some current"
  shows "io_write io n p content files =
    (if MAX_AI_FILE_BYTES < length content \<or> CHR 0x00 \<in> set content then (Err (Remote InvalidOperation), files)
     else (Ok (canon p, length content), files(canon p \<mapsto> content)))"
proof -
  have free: "files (io_temporary io n) = None" using assms(1) by (simp add: undisturbed_def)
  with assms(2) have "io_temporary io n \<noteq> canon p" by fastforce
  from this free
  have "files(io_temporary io n \<mapsto> content, canon p := None, io_temporary io n := None, canon p \<mapsto> content)
      = files(canon p \<mapsto> content)" by (auto simp: fun_eq_iff)
  with assms \<open>io_temporary io n \<noteq> canon p\<close> show ?thesis
    by (auto simp: undisturbed_def io_write_def write_text_def replace_destination_def Let_def fun_eq_iff)
qed

lemma undisturbed_read:
  assumes "undisturbed canon files' io" and "files (canon p) = Some content"
  shows "io_read io n p files =
    (if MAX_AI_FILE_BYTES < length content \<or> \<not> utf8_valid content then Err (Remote InvalidOperation)
     else Ok (canon p, content))"
  using assms by (simp add: undisturbed_def io_read_def read_text_def)

lemma str_count_found: "p \<noteq> [] \<Longrightarrow> str_count p s = 1 \<Longrightarrow> \<exists>n. str_find s p = Some n"
  by (cases "str_find s p") (simp_all add: str_count.simps [of p s])

lemma replace_first_valid:
  assumes "utf8_valid s" and "utf8_valid p" and "p \<noteq> []" and "utf8_valid r"
  shows "utf8_valid (replace_first p r s)"
proof (cases "str_find s p")
  case (Some n)
  note at = str_find_Some [OF Some]
  have "s = take n s @ p @ drop (n + length p) s"
    using at by (metis append_take_drop_id drop_drop add.commute)
  with assms utf8_valid_replace [of "take n s" p "drop (n + length p) s" r] show ?thesis
    by (simp add: replace_first_def Some)
qed (use assms in \<open>simp add: replace_first_def\<close>)

text \<open>The patch as the tool performs it is then exactly \<open>patch_text\<close> on the file.\<close>

lemma undisturbed_patch:
  assumes "undisturbed canon files io" and "files (canon p) = Some current"
    and "utf8_valid expected" and "utf8_valid replacement"
  shows "file_patch io p expected replacement files =
    (case patch_text expected replacement current of
       Ok updated \<Rightarrow> (Ok (DataFilePatch (canon p) (of_nat (length updated)) True), files(canon p \<mapsto> updated))
     | Err e \<Rightarrow> (Err e, files)
     | Panic \<Rightarrow> (Panic, files))"
proof (cases "patch_arguments_ok expected replacement \<and> length current \<le> MAX_AI_FILE_BYTES \<and> utf8_valid current
    \<and> str_count expected current = 1")
  case True
  let ?updated = "replace_first expected replacement current"
  have valid: "utf8_valid ?updated"
    using True assms(3,4) by (intro replace_first_valid) (auto simp: patch_arguments_ok_def)
  have canon: "canon (canon p) = canon p" and others: "io_others io n fs = fs" for n fs
    using assms(1) by (simp_all add: undisturbed_def)
  have "io_read io 2 (canon p) (files(canon p \<mapsto> ?updated)) =
      (if MAX_AI_FILE_BYTES < length ?updated then Err (Remote InvalidOperation) else Ok (canon p, ?updated))"
    using undisturbed_read [OF assms(1), of "files(canon p \<mapsto> ?updated)" "canon p" ?updated 2] valid
    by (simp add: canon)
  with True undisturbed_read [where canon = canon and p = p and files = files, OF assms(1,2), of 0] undisturbed_write [where canon = canon and p = p, OF assms(1,2), of 1 ?updated] show ?thesis
    by (simp add: file_patch_def patch_text_def others Let_def)
next
  case False
  with undisturbed_read [where canon = canon and p = p and files = files, OF assms(1,2), of 0] assms(1) show ?thesis
    by (auto simp: file_patch_def patch_text_def undisturbed_def Let_def)
qed

section \<open>What a reverse patch restores\<close>

text \<open>The occurrences of a pattern, overlapping ones included.\<close>

definition occurs_at :: "string \<Rightarrow> string \<Rightarrow> nat \<Rightarrow> bool" where
  "occurs_at p s i \<longleftrightarrow> i + length p \<le> length s \<and> starts_with (drop i s) p"

definition occurs_once :: "string \<Rightarrow> string \<Rightarrow> bool" where
  "occurs_once p s \<longleftrightarrow> length (filter (occurs_at p s) [0..<Suc (length s)]) = 1"

lemma occurs_at_find: "str_find s p = Some i \<Longrightarrow> occurs_at p s i"
  using str_find_Some [of s p i] by (auto simp: occurs_at_def starts_with_def)

lemma not_found: "str_find s p = None \<Longrightarrow> \<not> occurs_at p s i"
proof (induction s arbitrary: i)
  case (Cons c s)
  then show ?case by (cases i) (auto simp: occurs_at_def split: if_splits)
qed (auto simp: occurs_at_def starts_with_def split: if_splits)

lemma found: "occurs_at p s i \<Longrightarrow> \<exists>j. str_find s p = Some j"
  using not_found by blast

lemma occurs_once_unique:
  assumes "occurs_once p s" and "occurs_at p s i" and "occurs_at p s j"
  shows "i = j"
proof -
  let ?xs = "filter (occurs_at p s) [0..<Suc (length s)]"
  have "k < Suc (length s)" if "occurs_at p s k" for k using that by (simp add: occurs_at_def)
  with assms(2,3) have "i \<in> set ?xs" "j \<in> set ?xs" by (auto simp del: upt_Suc)
  moreover from assms(1) obtain x where x: "?xs = [x]"
    by (auto simp: occurs_once_def length_Suc_conv simp del: upt_Suc)
  ultimately show ?thesis unfolding x by simp
qed

lemma occurs_at_drop: "occurs_at p (drop n s) i \<Longrightarrow> n \<le> length s \<Longrightarrow> occurs_at p s (n + i)"
  by (auto simp: occurs_at_def add.commute)

lemma unique_count:
  assumes "occurs_once p s" and "p \<noteq> []" and "str_find s p = Some n"
  shows "str_count p s = 1"
proof -
  have len: "n + length p \<le> length s" using str_find_Some [OF assms(3)] by simp
  have "str_find (drop (n + length p) s) p = None"
  proof (rule ccontr)
    assume "str_find (drop (n + length p) s) p \<noteq> None"
    then obtain i where "occurs_at p (drop (n + length p) s) i" using occurs_at_find by blast
    from occurs_once_unique [OF assms(1) occurs_at_find [OF assms(3)] occurs_at_drop [OF this len]]
    show False using assms(2) by simp
  qed
  then show ?thesis
    using assms(2,3) by (simp add: str_count.simps [of p s] str_count.simps [of p "drop (n + length p) s"])
qed

text \<open>
  A patch acts at the first occurrence of its pattern, so the reverse finds the place exactly when
  the replacement occurs nowhere before it in the text the patch leaves.
\<close>

lemma patch_text_Ok:
  "patch_text expected replacement current = Ok updated \<longleftrightarrow>
     patch_arguments_ok expected replacement \<and> length current \<le> MAX_AI_FILE_BYTES \<and> utf8_valid current
     \<and> str_count expected current = 1 \<and> updated = replace_first expected replacement current
     \<and> length updated \<le> MAX_AI_FILE_BYTES \<and> CHR 0x00 \<notin> set updated"
  by (auto simp: patch_text_def Let_def)

lemma patched_parts:
  assumes "patch_text expected replacement current = Ok updated"
  obtains n where "str_find current expected = Some n"
    "current = take n current @ expected @ drop (n + length expected) current"
    "updated = take n current @ replacement @ drop (n + length expected) current"
    "length (take n current) = n" "occurs_at replacement updated n"
proof -
  from assms have "expected \<noteq> []" "str_count expected current = 1"
    and upd: "updated = replace_first expected replacement current"
    by (auto simp: patch_text_Ok patch_arguments_ok_def)
  then obtain n where n: "str_find current expected = Some n" using str_count_found by blast
  note at = str_find_Some [OF n]
  have u: "updated = take n current @ replacement @ drop (n + length expected) current"
    by (simp add: upd replace_first_def n)
  moreover have "current = take n current @ expected @ drop (n + length expected) current"
    using at by (metis append_take_drop_id drop_drop add.commute)
  moreover have len: "length (take n current) = n" using at by simp
  moreover have "occurs_at replacement updated n"
    using len by (simp add: occurs_at_def u starts_with_self_append)
  ultimately show thesis using n that by blast
qed

lemma reversed_text:
  assumes "patch_text expected replacement current = Ok updated"
  shows "replace_first replacement expected updated = current
    \<longleftrightarrow> str_find updated replacement = str_find current expected"
    and "length (replace_first replacement expected updated) = length current"
    and "set (replace_first replacement expected updated) \<subseteq> set updated \<union> set expected"
    and "set expected \<subseteq> set (replace_first replacement expected updated)"
proof -
  from patched_parts [OF assms] obtain n where n: "str_find current expected = Some n"
    and c: "current = take n current @ expected @ drop (n + length expected) current"
    and u: "updated = take n current @ replacement @ drop (n + length expected) current"
    and len: "length (take n current) = n" and at: "occurs_at replacement updated n" .
  from found [OF at] obtain m where m: "str_find updated replacement = Some m" by blast
  note mat = str_find_Some [OF m]
  have rev_eq: "replace_first replacement expected updated
      = take m updated @ expected @ drop (m + length replacement) updated"
    by (simp add: replace_first_def m)
  have le: "m \<le> n" using str_find_first [OF m, of n] at unfolding occurs_at_def by (meson not_le)
  show "replace_first replacement expected updated = current
    \<longleftrightarrow> str_find updated replacement = str_find current expected"
  proof
    assume same: "replace_first replacement expected updated = current"
    have "starts_with (drop m current) expected"
      using mat by (simp add: same [symmetric] rev_eq starts_with_self_append)
    then have "\<not> m < n" using str_find_first [OF n, of m] by blast
    with le m n show "str_find updated replacement = str_find current expected" by simp
  next
    assume "str_find updated replacement = str_find current expected"
    with m n have "m = n" by simp
    with rev_eq len c u show "replace_first replacement expected updated = current" by simp
  qed
  have "length current = n + length expected + length (drop (n + length expected) current)"
    by (subst c) (simp add: len [simplified])
  moreover have "length updated = n + length replacement + length (drop (n + length expected) current)"
    by (subst u) (simp add: len [simplified])
  moreover have "length (replace_first replacement expected updated) = length updated - length replacement + length expected"
    using mat by (simp add: rev_eq)
  ultimately show "length (replace_first replacement expected updated) = length current" by simp
  show "set (replace_first replacement expected updated) \<subseteq> set updated \<union> set expected"
    by (auto simp: rev_eq dest: in_set_takeD in_set_dropD)
  show "set expected \<subseteq> set (replace_first replacement expected updated)" by (auto simp: rev_eq)
qed

lemma reverse_patch_text:
  assumes "patch_text expected replacement current = Ok updated"
    and "utf8_valid expected" and "utf8_valid replacement"
  shows "patch_text replacement expected updated =
      (if replacement = [] \<or> str_count replacement updated \<noteq> 1 \<or> CHR 0x00 \<in> set expected
       then Err (Remote InvalidOperation) else Ok (replace_first replacement expected updated))"
proof -
  note facts = assms(1) [unfolded patch_text_Ok] and reversed = reversed_text [OF assms(1)]
  have "utf8_valid updated" using facts assms(2,3) by (auto simp: patch_arguments_ok_def intro: replace_first_valid)
  with facts reversed(2-4) show ?thesis by (auto simp: patch_text_def Let_def patch_arguments_ok_def)
qed

text \<open>
  C40. What the reverse of a patch does. After an undisturbed patch its undisturbed reverse is
  refused, and the patched text stays, exactly when the replacement is empty, when it no longer
  occurs just once in the text, or when the expected text holds a NUL byte, which may be patched
  away but not written back. Otherwise the tool reports success - and restores the text if and
  only if the replacement is first found where the patch had put it; when it overlaps an earlier
  place, the file is corrupted.
\<close>

theorem reverse_patch_exact:
  assumes "undisturbed canon files io" and "undisturbed canon files io'"
    and "utf8_valid expected" and "utf8_valid replacement"
    and "file_patch io p expected replacement files = (Ok data, patched)"
    and "files (canon p) = Some current" and "patched (canon p) = Some updated"
  shows "file_patch io' p replacement expected patched =
      (if replacement = [] \<or> str_count replacement updated \<noteq> 1 \<or> CHR 0x00 \<in> set expected
       then (Err (Remote InvalidOperation), patched)
       else (Ok (DataFilePatch (canon p) (of_nat (length current)) True),
             patched(canon p \<mapsto> replace_first replacement expected updated)))
    \<and> (replace_first replacement expected updated = current
        \<longleftrightarrow> str_find updated replacement = str_find current expected)"
proof -
  from assms(5-7) undisturbed_patch [where canon = canon and p = p, OF assms(1,6,3,4)] have patch: "patch_text expected replacement current = Ok updated"
    and patched: "patched = files(canon p \<mapsto> updated)"
    by (auto split: result.splits)
  have "dom files = dom patched" using assms(6) by (auto simp: patched)
  from iffD1 [OF undisturbed_dom [OF this] assms(2)] have io': "undisturbed canon patched io'" .
  from undisturbed_patch [where canon = canon and p = p, OF io' assms(7,4,3)] reverse_patch_text [OF patch assms(3,4)] reversed_text(1,2) [OF patch]
  show ?thesis by simp
qed

definition calm_io :: patch_io where
  "calm_io = \<lparr>io_source = \<lambda>_ p. Ok p, io_dest = \<lambda>_ p. Ok p, io_temporary = \<lambda>_. ''/tmp'',
     io_steps = \<lambda>_. \<lparr>so_create = True, so_write = True, so_flush = True, so_sync = True, so_close = True,
       so_exists_known = True, so_remove = True, so_rename = True, so_cleanup = True,
       so_error = File SftpOperationFailed\<rparr>,
     io_readable = \<lambda>_. True, io_read_error = \<lambda>_. File SftpOperationFailed, io_others = \<lambda>_ files. files\<rparr>"

lemma calm_undisturbed: "files ''/tmp'' = None \<Longrightarrow> undisturbed (\<lambda>p. p) files calm_io"
  by (simp add: undisturbed_def calm_io_def)

lemma calm_patch:
  assumes "patch_text expected replacement current = Ok updated" and "utf8_valid expected" and "utf8_valid replacement"
  shows "file_patch calm_io ''/a'' expected replacement [''/a'' \<mapsto> current] =
    (Ok (DataFilePatch ''/a'' (of_nat (length updated)) True), [''/a'' \<mapsto> updated])"
  using undisturbed_patch [where canon = "\<lambda>p. p" and p = "''/a''" and files = "[''/a'' \<mapsto> current]"
      and io = calm_io and current = current, OF calm_undisturbed] assms by simp

text \<open>\<open>X\<close> becomes \<open>aa\<close>: in \<open>aX\<close> the reverse lands in the wrong place, in \<open>aaX\<close> it is refused.\<close>

lemma reverse_patch_exact_witness:
  "file_patch calm_io ''/a'' ''aa'' ''X'' [''/a'' \<mapsto> ''aaa''] = (Ok (DataFilePatch ''/a'' 2 True), [''/a'' \<mapsto> ''Xa''])
   \<and> file_patch calm_io ''/a'' ''aa'' ''X'' [''/a'' \<mapsto> ''aaaa''] = (Err (Remote InvalidOperation), [''/a'' \<mapsto> ''aaaa''])
   \<and> file_patch calm_io ''/a'' [] ''X'' [''/a'' \<mapsto> ''a''] = (Err (Remote InvalidOperation), [''/a'' \<mapsto> ''a''])"
proof -
  have valid: "utf8_valid ''X''" "utf8_valid ''aa''" "utf8_valid ''aX''" "utf8_valid ''aaX''" by code_simp+
  have counts: "str_count ''X'' ''aX'' = 1" "str_count ''X'' ''aaX'' = 1" "str_count ''aa'' ''aaa'' = 1"
    "str_count ''aa'' ''aaaa'' = 2"
    by (simp_all add: str_count.simps starts_with_def)
  have p1: "patch_text ''X'' ''aa'' ''aX'' = Ok ''aaa''" and p2: "patch_text ''X'' ''aa'' ''aaX'' = Ok ''aaaa''"
    and p3: "patch_text ''X'' [] ''aX'' = Ok ''a''"
    using counts valid
    by (simp_all add: patch_text_Ok patch_arguments_ok_def replace_first_def starts_with_def MAX_AI_FILE_BYTES_def)
  note exact = reverse_patch_exact [where canon = "\<lambda>p. p" and p = "''/a''" and io = calm_io and io' = calm_io,
      OF calm_undisturbed calm_undisturbed]
  show ?thesis
    using exact [OF _ _ valid(1,2) calm_patch [OF p1 valid(1,2)], of "''aX''" "''aaa''"]
      exact [OF _ _ valid(1,2) calm_patch [OF p2 valid(1,2)], of "''aaX''" "''aaaa''"]
      exact [OF _ _ valid(1) utf8_valid_Nil calm_patch [OF p3 valid(1) utf8_valid_Nil], of "''aX''" "''a''"] counts
    by (simp add: replace_first_def starts_with_def)
qed

section \<open>Rolling back\<close>

text \<open>
  The write calls of an execution or of a rollback, each patch with the outcomes of its own
  requests; the calls that patch no file leave the files alone.
\<close>

fun run_patches ::
  "(nat \<Rightarrow> patch_io) \<Rightarrow> nat \<Rightarrow> remote_files \<Rightarrow> native_tool_invocation list \<Rightarrow> (unit, app_error) result \<times> remote_files" where
  "run_patches ios k files [] = (Ok (), files)"
| "run_patches ios k files (InvFilePatch p expected replacement # calls) =
     (case file_patch (ios k) p expected replacement files of
        (Ok _, files') \<Rightarrow> run_patches ios (Suc k) files' calls
      | (Err e, files') \<Rightarrow> (Err e, files')
      | (Panic, files') \<Rightarrow> (Panic, files'))"
| "run_patches ios k files (_ # calls) = run_patches ios k files calls"

text \<open>
  Every patch of a sequence can be found again: its texts are Rust strings, the text it removes
  has no NUL byte, and its replacement is not empty and occurs once, overlaps counted, in the text
  the patch leaves.
\<close>

definition patch_traceable :: "(string \<Rightarrow> string) \<Rightarrow> remote_files \<Rightarrow> string \<Rightarrow> string \<Rightarrow> string \<Rightarrow> bool" where
  "patch_traceable canon files' p expected replacement \<longleftrightarrow>
     utf8_valid expected \<and> utf8_valid replacement \<and> CHR 0x00 \<notin> set expected \<and> replacement \<noteq> []
     \<and> (case files' (canon p) of Some t \<Rightarrow> occurs_once replacement t | None \<Rightarrow> False)"

fun traceable ::
  "(string \<Rightarrow> string) \<Rightarrow> (nat \<Rightarrow> patch_io) \<Rightarrow> nat \<Rightarrow> remote_files \<Rightarrow> change_step_draft list \<Rightarrow> bool" where
  "traceable canon ios k files [] \<longleftrightarrow> True"
| "traceable canon ios k files (DraftFilePatch p expected replacement # steps) \<longleftrightarrow>
     (let files' = snd (file_patch (ios k) p expected replacement files) in
      patch_traceable canon files' p expected replacement \<and> traceable canon ios (Suc k) files' steps)"
| "traceable canon ios k files (_ # steps) \<longleftrightarrow> traceable canon ios k files steps"

lemma run_patches_append:
  "run_patches ios k files xs = (Ok (), files') \<Longrightarrow>
   \<exists>k'. \<forall>ys. run_patches ios k files (xs @ ys) = run_patches ios k' files' ys"
proof (induction ios k files xs rule: run_patches.induct)
  case (2 ios k files p e r calls)
  then show ?case by (auto split: prod.splits result.splits)
qed auto

lemma undisturbed_patch_found:
  assumes "undisturbed canon files io" and "file_patch io p expected replacement files = (Ok data, files')"
  shows "\<exists>current. files (canon p) = Some current"
  using assms
  by (cases "files (canon p)") (auto simp: undisturbed_def file_patch_def io_read_def read_text_def Let_def split: if_splits)

lemma traced_patch:
  assumes "\<And>k. undisturbed canon files (ios k)" and "\<And>k. undisturbed canon files (ios' k)"
    and "file_patch (ios k) p expected replacement files = (Ok data, files')"
    and "patch_traceable canon files' p expected replacement"
  shows "dom files' = dom files \<and> run_patches ios' k' files' [InvFilePatch p replacement expected] = (Ok (), files)"
proof -
  from undisturbed_patch_found [where canon = canon and p = p, OF assms(1,3)] obtain current where current: "files (canon p) = Some current" by blast
  note texts = assms(4) [unfolded patch_traceable_def]
  from undisturbed_patch [where canon = canon and p = p, OF assms(1) current, of expected replacement k] assms(3) texts obtain updated where
    patch: "patch_text expected replacement current = Ok updated" and files': "files' = files(canon p \<mapsto> updated)"
    by (auto split: result.splits)
  from patched_parts [OF patch] obtain n where n: "str_find current expected = Some n"
    "occurs_at replacement updated n" by blast
  from texts have once: "occurs_once replacement updated" "replacement \<noteq> []" by (simp_all add: files')
  from found [OF n(2)] obtain m where m: "str_find updated replacement = Some m" by blast
  with occurs_once_unique [OF once(1) occurs_at_find [OF m] n(2)] n
  have place: "str_find updated replacement = str_find current expected" by simp
  have upd: "files' (canon p) = Some updated" by (simp add: files')
  have dom: "dom files = dom files'" using current by (auto simp: files')
  from iffD1 [OF undisturbed_dom [OF dom] assms(2)] have io': "undisturbed canon files' (ios' k')" .
  have "patch_text replacement expected updated = Ok current"
    using reverse_patch_text [OF patch] reversed_text(1) [OF patch] place texts unique_count [OF once m] by simp
  with undisturbed_patch [where canon = canon and p = p, OF io' upd, of replacement expected] texts
  have "file_patch (ios' k') p replacement expected files' =
      (Ok (DataFilePatch (canon p) (of_nat (length current)) True), files'(canon p \<mapsto> current))" by simp
  moreover have "files'(canon p \<mapsto> current) = files" using current by (auto simp: files')
  ultimately show ?thesis using current by (auto simp: files')
qed

text \<open>
  C21. A rollback puts every file back: when the steps of a change set have been applied to the
  remote files and each patch can be found again in the text it left, the reverse patches, in
  the order in which an execution or a rollback makes them, all succeed and leave exactly the
  files of before. Nothing else changes the files meanwhile and all requests succeed.
\<close>

theorem rollback_restores_files:
  assumes "\<And>k. undisturbed canon files (ios k)" and "\<And>k. undisturbed canon files (ios' k)"
    and "run_patches ios k files (map invocation steps) = (Ok (), patched)"
    and "traceable canon ios k files steps"
  shows "run_patches ios' k' patched (concat (map undo (rev steps))) = (Ok (), files)"
  using assms
proof (induction steps arbitrary: files k)
  case (Cons step steps)
  show ?case
  proof (cases "\<exists>p e r. step = DraftFilePatch p e r")
    case True
    then obtain p e r where step: "step = DraftFilePatch p e r" by blast
    from Cons.prems(3) obtain data files' where first: "file_patch (ios k) p e r files = (Ok data, files')"
      and rest: "run_patches ios (Suc k) files' (map invocation steps) = (Ok (), patched)"
      by (auto simp: step split: prod.splits result.splits)
    from Cons.prems(4) first have found: "patch_traceable canon files' p e r"
      and trace: "traceable canon ios (Suc k) files' steps" by (simp_all add: step)
    note undone = traced_patch [where canon = canon and ios = ios and ios' = ios', OF Cons.prems(1,2) first found]
    have calm: "undisturbed canon files' (ios k)" "undisturbed canon files' (ios' k)" for k
      using Cons.prems(1,2) undone undisturbed_dom [of files files'] by blast+
    from Cons.IH [OF calm rest trace]
    have "run_patches ios' k' patched (concat (map undo (rev steps))) = (Ok (), files')" .
    from run_patches_append [OF this] obtain k2 where
      "run_patches ios' k' patched (concat (map undo (rev steps)) @ [InvFilePatch p r e])
        = run_patches ios' k2 files' [InvFilePatch p r e]" by blast
    with undone show ?thesis by (simp add: step)
  next
    case False
    with Cons.prems(3,4) have "run_patches ios k files (map invocation steps) = (Ok (), patched)"
      "traceable canon ios k files steps" "undo step = []" by (cases step; simp)+
    with Cons.IH [OF Cons.prems(1,2)] show ?thesis by simp
  qed
qed simp

lemma rollback_restores_files_witness:
  "run_patches (\<lambda>_. calm_io) 0 [''/a'' \<mapsto> ''n=2 m=1'']
     (concat (map undo (rev [DraftFilePatch ''/a'' ''n=1'' ''n=2'', DraftServiceRestart ''web'']))) =
   (Ok (), [''/a'' \<mapsto> ''n=1 m=1''])"
proof (rule rollback_restores_files [where canon = "\<lambda>p. p" and ios = "\<lambda>_. calm_io" and k = 0])
  have "str_count ''n=1'' ''n=1 m=1'' = 1" by (simp add: str_count.simps starts_with_def)
  moreover have valid: "utf8_valid ''n=1''" "utf8_valid ''n=2''" "utf8_valid ''n=1 m=1''" by code_simp+
  ultimately have "patch_text ''n=1'' ''n=2'' ''n=1 m=1'' = Ok ''n=2 m=1''"
    by (simp add: patch_text_Ok patch_arguments_ok_def replace_first_def starts_with_def MAX_AI_FILE_BYTES_def)
  note p = calm_patch [OF this valid(1,2)]
  have "occurs_once ''n=2'' ''n=2 m=1''" by code_simp
  with p valid show "traceable (\<lambda>p. p) (\<lambda>_. calm_io) 0 [''/a'' \<mapsto> ''n=1 m=1'']
      [DraftFilePatch ''/a'' ''n=1'' ''n=2'', DraftServiceRestart ''web'']"
    by (simp add: patch_traceable_def)
  from p show "run_patches (\<lambda>_. calm_io) 0 [''/a'' \<mapsto> ''n=1 m=1'']
      (map invocation [DraftFilePatch ''/a'' ''n=1'' ''n=2'', DraftServiceRestart ''web''])
      = (Ok (), [''/a'' \<mapsto> ''n=2 m=1''])" by simp
qed (simp_all add: calm_undisturbed)

end
