(* ===== verification/Change_Set_State.thy ===== *)
theory Change_Set_State
  imports Change_Set_Run
begin

text \<open>
  The state of the change-set service (agentic/changes.rs) under any interleaving of its
  operations: each locked section is one step, and what a section does to its item is stated
  once, as an interface that every operation meets. Reachable states keep the approval of an
  item consistent with its version and policy, and no change set is claimed twice. The
  reload at start-up is separate: it makes every item metadata.
\<close>

section \<open>Sections that touch one item\<close>

locale item_section =
  fixes sec :: "persist_steps \<Rightarrow> change_service \<Rightarrow> 'r \<times> change_service"
    and i :: uuid
    and change :: "stored_change_set \<Rightarrow> stored_change_set \<Rightarrow> bool"
  assumes others: "j \<noteq> i \<Longrightarrow> item j (snd (sec disk s)) = item j s"
    and mine: "item i (snd (sec disk s)) = item i s
      \<or> (\<exists>a b. item i s = Some a \<and> item i (snd (sec disk s)) = Some b \<and> change a b)"
begin

lemma item_cases:
  assumes "item j (snd (sec disk s)) = Some b"
  obtains "item j s = Some b" | a where "j = i" "item i s = Some a" "change a b"
  using assms others [of j disk s] mine [of disk s] by (cases "j = i") auto

lemma item_None: "item j (snd (sec disk s)) = None \<longleftrightarrow> item j s = None"
  using others [of j disk s] mine [of disk s] by (cases "j = i") auto

lemma keeps:
  assumes "\<And>j a. item j s = Some a \<Longrightarrow> P j a" and "\<And>a b. change a b \<Longrightarrow> P i a \<Longrightarrow> P i b"
    and "item j (snd (sec disk s)) = Some b"
  shows "P j b"
  using assms(3)
proof (cases rule: item_cases)
  case 1
  with assms(1) show ?thesis by blast
next
  case (2 a)
  with assms(1) [of i a] assms(2) show ?thesis by blast
qed

end

lemma item_put [simp]: "item j (put_item i x s) = (if j = i then Some x else item j s)"
  by (simp add: item_def put_item_def update_conv')

lemma item_persist [simp]: "item j (snd (persist_locked disk s)) = item j s"
  by (auto simp: item_def persist_locked_def Let_def split: option.splits prod.splits)

lemma item_commit:
  "item j (snd (commit disk i stored s)) = (if j = i then Some stored else item j s)"
proof (cases "persist_locked disk (put_item i stored s)")
  case (Pair r s')
  have "item j s' = (if j = i then Some stored else item j s)"
    using item_persist [of j disk "put_item i stored s"] by (simp add: Pair)
  with Pair show ?thesis by (cases r) (simp_all add: commit_def)
qed

lemma item_commit_or_restore:
  "j \<noteq> i \<Longrightarrow> item j (snd (commit_or_restore disk i previous stored s)) = item j s"
  "item i (snd (commit_or_restore disk i previous stored s)) \<in> {Some previous, Some stored}"
proof -
  obtain r s' where p: "persist_locked disk (put_item i stored s) = (r, s')" by fastforce
  have "item j s' = (if j = i then Some stored else item j s)" for j
    using item_persist [of j disk "put_item i stored s"] by (simp add: p)
  then show "j \<noteq> i \<Longrightarrow> item j (snd (commit_or_restore disk i previous stored s)) = item j s"
    "item i (snd (commit_or_restore disk i previous stored s)) \<in> {Some previous, Some stored}"
    by (cases r; simp add: commit_or_restore_def p)+
qed

text \<open>The two shapes of a section: guarded change of one item, kept or taken back on failure.\<close>

lemma item_section_restore:
  assumes "\<And>disk s. snd (sec disk s) = s \<or>
     (\<exists>a b. item i s = Some a \<and> change a b \<and> snd (sec disk s) = snd (commit_or_restore disk i a b s))"
  shows "item_section sec i change"
proof
  fix j disk s
  show "j \<noteq> i \<Longrightarrow> item j (snd (sec disk s)) = item j s"
    using assms [of disk s] item_commit_or_restore(1) by auto
  show "item i (snd (sec disk s)) = item i s
      \<or> (\<exists>a b. item i s = Some a \<and> item i (snd (sec disk s)) = Some b \<and> change a b)"
    using assms [of disk s] item_commit_or_restore(2) [of i disk _ _ s] by fastforce
qed

lemma item_section_commit:
  assumes "\<And>disk s. snd (sec disk s) = s \<or>
     (\<exists>a b. item i s = Some a \<and> change a b \<and> snd (sec disk s) = snd (commit disk i b s))"
  shows "item_section sec i change"
proof
  fix j disk s
  show "j \<noteq> i \<Longrightarrow> item j (snd (sec disk s)) = item j s"
    using assms [of disk s] item_commit [of j disk i] by auto
  show "item i (snd (sec disk s)) = item i s
      \<or> (\<exists>a b. item i s = Some a \<and> item i (snd (sec disk s)) = Some b \<and> change a b)"
    using assms [of disk s] item_commit [of i disk i] by fastforce
qed

lemma is_none_or_iff: "is_none_or P m \<longleftrightarrow> (\<forall>x. m = Some x \<longrightarrow> P x)"
  by (cases m) simp_all

definition revision :: "change_set_draft_request \<Rightarrow> stored_change_set \<Rightarrow> stored_change_set \<Rightarrow> bool" where
  "revision request a b \<longleftrightarrow>
     validate_draft request = Ok () \<and> cs_execution_state (sd_public a) = NotStarted
     \<and> cs_recovery_state (sd_public a) = Live \<and> (\<exists>fresh. b = revised_item fresh request a)"

definition approval :: "u64 \<Rightarrow> stored_change_set \<Rightarrow> stored_change_set \<Rightarrow> bool" where
  "approval version a b \<longleftrightarrow>
     reviewable version (sd_public a) \<and> cs_policy_snapshot (sd_public a) \<noteq> None
     \<and> (\<exists>e ids. cs_policy_evaluation (sd_public a) = Some e \<and> permits_execution e
          \<and> (b = a\<lparr>sd_public := (approved version (sd_public a))\<lparr>cs_approved_step_ids := ids\<rparr>\<rparr>
             \<or> b = a\<lparr>sd_public := (sd_public a)\<lparr>cs_approved_step_ids := ids\<rparr>\<rparr>))"

definition rejection :: "u64 \<Rightarrow> stored_change_set \<Rightarrow> stored_change_set \<Rightarrow> bool" where
  "rejection version a b \<longleftrightarrow>
     reviewable version (sd_public a)
     \<and> b = a\<lparr>sd_public := (sd_public a)\<lparr>cs_approval_state := ApprovalRejected, cs_approved_version := None\<rparr>\<rparr>"

definition check :: "u64 \<Rightarrow> policy_evaluation \<Rightarrow> stored_change_set \<Rightarrow> stored_change_set \<Rightarrow> bool" where
  "check version e a b \<longleftrightarrow> cs_version (sd_public a) = version \<and> (\<exists>ctx. b = checked_item e ctx a)"

definition capture :: "stored_change_set \<Rightarrow> stored_change_set \<Rightarrow> bool" where
  "capture a b \<longleftrightarrow>
     (\<exists>bindings visible. b = a\<lparr>sd_precondition_bindings := bindings,
        sd_public := (sd_public a)\<lparr>cs_preconditions := visible\<rparr>\<rparr>)"

definition invalidation :: "stored_change_set \<Rightarrow> stored_change_set \<Rightarrow> bool" where
  "invalidation a b \<longleftrightarrow>
     (\<exists>visible. b = a\<lparr>sd_public := (invalidated (sd_public a))\<lparr>cs_preconditions := visible\<rparr>\<rparr>)"

definition claiming :: "u64 \<Rightarrow> stored_change_set \<Rightarrow> stored_change_set \<Rightarrow> bool" where
  "claiming version a b \<longleftrightarrow>
     claimable version a \<and> b = a\<lparr>sd_public := (sd_public a)\<lparr>cs_execution_state := Executing\<rparr>\<rparr>"

definition storing :: "change_set \<Rightarrow> stored_change_set \<Rightarrow> stored_change_set \<Rightarrow> bool" where
  "storing p a b \<longleftrightarrow> b = a\<lparr>sd_public := p\<rparr>"

interpretation revise_section: item_section "\<lambda>disk. revise disk fresh i request" i "revision request"
  by (rule item_section_restore)
    (auto simp: revise_def revision_def split: result.splits option.splits)

interpretation approve_section: item_section "\<lambda>disk. approve disk i version" i "approval version"
proof (rule item_section_restore)
  fix disk s
  show "snd (approve disk i version s) = s \<or>
     (\<exists>a b. item i s = Some a \<and> approval version a b
        \<and> snd (approve disk i version s) = snd (commit_or_restore disk i a b s))"
  proof (cases "item i s")
    case (Some a)
    let ?b = "a\<lparr>sd_public := approved version (sd_public a)\<rparr>"
    have "?b = a\<lparr>sd_public := (approved version (sd_public a))
        \<lparr>cs_approved_step_ids := cs_approved_step_ids (sd_public a)\<rparr>\<rparr>"
      by (simp add: approved_def)
    with Some show ?thesis
      by (cases "cs_policy_evaluation (sd_public a)")
        (auto simp: approve_def approval_def Let_def intro!: exI [of _ ?b])
  qed (simp add: approve_def)
qed

interpretation approve_step_section:
  item_section "\<lambda>disk. approve_step disk i version step_id" i "approval version"
proof (rule item_section_restore)
  fix disk s
  show "snd (approve_step disk i version step_id s) = s \<or>
     (\<exists>a b. item i s = Some a \<and> approval version a b
        \<and> snd (approve_step disk i version step_id s) = snd (commit_or_restore disk i a b s))"
  proof (cases "\<exists>a e. item i s = Some a \<and> reviewable version (sd_public a)
      \<and> cs_policy_snapshot (sd_public a) \<noteq> None \<and> cs_policy_evaluation (sd_public a) = Some e
      \<and> pe_decision e = RequireStepApproval \<and> step_id \<in> gs_id ` set (cs_steps (sd_public a))")
    case True
    then obtain a e where a: "item i s = Some a" "reviewable version (sd_public a)"
      "cs_policy_snapshot (sd_public a) \<noteq> None" "cs_policy_evaluation (sd_public a) = Some e"
      "pe_decision e = RequireStepApproval" "step_id \<in> gs_id ` set (cs_steps (sd_public a))" by blast
    let ?p = "sd_public a"
    let ?ids = "if step_id \<in> set (cs_approved_step_ids ?p) then cs_approved_step_ids ?p
      else sort (cs_approved_step_ids ?p @ [step_id])"
    let ?b = "a\<lparr>sd_public := (if length ?ids = length (cs_steps ?p)
      then approved version (?p\<lparr>cs_approved_step_ids := ?ids\<rparr>) else ?p\<lparr>cs_approved_step_ids := ?ids\<rparr>)\<rparr>"
    have "snd (approve_step disk i version step_id s) = snd (commit_or_restore disk i a ?b s)"
      using a by (auto simp: approve_step_def Let_def)
    moreover have "approval version a ?b"
      unfolding approval_def using a
      by (intro conjI exI [of _ e] exI [of _ ?ids]) (auto simp: permits_execution_def approved_def)
    ultimately show ?thesis using a(1) by blast
  next
    case False
    then have "approve_step disk i version step_id s = (invalid_operation, s)"
      by (auto simp: approve_step_def Let_def is_none_or_iff split: option.splits)
    then show ?thesis by simp
  qed
qed

interpretation reject_section: item_section "\<lambda>disk. reject disk i version" i "rejection version"
  by (rule item_section_restore) (auto simp: reject_def rejection_def split: option.splits)

interpretation check_section: item_section "\<lambda>disk. commit_check i version e ctx disk" i "check version e"
  by (rule item_section_commit) (auto simp: commit_check_def check_def split: option.splits)

interpretation capture_section:
  item_section "\<lambda>disk. commit_preconditions i version captured disk" i capture
  by (rule item_section_commit) (auto simp: commit_preconditions_def capture_def split: option.splits)

lemma invalidate_section:
  assumes "\<And>a. invalidation a (a\<lparr>sd_public := f (sd_public a)\<rparr>)"
  shows "item_section (\<lambda>disk. invalidate_with f i version disk) i invalidation"
  by (rule item_section_commit) (use assms in \<open>auto simp: invalidate_with_def split: option.splits; blast\<close>)

interpretation policy_change_section:
  item_section "\<lambda>disk. invalidate_for_policy_change i version disk" i invalidation
  unfolding invalidate_for_policy_change_def
proof (rule invalidate_section)
  fix a
  show "invalidation a (a\<lparr>sd_public := invalidated (sd_public a)\<rparr>)"
    unfolding invalidation_def
    by (rule exI [of _ "cs_preconditions (sd_public a)"]) (simp add: invalidated_def)
qed

interpretation precondition_change_section:
  item_section "\<lambda>disk. invalidate_for_precondition_change i version disk" i invalidation
  unfolding invalidate_for_precondition_change_def
  by (rule invalidate_section) (auto simp: invalidation_def)

interpretation store_section:
  item_section "\<lambda>disk. store_execution_snapshot i p disk" i "storing p"
  by (rule item_section_commit)
    (auto simp: store_execution_snapshot_def storing_def split: option.splits)

interpretation claim_section: item_section "\<lambda>disk. claim i version disk" i "claiming version"
proof (rule item_section_restore)
  fix disk s
  show "snd (claim i version disk s) = s \<or>
     (\<exists>a b. item i s = Some a \<and> claiming version a b
        \<and> snd (claim i version disk s) = snd (commit_or_restore disk i a b s))"
    by (auto simp: claim_def claiming_def Let_def split: option.splits prod.splits result.splits)
qed

section \<open>Every interleaving\<close>

text \<open>
  The service with the ids drawn so far and the claims that succeeded, in order. A step is one
  locked section of some task. An identifier drawn for a new change set is one never drawn
  before, which is what \<open>Uuid::new_v4\<close> promises. A task that executes or rolls back stores
  change sets that are no longer \<open>NotStarted\<close> (\<open>stored_states\<close> below shows that the code does).
\<close>

record change_log =
  lg_service :: change_service
  lg_used :: "uuid set"
  lg_claims :: "uuid list"

inductive cs_step :: "change_log \<Rightarrow> change_log \<Rightarrow> bool" where
  step_insert: "validate_draft request = Ok () \<Longrightarrow> fresh 0 \<notin> lg_used l \<Longrightarrow>
     cs_step l (l\<lparr>lg_service := put_item (fresh 0) (new_item fresh request) (lg_service l),
                 lg_used := insert (fresh 0) (lg_used l)\<rparr>)"
| step_persist: "cs_step l (l\<lparr>lg_service := snd (persist_locked disk (lg_service l))\<rparr>)"
| step_remove: "cs_step l (l\<lparr>lg_service :=
     (lg_service l)\<lparr>sc_items := AList.delete i (sc_items (lg_service l))\<rparr>\<rparr>)"
| step_revise: "cs_step l (l\<lparr>lg_service := snd (revise disk fresh i request (lg_service l))\<rparr>)"
| step_approve: "cs_step l (l\<lparr>lg_service := snd (approve disk i version (lg_service l))\<rparr>)"
| step_approve_step:
    "cs_step l (l\<lparr>lg_service := snd (approve_step disk i version step_id (lg_service l))\<rparr>)"
| step_reject: "cs_step l (l\<lparr>lg_service := snd (reject disk i version (lg_service l))\<rparr>)"
| step_check: "cs_step l (l\<lparr>lg_service := snd (commit_check i version e ctx disk (lg_service l))\<rparr>)"
| step_capture:
    "cs_step l (l\<lparr>lg_service := snd (commit_preconditions i version captured disk (lg_service l))\<rparr>)"
| step_policy_change:
    "cs_step l (l\<lparr>lg_service := snd (invalidate_for_policy_change i version disk (lg_service l))\<rparr>)"
| step_precondition_change:
    "cs_step l (l\<lparr>lg_service := snd (invalidate_for_precondition_change i version disk (lg_service l))\<rparr>)"
| step_claim: "claim i version disk (lg_service l) = (r, s) \<Longrightarrow>
     cs_step l (l\<lparr>lg_service := s, lg_claims := lg_claims l @ (if is_ok r then [i] else [])\<rparr>)"
| step_store: "cs_execution_state p \<noteq> NotStarted \<Longrightarrow>
     cs_step l (l\<lparr>lg_service := snd (store_execution_snapshot i p disk (lg_service l))\<rparr>)"

definition empty_log :: "persisted_change_set list stored_file option \<Rightarrow> change_log" where
  "empty_log repository =
     \<lparr>lg_service = \<lparr>sc_items = [], sc_repository = repository\<rparr>, lg_used = {}, lg_claims = []\<rparr>"

definition approval_ok :: "change_set \<Rightarrow> bool" where
  "approval_ok p \<longleftrightarrow>
     (if cs_approval_state p = ApprovalGiven
      then cs_approved_version p = Some (cs_version p)
        \<and> pred_option permits_execution (cs_policy_evaluation p) \<and> cs_policy_evaluation p \<noteq> None
      else cs_approved_version p = None)"

definition item_ok :: "uuid \<Rightarrow> stored_change_set \<Rightarrow> bool" where
  "item_ok i stored \<longleftrightarrow>
     (let p = sd_public stored
      in cs_id p = i \<and> cs_recovery_state p = Live \<and> approval_ok p
         \<and> length (sd_payloads stored) = length (cs_steps p)
         \<and> sd_payloads stored \<noteq> [] \<and> length (sd_payloads stored) \<le> MAX_STEPS
         \<and> list_all valid_step (sd_payloads stored) \<and> cs_risk p = steps_risk (cs_steps p))"

text \<open>What holds of an item that was not started, and of a claimed one.\<close>

definition item_inv :: "uuid list \<Rightarrow> uuid \<Rightarrow> stored_change_set \<Rightarrow> bool" where
  "item_inv claims i stored \<longleftrightarrow>
     (cs_execution_state (sd_public stored) = NotStarted \<longrightarrow> item_ok i stored \<and> i \<notin> set claims)"

definition log_ok :: "change_log \<Rightarrow> bool" where
  "log_ok l \<longleftrightarrow>
     (\<forall>i stored. item i (lg_service l) = Some stored \<longrightarrow> i \<in> lg_used l \<and> item_inv (lg_claims l) i stored)
     \<and> set (lg_claims l) \<subseteq> lg_used l \<and> distinct (lg_claims l)"

lemma length_public_steps [simp]: "length (public_steps fresh steps) = length steps"
  by (simp add: public_steps_def)

lemma validate_draft_Ok:
  "validate_draft request = Ok () \<longleftrightarrow>
     trim (dq_title request) \<noteq> [] \<and> length (dq_title request) \<le> 256 \<and> dq_steps request \<noteq> []
     \<and> length (dq_steps request) \<le> MAX_STEPS \<and> list_all valid_step (dq_steps request)"
proof -
  have "try_for_each (\<lambda>step. if valid_step step then Ok () else Err (Remote InvalidOperation)) steps = Ok ()
      \<longleftrightarrow> list_all valid_step steps" for steps
    by (induction steps) (auto simp: result_simps)
  then show ?thesis by (auto simp: validate_draft_def)
qed

lemma new_item_ok:
  "validate_draft request = Ok () \<Longrightarrow> item_ok (fresh 0) (new_item fresh request)"
  by (simp add: new_item_def item_ok_def approval_ok_def validate_draft_Ok Let_def)

named_theorems keeps_item \<open>sections keep the item invariant\<close>

lemma revision_keeps [keeps_item]: "revision request a b \<Longrightarrow> item_inv claims i a \<Longrightarrow> item_inv claims i b"
  by (auto simp: revision_def item_inv_def item_ok_def approval_ok_def revised_item_def
      validate_draft_Ok Let_def)

lemma approval_keeps [keeps_item]: "approval version a b \<Longrightarrow> item_inv claims i a \<Longrightarrow> item_inv claims i b"
  by (auto simp: approval_def item_inv_def item_ok_def approval_ok_def approved_def reviewable_def
      Let_def)

lemma rejection_keeps [keeps_item]: "rejection version a b \<Longrightarrow> item_inv claims i a \<Longrightarrow> item_inv claims i b"
  by (auto simp: rejection_def item_inv_def item_ok_def approval_ok_def Let_def)

lemma check_keeps [keeps_item]: "check version e a b \<Longrightarrow> item_inv claims i a \<Longrightarrow> item_inv claims i b"
  by (auto simp: check_def checked_item_def item_inv_def item_ok_def approval_ok_def Let_def
      split: if_splits)

lemma capture_keeps [keeps_item]: "capture a b \<Longrightarrow> item_inv claims i a \<Longrightarrow> item_inv claims i b"
  by (auto simp: capture_def item_inv_def item_ok_def approval_ok_def Let_def)

lemma invalidation_keeps [keeps_item]: "invalidation a b \<Longrightarrow> item_inv claims i a \<Longrightarrow> item_inv claims i b"
  by (auto simp: invalidation_def invalidated_def item_inv_def item_ok_def approval_ok_def Let_def)

lemma storing_inv:
  "storing p a b \<Longrightarrow> cs_execution_state p \<noteq> NotStarted \<Longrightarrow> item_inv claims i b"
  by (simp add: storing_def item_inv_def)

text \<open>A section that keeps the item invariant keeps the whole one, if it claims nothing.\<close>

context item_section
begin

lemma log_ok_section:
  assumes "log_ok l" and "\<And>a b. change a b \<Longrightarrow> item_inv (lg_claims l) i a \<Longrightarrow> item_inv (lg_claims l) i b"
  shows "log_ok (l\<lparr>lg_service := snd (sec disk (lg_service l))\<rparr>)"
proof -
  have "j \<in> lg_used l \<and> item_inv (lg_claims l) j b"
    if "item j (snd (sec disk (lg_service l))) = Some b" for j b
  proof
    from that have "item j (lg_service l) \<noteq> None" using item_None [of j disk "lg_service l"] by auto
    with assms(1) show "j \<in> lg_used l" by (auto simp: log_ok_def)
    show "item_inv (lg_claims l) j b"
      by (rule keeps [where P = "item_inv (lg_claims l)", OF _ assms(2) that]) (use assms(1) in \<open>auto simp: log_ok_def\<close>)
  qed
  with assms(1) show ?thesis by (simp add: log_ok_def)
qed

end

lemma persist_not_Panic: "fst (persist_locked disk s) \<noteq> Panic"
proof (cases "sc_repository s")
  case (Some repository)
  then show ?thesis
    using save_atomic_cases [of disk _ repository]
    by (auto simp: persist_locked_def Let_def split: prod.splits) (metis prod.inject result.distinct)+
qed (simp add: persist_locked_def)

lemma claim_result:
  assumes "claim i version disk s = (r, s')"
  shows "if is_ok r then \<exists>a. item i s = Some a \<and> claimable version a
           \<and> item i s' = Some (a\<lparr>sd_public := (sd_public a)\<lparr>cs_execution_state := Executing\<rparr>\<rparr>)
         else item i s' = item i s"
proof (cases "\<exists>a. item i s = Some a \<and> claimable version a")
  case True
  then obtain a where a: "item i s = Some a" "claimable version a" by blast
  let ?b = "a\<lparr>sd_public := (sd_public a)\<lparr>cs_execution_state := Executing\<rparr>\<rparr>"
  obtain r1 s1 where p: "persist_locked disk (put_item i ?b s) = (r1, s1)" by fastforce
  have "item i s1 = Some ?b" using item_persist [of i disk "put_item i ?b s"] by (simp add: p)
  moreover have "r1 \<noteq> Panic" using persist_not_Panic [of disk "put_item i ?b s"] by (simp add: p)
  ultimately show ?thesis
    using assms a p by (cases r1) (auto simp: claim_def commit_or_restore_def Let_def)
qed (use assms in \<open>auto simp: claim_def split: option.splits if_splits\<close>)

lemma log_ok_claim:
  assumes ok: "log_ok l" and claim: "claim i version disk (lg_service l) = (r, s)"
  shows "log_ok (l\<lparr>lg_service := s, lg_claims := lg_claims l @ (if is_ok r then [i] else [])\<rparr>)"
proof -
  have other: "item j s = item j (lg_service l)" if "j \<noteq> i" for j
    using claim_section.others [OF that, of version disk "lg_service l"] claim by simp
  show ?thesis
  proof (cases "is_ok r")
    case False
    with claim_result [OF claim] other have "item j s = item j (lg_service l)" for j
      by (cases "j = i") auto
    with ok False show ?thesis by (simp add: log_ok_def)
  next
    case True
    with claim_result [OF claim] obtain a where a: "item i (lg_service l) = Some a" "claimable version a"
      "item i s = Some (a\<lparr>sd_public := (sd_public a)\<lparr>cs_execution_state := Executing\<rparr>\<rparr>)" by auto
    with ok have "i \<in> lg_used l" "i \<notin> set (lg_claims l)"
      by (auto simp: log_ok_def item_inv_def claimable_def Let_def)
    moreover have "j \<in> lg_used l \<and> item_inv (lg_claims l @ [i]) j b" if "item j s = Some b" for j b
      using that ok a other [of j] by (cases "j = i") (auto simp: log_ok_def item_inv_def)
    ultimately show ?thesis using ok True by (auto simp: log_ok_def)
  qed
qed

lemma cs_step_keeps_log:
  "cs_step l l' \<Longrightarrow> log_ok l \<Longrightarrow> log_ok l'"
proof (induction rule: cs_step.induct)
  case (step_insert request fresh l)
  moreover from step_insert have "fresh 0 \<notin> set (lg_claims l)" by (auto simp: log_ok_def)
  ultimately show ?case by (auto simp: log_ok_def item_inv_def new_item_ok)
next
  case (step_persist l disk)
  then show ?case by (simp add: log_ok_def)
next
  case (step_remove l i)
  then show ?case by (auto simp: log_ok_def item_def delete_conv' split: if_splits)
next
  case (step_claim i version disk l r s)
  then show ?case by (intro log_ok_claim)
next
  case (step_store p l i disk)
  then show ?case by (intro store_section.log_ok_section storing_inv)
qed (auto intro!: revise_section.log_ok_section approve_section.log_ok_section
    approve_step_section.log_ok_section reject_section.log_ok_section check_section.log_ok_section
    capture_section.log_ok_section policy_change_section.log_ok_section
    precondition_change_section.log_ok_section intro: keeps_item)

lemma reachable_log_ok: "cs_step\<^sup>*\<^sup>* (empty_log repository) l \<Longrightarrow> log_ok l"
proof (induction rule: rtranclp_induct)
  case base
  show ?case by (simp add: log_ok_def empty_log_def item_def)
next
  case (step l l')
  then show ?case by (blast intro: cs_step_keeps_log)
qed

section \<open>The operations are sequences of sections\<close>

definition reaches :: "change_log \<Rightarrow> change_service \<Rightarrow> bool" where
  "reaches l s \<longleftrightarrow> (\<exists>l'. cs_step\<^sup>*\<^sup>* l l' \<and> lg_service l' = s)"

text \<open>Other tasks, too, run locked sections only.\<close>

definition well_behaved :: "change_world \<Rightarrow> bool" where
  "well_behaved w \<longleftrightarrow> (\<forall>t l. reaches l (gw_others w t (lg_service l)))"

lemma reaches_refl: "lg_service l = s \<Longrightarrow> reaches l s"
  unfolding reaches_def by blast

lemma reaches_trans:
  assumes "reaches l s" and "\<And>l' :: change_log. lg_service l' = s \<Longrightarrow> reaches l' s'"
  shows "reaches l s'"
proof -
  from assms(1) obtain l1 where "cs_step\<^sup>*\<^sup>* l l1" "lg_service l1 = s" by (auto simp: reaches_def)
  moreover from assms(2) [OF this(2)] obtain l2 where "cs_step\<^sup>*\<^sup>* l1 l2" "lg_service l2 = s'"
    by (auto simp: reaches_def)
  ultimately show ?thesis unfolding reaches_def by (blast intro: rtranclp_trans)
qed

lemma reaches_lock:
  assumes "well_behaved w" and "reaches l (cx_service cx)"
  shows "reaches l (cx_service (lock w cx))"
  using assms(2)
proof (rule reaches_trans)
  fix l' :: change_log assume "lg_service l' = cx_service cx"
  then have "cx_service (lock w cx) = gw_others w (cx_tick cx) (lg_service l')" by (simp add: lock_def)
  then show "reaches l' (cx_service (lock w cx))" using assms(1) by (simp add: well_behaved_def)
qed

lemma reaches_in_lock:
  assumes "well_behaved w" and "reaches l (cx_service cx)" and "in_lock w sec cx = (r, cx')"
    and "\<And>disk (l :: change_log). reaches l (snd (sec disk (lg_service l)))"
  shows "reaches l (cx_service cx')"
proof (rule reaches_trans [OF reaches_lock [OF assms(1,2)]])
  fix l' :: change_log assume "lg_service l' = cx_service (lock w cx)"
  then show "reaches l' (cx_service cx')"
    using assms(3) assms(4) [of l' "gw_disk w (cx_tick (lock w cx))"]
    by (auto simp: in_lock_def Let_def split: prod.splits)
qed

lemma reaches_step: "cs_step l l' \<Longrightarrow> lg_service l' = s \<Longrightarrow> reaches l s"
  unfolding reaches_def by blast

lemma reaches_check: "reaches l (snd (commit_check i version e ctx disk (lg_service l)))"
  by (rule reaches_step [OF step_check]) simp

lemma reaches_capture: "reaches l (snd (commit_preconditions i version captured disk (lg_service l)))"
  by (rule reaches_step [OF step_capture]) simp

lemma reaches_approve: "reaches l (snd (approve disk i version (lg_service l)))"
  by (rule reaches_step [OF step_approve]) simp

lemma reaches_policy_change: "reaches l (snd (invalidate_for_policy_change i version disk (lg_service l)))"
  by (rule reaches_step [OF step_policy_change]) simp

lemma reaches_precondition_change:
  "reaches l (snd (invalidate_for_precondition_change i version disk (lg_service l)))"
  by (rule reaches_step [OF step_precondition_change]) simp

lemma reaches_claim: "reaches l (snd (claim i version disk (lg_service l)))"
  by (cases "claim i version disk (lg_service l)") (auto intro: reaches_step [OF step_claim])

lemma reaches_store:
  "cs_execution_state p \<noteq> NotStarted \<Longrightarrow>
     reaches l (snd (store_execution_snapshot i p disk (lg_service l)))"
  by (rule reaches_step [OF step_store]) simp_all

lemma reaches_locked_store:
  assumes "well_behaved w" "reaches l (cx_service cx)" "cs_execution_state p \<noteq> NotStarted"
    and "in_lock w (store_execution_snapshot i p) cx = (r, cx')"
  shows "reaches l (cx_service cx')"
  by (rule reaches_in_lock [OF assms(1,2,4)]) (rule reaches_store [OF assms(3)])

lemma call_tool_service: "call_tool w q cx = (r, cx') \<Longrightarrow> cx_service cx' = cx_service cx"
  by (auto simp: call_tool_def)

lemma evaluate_payloads_service:
  "evaluate_payloads w ctx steps payloads cx = (r, cx') \<Longrightarrow> cx_service cx' = cx_service cx"
proof (induction w ctx steps payloads cx arbitrary: r cx' rule: evaluate_payloads.induct)
  case (3 w ctx step steps payload payloads cx)
  let ?q = "step_request ctx (invocation_name (invocation payload)) (gs_risk step)"
  obtain r1 cx1 where e: "evaluate_policy w ?q cx = (r1, cx1)" by fastforce
  then have same: "cx_service cx1 = cx_service cx" by (auto simp: evaluate_policy_def Let_def)
  show ?case
  proof (cases r1)
    case (Ok x)
    obtain r2 cx2 where rest: "evaluate_payloads w ctx steps payloads cx1 = (r2, cx2)" by fastforce
    have "cx_service cx2 = cx_service cx1" using "3.IH" [OF e [symmetric]] Ok rest by simp
    moreover have "cx' = cx2" using "3.prems" e Ok rest by (auto split: result.splits)
    ultimately show ?thesis using same by simp
  qed (use "3.prems" e same in auto)
qed simp_all

lemma capture_checks_service:
  "capture_checks w sid steps payloads cx = (r, cx') \<Longrightarrow> cx_service cx' = cx_service cx"
proof (induction payloads arbitrary: steps cx r cx')
  case (Cons payload payloads)
  obtain r1 cx1 where e: "call_tool w (read_request w sid (precondition_invocation payload) cx) cx
      = (r1, cx1)" by fastforce
  note same = call_tool_service [OF e]
  show ?case
  proof (cases "\<exists>res step rest. r1 = Ok res \<and> tr_success res \<and> steps = step # rest")
    case True
    then obtain res step rest where ok: "r1 = Ok res" "tr_success res" "steps = step # rest" by blast
    obtain r2 cx2 where more: "capture_checks w sid rest payloads cx1 = (r2, cx2)" by fastforce
    from Cons.prems e ok more have "cx' = cx2" by (auto simp: Let_def split: result.splits)
    with Cons.IH [OF more] same show ?thesis by simp
  next
    case False
    with Cons.prems e have "cx' = cx1"
      by (cases r1; cases steps) (auto simp: Let_def split: if_splits)
    with same show ?thesis by simp
  qed
qed simp

lemma reaches_check_policy:
  assumes "well_behaved w" "reaches l (cx_service cx)" "check_policy w i version ctx cx = (r, cx')"
  shows "reaches l (cx_service cx')"
proof -
  note l0 = reaches_lock [OF assms(1,2)]
  show ?thesis
  proof (cases "item i (cx_service (lock w cx))")
    case None
    with assms(3) l0 show ?thesis by (simp add: check_policy_def)
  next
    case (Some stored)
    obtain r1 cx1 where e: "evaluate_payloads w ctx (cs_steps (sd_public stored)) (sd_payloads stored)
        (lock w cx) = (r1, cx1)" by fastforce
    have "reaches l (cx_service cx1)" using l0 evaluate_payloads_service [OF e] by simp
    with assms Some e l0 show ?thesis
      by (auto simp: check_policy_def Let_def split: if_splits result.splits
          intro: reaches_in_lock [OF assms(1) _ _ reaches_check])
  qed
qed

lemma reaches_approve_with_preconditions:
  assumes "well_behaved w" "reaches l (cx_service cx)"
    and "approve_with_preconditions w i version cx = (r, cx')"
  shows "reaches l (cx_service cx')"
proof -
  obtain r1 cx1 where c: "capture_preconditions w i version cx = (r1, cx1)" by fastforce
  note l0 = reaches_lock [OF assms(1,2)]
  have "reaches l (cx_service cx1)"
  proof (cases "item i (cx_service (lock w cx))")
    case None
    with c l0 show ?thesis by (simp add: capture_preconditions_def)
  next
    case (Some stored)
    obtain r2 cx2 where e: "capture_checks w (cs_session_id (sd_public stored))
        (cs_steps (sd_public stored)) (sd_payloads stored) (lock w cx) = (r2, cx2)" by fastforce
    have "reaches l (cx_service cx2)" using l0 capture_checks_service [OF e] by simp
    with c Some e l0 show ?thesis
      by (auto simp: capture_preconditions_def Let_def split: if_splits result.splits
          intro: reaches_in_lock [OF assms(1) _ _ reaches_capture])
  qed
  with assms(3) c show ?thesis
    by (auto simp: approve_with_preconditions_def split: result.splits
        intro: reaches_in_lock [OF assms(1) _ _ reaches_approve])
qed

lemma reaches_recheck:
  assumes "well_behaved w"
  shows "reaches l (cx_service cx) \<Longrightarrow> recheck w i version sid bindings cx = (r, cx') \<Longrightarrow>
    reaches l (cx_service cx')"
proof (induction bindings arbitrary: cx)
  case (Cons b bindings)
  obtain r1 cx1 where e: "call_tool w (read_request w sid (pb_invocation b) cx) cx = (r1, cx1)" by fastforce
  with Cons.prems have here: "reaches l (cx_service cx1)" by (simp add: call_tool_service [OF e])
  show ?case
  proof (cases r1)
    case (Ok res)
    show ?thesis
    proof (cases "\<not> tr_success res \<or> result_digest w res \<noteq> pb_digest b")
      case True
      obtain r2 cx2 where inv: "in_lock w (invalidate_for_precondition_change i version) cx1 = (r2, cx2)"
        by fastforce
      have "reaches l (cx_service cx2)"
        by (rule reaches_in_lock [OF assms here inv reaches_precondition_change])
      with Cons.prems e Ok True inv show ?thesis by (auto split: result.splits)
    next
      case False
      with Cons e Ok here show ?thesis by simp
    qed
  qed (use Cons.prems e here in auto)
qed simp

lemma set_change_step_state [simp]: "cs_execution_state (set_change_step n f p) = cs_execution_state p"
  by (simp add: set_change_step_def)

lemma failed_step_state [simp]: "cs_execution_state (failed_step n code p) = ExecutionFailed"
  by (simp add: failed_step_def)

lemma reverse_patches_state:
  "reverse_patches w authority steps attempted failed p cx = (a, f, p', cx') \<Longrightarrow>
     cs_execution_state p' = cs_execution_state p \<and> cx_service cx' = cx_service cx"
proof (induction steps arbitrary: attempted failed p cx)
  case (Cons entry steps)
  obtain index step where entry: "entry = (index, step)" by fastforce
  show ?case
  proof (cases step)
    case (DraftFilePatch filename expected replacement)
    obtain r1 cx1 where call: "call_tool w (approved_request w (cs_session_id p)
        (InvFilePatch filename replacement expected) (authority\<lparr>ta_rollback := True\<rparr>) cx) cx = (r1, cx1)"
      by fastforce
    obtain failed1 p1 where "reverse_patches w authority steps True failed1 p1 cx1 = (a, f, p', cx')"
      and "cs_execution_state p1 = cs_execution_state p"
      using Cons.prems call by (auto simp: entry DraftFilePatch split: if_splits)
    with Cons.IH call_tool_service [OF call] show ?thesis by auto
  qed (use Cons entry in auto)
qed simp

lemma rollback_files_state:
  assumes "rollback_files w authority completed p cx = (p', cx')"
  shows "cs_execution_state p' \<in> {cs_execution_state p, RollbackFailed, RolledBack}
    \<and> cx_service cx' = cx_service cx"
proof -
  let ?failed = "list_ex (\<lambda>(_, step). \<not> is_file_patch step) completed"
  obtain a f p1 cx1 where "reverse_patches w authority (rev completed) False ?failed p cx = (a, f, p1, cx1)"
    by (metis prod_cases4)
  with assms reverse_patches_state [OF this] show ?thesis
    by (auto simp: rollback_files_def split: if_splits)
qed

lemma reaches_execute_steps:
  assumes "well_behaved w"
  shows "reaches l (cx_service cx) \<Longrightarrow> cs_execution_state p \<noteq> NotStarted \<Longrightarrow>
    execute_steps w i authority index payloads completed p cx = (r, cx') \<Longrightarrow>
    reaches l (cx_service cx') \<and> (\<forall>p'. r = Ok p' \<longrightarrow> cs_execution_state p' \<noteq> NotStarted)"
proof (induction payloads arbitrary: index completed p cx)
  case (Cons payload payloads)
  obtain r1 cx1 where call: "call_tool w (approved_request w (cs_session_id p) (invocation payload)
      authority cx) cx = (r1, cx1)" by fastforce
  with Cons.prems have here: "reaches l (cx_service cx1)" by (simp add: call_tool_service [OF call])
  show ?case
  proof (cases r1)
    case Panic
    with Cons.prems call here show ?thesis by auto
  next
    case (Err e)
    obtain p2 cx2 where rb: "rollback_files w authority completed
        (failed_step index (Some (app_error_code e)) p) cx1 = (p2, cx2)" by fastforce
    with rollback_files_state [OF rb] here have "reaches l (cx_service cx2)" "cs_execution_state p2 \<noteq> NotStarted"
      by auto
    moreover from Cons.prems call Err rb have "in_lock w (store_execution_snapshot i p2) cx2 = (r, cx')" by simp
    moreover have "r = Ok p' \<Longrightarrow> p' = p2" for p'
      using calculation(3) by (auto simp: in_lock_def store_execution_snapshot_def commit_def Let_def
          split: prod.splits option.splits result.splits)
    ultimately show ?thesis using reaches_locked_store [OF assms] by metis
  next
    case (Ok res)
    show ?thesis
    proof (cases "tr_success res")
      case False
      obtain p2 cx2 where rb: "rollback_files w authority completed
          (failed_step index (tr_error_code res) p) cx1 = (p2, cx2)" by fastforce
      with rollback_files_state [OF rb] here Cons.prems call Ok False show ?thesis by auto
    next
      case True
      let ?p = "set_change_step index (\<lambda>s. s\<lparr>gs_state := ChangeStepSucceeded\<rparr>) p"
      obtain r2 cx2 where store: "in_lock w (store_execution_snapshot i ?p) cx1 = (r2, cx2)" by fastforce
      have next_: "reaches l (cx_service cx2)"
        by (rule reaches_locked_store [OF assms here _ store]) (use Cons.prems in simp)
      show ?thesis
      proof (cases r2)
        case (Ok p2)
        with Cons.prems call \<open>r1 = Ok res\<close> True store
        have "execute_steps w i authority (Suc index) payloads (completed @ [(index, payload)]) ?p cx2 = (r, cx')"
          by (simp add: Let_def)
        from Cons.IH [OF next_ _ this] Cons.prems show ?thesis by simp
      qed (use Cons.prems call \<open>r1 = Ok res\<close> True store next_ in \<open>auto simp: Let_def\<close>)
    qed
  qed
qed auto

lemma reaches_run_claimed:
  assumes "well_behaved w" "reaches l (cx_service cx)" "cs_execution_state p \<noteq> NotStarted"
    and "run_claimed w i p payloads cx = (r, cx')"
  shows "reaches l (cx_service cx')"
proof -
  let ?a = "\<lparr>ta_agent_run_id = cs_agent_run_id p, ta_change_set_id = cs_id p,
    ta_change_set_version = cs_version p, ta_rollback = False\<rparr>"
  obtain r1 cx1 where run: "execute_steps w i ?a 0 payloads [] p cx = (r1, cx1)" by fastforce
  from reaches_execute_steps [OF assms(1-3) run] have here: "reaches l (cx_service cx1)"
    "\<And>p'. r1 = Ok p' \<Longrightarrow> cs_execution_state p' \<noteq> NotStarted" by auto
  show ?thesis
  proof (cases r1)
    case (Ok p')
    let ?p = "if cs_execution_state p' = Executing then p'\<lparr>cs_execution_state := Committed\<rparr> else p'"
    have "in_lock w (store_execution_snapshot i ?p) cx1 = (r, cx')"
      using assms(4) run Ok by (simp add: run_claimed_def Let_def)
    from reaches_locked_store [OF assms(1) here(1) _ this] here(2) [OF Ok] show ?thesis by simp
  qed (use assms(4) run here in \<open>auto simp: run_claimed_def Let_def\<close>)
qed

lemma reaches_execute:
  assumes w: "well_behaved w" and here: "reaches l (cx_service cx)"
    and run: "execute_with_policy w i version cx = (r, cx')"
  shows "reaches l (cx_service cx')"
proof -
  let ?cx0 = "lock w cx"
  note l0 = reaches_lock [OF w here]
  show ?thesis
  proof (cases "\<exists>stored snapshot binding. item i (cx_service ?cx0) = Some stored
      \<and> cs_policy_snapshot (sd_public stored) = Some snapshot \<and> sd_policy_binding stored = Some binding
      \<and> current_matches (gw_policy w (cx_tick ?cx0)) snapshot")
    case False
    then show ?thesis
      using run l0 by (auto simp: execute_with_policy_def Let_def
          split: option.splits if_splits result.splits prod.splits
          intro: reaches_in_lock [OF w _ _ reaches_policy_change])
  next
    case True
    then obtain stored snapshot binding where
      found: "item i (cx_service ?cx0) = Some stored" "cs_policy_snapshot (sd_public stored) = Some snapshot"
        "sd_policy_binding stored = Some binding" "current_matches (gw_policy w (cx_tick ?cx0)) snapshot"
      by blast
    obtain r1 cx1 where check: "check_policy w i version binding ?cx0 = (r1, cx1)" by fastforce
    note l1 = reaches_check_policy [OF w l0 check]
    let ?cx2 = "lock w cx1"
    note l2 = reaches_lock [OF w l1]
    show ?thesis
    proof (cases "\<exists>checked stored. r1 = Ok checked
        \<and> \<not> is_none_or (\<lambda>e. \<not> permits_execution e) (cs_policy_evaluation checked)
        \<and> item i (cx_service ?cx2) = Some stored
        \<and> length (sd_precondition_bindings stored) = length (sd_payloads stored)")
      case False
      then have "cx' = cx1 \<or> cx' = ?cx2"
        using run found check by (cases r1) (auto simp: execute_with_policy_def Let_def
            split: option.splits if_splits)
      with l1 l2 show ?thesis by auto
    next
      case True
      then obtain checked stored2 where ok: "r1 = Ok checked"
        "\<not> is_none_or (\<lambda>e. \<not> permits_execution e) (cs_policy_evaluation checked)"
        "item i (cx_service ?cx2) = Some stored2"
        "length (sd_precondition_bindings stored2) = length (sd_payloads stored2)" by blast
      obtain r3 cx3 where re: "recheck w i version (cs_session_id (sd_public stored2))
          (sd_precondition_bindings stored2) ?cx2 = (r3, cx3)" by fastforce
      note l3 = reaches_recheck [OF w l2 re]
      obtain r4 cx4 where cl: "in_lock w (claim i version) cx3 = (r4, cx4)" by fastforce
      note l4 = reaches_in_lock [OF w l3 cl reaches_claim]
      have whole: "execute_with_policy w i version cx =
          (case r3 of Err e \<Rightarrow> (Err e, cx3) | Panic \<Rightarrow> (Panic, cx3)
           | Ok _ \<Rightarrow> (case r4 of Err e \<Rightarrow> (Err e, cx4) | Panic \<Rightarrow> (Panic, cx4)
               | Ok (p, payloads) \<Rightarrow> run_claimed w i p payloads cx4))"
        using found check ok re cl by (cases r3; cases r4) (simp_all add: execute_with_policy_def Let_def)
      show ?thesis
      proof (cases "\<exists>u p payloads. r3 = Ok u \<and> r4 = Ok (p, payloads)")
        case True
        then obtain p payloads where oks: "r3 = Ok ()" "r4 = Ok (p, payloads)" by auto
        with whole run have "run_claimed w i p payloads cx4 = (r, cx')" by simp
        moreover have "cs_execution_state p \<noteq> NotStarted"
          using cl oks by (auto simp: in_lock_def claim_def commit_or_restore_def Let_def
              split: prod.splits option.splits if_splits result.splits)
        ultimately show ?thesis using reaches_run_claimed [OF w l4] by blast
      next
        case False
        with whole run have "cx' = cx3 \<or> cx' = cx4" by (cases r3; cases r4) auto
        with l3 l4 show ?thesis by blast
      qed
    qed
  qed
qed

lemma reaches_rollback:
  assumes w: "well_behaved w" and here: "reaches l (cx_service cx)"
    and run: "rollback w i version cx = (r, cx')"
  shows "reaches l (cx_service cx')"
proof -
  note l0 = reaches_lock [OF w here]
  show ?thesis
  proof (cases "\<exists>stored. item i (cx_service (lock w cx)) = Some stored \<and> rollback_allowed version stored")
    case False
    with run l0 show ?thesis
      by (auto simp: rollback_def Let_def split: option.splits)
  next
    case True
    then obtain stored where found: "item i (cx_service (lock w cx)) = Some stored"
      "rollback_allowed version stored" by blast
    let ?p = "sd_public stored"
    let ?a = "\<lparr>ta_agent_run_id = cs_agent_run_id ?p, ta_change_set_id = cs_id ?p,
      ta_change_set_version = cs_version ?p, ta_rollback = True\<rparr>"
    let ?completed = "filter (\<lambda>(index, _). gs_state (cs_steps ?p ! index) = ChangeStepSucceeded)
      (enumerate 0 (sd_payloads stored))"
    obtain p1 cx1 where rb: "rollback_files w ?a ?completed ?p (lock w cx) = (p1, cx1)" by fastforce
    let ?p1 = "if cs_execution_state p1 \<in> {RolledBack, RollbackFailed} then p1
      else p1\<lparr>cs_execution_state := RollbackFailed\<rparr>"
    have "in_lock w (store_execution_snapshot i ?p1) cx1 = (r, cx')"
      using run found rb by (simp add: rollback_def Let_def)
    moreover have "reaches l (cx_service cx1)" using rollback_files_state [OF rb] l0 by simp
    moreover have "cs_execution_state ?p1 \<noteq> NotStarted" by auto
    ultimately show ?thesis using reaches_locked_store [OF w] by blast
  qed
qed

text \<open>
  C2. No change set is ever claimed for execution twice, at no version and by no interleaving of
  the operations of any number of tasks; and what can be claimed is an item whose approval is
  for its present version and was permitted by the policy, with one valid payload per step.
\<close>

theorem change_set_claimed_once:
  assumes "cs_step\<^sup>*\<^sup>* (empty_log repository) l"
  shows "distinct (lg_claims l)
    \<and> (\<forall>i version stored. item i (lg_service l) = Some stored \<and> claimable version stored \<longrightarrow>
         i \<notin> set (lg_claims l) \<and> item_ok i stored)"
  using reachable_log_ok [OF assms]
  by (auto simp: log_ok_def item_inv_def claimable_def Let_def)

text \<open>
  C3. The operations that wait for the policy or a tool are sequences of locked sections, with
  those of other tasks in between: started in any state of the service, each leaves it in a
  state that sections reach. In particular an execution or a rollback never stores a change set
  that counts as not started.
\<close>

theorem operations_run_sections:
  assumes "well_behaved w" and "lg_service l = cx_service cx"
  shows "reaches l (cx_service (snd (check_policy w i version ctx cx)))
    \<and> reaches l (cx_service (snd (approve_with_preconditions w i version cx)))
    \<and> reaches l (cx_service (snd (execute_with_policy w i version cx)))
    \<and> reaches l (cx_service (snd (rollback w i version cx)))"
proof -
  note here = reaches_refl [OF assms(2)]
  show ?thesis
    by (intro conjI; rule reaches_check_policy [OF assms(1) here] reaches_execute [OF assms(1) here]
        reaches_approve_with_preconditions [OF assms(1) here] reaches_rollback [OF assms(1) here];
        rule prod.collapse [symmetric])
qed

section \<open>A concrete history\<close>

definition repair_request :: change_set_draft_request where
  "repair_request = \<lparr>dq_agent_run_id = 1, dq_session_id = 2, dq_title = ''repair'',
     dq_steps = [DraftFilePatch ''/etc/a'' ''x'' ''y'', DraftNginxReload]\<rparr>"

definition allow_evaluation :: policy_evaluation where
  "allow_evaluation = \<lparr>pe_decision = RequireApproval, pe_matched_rules = [], pe_reason = ''ASK'',
     pe_scope = Global, pe_policy_version = 1, pe_policy_hash = []\<rparr>"

definition server_context :: policy_check_context where
  "server_context = \<lparr>pk_target = \<lparr>pt_server_id = 2, pt_group_id = None, pt_environment = None\<rparr>,
     pk_target_count = 1, pk_execution_strategy = Sequential, pk_source = NativeTool\<rparr>"

definition drafted_log :: change_log where
  "drafted_log = (empty_log None)\<lparr>
     lg_service := put_item 10 (new_item (\<lambda>n. of_nat n + 10) repair_request) (lg_service (empty_log None)),
     lg_used := insert 10 (lg_used (empty_log None))\<rparr>"

definition checked_log :: change_log where
  "checked_log = drafted_log\<lparr>lg_service :=
     snd (commit_check 10 1 allow_evaluation server_context all_steps_ok (lg_service drafted_log))\<rparr>"

definition approved_log :: change_log where
  "approved_log = checked_log\<lparr>lg_service := snd (approve all_steps_ok 10 1 (lg_service checked_log))\<rparr>"

lemma repair_request_valid: "validate_draft repair_request = Ok ()"
proof -
  have "trim ''repair'' \<noteq> []" by code_simp
  then show ?thesis
    by (simp add: validate_draft_Ok repair_request_def MAX_STEPS_def MAX_PATCH_BYTES_def)
qed

lemma approved_log_reachable: "cs_step\<^sup>*\<^sup>* (empty_log None) approved_log"
proof -
  have "cs_step (empty_log None) drafted_log"
    using step_insert [OF repair_request_valid, of "\<lambda>n. of_nat n + 10" "empty_log None"]
    by (simp add: drafted_log_def empty_log_def)
  moreover have "cs_step drafted_log checked_log"
    unfolding checked_log_def by (rule step_check)
  moreover have "cs_step checked_log approved_log"
    unfolding approved_log_def by (rule step_approve)
  ultimately show ?thesis
    by (rule rtranclp.rtrancl_into_rtrancl [OF rtranclp.rtrancl_into_rtrancl [OF r_into_rtranclp]])
qed

lemma persist_nowhere [simp]: "sc_repository s = None \<Longrightarrow> persist_locked disk s = (Ok (), s)"
  by (simp add: persist_locked_def)

lemma put_item_repository [simp]: "sc_repository (put_item i x s) = sc_repository s"
  by (simp add: put_item_def)

lemma approved_log_claim: "is_ok (fst (claim 10 1 all_steps_ok (lg_service approved_log)))"
proof -
  let ?new = "new_item (\<lambda>n. of_nat n + 10) repair_request"
  let ?checked = "checked_item allow_evaluation server_context ?new"
  let ?approved = "?checked\<lparr>sd_public := approved 1 (sd_public ?checked)\<rparr>"
  let ?s0 = "put_item 10 ?new (lg_service (empty_log None))"
  have repo: "sc_repository (lg_service (empty_log None)) = None" by (simp add: empty_log_def)
  have "item 10 ?s0 = Some ?new" by simp
  then have checked: "lg_service checked_log = put_item 10 ?checked ?s0"
    using repo by (simp add: checked_log_def drafted_log_def commit_check_def commit_def)
      (simp add: new_item_def Let_def)
  have "reviewable 1 (sd_public ?checked)" "cs_policy_evaluation (sd_public ?checked) = Some allow_evaluation"
    "cs_policy_snapshot (sd_public ?checked) \<noteq> None" "pe_decision allow_evaluation = RequireApproval"
    by (simp_all add: checked_item_def new_item_def reviewable_def allow_evaluation_def
        permits_execution_def Let_def)
  then have "lg_service approved_log = put_item 10 ?approved (lg_service checked_log)"
    using repo by (auto simp: approved_log_def checked approve_def commit_or_restore_def permits_execution_def Let_def)
  moreover have "claimable 1 ?approved"
    by (simp add: claimable_def approved_def checked_item_def new_item_def allow_evaluation_def
        permits_execution_def Let_def)
  ultimately show ?thesis
    using repo by (simp add: claim_def commit_or_restore_def checked Let_def)
qed

lemma change_set_claimed_once_witness:
  "\<exists>l. cs_step\<^sup>*\<^sup>* (empty_log None) l \<and> lg_claims l = [10] \<and> distinct (lg_claims l)"
proof -
  obtain r s where c: "claim 10 1 all_steps_ok (lg_service approved_log) = (r, s)" by fastforce
  let ?l = "approved_log\<lparr>lg_service := s, lg_claims := lg_claims approved_log @ (if is_ok r then [10] else [])\<rparr>"
  have reach: "cs_step\<^sup>*\<^sup>* (empty_log None) ?l"
    by (rule rtranclp.rtrancl_into_rtrancl [OF approved_log_reachable step_claim [OF c]])
  from change_set_claimed_once [OF reach] have "distinct (lg_claims ?l)" by blast
  moreover have "lg_claims ?l = [10]"
    using approved_log_claim c
    by (simp add: approved_log_def checked_log_def drafted_log_def empty_log_def)
  ultimately show ?thesis using reach by blast
qed

definition quiet_world :: change_world where
  "quiet_world =
     \<lparr>gw_others = (\<lambda>_ s. s), gw_disk = (\<lambda>_. all_steps_ok), gw_uuid = (\<lambda>_. 0), gw_now = (\<lambda>_. 0),
      gw_policy = (\<lambda>_. policy_service_new (\<lambda>_. []) default_policy), gw_tool = (\<lambda>_ _. Err Storage),
      gw_digest = (\<lambda>_. ''d'')\<rparr>"

lemma operations_run_sections_witness:
  "reaches approved_log (cx_service (snd (execute_with_policy quiet_world 10 1
     \<lparr>cx_service = lg_service approved_log, cx_tick = 0, cx_calls = []\<rparr>)))"
proof -
  have "well_behaved quiet_world"
    by (simp add: well_behaved_def quiet_world_def reaches_refl)
  from operations_run_sections [OF this] show ?thesis by auto
qed

end
