(* ===== verification/Change_Set_Recovery.thy ===== *)
theory Change_Set_Recovery
  imports Change_Set_Safety
begin

text \<open>
  What a restart makes of saved change sets, what the policy's answers for several steps combine
  to, and which writes are beyond the reach of a rollback (agentic/changes.rs).
\<close>

section \<open>Combining decisions\<close>

lemma dedup_rules_ids: "mr_rule_id ` set (dedup_rules rules) = mr_rule_id ` set rules"
  by (induction rules rule: dedup_rules.induct) (auto split: if_splits)

lemma dedup_rules_subset: "set (dedup_rules rules) \<subseteq> set rules"
  by (induction rules rule: dedup_rules.induct) (auto split: if_splits)

lemma dedup_rules_strict:
  "sorted (map mr_rule_id rules) \<Longrightarrow> sorted_wrt (<) (map mr_rule_id (dedup_rules rules))"
proof (induction rules rule: dedup_rules.induct)
  case (1 a b rules)
  show ?case
  proof (cases "mr_rule_id a = mr_rule_id b")
    case False
    with "1.prems" have less: "mr_rule_id a < mr_rule_id r" if "r \<in> set (b # rules)" for r
      using that by (auto simp: less_le_trans order.strict_iff_order)
    then have "mr_rule_id a < mr_rule_id r" if "r \<in> set (dedup_rules (b # rules))" for r
      using that dedup_rules_subset by blast
    with False 1 show ?thesis by simp
  qed (use 1 in simp)
qed simp_all

text \<open>
  The policy's answers for the steps of a change set combine to the strictest of them: no
  step's decision is stricter than the result, which one of the steps was given, with its
  reason and scope. The matched rules are those of all steps, once each, in the order of their
  ids. There is no result exactly when there is no step or two answers come from different
  policies, so a change set is never judged by a mixture.
\<close>

lemma combined_decision_is_strictest:
  "case combine_policy_evaluations es of
     Ok e \<Rightarrow>
       (\<exists>d \<in> set es. pe_decision d = pe_decision e \<and> pe_reason d = pe_reason e \<and> pe_scope d = pe_scope e
          \<and> list_all (\<lambda>x. precedence (pe_decision x) \<le> precedence (pe_decision d)) es)
       \<and> list_all (\<lambda>x. pe_policy_version x = pe_policy_version e \<and> pe_policy_hash x = pe_policy_hash e) es
       \<and> mr_rule_id ` set (pe_matched_rules e) = mr_rule_id ` (\<Union>x \<in> set es. set (pe_matched_rules x))
       \<and> sorted_wrt (<) (map mr_rule_id (pe_matched_rules e))
   | Err error \<Rightarrow> error = Remote InvalidOperation
       \<and> (es = [] \<or> list_ex (\<lambda>x. (pe_policy_version x, pe_policy_hash x)
                                 \<noteq> (pe_policy_version (hd es), pe_policy_hash (hd es))) es)
   | Panic \<Rightarrow> False"
proof (cases es)
  case (Cons first rest)
  let ?f = "\<lambda>e. precedence (pe_decision e)"
  obtain d where d: "max_by_key ?f es = Some d"
    using max_by_key_None [of ?f es] Cons by auto
  note best = max_by_key_Some [OF d]
  show ?thesis
  proof (cases "list_ex (\<lambda>e. pe_policy_version e \<noteq> pe_policy_version first
                         \<or> pe_policy_hash e \<noteq> pe_policy_hash first) es")
    case True
    then show ?thesis
      unfolding Cons by (auto simp: combine_policy_evaluations_def list_ex_iff)
  next
    case False
    let ?rules = "sort_key mr_rule_id (concat (map pe_matched_rules es))"
    have combined: "combine_policy_evaluations es = Ok \<lparr>pe_decision = pe_decision d,
        pe_matched_rules = dedup_rules ?rules, pe_reason = pe_reason d, pe_scope = pe_scope d,
        pe_policy_version = pe_policy_version first, pe_policy_hash = pe_policy_hash first\<rparr>"
      using False d unfolding Cons combine_policy_evaluations_def by simp
    have "mr_rule_id ` set (dedup_rules ?rules) = mr_rule_id ` (\<Union>x \<in> set es. set (pe_matched_rules x))"
      by (simp add: dedup_rules_ids)
    moreover have "sorted_wrt (<) (map mr_rule_id (dedup_rules ?rules))"
      by (rule dedup_rules_strict) simp
    moreover have "list_all (\<lambda>x. pe_policy_version x = pe_policy_version first
        \<and> pe_policy_hash x = pe_policy_hash first) es"
      using False by (auto simp: list_ex_iff list_all_iff)
    moreover have "list_all (\<lambda>x. ?f x \<le> ?f d) es" using best by (simp add: list_all_iff)
    ultimately show ?thesis using best by (auto simp: combined)
  qed
qed (simp add: combine_policy_evaluations_def)

section \<open>Recovery\<close>

text \<open>A step as the service creates it, whatever has happened to it since.\<close>

definition step_of_draft :: "change_step \<Rightarrow> bool" where
  "step_of_draft step \<longleftrightarrow>
     (\<exists>d. gs_tool_name step = fst (step_facts d)
        \<and> gs_verification_plan_code step = fst (snd (snd (snd (step_facts d))))
        \<and> gs_rollback_capability step = snd (snd (snd (snd (step_facts d)))))"

definition docker_step :: "change_step \<Rightarrow> bool" where
  "docker_step step \<longleftrightarrow> gs_tool_name step = ''docker.restart''"

definition faded_step :: "change_step \<Rightarrow> change_step" where
  "faded_step step = step\<lparr>gs_preview := ''recovery-payload-unavailable'',
     gs_error_code := Option.bind (gs_error_code step)
       (\<lambda>code. if valid_stable_code code then Some code else None)\<rparr>"

text \<open>What a restart leaves of an item.\<close>

definition faded_item :: "stored_change_set \<Rightarrow> stored_change_set" where
  "faded_item stored =
     (let p = sd_public stored
      in \<lparr>sd_public = p\<lparr>cs_title := ''recovered-change-set'', cs_steps := map faded_step (cs_steps p),
            cs_approval_state := ApprovalInvalidated, cs_approved_version := None,
            cs_execution_state := (if cs_execution_state p = Executing then Interrupted
                                   else cs_execution_state p),
            cs_recovery_state := MetadataOnly, cs_preconditions := [], cs_policy_evaluation := None\<rparr>,
          sd_payloads = [], sd_precondition_bindings = [], sd_policy_binding = None\<rparr>)"

lemma public_step_of_draft: "step_of_draft (public_step i n d)"
  unfolding step_of_draft_def by (rule exI [of _ d]) (cases d; simp add: public_step_def)

lemma recovered_persisted_step:
  assumes "step_of_draft step"
  shows "recovered_step (persisted_step step) = (if docker_step step then Err Storage else Ok (faded_step step))"
proof -
  from assms obtain d where "gs_tool_name step = fst (step_facts d)"
    "gs_verification_plan_code step = fst (snd (snd (snd (step_facts d))))"
    "gs_rollback_capability step = snd (snd (snd (snd (step_facts d))))"
    by (auto simp: step_of_draft_def)
  then show ?thesis
    by (cases d; cases step) (simp_all add: recovered_step_def persisted_step_def docker_step_def
        faded_step_def persisted_tool_name_def persisted_verification_code_def
        persisted_rollback_code_def stable_name_def)
qed

lemma recovered_persisted_steps:
  "list_all step_of_draft steps \<Longrightarrow>
     try_map recovered_step (map persisted_step steps)
       = (if list_ex docker_step steps then Err Storage else Ok (map faded_step steps))"
  by (induction steps) (auto simp: recovered_persisted_step)

lemma recovered_persisted_set:
  assumes "list_all step_of_draft (cs_steps (sd_public stored))"
  shows "recovered_change_set (to_persisted stored)
    = (if list_ex docker_step (cs_steps (sd_public stored)) then Err Storage
       else Ok (sd_public (faded_item stored)))"
  using recovered_persisted_steps [OF assms]
  by (cases "sd_public stored")
    (simp add: recovered_change_set_def to_persisted_def faded_item_def Let_def)

lemma load_failed:
  "fold (\<lambda>r (res, items). case res of
       Ok _ \<Rightarrow> (case recovered_change_set r of Ok p \<Rightarrow> f p items | Err e \<Rightarrow> (Err e, items) | Panic \<Rightarrow> (Panic, items))
     | _ \<Rightarrow> (res, items)) records (Err e, items) = (Err e, items)"
  by (induction records) simp_all

lemma load_records_Cons:
  "load_records (r # records) items =
     (case recovered_change_set r of
        Ok p \<Rightarrow> load_records records (AList.update (cs_id p) \<lparr>sd_public = p, sd_payloads = [],
                  sd_precondition_bindings = [], sd_policy_binding = None\<rparr> items)
      | Err e \<Rightarrow> (Err e, items)
      | Panic \<Rightarrow> fold (\<lambda>r (res, items). case res of
            Ok _ \<Rightarrow> (case recovered_change_set r of
                Ok p \<Rightarrow> (Ok (), AList.update (cs_id p) \<lparr>sd_public = p, sd_payloads = [],
                          sd_precondition_bindings = [], sd_policy_binding = None\<rparr> items)
              | Err e \<Rightarrow> (Err e, items) | Panic \<Rightarrow> (Panic, items))
          | _ \<Rightarrow> (res, items)) records (Panic, items))"
  by (auto simp: load_records_def load_failed split: result.split)

lemma load_persisted:
  assumes "list_all (\<lambda>x. list_all step_of_draft (cs_steps (sd_public x))) xs"
  shows "fst (load_records (map to_persisted xs) items)
      = (if list_ex (\<lambda>x. list_ex docker_step (cs_steps (sd_public x))) xs then Err Storage else Ok ())"
    and "\<not> list_ex (\<lambda>x. list_ex docker_step (cs_steps (sd_public x))) xs \<Longrightarrow>
      snd (load_records (map to_persisted xs) items)
      = fold (\<lambda>x. AList.update (cs_id (sd_public x)) (faded_item x)) xs items"
proof -
  have id: "cs_id (sd_public (faded_item x)) = cs_id (sd_public x)" for x
    by (simp add: faded_item_def Let_def)
  have faded: "\<lparr>sd_public = sd_public (faded_item x), sd_payloads = [], sd_precondition_bindings = [],
      sd_policy_binding = None\<rparr> = faded_item x" for x
    by (simp add: faded_item_def Let_def)
  show "fst (load_records (map to_persisted xs) items)
      = (if list_ex (\<lambda>x. list_ex docker_step (cs_steps (sd_public x))) xs then Err Storage else Ok ())"
    using assms
    by (induction xs arbitrary: items)
      (simp_all add: load_records_def [of "[]"] load_records_Cons recovered_persisted_set)
  show "\<not> list_ex (\<lambda>x. list_ex docker_step (cs_steps (sd_public x))) xs \<Longrightarrow>
      snd (load_records (map to_persisted xs) items)
      = fold (\<lambda>x. AList.update (cs_id (sd_public x)) (faded_item x)) xs items"
    using assms
    by (induction xs arbitrary: items)
      (simp_all add: load_records_def [of "[]"] load_records_Cons recovered_persisted_set id faded)
qed

lemma map_of_fold_update:
  "distinct (map key xs) \<Longrightarrow>
     map_of (fold (\<lambda>x. AList.update (key x) (val x)) xs items) i
       = (case map_of (map (\<lambda>x. (key x, val x)) xs) i of Some y \<Rightarrow> Some y | None \<Rightarrow> map_of items i)"
proof (induction xs arbitrary: items)
  case (Cons x xs)
  have "map_of (map (\<lambda>x. (key x, val x)) xs) (key x) = None"
    using Cons.prems by (force simp: map_of_eq_None_iff)
  with Cons show ?case by (auto simp: update_conv' split: option.splits)
qed simp

text \<open>A service whose items are keyed by their ids and made of the service's own steps.\<close>

definition service_ok :: "change_service \<Rightarrow> bool" where
  "service_ok s \<longleftrightarrow>
     distinct (map fst (sc_items s)) \<and> list_all (\<lambda>(i, x). cs_id (sd_public x) = i
        \<and> list_all step_of_draft (cs_steps (sd_public x))) (sc_items s)
     \<and> length (sc_items s) \<le> MAX_PERSISTED_CHANGE_SETS"

definition saved_items :: "change_service \<Rightarrow> stored_change_set list" where
  "saved_items s = sort_key (cs_id \<circ> sd_public) (map snd (sc_items s))"

lemma persisted_records:
  assumes "service_ok s" and "sc_repository s = Some log"
    and "persist_locked disk s = (Ok (), s')"
  shows "sc_repository s' = Some (Contents (map to_persisted (saved_items s)))"
proof -
  have id: "dc_id \<circ> to_persisted = cs_id \<circ> sd_public"
    by (rule ext) (simp add: to_persisted_def Let_def)
  have records: "sort_key dc_id (map (to_persisted \<circ> snd) (sc_items s))
      = map to_persisted (saved_items s)"
    using sort_key_map [of dc_id to_persisted "map snd (sc_items s)"]
    by (simp add: saved_items_def id)
  have "length (saved_items s) \<le> MAX_PERSISTED_CHANGE_SETS"
    using assms(1) by (simp add: saved_items_def service_ok_def)
  with assms(2,3) records show ?thesis
    using save_atomic_cases [of disk "map to_persisted (saved_items s)" log]
    by (auto simp: persist_locked_def Let_def)
qed

lemma distinct_map_sort_key: "distinct (map f (sort_key g xs)) \<longleftrightarrow> distinct (map f xs)"
  by (simp add: distinct_map)

lemma saved_items_lookup:
  assumes "service_ok s"
  shows "map_of (map (\<lambda>x. (cs_id (sd_public x), f x)) (saved_items s)) i = map_option f (item i s)"
    and "distinct (map (\<lambda>x. cs_id (sd_public x)) (saved_items s))"
proof -
  have keys: "map (\<lambda>x. cs_id (sd_public x)) (map snd (sc_items s)) = map fst (sc_items s)"
    using assms by (auto simp: service_ok_def list_all_iff)
  have "distinct (map (\<lambda>x. cs_id (sd_public x)) (map snd (sc_items s)))"
    unfolding keys using assms by (simp add: service_ok_def)
  then show d: "distinct (map (\<lambda>x. cs_id (sd_public x)) (saved_items s))"
    by (simp add: saved_items_def distinct_map_sort_key del: map_map)
  have "map (\<lambda>(k, x). (k, f x)) (sc_items s) = map (\<lambda>x. (cs_id (sd_public x), f x)) (map snd (sc_items s))"
    using assms by (auto simp: service_ok_def list_all_iff)
  then have "set (map (\<lambda>x. (cs_id (sd_public x), f x)) (saved_items s)) = set (map (\<lambda>(k, x). (k, f x)) (sc_items s))"
    by (auto simp: saved_items_def image_image case_prod_beta)
  moreover have "distinct (map fst (map (\<lambda>x. (cs_id (sd_public x), f x)) (saved_items s)))"
    using d by (simp add: comp_def)
  moreover have "distinct (map fst (map (\<lambda>(k, x). (k, f x)) (sc_items s)))"
    using assms by (simp add: service_ok_def comp_def case_prod_beta)
  ultimately have "map_of (map (\<lambda>x. (cs_id (sd_public x), f x)) (saved_items s))
      = map_of (map (\<lambda>(k, x). (k, f x)) (sc_items s))"
    using map_of_inject_set by blast
  then show "map_of (map (\<lambda>x. (cs_id (sd_public x), f x)) (saved_items s)) i = map_option f (item i s)"
    by (simp add: item_def map_of_map)
qed

lemma saved_items_all: "list_all P (saved_items s) \<longleftrightarrow> list_all (\<lambda>(i, x). P x) (sc_items s)"
  "list_ex P (saved_items s) \<longleftrightarrow> list_ex (\<lambda>(i, x). P x) (sc_items s)"
  by (auto simp: saved_items_def list_all_iff list_ex_iff) force+

text \<open>Loading what was saved.\<close>

lemma load_saved_records:
  assumes "service_ok s"
    and "service_load all_steps_ok (service_at_path (Contents (map to_persisted (saved_items s)))) = (r, s2)"
  shows "if list_ex (\<lambda>x. list_ex docker_step (cs_steps (sd_public x))) (saved_items s)
    then r = Err Storage
    else r = Ok () \<and> (\<forall>i. item i s2 = map_option faded_item (item i s))"
proof -
  let ?xs = "saved_items s"
  have all: "list_all (\<lambda>x. list_all step_of_draft (cs_steps (sd_public x))) ?xs"
    unfolding saved_items_all using assms(1) by (auto simp: service_ok_def list_all_iff)
  have "length ?xs \<le> MAX_PERSISTED_CHANGE_SETS"
    using assms(1) by (simp add: saved_items_def service_ok_def)
  moreover have "filter (\<lambda>r. dc_schema_version r = CHANGE_SET_SCHEMA_VERSION) (map to_persisted ?xs)
      = map to_persisted ?xs"
    by (simp add: filter_id_conv to_persisted_def Let_def)
  ultimately have taken: "take MAX_PERSISTED_CHANGE_SETS
      (filter (\<lambda>r. dc_schema_version r = CHANGE_SET_SCHEMA_VERSION) (map to_persisted ?xs))
      = map to_persisted ?xs" by simp
  obtain r1 items where load: "load_records (map to_persisted ?xs) [] = (r1, items)" by fastforce
  note loaded = load_persisted [OF all, of "[]"]
  show ?thesis
  proof (cases "list_ex (\<lambda>x. list_ex docker_step (cs_steps (sd_public x))) ?xs")
    case True
    with loaded(1) load assms(2) taken show ?thesis by (simp add: service_load_def service_at_path_def)
  next
    case False
    with loaded load have ok: "r1 = Ok ()"
      "items = fold (\<lambda>x. AList.update (cs_id (sd_public x)) (faded_item x)) ?xs []" by auto
    obtain r3 s3 where p: "persist_locked all_steps_ok
        \<lparr>sc_items = items, sc_repository = Some (Contents (map to_persisted ?xs))\<rparr> = (r3, s3)"
      by fastforce
    then have "r3 = Ok ()" "sc_items s3 = items"
      by (auto simp: persist_locked_def Let_def split: prod.splits)
    moreover have "r = r3" "s2 = s3"
      using assms(2) load ok p taken by (simp_all add: service_load_def service_at_path_def)
    moreover have "map_of items i = map_option faded_item (item i s)" for i
      using map_of_fold_update [OF saved_items_lookup(2) [OF assms(1)], of faded_item "[]" i]
        saved_items_lookup(1) [OF assms(1), of faded_item i]
      by (simp add: ok(2) option.case_eq_if)
    ultimately show ?thesis using False by (simp add: item_def)
  qed
qed

lemma faded_item_inert [simp]:
  "\<not> claimable version (faded_item x)" "\<not> reviewable version (sd_public (faded_item x))"
  "\<not> rollback_allowed version (faded_item x)"
  by (simp_all add: faded_item_def claimable_def reviewable_def rollback_allowed_def Let_def)

text \<open>
  C22. What a restart brings back of a saved service. Without a docker step in any change set,
  every one returns under its id and version with its steps' states, but as metadata: its
  approval is invalidated, an execution that was under way is \<open>Interrupted\<close>, there is no
  payload left, so it can be neither claimed nor revised, approved or rolled back. With one
  docker step anywhere, the whole load fails with a storage error, although the file is intact.
\<close>

theorem restart_recovers_metadata_or_fails:
  assumes "service_ok s" and "sc_repository s = Some log" and "persist_locked disk s = (Ok (), s1)"
    and "sc_repository s1 = Some saved"
    and "service_load all_steps_ok (service_at_path saved) = (r, s2)"
  shows "if list_ex (\<lambda>(i, x). list_ex docker_step (cs_steps (sd_public x))) (sc_items s)
    then r = Err Storage
    else r = Ok () \<and> (\<forall>i. item i s2 = map_option faded_item (item i s))
      \<and> (\<forall>i version stored. item i s2 = Some stored \<longrightarrow>
           \<not> claimable version stored \<and> \<not> reviewable version (sd_public stored)
           \<and> \<not> rollback_allowed version stored)"
proof -
  have "saved = Contents (map to_persisted (saved_items s))"
    using persisted_records [OF assms(1-3)] assms(4) by simp
  with load_saved_records [OF assms(1)] assms(5) have
    "if list_ex (\<lambda>x. list_ex docker_step (cs_steps (sd_public x))) (saved_items s)
     then r = Err Storage
     else r = Ok () \<and> (\<forall>i. item i s2 = map_option faded_item (item i s))" by simp
  then show ?thesis by (auto simp: saved_items_all case_prod_beta)
qed

definition docker_service :: change_service where
  "docker_service = \<lparr>sc_items = [(20, demo_item\<lparr>sd_public := (sd_public demo_item)\<lparr>cs_id := 20,
       cs_steps := [public_step 21 0 (DraftDockerRestart ''web'')]\<rparr>\<rparr>),
       (10, demo_item)], sc_repository = Some Missing\<rparr>"

lemma restart_recovers_metadata_or_fails_witness:
  "\<exists>s1 saved s2. persist_locked all_steps_ok docker_service = (Ok (), s1) \<and> sc_repository s1 = Some saved
     \<and> service_load all_steps_ok (service_at_path saved) = (Err Storage, s2)"
proof -
  have ok: "service_ok docker_service"
    by (simp add: service_ok_def docker_service_def demo_item_def public_step_of_draft
        MAX_PERSISTED_CHANGE_SETS_def)
  obtain s1 where s1: "persist_locked all_steps_ok docker_service = (Ok (), s1)"
    by (cases "persist_locked all_steps_ok docker_service")
      (auto simp: persist_locked_def docker_service_def Let_def)
  from persisted_records [OF ok _ s1] obtain saved where saved: "sc_repository s1 = Some saved"
    by (auto simp: docker_service_def)
  obtain r s2 where load: "service_load all_steps_ok (service_at_path saved) = (r, s2)" by fastforce
  have "list_ex (\<lambda>(i, x). list_ex docker_step (cs_steps (sd_public x))) (sc_items docker_service)"
    by (simp add: docker_service_def docker_step_def public_step_def)
  with restart_recovers_metadata_or_fails [OF ok _ s1 saved load] have "r = Err Storage"
    by (auto simp: docker_service_def)
  with s1 saved load show ?thesis by blast
qed

section \<open>A write that is never reversed\<close>

text \<open>
  The tool execution service on a disk that loses the closing audit record of writes: reads
  succeed, the file patch is made, and its execution returns a storage error.
\<close>

definition audited_tool :: "nat \<Rightarrow> native_tool_request \<Rightarrow> (tool_data tool_result, app_error) result" where
  "audited_tool t q =
     fst (tool_execute (patch_world (DataFilePatch ''/etc/a'' 1 True) (nq_authority q = None))
            approved_repair q first_execution)"

definition patch_exec :: change_exec where
  "patch_exec = \<lparr>cx_service = \<lparr>sc_items = [(10, demo_item
       \<lparr>sd_public := (sd_public demo_item)\<lparr>cs_steps := take 1 (cs_steps (sd_public demo_item))\<rparr>,
        sd_payloads := take 1 (sd_payloads demo_item),
        sd_precondition_bindings := take 1 (sd_precondition_bindings demo_item)\<rparr>)],
     sc_repository = None\<rparr>, cx_tick = 0, cx_calls = []\<rparr>"

definition state_and_calls ::
  "(change_set, app_error) result \<times> change_exec \<Rightarrow> execution_state option \<times> native_tool_invocation list" where
  "state_and_calls res =
     (case fst res of Ok p \<Rightarrow> Some (cs_execution_state p) | _ \<Rightarrow> None, invocations (cx_calls (snd res)))"

text \<open>
  A file patch whose execution made the change but could not close its audit record counts as
  failed and not as completed: the execution reverses nothing, and a later rollback makes no
  call either - it only reports \<open>RollbackFailed\<close>. The patched file stays patched.
\<close>

lemma unrecorded_patch_is_never_reversed:
  "(let (r, cx) = execute_with_policy (calm_world audited_tool) 10 1 patch_exec
    in (state_and_calls (r, cx), state_and_calls (rollback (calm_world audited_tool) 10 1 cx)))
   = ((Some ExecutionFailed, [InvFileInspect ''/etc/a'', InvFilePatch ''/etc/a'' ''x'' ''y'']),
      (Some RollbackFailed, [InvFileInspect ''/etc/a'', InvFilePatch ''/etc/a'' ''x'' ''y'']))
   \<and> map_prod (\<lambda>r. r = Err Storage) xs_sent
       (tool_execute (patch_world (DataFilePatch ''/etc/a'' 1 True) False) approved_repair
          (request_approved 0 0 2 (InvFilePatch ''/etc/a'' ''x'' ''y'')
             (change_authority (sd_public demo_item) False)) first_execution)
     = (True, [(2, InvFilePatch ''/etc/a'' ''x'' ''y'')])"
  by (intro conjI) code_simp+

end
