(* ===== verification/Agent_Run.thy ===== *)
theory Agent_Run
  imports Runory_Prelude
begin

text \<open>
  The authoritative agent run (src-tauri/src/agent): its sixteen states with the transition
  table of state.rs, and the run object of run.rs that owns the state, the timestamps and the
  event sequence counter. Reading the wall clock is the argument \<open>now\<close>.
\<close>

section \<open>Guarded machines\<close>

text \<open>
  The interface of a state type whose moves go through one guard: nothing leaves a terminal
  state. Runs of such a machine are the reflexive transitive closure of the guard.
\<close>

locale guarded_machine =
  fixes guard :: "'s \<Rightarrow> 's \<Rightarrow> bool" and terminal :: "'s \<Rightarrow> bool"
  assumes terminal_final: "terminal s \<Longrightarrow> \<not> guard s t"
begin

lemma terminal_absorbing: "guard\<^sup>*\<^sup>* s t \<Longrightarrow> terminal s \<Longrightarrow> t = s"
  by (induction rule: converse_rtranclp_induct) (auto dest: terminal_final)

lemma terminal_stuck: "terminal s \<Longrightarrow> \<not> guard\<^sup>+\<^sup>+ s t"
  using terminal_final by (metis tranclpD)

lemma terminal_only_last: "successively guard ss \<Longrightarrow> i < length ss \<Longrightarrow> terminal (ss ! i) \<Longrightarrow>
    i = length ss - 1"
proof (rule ccontr)
  assume steps: "successively guard ss" and i: "i < length ss" "terminal (ss ! i)" "i \<noteq> length ss - 1"
  then have "guard (ss ! i) (ss ! Suc i)"
    by (simp add: successively_conv_nth)
  with i(2) terminal_final show False by blast
qed

end

section \<open>States\<close>

datatype agent_run_state =
    Created
  | Running
  | Reasoning
  | Acting
  | Observing
  | AwaitingApproval
  | AwaitingUser
  | Diagnosed
  | PlanningChange
  | ExecutingChange
  | Verifying
  | RollingBack
  | Paused
  | Completed
  | Failed
  | Cancelled

definition ALL_RUN_STATES :: "agent_run_state list" where
  "ALL_RUN_STATES =
     [Created, Running, Reasoning, Acting, Observing, AwaitingApproval, AwaitingUser, Diagnosed,
      PlanningChange, ExecutingChange, Verifying, RollingBack, Paused, Completed, Failed, Cancelled]"

definition is_terminal :: "agent_run_state \<Rightarrow> bool" where
  "is_terminal s \<longleftrightarrow> s \<in> {Completed, Failed, Cancelled}"

definition is_interrupt :: "agent_run_state \<Rightarrow> bool" where
  "is_interrupt s \<longleftrightarrow> s \<in> {AwaitingApproval, AwaitingUser, Paused}"

definition is_active :: "agent_run_state \<Rightarrow> bool" where
  "is_active s \<longleftrightarrow> s \<in> {Running, Reasoning, Acting, Observing, Diagnosed, PlanningChange,
     ExecutingChange, Verifying, RollingBack}"

definition can_resume :: "agent_run_state \<Rightarrow> bool" where
  "can_resume s = is_interrupt s"

definition can_transition_to :: "agent_run_state \<Rightarrow> agent_run_state \<Rightarrow> bool" where
  "can_transition_to s next =
     (if is_terminal s then False
      else if next \<in> {Cancelled, Failed} then True
      else case s of
          Created \<Rightarrow> next \<in> {Running}
        | Running \<Rightarrow> next \<in> {Reasoning, Paused}
        | Reasoning \<Rightarrow> next \<in> {Acting, AwaitingApproval, AwaitingUser, PlanningChange, Diagnosed,
            Completed, Paused}
        | Acting \<Rightarrow> next \<in> {Observing, AwaitingApproval, Paused}
        | Observing \<Rightarrow> next \<in> {Reasoning, Diagnosed, Paused}
        | AwaitingApproval \<Rightarrow> next \<in> {Acting, ExecutingChange, Reasoning}
        | AwaitingUser \<Rightarrow> next \<in> {Reasoning}
        | Diagnosed \<Rightarrow> next \<in> {PlanningChange, Reasoning, Completed, Paused}
        | PlanningChange \<Rightarrow> next \<in> {AwaitingApproval, ExecutingChange, Reasoning, Paused}
        | ExecutingChange \<Rightarrow> next \<in> {Verifying, RollingBack, Reasoning}
        | Verifying \<Rightarrow> next \<in> {Completed, Reasoning, RollingBack}
        | RollingBack \<Rightarrow> next \<in> {Reasoning, Completed}
        | Paused \<Rightarrow> next \<in> {Running, Reasoning}
        | Completed \<Rightarrow> False
        | Failed \<Rightarrow> False
        | Cancelled \<Rightarrow> False)"

record agent_state_error =
  se_from :: agent_run_state
  se_to :: agent_run_state

definition state_error_code :: "agent_state_error \<Rightarrow> string" where
  "state_error_code e = ''AGENT_INVALID_TRANSITION''"

definition state_transition_to ::
  "agent_run_state \<Rightarrow> agent_run_state \<Rightarrow> (agent_run_state, agent_state_error) result" where
  "state_transition_to s next =
     (if can_transition_to s next then Ok next else Err \<lparr>se_from = s, se_to = next\<rparr>)"

section \<open>Runs\<close>

record agent_run =
  run_id :: uuid
  run_state :: agent_run_state
  run_created_at :: u64
  run_updated_at :: u64
  run_next_event_seq :: u64

definition with_created_at :: "uuid \<Rightarrow> u64 \<Rightarrow> agent_run" where
  "with_created_at i created =
     \<lparr>run_id = i, run_state = Created, run_created_at = created, run_updated_at = created,
      run_next_event_seq = 1\<rparr>"

definition agent_run_new :: "u64 \<Rightarrow> uuid \<Rightarrow> agent_run" where
  "agent_run_new now i = with_created_at i now"

definition from_persisted :: "uuid \<Rightarrow> agent_run_state \<Rightarrow> u64 \<Rightarrow> u64 \<Rightarrow> u64 \<Rightarrow> agent_run" where
  "from_persisted i s created updated next_seq =
     \<lparr>run_id = i, run_state = s, run_created_at = created, run_updated_at = updated,
      run_next_event_seq = max next_seq 1\<rparr>"

definition transition_to ::
  "u64 \<Rightarrow> agent_run_state \<Rightarrow> agent_run \<Rightarrow> (unit, agent_state_error) result \<times> agent_run" where
  "transition_to now next run =
     (case state_transition_to (run_state run) next of
        Ok s \<Rightarrow> (Ok (), run\<lparr>run_state := s, run_updated_at := max now (run_updated_at run)\<rparr>)
      | Err e \<Rightarrow> (Err e, run)
      | Panic \<Rightarrow> (Panic, run))"

definition begin_user_turn :: "u64 \<Rightarrow> agent_run \<Rightarrow> (unit, agent_state_error) result \<times> agent_run" where
  "begin_user_turn now run =
     (if \<not> is_terminal (run_state run)
      then (Err \<lparr>se_from = run_state run, se_to = Reasoning\<rparr>, run)
      else (Ok (), run\<lparr>run_state := Reasoning, run_updated_at := max now (run_updated_at run)\<rparr>))"

definition next_event_sequence :: "agent_run \<Rightarrow> u64 \<times> agent_run" where
  "next_event_sequence run =
     (run_next_event_seq run,
      run\<lparr>run_next_event_seq := saturating_add (run_next_event_seq run) 1\<rparr>)"

section \<open>The transition table\<close>

lemmas state_sets = is_terminal_def is_interrupt_def is_active_def

lemma state_table:
  "can_transition_to s t \<Longrightarrow>
     \<not> is_terminal s \<and> (t = Cancelled \<or> t = Failed \<or>
     (s, t) \<in> {(Created, Running), (Running, Reasoning), (Running, Paused), (Reasoning, Acting),
       (Reasoning, AwaitingApproval), (Reasoning, AwaitingUser), (Reasoning, PlanningChange),
       (Reasoning, Diagnosed), (Reasoning, Completed), (Reasoning, Paused), (Acting, Observing),
       (Acting, AwaitingApproval), (Acting, Paused), (Observing, Reasoning), (Observing, Diagnosed),
       (Observing, Paused), (AwaitingApproval, Acting), (AwaitingApproval, ExecutingChange),
       (AwaitingApproval, Reasoning), (AwaitingUser, Reasoning), (Diagnosed, PlanningChange),
       (Diagnosed, Reasoning), (Diagnosed, Completed), (Diagnosed, Paused),
       (PlanningChange, AwaitingApproval), (PlanningChange, ExecutingChange),
       (PlanningChange, Reasoning), (PlanningChange, Paused), (ExecutingChange, Verifying),
       (ExecutingChange, RollingBack), (ExecutingChange, Reasoning), (Verifying, Completed),
       (Verifying, Reasoning), (Verifying, RollingBack), (RollingBack, Reasoning),
       (RollingBack, Completed), (Paused, Running), (Paused, Reasoning)})"
  by (cases s) (auto simp: can_transition_to_def split: if_splits)

interpretation agent_machine: guarded_machine can_transition_to is_terminal
  by unfold_locales (simp add: can_transition_to_def)

section \<open>Lifecycles\<close>

text \<open>
  The history of a run object as its user turns, the latest first, each with its states in order.
  A transition that the guard accepts extends the current turn; \<open>begin_user_turn\<close>, which
  accepts only a terminal run, opens the next one in \<open>Reasoning\<close>. What either refuses, and the
  allocation of an event sequence number, leaves the history as it is.
\<close>

inductive run_turns :: "agent_run \<Rightarrow> agent_run_state list list \<Rightarrow> agent_run \<Rightarrow> bool" for run where
  start: "run_turns run [[run_state run]] run"
| moved: "run_turns run (turn # earlier) r \<Longrightarrow> transition_to now next r = (Ok (), r') \<Longrightarrow>
    run_turns run ((turn @ [next]) # earlier) r'"
| reopened: "run_turns run turns r \<Longrightarrow> begin_user_turn now r = (Ok (), r') \<Longrightarrow>
    run_turns run ([Reasoning] # turns) r'"
| refused: "run_turns run turns r \<Longrightarrow> transition_to now next r = (Err e, r') \<Longrightarrow> run_turns run turns r'"
| not_reopened: "run_turns run turns r \<Longrightarrow> begin_user_turn now r = (Err e, r') \<Longrightarrow> run_turns run turns r'"
| numbered: "run_turns run turns r \<Longrightarrow> next_event_sequence r = (seq, r') \<Longrightarrow> run_turns run turns r'"

text \<open>
  What the history of a run must contain before a state, read off the predecessors of the
  state and carried along the turn.
\<close>

lemma state_predecessors:
  assumes "can_transition_to s t"
  shows "t = Verifying \<Longrightarrow> s = ExecutingChange"
    and "t = RollingBack \<Longrightarrow> s = ExecutingChange \<or> s = Verifying"
    and "t = ExecutingChange \<Longrightarrow> s = AwaitingApproval \<or> s = PlanningChange"
    and "t \<notin> {Created, Running, Reasoning, Paused, Failed, Cancelled} \<Longrightarrow>
      s \<notin> {Created, Running, Paused, Failed, Cancelled}"
    and "t \<noteq> Created"
  using state_table [OF assms] by (auto simp: is_terminal_def)

lemma lifecycle_history:
  assumes "successively can_transition_to ss" and "ss ! 0 \<in> {Created, Reasoning}" and "i < length ss"
  shows "(ss ! i \<in> {Verifying, RollingBack} \<longrightarrow> ExecutingChange \<in> set (take i ss))
    \<and> (ss ! i = ExecutingChange \<longrightarrow>
         AwaitingApproval \<in> set (take i ss) \<or> PlanningChange \<in> set (take i ss))
    \<and> (ss ! i \<notin> {Created, Running, Reasoning, Paused, Failed, Cancelled} \<longrightarrow>
         Reasoning \<in> set (take i ss))"
  using assms(3)
proof (induction i)
  case 0
  then show ?case using assms(2) by auto
next
  case (Suc i)
  then have i: "i < length ss" and step: "can_transition_to (ss ! i) (ss ! Suc i)"
    using assms(1) by (simp_all add: successively_conv_nth)
  have before: "set (take (Suc i) ss) = insert (ss ! i) (set (take i ss))"
    using i by (simp add: take_Suc_conv_app_nth)
  show ?case
    using Suc.IH [OF i] state_predecessors [OF step] unfolding before
    by (cases "ss ! i = Reasoning") auto
qed

lemma transition_to_Ok:
  "transition_to now next r = (Ok (), r') \<Longrightarrow> can_transition_to (run_state r) next \<and> run_state r' = next"
  by (auto simp: transition_to_def state_transition_to_def split: if_splits)

lemma transition_to_Err: "transition_to now next r = (Err e, r') \<Longrightarrow> r' = r"
  by (auto simp: transition_to_def state_transition_to_def split: if_splits)

lemma begin_user_turn_Ok:
  "begin_user_turn now r = (Ok (), r') \<Longrightarrow> is_terminal (run_state r) \<and> run_state r' = Reasoning"
  by (auto simp: begin_user_turn_def split: if_splits)

lemma begin_user_turn_Err: "begin_user_turn now r = (Err e, r') \<Longrightarrow> r' = r"
  by (auto simp: begin_user_turn_def split: if_splits)

lemma next_event_sequence_state: "next_event_sequence r = (seq, r') \<Longrightarrow> run_state r' = run_state r"
  by (auto simp: next_event_sequence_def)

lemma run_turns_shape:
  assumes "run_turns run turns r" and "run_state run = Created"
  shows "\<exists>turn earlier. turns = turn # earlier \<and> turn \<noteq> [] \<and> last turn = run_state r
    \<and> (\<forall>t \<in> set turns. t \<noteq> [] \<and> successively can_transition_to t \<and> hd t \<in> {Created, Reasoning})
    \<and> (\<forall>t \<in> set earlier. is_terminal (last t))"
  using assms(1)
proof (induction rule: run_turns.induct)
  case (moved turn earlier r now "next" r')
  with transition_to_Ok [OF moved.hyps(2)] show ?case
    by (auto simp: successively_append_iff hd_append)
next
  case (reopened turns r now r')
  with begin_user_turn_Ok [OF reopened.hyps(2)] show ?case by auto
qed (simp_all add: assms(2), auto dest!: transition_to_Err begin_user_turn_Err next_event_sequence_state)

text \<open>
  C27. The life of a run, over every history of its operations, is a sequence of user turns. The
  first begins in \<open>Created\<close>, every later one in \<open>Reasoning\<close>, and only after the one before
  ended in a terminal state: a terminal state is never left but by a new turn. Within one turn, whatever
  earlier turns did, a verification or a rollback comes after a change was executed, a change is
  executed only after an approval wait or a planning step, and every state past the start comes
  after reasoning.
\<close>

theorem run_lifecycle:
  assumes "run_turns (agent_run_new now i) turns r"
  shows "last (hd turns) = run_state r \<and> (\<forall>turn \<in> set (tl turns). is_terminal (last turn))
    \<and> map hd turns = replicate (length turns - 1) Reasoning @ [Created]
    \<and> (\<forall>turn \<in> set turns. \<forall>k < length turn.
        (turn ! k \<in> {Verifying, RollingBack} \<longrightarrow> ExecutingChange \<in> set (take k turn))
      \<and> (turn ! k = ExecutingChange \<longrightarrow>
           AwaitingApproval \<in> set (take k turn) \<or> PlanningChange \<in> set (take k turn))
      \<and> (turn ! k \<notin> {Created, Running, Reasoning, Paused, Failed, Cancelled} \<longrightarrow>
           Reasoning \<in> set (take k turn))
      \<and> (is_terminal (turn ! k) \<longrightarrow> k = length turn - 1))"
proof -
  have created: "run_state (agent_run_new now i) = Created" by (simp add: agent_run_new_def with_created_at_def)
  note shape = run_turns_shape [OF assms created]
  have "(\<forall>turn \<in> set turns. turn \<noteq> []) \<and> (\<exists>later. map hd turns = replicate later Reasoning @ [Created])"
    using assms
  proof (induction rule: run_turns.induct)
    case (reopened turns r now r')
    then show ?case by (auto intro: exI [of _ "Suc _"])
  qed (auto simp: created intro: exI [of _ "0"])
  then obtain later where later: "map hd turns = replicate later Reasoning @ [Created]" by blast
  then have "length turns = Suc later" by (metis length_map length_append_singleton length_replicate)
  with later have starts: "map hd turns = replicate (length turns - 1) Reasoning @ [Created]" by simp
  have "(turn ! k \<in> {Verifying, RollingBack} \<longrightarrow> ExecutingChange \<in> set (take k turn))
      \<and> (turn ! k = ExecutingChange \<longrightarrow>
           AwaitingApproval \<in> set (take k turn) \<or> PlanningChange \<in> set (take k turn))
      \<and> (turn ! k \<notin> {Created, Running, Reasoning, Paused, Failed, Cancelled} \<longrightarrow>
           Reasoning \<in> set (take k turn))
      \<and> (is_terminal (turn ! k) \<longrightarrow> k = length turn - 1)"
    if "turn \<in> set turns" "k < length turn" for turn k
  proof -
    from shape that(1) have turn: "turn \<noteq> []" "successively can_transition_to turn" "hd turn \<in> {Created, Reasoning}"
      by blast+
    then have "turn ! 0 \<in> {Created, Reasoning}" by (simp add: hd_conv_nth)
    with lifecycle_history [OF turn(2) _ that(2)] agent_machine.terminal_only_last [OF turn(2) that(2)]
    show ?thesis by blast
  qed
  with shape starts show ?thesis by auto
qed

text \<open>A run that is completed, reopened by the user and changes something in its second turn.\<close>

lemma run_lifecycle_witness:
  "\<exists>r. run_turns (agent_run_new 5 9)
      [[Reasoning, PlanningChange, AwaitingApproval, ExecutingChange, Verifying], [Created, Running, Reasoning, Completed]] r
    \<and> run_state r = Verifying
    \<and> ExecutingChange \<in> set (take 4 [Reasoning, PlanningChange, AwaitingApproval, ExecutingChange, Verifying])"
proof -
  let ?run = "agent_run_new 5 9"
  let ?second = "[Reasoning, PlanningChange, AwaitingApproval, ExecutingChange, Verifying]"
  let ?at = "\<lambda>s. ?run\<lparr>run_state := s\<rparr>"
  have move: "run_turns ?run ((turn @ [t]) # earlier) (?at t)"
    if "run_turns ?run (turn # earlier) (?at s)" "can_transition_to s t" for turn earlier s t
    using that by (intro run_turns.moved [OF that(1), of 5])
      (simp add: transition_to_def state_transition_to_def agent_run_new_def with_created_at_def)
  have first: "can_transition_to Created Running" "can_transition_to Running Reasoning"
    "can_transition_to Reasoning Completed"
    and second: "can_transition_to Reasoning PlanningChange" "can_transition_to PlanningChange AwaitingApproval"
    "can_transition_to AwaitingApproval ExecutingChange" "can_transition_to ExecutingChange Verifying"
    by (simp_all add: can_transition_to_def is_terminal_def)
  have "run_turns ?run [[Created]] (?at Created)"
    using run_turns.start [of ?run] by (simp add: agent_run_new_def with_created_at_def)
  from move [OF move [OF move [OF this first(1)] first(2)] first(3)]
  have "run_turns ?run [[Created, Running, Reasoning, Completed]] (?at Completed)" by simp
  then have "run_turns ?run [[Reasoning], [Created, Running, Reasoning, Completed]] (?at Reasoning)"
    by (rule run_turns.reopened [where now = 5])
      (simp add: begin_user_turn_def is_terminal_def agent_run_new_def with_created_at_def)
  from move [OF move [OF move [OF move [OF this second(1)] second(2)] second(3)] second(4)]
  have "run_turns ?run [?second, [Created, Running, Reasoning, Completed]] (?at Verifying)" by simp
  moreover from run_lifecycle [OF this] have "ExecutingChange \<in> set (take 4 ?second)" by fastforce
  ultimately show ?thesis by (intro exI [of _ "?at Verifying"]) simp
qed

text \<open>The shortest way to an answer from each live state.\<close>

lemma reasoning_completes: "can_transition_to Reasoning Completed"
  by (simp add: can_transition_to_def is_terminal_def)

lemma reaches_reasoning: "\<not> is_terminal s \<Longrightarrow> can_transition_to\<^sup>*\<^sup>* s Reasoning"
proof -
  assume live: "\<not> is_terminal s"
  have direct: "can_transition_to\<^sup>*\<^sup>* s Reasoning" if "can_transition_to s Reasoning" for s
    using that by (rule r_into_rtranclp)
  have via: "can_transition_to\<^sup>*\<^sup>* s Reasoning"
    if "can_transition_to s m" "can_transition_to m Reasoning" for s m
    using that by (meson r_into_rtranclp rtranclp_trans)
  show ?thesis
  proof (cases s)
    case Created
    show ?thesis unfolding Created
      by (rule via [of _ Running]) (simp_all add: can_transition_to_def is_terminal_def)
  next
    case Acting
    show ?thesis unfolding Acting
      by (rule via [of _ Observing]) (simp_all add: can_transition_to_def is_terminal_def)
  qed (use live in \<open>auto intro!: direct simp: can_transition_to_def is_terminal_def\<close>)
qed

text \<open>
  No live state is a dead end and no terminal state moves: a run can still be completed
  exactly from the non-terminal states, and from those it can also be cancelled or failed at
  once; pausing is offered in exactly the read and reason phases.
\<close>

lemma run_can_complete_iff_live:
  "(can_transition_to\<^sup>+\<^sup>+ s Completed \<longleftrightarrow> \<not> is_terminal s)
   \<and> (can_transition_to s Cancelled \<longleftrightarrow> \<not> is_terminal s)
   \<and> (can_transition_to s Failed \<longleftrightarrow> \<not> is_terminal s)
   \<and> (can_transition_to s Paused \<longleftrightarrow>
        s \<in> {Running, Reasoning, Acting, Observing, Diagnosed, PlanningChange})
   \<and> (can_resume s \<longleftrightarrow> \<not> is_terminal s \<and> \<not> is_active s \<and> s \<noteq> Created)"
proof -
  have "can_transition_to\<^sup>+\<^sup>+ s Completed" if "\<not> is_terminal s"
    using reaches_reasoning [OF that] reasoning_completes by (rule rtranclp_into_tranclp1)
  with agent_machine.terminal_stuck [of s Completed]
  have "can_transition_to\<^sup>+\<^sup>+ s Completed \<longleftrightarrow> \<not> is_terminal s" by blast
  then show ?thesis
    by (cases s) (simp_all add: can_transition_to_def state_sets can_resume_def)
qed

section \<open>Sequences and timestamps\<close>

text \<open>
  The operations of the run object, in any order; the middle argument collects the event
  sequence numbers that were handed out.
\<close>

inductive run_trace :: "agent_run \<Rightarrow> u64 list \<Rightarrow> agent_run \<Rightarrow> bool" for run where
  start: "run_trace run [] run"
| transition: "run_trace run seqs r \<Longrightarrow> transition_to now next r = (res, r') \<Longrightarrow>
    run_trace run seqs r'"
| user_turn: "run_trace run seqs r \<Longrightarrow> begin_user_turn now r = (res, r') \<Longrightarrow>
    run_trace run seqs r'"
| allocate: "run_trace run seqs r \<Longrightarrow> next_event_sequence r = (seq, r') \<Longrightarrow>
    run_trace run (seqs @ [seq]) r'"

lemma transition_to_frame:
  "transition_to now next r = (res, r') \<Longrightarrow> run_id r' = run_id r \<and> run_created_at r' = run_created_at r
     \<and> run_updated_at r \<le> run_updated_at r' \<and> run_next_event_seq r' = run_next_event_seq r"
  by (auto simp: transition_to_def state_transition_to_def split: if_splits)

lemma begin_user_turn_frame:
  "begin_user_turn now r = (res, r') \<Longrightarrow> run_id r' = run_id r \<and> run_created_at r' = run_created_at r
     \<and> run_updated_at r \<le> run_updated_at r' \<and> run_next_event_seq r' = run_next_event_seq r"
  by (auto simp: begin_user_turn_def split: if_splits)

lemma next_event_sequence_frame:
  "next_event_sequence r = (seq, r') \<Longrightarrow> seq = run_next_event_seq r
     \<and> run_next_event_seq r' = saturating_add seq 1 \<and> run_id r' = run_id r
     \<and> run_created_at r' = run_created_at r \<and> run_updated_at r' = run_updated_at r"
  by (auto simp: next_event_sequence_def)

lemma run_trace_frame:
  "run_trace run seqs r \<Longrightarrow> run_id r = run_id run \<and> run_created_at r = run_created_at run
     \<and> run_updated_at run \<le> run_updated_at r \<and> run_next_event_seq run \<le> run_next_event_seq r"
  by (induction rule: run_trace.induct)
    (force dest: transition_to_frame begin_user_turn_frame next_event_sequence_frame
      intro: order_trans saturating_add_mono)+

lemma run_trace_seqs:
  "run_trace run seqs r \<Longrightarrow> run_next_event_seq r \<noteq> - 1 \<Longrightarrow>
     sorted_wrt (<) seqs
     \<and> (\<forall>x \<in> set seqs. run_next_event_seq run \<le> x \<and> x < run_next_event_seq r)"
proof (induction rule: run_trace.induct)
  case (allocate seqs r seq r')
  from next_event_sequence_frame [OF allocate.hyps(2)]
  have seq: "seq = run_next_event_seq r" and next': "run_next_event_seq r' = saturating_add seq 1"
    by auto
  from allocate.prems next' have "seq \<noteq> - 1"
    by (metis saturating_add_mono word_n1_ge word_order.extremum_uniqueI)
  then have lt: "seq < run_next_event_seq r'" using saturating_add_one_strict next' by simp
  from allocate.IH \<open>seq \<noteq> - 1\<close> seq have IH: "sorted_wrt (<) seqs"
    "\<forall>x \<in> set seqs. run_next_event_seq run \<le> x \<and> x < seq" by auto
  moreover have "run_next_event_seq run \<le> seq" using run_trace_frame [OF allocate.hyps(1)] seq by simp
  ultimately show ?case using lt by (auto simp: sorted_wrt_append intro: less_trans)
qed (auto dest!: transition_to_frame begin_user_turn_frame)

text \<open>
  C28. Whatever is done to a run, its identity and creation time stay, its update time never
  goes back even when the clock does, and as long as the counter has not reached the largest
  \<open>u64\<close> the sequence numbers handed out are strictly increasing and never repeat.
\<close>

theorem run_sequences_increase:
  assumes "run_trace run seqs r" and "run_next_event_seq r \<noteq> - 1"
  shows "run_id r = run_id run \<and> run_created_at r = run_created_at run
    \<and> run_updated_at run \<le> run_updated_at r
    \<and> sorted_wrt (<) seqs
    \<and> (\<forall>x \<in> set seqs. run_next_event_seq run \<le> x \<and> x < run_next_event_seq r)"
  using run_trace_frame [OF assms(1)] run_trace_seqs [OF assms] by blast

lemma run_sequences_increase_witness:
  "sorted_wrt (<) [1, 2 :: u64]"
proof -
  let ?r = "with_created_at 9 1000"
  have "run_trace ?r ([] @ [1] @ [2]) (?r\<lparr>run_next_event_seq := 3\<rparr>)"
    unfolding append_assoc [symmetric]
    by (rule run_trace.allocate run_trace.start | simp add: next_event_sequence_def with_created_at_def
        saturating_add_def)+
  from run_sequences_increase [OF this] show ?thesis by simp
qed

text \<open>At the top of the range the counter stays, so two allocations give one number.\<close>

lemma sequence_repeats_at_top:
  "run_next_event_seq r = - 1 \<Longrightarrow> next_event_sequence r = (- 1, r)"
proof -
  assume top: "run_next_event_seq r = - 1"
  have "unat (- 1 :: u64) = 2 ^ 64 - 1"
    by (simp add: unsigned_minus_1_eq_mask mask_eq_exp_minus_1)
  then have "saturating_add (- 1 :: u64) 1 = - 1" by (simp add: saturating_add_def)
  with top show ?thesis by (cases r) (simp add: next_event_sequence_def)
qed

end
