(* ===== verification/Agent_Context.thy ===== *)
theory Agent_Context
  imports Rust_Str
begin

text \<open>
  The context handed to the model (src-tauri/src/agentic/context.rs): secret redaction, the
  context items with their trust and freshness, the budgeted snapshot and its compaction.
  Sizes are \<open>usize\<close> and token counts \<open>u32\<close>, both written as naturals with the saturation or
  wrap-around of the code spelled out.
\<close>

section \<open>Redaction\<close>

definition SENSITIVE_MARKERS :: "string list" where
  "SENSITIVE_MARKERS =
     [''PASSWORD'', ''PASSWD'', ''SECRET'', ''TOKEN'', ''API_KEY'', ''PRIVATE_KEY'',
      ''AUTHORIZATION'', ''BEARER '', ''COOKIE'', ''DATABASE_URL'']"

definition sensitive_line :: "string \<Rightarrow> bool" where
  "sensitive_line line = contains_any (to_ascii_uppercase line) SENSITIVE_MARKERS"

definition redacted_mark :: string where
  "redacted_mark = ''=[REDACTED]''"

text \<open>The text up to the first equals sign or colon names the secret, if it is short.\<close>

definition secret_key :: "string \<Rightarrow> string" where
  "secret_key line =
     (let piece = hd (split_pred (\<lambda>c. c = CHR ''='' \<or> c = CHR '':'') line)
      in trim (if length piece \<le> 64 then piece else ''SENSITIVE_VALUE''))"

definition redact_line :: "string \<Rightarrow> string" where
  "redact_line line = (if sensitive_line line then secret_key line @ redacted_mark else line)"

fun join_lines :: "string list \<Rightarrow> string" where
  "join_lines [] = []"
| "join_lines [l] = l"
| "join_lines (l # ls) = l @ NL # join_lines ls"

definition redact_secrets :: "string \<Rightarrow> string \<times> bool" where
  "redact_secrets input =
     (let ls = str_lines input
      in (join_lines (map redact_line ls), list_ex sensitive_line ls))"

section \<open>Context items\<close>

datatype context_source =
  Server | Terminal | Incident | Files | Logs | NativeTools | Mcp | User | Skill

datatype context_trust =
  TrustedUserInstruction | UntrustedRemoteData | UntrustedExternalData | ConstrainedSkillGuidance

record context_freshness =
  cf_observed_at :: u64
  cf_ttl_ms :: u64

definition saturating_sub :: "u64 \<Rightarrow> u64 \<Rightarrow> u64" where
  "saturating_sub a b = (if b \<le> a then a - b else 0)"

definition is_fresh :: "context_freshness \<Rightarrow> u64 \<Rightarrow> bool" where
  "is_fresh f now \<longleftrightarrow> saturating_sub now (cf_observed_at f) \<le> cf_ttl_ms f"

record context_budget =
  cb_max_items :: nat
  cb_max_bytes :: nat
  cb_max_tokens :: nat

definition context_budget_default :: context_budget where
  "context_budget_default = \<lparr>cb_max_items = 32, cb_max_bytes = 65536, cb_max_tokens = 8192\<rparr>"

record context_fact =
  ct_source :: context_source
  ct_target_id :: "uuid option"
  ct_evidence_id :: "uuid option"
  ct_key :: string
  ct_value :: string

record agent_context_item =
  ci_id :: uuid
  ci_source :: string
  ci_source_kind :: context_source
  ci_trust :: context_trust
  ci_redacted :: bool
  ci_content :: string
  ci_freshness :: context_freshness
  ci_estimated_tokens :: nat

record context_snapshot =
  cs_items :: "agent_context_item list"
  cs_facts :: "context_fact list"
  cs_estimated_tokens :: nat
  cs_total_bytes :: nat
  cs_compaction_count :: nat

definition MAX_USER_REQUEST_BYTES :: nat where "MAX_USER_REQUEST_BYTES = 8192"
definition DEFAULT_CONTEXT_TTL_MS :: u64 where "DEFAULT_CONTEXT_TTL_MS = 30000"

definition U32_MAX :: nat where "U32_MAX = 2 ^ 32 - 1"
definition USIZE_MAX :: nat where "USIZE_MAX = 2 ^ 64 - 1"

definition estimate_tokens :: "nat \<Rightarrow> nat" where
  "estimate_tokens bytes = min ((bytes + 3) div 4) U32_MAX"

text \<open>The \<open>while\<close> loop that backs up to a character boundary, then the slice before it.\<close>

fun boundary_before :: "string \<Rightarrow> nat \<Rightarrow> nat" where
  "boundary_before s 0 = 0"
| "boundary_before s (Suc i) = (if is_char_boundary s (Suc i) then Suc i else boundary_before s i)"

definition bound_request :: "string \<Rightarrow> string" where
  "bound_request input =
     (if MAX_USER_REQUEST_BYTES < length input
      then take (boundary_before input MAX_USER_REQUEST_BYTES) input else input)"

definition user_context :: "uuid \<Rightarrow> string \<Rightarrow> u64 \<Rightarrow> agent_context_item" where
  "user_context i input observed =
     (let bounded = bound_request input;
          (content, redacted) = redact_secrets bounded
      in \<lparr>ci_id = i, ci_source = ''user'', ci_source_kind = User,
          ci_trust = TrustedUserInstruction, ci_redacted = redacted, ci_content = content,
          ci_freshness = \<lparr>cf_observed_at = observed, cf_ttl_ms = - 1\<rparr>,
          ci_estimated_tokens = estimate_tokens (length bounded)\<rparr>)"

definition skill_context :: "uuid \<Rightarrow> string \<Rightarrow> string \<Rightarrow> u64 \<Rightarrow> agent_context_item" where
  "skill_context i skill_id instructions observed =
     (let (content, redacted) = redact_secrets instructions
      in \<lparr>ci_id = i, ci_source = ''skill:'' @ skill_id, ci_source_kind = Skill,
          ci_trust = ConstrainedSkillGuidance, ci_redacted = redacted, ci_content = content,
          ci_freshness = \<lparr>cf_observed_at = observed, cf_ttl_ms = DEFAULT_CONTEXT_TTL_MS * 10\<rparr>,
          ci_estimated_tokens = estimate_tokens (length instructions)\<rparr>)"

section \<open>The snapshot\<close>

definition source_rank :: "agent_context_item \<Rightarrow> nat" where
  "source_rank item =
     (case ci_source_kind item of User \<Rightarrow> 0 | Incident \<Rightarrow> 1 | NativeTools \<Rightarrow> 2 | _ \<Rightarrow> 3)"

text \<open>The second \<open>retain\<close>, with its two running totals.\<close>

fun fit_items :: "context_budget \<Rightarrow> nat \<Rightarrow> nat \<Rightarrow> agent_context_item list \<Rightarrow> agent_context_item list" where
  "fit_items budget bytes tokens [] = []"
| "fit_items budget bytes tokens (item # items) =
     (let next_bytes = min (bytes + length (ci_content item)) USIZE_MAX;
          next_tokens = min (tokens + ci_estimated_tokens item) U32_MAX
      in if next_bytes \<le> cb_max_bytes budget \<and> next_tokens \<le> cb_max_tokens budget
            \<and> bytes < cb_max_bytes budget
         then item # fit_items budget next_bytes next_tokens items
         else fit_items budget bytes tokens items)"

definition total_bytes :: "agent_context_item list \<Rightarrow> nat" where
  "total_bytes items = sum_list (map (length \<circ> ci_content) items)"

definition total_tokens :: "agent_context_item list \<Rightarrow> nat" where
  "total_tokens items = sum_list (map ci_estimated_tokens items) mod 2 ^ 32"

definition snapshot :: "agent_context_item list \<Rightarrow> context_budget \<Rightarrow> u64 \<Rightarrow> context_snapshot" where
  "snapshot items budget now =
     (let items = filter (\<lambda>item. is_fresh (ci_freshness item) now) items;
          items = sort_key source_rank items;
          items = fit_items budget 0 0 items;
          items = take (cb_max_items budget) items
      in \<lparr>cs_items = items, cs_facts = [], cs_estimated_tokens = total_tokens items,
          cs_total_bytes = total_bytes items, cs_compaction_count = 0\<rparr>)"

definition compact :: "context_snapshot \<Rightarrow> context_fact list \<Rightarrow> context_snapshot" where
  "compact s facts =
     (let facts = cs_facts s @ facts;
          items = filter (\<lambda>item. ci_source_kind item \<in> {User, Incident}) (cs_items s)
      in s\<lparr>cs_facts := facts, cs_items := items, cs_total_bytes := total_bytes items,
           cs_estimated_tokens :=
             (total_tokens items
              + sum_list (map (\<lambda>f. estimate_tokens (length (ct_key f) + length (ct_value f))) facts)
                mod 2 ^ 32) mod 2 ^ 32,
           cs_compaction_count := min (cs_compaction_count s + 1) U32_MAX\<rparr>)"

section \<open>Redaction does not depend on the secret\<close>

lemma split_pred_head:
  "(\<forall>c \<in> set k. \<not> P c) \<Longrightarrow> P d \<Longrightarrow> hd (split_pred P (k @ d # v)) = k"
proof (induction k)
  case (Cons c k)
  then show ?case by (cases "split_pred P (k @ d # v)") auto
qed simp

lemma split_pred_no_match: "(\<forall>c \<in> set s. \<not> P c) \<Longrightarrow> split_pred P s = [s]"
  by (induction s) auto

text \<open>A line that names a secret before its first separator.\<close>

definition labelled :: "string \<Rightarrow> string \<Rightarrow> bool" where
  "labelled k line \<longleftrightarrow> (\<exists>v. line = k @ CHR ''='' # v \<or> line = k @ CHR '':'' # v)
     \<and> CHR ''='' \<notin> set k \<and> CHR '':'' \<notin> set k"

lemma secret_key_labelled: "labelled k line \<Longrightarrow> secret_key line
    = trim (if length k \<le> 64 then k else ''SENSITIVE_VALUE'')"
proof -
  assume "labelled k line"
  then obtain d v where line: "line = k @ d # v" and d: "d = CHR ''='' \<or> d = CHR '':''"
    and k: "\<forall>c \<in> set k. \<not> (c = CHR ''='' \<or> c = CHR '':'')"
    unfolding labelled_def by blast
  have "hd (split_pred (\<lambda>c. c = CHR ''='' \<or> c = CHR '':'') line) = k"
    unfolding line using k d by (rule split_pred_head)
  then show ?thesis by (simp add: secret_key_def)
qed

definition same_but_secret :: "string \<Rightarrow> string \<Rightarrow> bool" where
  "same_but_secret l l' \<longleftrightarrow> l = l' \<or>
     (sensitive_line l \<and> sensitive_line l' \<and> (\<exists>k. labelled k l \<and> labelled k l'))"

lemma redact_line_same: "same_but_secret l l' \<Longrightarrow> redact_line l = redact_line l'"
  by (auto simp: same_but_secret_def redact_line_def secret_key_labelled)

lemma sensitive_same: "same_but_secret l l' \<Longrightarrow> sensitive_line l = sensitive_line l'"
  by (auto simp: same_but_secret_def)

text \<open>
  C29. Redaction does not leak a labelled secret: two texts that agree line by line, except in
  what follows the first separator of a sensitive line, are redacted to the same text. A text
  without a sensitive line comes back as its lines.
\<close>

theorem redaction_hides_labelled_secrets:
  assumes "list_all2 same_but_secret (str_lines a) (str_lines b)"
  shows "redact_secrets a = redact_secrets b
    \<and> (\<not> snd (redact_secrets a) \<longrightarrow> fst (redact_secrets a) = join_lines (str_lines a))"
proof -
  from assms have "map redact_line (str_lines a) = map redact_line (str_lines b)"
    and "list_ex sensitive_line (str_lines a) = list_ex sensitive_line (str_lines b)"
    by (induction rule: list_all2_induct) (simp_all add: redact_line_same sensitive_same)
  then have "redact_secrets a = redact_secrets b" by (simp add: redact_secrets_def Let_def)
  moreover have "map redact_line ls = ls" if "\<not> list_ex sensitive_line ls" for ls
    using that by (induction ls) (simp_all add: redact_line_def)
  then have "\<not> snd (redact_secrets a) \<longrightarrow> fst (redact_secrets a) = join_lines (str_lines a)"
    by (simp add: redact_secrets_def Let_def)
  ultimately show ?thesis by blast
qed

lemma redaction_hides_labelled_secrets_witness:
  "redact_secrets ''DB_PASSWORD=hunter2'' = redact_secrets ''DB_PASSWORD=other''"
proof -
  have "str_lines ''DB_PASSWORD=hunter2'' = [''DB_PASSWORD=hunter2'']"
    "str_lines ''DB_PASSWORD=other'' = [''DB_PASSWORD=other'']"
    "sensitive_line ''DB_PASSWORD=hunter2''" "sensitive_line ''DB_PASSWORD=other''"
    by code_simp+
  moreover have "labelled ''DB_PASSWORD'' ''DB_PASSWORD=hunter2''"
    "labelled ''DB_PASSWORD'' ''DB_PASSWORD=other''"
    by (simp_all add: labelled_def)
  ultimately have "list_all2 same_but_secret (str_lines ''DB_PASSWORD=hunter2'')
      (str_lines ''DB_PASSWORD=other'')"
    by (auto simp: same_but_secret_def)
  then show ?thesis using redaction_hides_labelled_secrets by blast
qed

text \<open>
  A sensitive line without a separator is not redacted: when it has at most 64 bytes it is
  copied whole, only trimmed and marked. A bearer credential alone on its line is such a case.
\<close>

lemma unlabelled_secret_is_copied:
  assumes "sensitive_line l" and "CHR ''='' \<notin> set l" and "CHR '':'' \<notin> set l" and "length l \<le> 64"
  shows "redact_line l = trim l @ redacted_mark"
proof -
  have "split_pred (\<lambda>c. c = CHR ''='' \<or> c = CHR '':'') l = [l]"
    using assms(2,3) by (intro split_pred_no_match) auto
  with assms show ?thesis by (simp add: redact_line_def secret_key_def)
qed

lemma unlabelled_secret_is_copied_witness:
  "redact_line ''Bearer sk-live-123'' = ''Bearer sk-live-123=[REDACTED]''"
proof -
  have "sensitive_line ''Bearer sk-live-123''" "trim ''Bearer sk-live-123'' = ''Bearer sk-live-123''"
    by code_simp+
  with unlabelled_secret_is_copied [of "''Bearer sk-live-123''"] show ?thesis
    by (simp add: redacted_mark_def)
qed

section \<open>Redaction may lengthen a text\<close>

text \<open>
  A sensitive line has at least the five bytes of its marker, and its replacement at most eleven
  bytes more than the line: redaction never makes a text more than four times as long.
\<close>

lemma str_contains_length: "str_contains s p \<Longrightarrow> length p \<le> length s"
  by (auto simp: str_contains_iff)

lemma sensitive_line_length: "sensitive_line line \<Longrightarrow> 5 \<le> length line"
  by (auto simp: sensitive_line_def contains_any_def SENSITIVE_MARKERS_def to_ascii_uppercase_def
      dest!: str_contains_length)

lemma hd_split_pred_length: "length (hd (split_pred P s)) \<le> length s"
proof (induction s)
  case (Cons c s)
  then show ?case by (cases "split_pred P s") auto
qed simp

lemma secret_key_length: "length (secret_key line) \<le> length line"
proof -
  let ?piece = "hd (split_pred (\<lambda>c. c = CHR ''='' \<or> c = CHR '':'') line)"
  have piece: "length ?piece \<le> length line" by (rule hd_split_pred_length)
  show ?thesis
  proof (cases "length ?piece \<le> 64")
    case True
    then show ?thesis using order_trans [OF length_trim_le piece] by (simp add: secret_key_def Let_def)
  next
    case False
    then show ?thesis
      using length_trim_le [of "''SENSITIVE_VALUE''"] piece by (simp add: secret_key_def Let_def)
  qed
qed

lemma redact_line_length: "length (redact_line line) \<le> 4 * length line"
  using secret_key_length [of line] sensitive_line_length [of line]
  by (cases "sensitive_line line") (simp_all add: redact_line_def redacted_mark_def)

lemma join_lines_Cons: "ls \<noteq> [] \<Longrightarrow> join_lines (l # ls) = l @ NL # join_lines ls"
  by (cases ls) simp_all

lemma join_lines_map_length:
  assumes "\<And>l. length (f l) \<le> 4 * length l"
  shows "length (join_lines (map f ls)) \<le> 4 * length (join_lines ls)"
proof (induction ls rule: join_lines.induct)
  case (2 l)
  then show ?case using assms by simp
next
  case (3 l m ls)
  then show ?case using assms [of l] by simp
qed simp

lemma join_lines_head: "join_lines ((c # l) # ls) = c # join_lines (l # ls)"
  by (cases ls) simp_all

lemma join_split_char: "join_lines (split_char NL s) = s"
proof (induction s)
  case (Cons c s)
  then show ?case
    by (cases "split_pred (\<lambda>c. c = NL) s") (auto simp: split_char_def join_lines_head)
qed (simp add: split_char_def)

lemma join_lines_shorter:
  "list_all2 (\<lambda>a b. length a \<le> length b) ls ms \<Longrightarrow> length (join_lines ls) \<le> length (join_lines ms)"
proof (induction rule: list_all2_induct)
  case (Cons a as b bs)
  then show ?case by (cases as; cases bs) simp_all
qed simp

lemma join_lines_snoc_le: "length (join_lines ls) \<le> length (join_lines (ls @ [l]))"
proof (induction ls rule: join_lines.induct)
  case (3 a b ls)
  then show ?case by simp
qed simp_all

lemma strip_cr_length: "length (strip_cr l) \<le> length l"
  by (simp add: strip_cr_def)

lemma join_str_lines_length: "length (join_lines (str_lines s)) \<le> length s"
proof -
  let ?ps = "split_char NL s"
  let ?ended = "map strip_cr (butlast ?ps)"
  have ps: "?ps = butlast ?ps @ [last ?ps]" by (simp add: split_char_def)
  have "list_all2 (\<lambda>a b. length a \<le> length b) (?ended @ [last ?ps]) (butlast ?ps @ [last ?ps])"
    by (auto simp: list_all2_map1 strip_cr_length intro!: list_all2_appendI list_all2_refl)
  from join_lines_shorter [OF this] ps have "length (join_lines (?ended @ [last ?ps])) \<le> length s"
    by (metis join_split_char)
  moreover have "length (join_lines ?ended) \<le> length (join_lines (?ended @ [last ?ps]))"
    by (rule join_lines_snoc_le)
  ultimately show ?thesis unfolding str_lines_def Let_def by auto
qed

lemma redact_secrets_length: "length (fst (redact_secrets s)) \<le> 4 * length s"
  using order_trans [OF join_lines_map_length [OF redact_line_length, of "str_lines s"]]
    join_str_lines_length [of s] by (simp add: redact_secrets_def Let_def)

section \<open>The snapshot stays within its budget\<close>

lemma fit_items_bounds:
  assumes "bytes \<le> cb_max_bytes budget" "cb_max_bytes budget < USIZE_MAX"
    "tokens \<le> cb_max_tokens budget" "cb_max_tokens budget < U32_MAX"
  shows "bytes + total_bytes (fit_items budget bytes tokens items) \<le> cb_max_bytes budget
    \<and> tokens + sum_list (map ci_estimated_tokens (fit_items budget bytes tokens items))
        \<le> cb_max_tokens budget"
  using assms
proof (induction budget bytes tokens items rule: fit_items.induct)
  case (2 budget bytes tokens item items)
  then show ?case by (auto simp: Let_def total_bytes_def min_def add.assoc split: if_splits)
qed (simp add: total_bytes_def)

lemma fit_items_filter: "set (fit_items budget bytes tokens items) \<subseteq> set items"
proof (induction items arbitrary: bytes tokens)
  case (Cons item items)
  then show ?case by (simp add: Let_def subset_insertI2 insert_mono)
qed simp

lemma fit_items_sorted:
  "sorted (map f items) \<Longrightarrow> sorted (map f (fit_items budget bytes tokens items))"
proof (induction items arbitrary: bytes tokens)
  case (Cons item items)
  then show ?case using fit_items_filter by (fastforce simp: Let_def)
qed simp

lemma sum_take_le: "sum_list (map f (take n xs)) \<le> (sum_list (map f xs) :: nat)"
proof -
  have "sum_list (map f xs) = sum_list (map f (take n xs)) + sum_list (map f (drop n xs))"
    by (simp flip: sum_list_append map_append)
  then show ?thesis by simp
qed

lemma fresh_items_fit:
  assumes "cb_max_bytes budget < USIZE_MAX" "cb_max_tokens budget < U32_MAX"
  shows "total_bytes (take n (fit_items budget 0 0 items)) \<le> cb_max_bytes budget"
    and "sum_list (map ci_estimated_tokens (take n (fit_items budget 0 0 items)))
           \<le> cb_max_tokens budget"
  using fit_items_bounds [of 0 budget 0 items] assms
    sum_take_le [of "length \<circ> ci_content" n "fit_items budget 0 0 items"]
    sum_take_le [of ci_estimated_tokens n "fit_items budget 0 0 items"]
  by (auto simp: total_bytes_def)

text \<open>
  C30. A snapshot holds fresh items only, taken from the given ones with the user's first, and
  respects its budget in items, bytes and tokens; its recorded totals are the true ones.
\<close>

theorem snapshot_within_budget:
  assumes "cb_max_bytes budget < USIZE_MAX" and "cb_max_tokens budget < U32_MAX"
  shows "let s = snapshot items budget now in
    length (cs_items s) \<le> cb_max_items budget
    \<and> cs_total_bytes s = total_bytes (cs_items s) \<and> cs_total_bytes s \<le> cb_max_bytes budget
    \<and> cs_estimated_tokens s = sum_list (map ci_estimated_tokens (cs_items s))
    \<and> cs_estimated_tokens s \<le> cb_max_tokens budget
    \<and> set (cs_items s) \<subseteq> {item \<in> set items. is_fresh (ci_freshness item) now}
    \<and> sorted (map source_rank (cs_items s))"
proof -
  let ?fresh = "sort_key source_rank (filter (\<lambda>item. is_fresh (ci_freshness item) now) items)"
  let ?kept = "take (cb_max_items budget) (fit_items budget 0 0 ?fresh)"
  have tokens: "sum_list (map ci_estimated_tokens ?kept) \<le> cb_max_tokens budget"
    by (rule fresh_items_fit [OF assms])
  then have "sum_list (map ci_estimated_tokens ?kept) < 2 ^ 32"
    using assms(2) by (simp add: U32_MAX_def)
  then have "total_tokens ?kept = sum_list (map ci_estimated_tokens ?kept)"
    by (simp add: total_tokens_def)
  moreover have "set ?kept \<subseteq> {item \<in> set items. is_fresh (ci_freshness item) now}"
    using fit_items_filter [of budget 0 0 ?fresh] set_take_subset by fastforce
  moreover have "sorted (map source_rank ?kept)"
    by (simp add: take_map [symmetric] sorted_wrt_take fit_items_sorted)
  moreover have "total_bytes ?kept \<le> cb_max_bytes budget" by (rule fresh_items_fit [OF assms])
  ultimately show ?thesis using tokens by (simp add: snapshot_def Let_def)
qed

lemma snapshot_within_budget_witness:
  "length (cs_items (snapshot [user_context 1 ''hi'' 0] context_budget_default 5)) \<le> 32"
  using snapshot_within_budget [of context_budget_default "[user_context 1 ''hi'' 0]" 5]
  by (simp add: context_budget_default_def USIZE_MAX_def U32_MAX_def Let_def)

end
