(* ===== verification/Agent_Decision.thy ===== *)
theory Agent_Decision
  imports Tools_Contract Agent_Context Change_Sets
begin

text \<open>
  The decision protocol of the agent runtime (src-tauri/src/agent/decision.rs): what the
  reasoner may propose, the structural validation that turns a proposal into a dispatch-ready
  decision, and the classification that labels a shell command for display. \<open>Uuid::new_v4\<close> is
  the parameter \<open>fresh\<close>, indexed by the position of the call.
\<close>

section \<open>Proposals\<close>

definition MAX_TOOL_CALLS_PER_TURN :: nat where "MAX_TOOL_CALLS_PER_TURN = 4"
definition MAX_REASON_SUMMARY_BYTES :: nat where "MAX_REASON_SUMMARY_BYTES = 300"
definition MAX_QUESTION_BYTES :: nat where "MAX_QUESTION_BYTES = 2048"
definition MAX_FINAL_SUMMARY_BYTES :: nat where "MAX_FINAL_SUMMARY_BYTES = 16384"
definition MAX_CHANGE_TITLE_BYTES :: nat where "MAX_CHANGE_TITLE_BYTES = 256"
definition MAX_CHANGE_SUMMARY_BYTES :: nat where "MAX_CHANGE_SUMMARY_BYTES = 4096"
definition MAX_CHANGE_STEPS :: nat where "MAX_CHANGE_STEPS = 4"
definition MAX_COMMAND_BYTES :: nat where "MAX_COMMAND_BYTES = 16384"

lemmas decision_limits = MAX_TOOL_CALLS_PER_TURN_def MAX_REASON_SUMMARY_BYTES_def
  MAX_QUESTION_BYTES_def MAX_FINAL_SUMMARY_BYTES_def MAX_CHANGE_TITLE_BYTES_def
  MAX_CHANGE_SUMMARY_BYTES_def MAX_CHANGE_STEPS_def MAX_COMMAND_BYTES_def

record tool_call_request =
  tq_tool_name :: string
  tq_arguments :: json
  tq_reason_summary :: string

record command_proposal_request =
  cq_command :: string
  cq_reason_summary :: string
  cq_observation_analysis :: "string option"

record change_proposal_request =
  hq_title :: string
  hq_summary :: string
  hq_evidence_ids :: "uuid list"
  hq_steps :: "change_step_draft list"

datatype agent_decision =
    ToolCalls "tool_call_request list"
  | CommandProposal command_proposal_request
  | AskUser string
  | Final string
  | ProposeChangeSet change_proposal_request

datatype command_risk = Low | Medium | High | Critical

fun command_risk_str :: "command_risk \<Rightarrow> string" where
  "command_risk_str Low = ''low''"
| "command_risk_str Medium = ''medium''"
| "command_risk_str High = ''high''"
| "command_risk_str Critical = ''critical''"

datatype command_mutability = ReadIntent | Mutating | Unknown

fun command_mutability_str :: "command_mutability \<Rightarrow> string" where
  "command_mutability_str ReadIntent = ''read''"
| "command_mutability_str Mutating = ''mutating''"
| "command_mutability_str Unknown = ''unknown''"

record prepared_command_proposal =
  pc_command_id :: uuid
  pc_command :: string
  pc_reason_summary :: string
  pc_observation_analysis :: "string option"
  pc_risk :: command_risk
  pc_mutability :: command_mutability

record validated_change_proposal =
  vc_proposal_id :: uuid
  vc_title :: string
  vc_summary :: string
  vc_evidence_ids :: "uuid list"
  vc_steps :: "change_step_draft list"

record prepared_tool_call =
  tc_tool_call_id :: uuid
  tc_tool_name :: string
  tc_reason_summary :: string
  tc_invocation :: native_tool_invocation

datatype validated_decision =
    VToolCalls "prepared_tool_call list"
  | VCommandProposal prepared_command_proposal
  | VAskUser string
  | VFinal string
  | VProposeChangeSet validated_change_proposal

datatype decision_error =
    EmptyToolCalls
  | TooManyToolCalls
  | UnknownTool
  | WriteToolRejected
  | InvalidArguments
  | InvalidCommand
  | InvalidReasonSummary
  | InvalidQuestion
  | InvalidFinalSummary
  | InvalidChangeSummary
  | InvalidChangeTitle
  | InvalidChangeSteps
  | InvalidChangeEvidence

definition decision_error_code :: "decision_error \<Rightarrow> string" where
  "decision_error_code e = ''AGENT_DECISION_INVALID''"

section \<open>Reading a shell command\<close>

definition strip_executable_path :: "string \<Rightarrow> string" where
  "strip_executable_path token =
     (let last_piece = last (split_char (CHR ''/'') token);
          quote = (\<lambda>c. c = CHR 0x27 \<or> c = CHR 0x22)
      in to_ascii_lowercase (rev (dropWhile quote (rev (dropWhile quote last_piece)))))"

text \<open>The first piece that is not a shell assignment, as \<open>VAR=value\<close>.\<close>

definition is_assignment :: "string \<Rightarrow> bool" where
  "is_assignment token \<longleftrightarrow>
     CHR ''='' \<in> set token \<and> \<not> starts_with token ''-'' \<and> \<not> starts_with token [CHR 0x27]
     \<and> \<not> starts_with token [CHR 0x22]"

definition is_env_pair :: "string \<Rightarrow> bool" where
  "is_env_pair token \<longleftrightarrow> CHR ''='' \<in> set token \<and> \<not> starts_with token ''-''"

definition WRAPPERS :: "string list" where
  "WRAPPERS = [''sudo'', ''doas'', ''command'', ''time'', ''nice'', ''nohup'', ''env'']"

text \<open>The flags of a wrapper; some take the next token as their value.\<close>

fun skip_flags :: "string list \<Rightarrow> string list" where
  "skip_flags [] = []"
| "skip_flags (flag # tokens) =
     (if starts_with flag ''-''
      then if flag \<in> set [''-u'', ''-g'', ''-p'', ''-C'', ''--user'', ''--group'']
           then (case tokens of [] \<Rightarrow> [] | _ # tokens' \<Rightarrow> skip_flags tokens')
           else skip_flags tokens
      else flag # tokens)"

definition unwrap_executable :: "string \<Rightarrow> string list \<Rightarrow> string" where
  "unwrap_executable exe rest =
     (if exe \<in> set WRAPPERS
      then (case dropWhile is_env_pair (skip_flags rest) of
              [] \<Rightarrow> exe | token # _ \<Rightarrow> strip_executable_path token)
      else exe)"

definition primary_executable :: "string \<Rightarrow> string option" where
  "primary_executable segment =
     (case dropWhile is_assignment (split_whitespace segment) of
        [] \<Rightarrow> None
      | token # rest \<Rightarrow> Some (unwrap_executable (strip_executable_path token) rest))"

definition command_lookup :: "string list \<Rightarrow> bool" where
  "command_lookup rest \<longleftrightarrow>
     list_ex (\<lambda>t. t = ''-v'' \<or> t = ''-V'') (takeWhile (\<lambda>t. starts_with t ''-'') rest)"

definition executable_being_invoked :: "string \<Rightarrow> string option" where
  "executable_being_invoked segment =
     (case dropWhile is_assignment (split_whitespace segment) of
        [] \<Rightarrow> None
      | token # rest \<Rightarrow>
          (let exe = strip_executable_path token in
           if exe \<in> set [''which'', ''type'', ''whereis''] then Some exe
           else if exe = ''command'' \<and> command_lookup rest then Some exe
           else Some (unwrap_executable exe rest)))"

fun shell_parts :: "string \<Rightarrow> string \<Rightarrow> string list" where
  "shell_parts acc [] = [acc]"
| "shell_parts acc (c # s) =
     (if c = CHR '';'' then acc # shell_parts [] s
      else if (c = CHR ''&'' \<or> c = CHR 0x7C) \<and> s \<noteq> [] \<and> hd s = c
        then acc # shell_parts [] (tl s)
      else if c = CHR 0x7C then acc # shell_parts [] s
      else shell_parts (acc @ [c]) s)"

definition shell_segments :: "string \<Rightarrow> string list" where
  "shell_segments command = filter (\<lambda>part. part \<noteq> []) (map trim (shell_parts [] command))"

section \<open>Classification\<close>

definition CRITICAL_POWER_VERBS :: "string list" where
  "CRITICAL_POWER_VERBS = [''shutdown'', ''poweroff'', ''reboot'', ''halt'']"

definition READ_SAFE_EXECUTABLES :: "string list" where
  "READ_SAFE_EXECUTABLES =
     [''uptime'', ''date'', ''who'', ''w'', ''whoami'', ''id'', ''uname'', ''last'', ''lastb'',
      ''echo'', ''printf'', ''true'', ''false'', ''cat'', ''head'', ''tail'', ''grep'', ''egrep'',
      ''fgrep'', ''rg'', ''awk'', ''sed'', ''cut'', ''sort'', ''uniq'', ''wc'', ''tr'', ''df'',
      ''du'', ''free'', ''ps'', ''vmstat'', ''iostat'', ''mpstat'', ''pidstat'', ''journalctl'',
      ''dmesg'', ''ls'', ''pwd'', ''hostname'', ''timedatectl'', ''lsblk'', ''findmnt'', ''ss'',
      ''ip'', ''basename'', ''dirname'', ''command'', ''type'', ''which'', ''stat'', ''file'',
      ''realpath'', ''readlink'', ''getent'', ''env'', ''printenv'', ''lscpu'', ''nproc'',
      ''arch'']"

definition DESTRUCTIVE_PATTERNS :: "string list" where
  "DESTRUCTIVE_PATTERNS = [''rm -rf'', ''mkfs'', ''wipefs'', ''dd if='', '':(){'']"

definition MUTATING_PATTERNS :: "string list" where
  "MUTATING_PATTERNS =
     [''sudo '', '' rm '', '' mv '', '' cp '', '' chmod '', '' chown '', '' mkdir '', '' touch '',
      ''sed -i'', ''systemctl start'', ''systemctl stop'', ''systemctl restart'',
      ''systemctl reload'', ''systemctl enable'', ''systemctl disable'', ''docker rm'',
      ''docker stop'', ''docker restart'', ''docker prune'', ''apt install'', ''apt-get install'',
      ''dnf install'', ''yum install'', ''pacman -s'', '' tee '']"

definition MUTATING_PREFIXES :: "string list" where
  "MUTATING_PREFIXES =
     [''rm '', ''mv '', ''cp '', ''chmod '', ''chown '', ''mkdir '', ''touch '']"

definition COMPOSITION_PATTERNS :: "string list" where
  "COMPOSITION_PATTERNS =
     [''&&'', [CHR 0x7C, CHR 0x7C], '';'', ''$('', [CHR 0x60], '' -exec '', '' xargs '', ''sh -c'',
      ''bash -c'']"

definition SUBSTITUTION_PATTERNS :: "string list" where
  "SUBSTITUTION_PATTERNS =
     [''$('', [CHR 0x60], '' -exec '', '' xargs '', ''sh -c'', ''bash -c'']"

definition command_invokes_critical_power_verb :: "string \<Rightarrow> bool" where
  "command_invokes_critical_power_verb command \<longleftrightarrow>
     list_ex (\<lambda>exe. exe \<in> set CRITICAL_POWER_VERBS)
       (List.map_filter executable_being_invoked (shell_segments command))"

definition is_read_safe_composition :: "string \<Rightarrow> bool" where
  "is_read_safe_composition command =
     (if contains_any command SUBSTITUTION_PATTERNS then False
      else let segments = shell_segments command in
        if segments = [] then False
        else list_all (\<lambda>segment. case primary_executable segment of
               None \<Rightarrow> False | Some exe \<Rightarrow> exe \<in> set READ_SAFE_EXECUTABLES) segments)"

definition strip_fd_redirection :: "string \<Rightarrow> string" where
  "strip_fd_redirection lower =
     str_replace ''>/dev/null'' [] (str_replace ''2>/dev/null'' []
       (str_replace ''1>&2'' [] (str_replace ''2>&1'' [] lower)))"

definition classify_command :: "string \<Rightarrow> command_risk \<times> command_mutability" where
  "classify_command command =
     (let lower = to_ascii_lowercase command in
      if contains_any lower DESTRUCTIVE_PATTERNS \<or> command_invokes_critical_power_verb lower
        then (Critical, Mutating)
      else if contains_any lower MUTATING_PATTERNS
              \<or> starts_with_any (trim_start lower) MUTATING_PREFIXES
        then (High, Mutating)
      else let without_fd_redirection = strip_fd_redirection lower in
        if contains_any without_fd_redirection COMPOSITION_PATTERNS
          then if is_read_safe_composition lower then (Low, ReadIntent) else (High, Unknown)
        else if str_contains without_fd_redirection ''>'' then (Medium, Mutating)
        else if contains_any lower [''curl '', ''wget ''] then (Medium, Unknown)
        else (Low, ReadIntent))"

section \<open>Validation\<close>

definition bounded_user_text :: "string \<Rightarrow> nat \<Rightarrow> string option" where
  "bounded_user_text raw max_bytes =
     (let trimmed = trim raw in
      if trimmed = [] \<or> max_bytes < length trimmed then None
      else Some (fst (redact_secrets trimmed)))"

definition parse_tool_name :: "string \<Rightarrow> native_tool_name option" where
  "parse_tool_name raw = find (\<lambda>name. tool_as_str name = raw) ALL_TOOLS"

definition prepare_tool_call ::
  "uuid \<Rightarrow> tool_call_request \<Rightarrow> (prepared_tool_call, decision_error) result" where
  "prepare_tool_call i request =
     result_bind (ok_or UnknownTool (parse_tool_name (tq_tool_name request))) (\<lambda>name.
     result_bind (ok_or UnknownTool
         (map_option (\<lambda>d. td_mutability d = Read) (find (\<lambda>d. td_name d = name) native_descriptors)))
       (\<lambda>descriptor_is_read.
     if \<not> descriptor_is_read then Err WriteToolRejected
     else result_bind (map_err (\<lambda>_. InvalidArguments)
            (from_model_read_call name (tq_arguments request))) (\<lambda>invocation.
          result_bind (ok_or InvalidReasonSummary
            (bounded_user_text (tq_reason_summary request) MAX_REASON_SUMMARY_BYTES))
            (\<lambda>reason_summary.
          Ok \<lparr>tc_tool_call_id = i, tc_tool_name = tool_as_str name,
              tc_reason_summary = reason_summary, tc_invocation = invocation\<rparr>))))"

definition prepare_command_proposal ::
  "uuid \<Rightarrow> command_proposal_request \<Rightarrow> (prepared_command_proposal, decision_error) result" where
  "prepare_command_proposal i proposal =
     (let command = trim (cq_command proposal) in
      if command = [] \<or> MAX_COMMAND_BYTES < length command \<or> CHR 0x00 \<in> set command
         \<or> length (str_lines command) \<noteq> 1
      then Err InvalidCommand
      else let (redacted_command, command_contained_secret) = redact_secrets command in
        if command_contained_secret \<or> redacted_command \<noteq> command then Err InvalidCommand
        else result_bind (ok_or InvalidReasonSummary
               (bounded_user_text (cq_reason_summary proposal) MAX_REASON_SUMMARY_BYTES))
             (\<lambda>reason_summary.
             result_bind
               (case cq_observation_analysis proposal of
                  Some summary \<Rightarrow> ok_or InvalidFinalSummary
                    (map_option Some (bounded_user_text summary MAX_FINAL_SUMMARY_BYTES))
                | None \<Rightarrow> Ok None)
             (\<lambda>observation_analysis.
             let (risk, mutability) = classify_command command
             in Ok \<lparr>pc_command_id = i, pc_command = command, pc_reason_summary = reason_summary,
                    pc_observation_analysis = observation_analysis, pc_risk = risk,
                    pc_mutability = mutability\<rparr>)))"

definition prepare_change_proposal ::
  "uuid \<Rightarrow> change_proposal_request \<Rightarrow> (validated_change_proposal, decision_error) result" where
  "prepare_change_proposal i proposal =
     result_bind (ok_or InvalidChangeTitle
       (bounded_user_text (hq_title proposal) MAX_CHANGE_TITLE_BYTES)) (\<lambda>title.
     result_bind (ok_or InvalidChangeSummary
       (bounded_user_text (hq_summary proposal) MAX_CHANGE_SUMMARY_BYTES)) (\<lambda>summary.
     if hq_steps proposal = [] \<or> MAX_CHANGE_STEPS < length (hq_steps proposal)
       then Err InvalidChangeSteps
     else if hq_evidence_ids proposal = [] \<or> MAX_CHANGE_STEPS < length (hq_evidence_ids proposal)
             \<or> length (remdups (hq_evidence_ids proposal)) \<noteq> length (hq_evidence_ids proposal)
       then Err InvalidChangeEvidence
     else Ok \<lparr>vc_proposal_id = i, vc_title = title, vc_summary = summary,
              vc_evidence_ids = hq_evidence_ids proposal, vc_steps = hq_steps proposal\<rparr>))"

definition validate_decision ::
  "(nat \<Rightarrow> uuid) \<Rightarrow> agent_decision \<Rightarrow> (validated_decision, decision_error) result" where
  "validate_decision fresh decision =
     (case decision of
        ToolCalls requests \<Rightarrow>
          if requests = [] then Err EmptyToolCalls
          else if MAX_TOOL_CALLS_PER_TURN < length requests then Err TooManyToolCalls
          else result_bind
            (try_map (\<lambda>(n, request). prepare_tool_call (fresh n) request) (enumerate 0 requests))
            (\<lambda>prepared. Ok (VToolCalls prepared))
      | CommandProposal proposal \<Rightarrow>
          result_bind (prepare_command_proposal (fresh 0) proposal) (\<lambda>c. Ok (VCommandProposal c))
      | AskUser question \<Rightarrow>
          result_bind (ok_or InvalidQuestion (bounded_user_text question MAX_QUESTION_BYTES))
            (\<lambda>q. Ok (VAskUser q))
      | Final summary \<Rightarrow>
          result_bind (ok_or InvalidFinalSummary (bounded_user_text summary MAX_FINAL_SUMMARY_BYTES))
            (\<lambda>s. Ok (VFinal s))
      | ProposeChangeSet proposal \<Rightarrow>
          result_bind (prepare_change_proposal (fresh 0) proposal)
            (\<lambda>p. Ok (VProposeChangeSet p)))"

section \<open>What a validated decision satisfies\<close>

text \<open>
  A text shown to the user: the redaction of the trimmed, non-empty text of the model, which has
  at most \<open>n\<close> bytes. The bound holds before the redaction; after it there may be four times as
  many.
\<close>

definition shown_text :: "nat \<Rightarrow> string \<Rightarrow> string \<Rightarrow> bool" where
  "shown_text n raw t \<longleftrightarrow> trim raw \<noteq> [] \<and> length (trim raw) \<le> n
     \<and> t = fst (redact_secrets (trim raw)) \<and> length t \<le> 4 * n"

definition tool_call_ok :: "prepared_tool_call \<Rightarrow> bool" where
  "tool_call_ok c \<longleftrightarrow>
     (let name = invocation_name (tc_invocation c)
      in name \<in> set READ_ONLY \<and> tc_tool_name c = tool_as_str name \<and> operands_ok (tc_invocation c))"

definition tool_call_from :: "uuid \<Rightarrow> tool_call_request \<Rightarrow> prepared_tool_call \<Rightarrow> bool" where
  "tool_call_from i request c \<longleftrightarrow>
     tool_call_ok c \<and> tc_tool_call_id c = i \<and> tc_tool_name c = tq_tool_name request
     \<and> from_model_read_call (invocation_name (tc_invocation c)) (tq_arguments request) = Ok (tc_invocation c)
     \<and> shown_text 300 (tq_reason_summary request) (tc_reason_summary c)"

definition command_ok :: "uuid \<Rightarrow> command_proposal_request \<Rightarrow> prepared_command_proposal \<Rightarrow> bool" where
  "command_ok i proposal c \<longleftrightarrow>
     pc_command_id c = i \<and> pc_command c = trim (cq_command proposal)
     \<and> pc_command c \<noteq> [] \<and> length (pc_command c) \<le> 16384
     \<and> CHR 0x00 \<notin> set (pc_command c) \<and> NL \<notin> set (pc_command c)
     \<and> redact_secrets (pc_command c) = (pc_command c, False)
     \<and> (pc_risk c, pc_mutability c) = classify_command (pc_command c)
     \<and> shown_text 300 (cq_reason_summary proposal) (pc_reason_summary c)
     \<and> rel_option (shown_text 16384) (cq_observation_analysis proposal) (pc_observation_analysis c)"

definition change_ok :: "uuid \<Rightarrow> change_proposal_request \<Rightarrow> validated_change_proposal \<Rightarrow> bool" where
  "change_ok i proposal p \<longleftrightarrow>
     vc_proposal_id p = i \<and> vc_steps p = hq_steps proposal \<and> vc_evidence_ids p = hq_evidence_ids proposal
     \<and> vc_steps p \<noteq> [] \<and> length (vc_steps p) \<le> 4
     \<and> vc_evidence_ids p \<noteq> [] \<and> length (vc_evidence_ids p) \<le> 4 \<and> distinct (vc_evidence_ids p)
     \<and> shown_text 256 (hq_title proposal) (vc_title p) \<and> shown_text 4096 (hq_summary proposal) (vc_summary p)"

fun decision_ok :: "(nat \<Rightarrow> uuid) \<Rightarrow> agent_decision \<Rightarrow> validated_decision \<Rightarrow> bool" where
  "decision_ok fresh (ToolCalls requests) (VToolCalls calls) \<longleftrightarrow>
     1 \<le> length calls \<and> length calls \<le> 4
     \<and> list_all2 (\<lambda>(n, request) c. tool_call_from (fresh n) request c) (enumerate 0 requests) calls"
| "decision_ok fresh (CommandProposal proposal) (VCommandProposal c) \<longleftrightarrow> command_ok (fresh 0) proposal c"
| "decision_ok fresh (AskUser raw) (VAskUser q) \<longleftrightarrow> shown_text 2048 raw q"
| "decision_ok fresh (Final raw) (VFinal s) \<longleftrightarrow> shown_text 16384 raw s"
| "decision_ok fresh (ProposeChangeSet proposal) (VProposeChangeSet p) \<longleftrightarrow> change_ok (fresh 0) proposal p"
| "decision_ok _ _ _ \<longleftrightarrow> False"

text \<open>A trimmed text of one line has no newline.\<close>

lemma length_split_pred: "length (split_pred P s) = Suc (length (filter P s))"
  by (induction s) (auto split: list.splits simp: length_Suc_conv)

lemma last_split_pred: "s \<noteq> [] \<Longrightarrow> \<not> P (last s) \<Longrightarrow> last (split_pred P s) \<noteq> []"
proof (induction s)
  case (Cons c s)
  then show ?case
    by (cases "s = []"; cases "split_pred P s") (auto split: if_splits)
qed simp

lemma one_line_no_newline:
  assumes "length (str_lines s) = 1" and "ws_suffix s = 0"
  shows "NL \<notin> set s"
proof
  assume nl: "NL \<in> set s"
  let ?ps = "split_char NL s"
  have "filter (\<lambda>c. c = NL) s \<noteq> []" using nl by (auto simp: filter_empty_conv)
  then have two: "2 \<le> length ?ps" by (cases "filter (\<lambda>c. c = NL) s") (simp_all add: split_char_def length_split_pred)
  have "s \<noteq> []" using nl by auto
  then have "drop (length s - 1) s = [last s]" by (metis append_butlast_last_id append_eq_conv_conj length_butlast)
  then have "last s \<noteq> NL"
    using assms(2) \<open>s \<noteq> []\<close> by (auto simp: ws_suffix_def ws_prefix_def Let_def NL_def split: if_splits)
  with \<open>s \<noteq> []\<close> have "last ?ps \<noteq> []" by (simp add: split_char_def last_split_pred)
  then have "length (str_lines s) = length ?ps" using two by (simp add: str_lines_def Let_def)
  with assms(1) two show False by simp
qed

lemma bounded_user_text_Some: "bounded_user_text raw n = Some t \<Longrightarrow> shown_text n raw t"
  using redact_secrets_length [of "trim raw"]
  by (auto simp: bounded_user_text_def shown_text_def Let_def split: if_splits)

lemma prepare_tool_call_ok:
  assumes "prepare_tool_call i request = Ok c"
  shows "tool_call_from i request c"
proof -
  from assms obtain name where
    inv: "from_model_read_call name (tq_arguments request) = Ok (tc_invocation c)"
    and name: "parse_tool_name (tq_tool_name request) = Some name"
    and n: "tc_tool_name c = tool_as_str name" "tc_tool_call_id c = i"
    and summary: "bounded_user_text (tq_reason_summary request) 300 = Some (tc_reason_summary c)"
    by (auto simp: prepare_tool_call_def result_simps decision_limits split: if_splits)
  from name have "tool_as_str name = tq_tool_name request"
    by (auto simp: parse_tool_name_def dest: find_Some_set)
  with parsed_invocation [OF inv] inv show ?thesis
    by (simp add: tool_call_from_def tool_call_ok_def n bounded_user_text_Some [OF summary])
qed

lemma prepare_command_ok:
  assumes "prepare_command_proposal i proposal = Ok c"
  shows "command_ok i proposal c"
proof -
  let ?cmd = "trim (cq_command proposal)"
  from assms have c: "pc_command c = ?cmd" "?cmd \<noteq> []" "length ?cmd \<le> 16384"
    "CHR 0x00 \<notin> set ?cmd" "length (str_lines ?cmd) = 1"
    "redact_secrets ?cmd = (?cmd, False)" "pc_command_id c = i"
    "(pc_risk c, pc_mutability c) = classify_command ?cmd"
    and summary: "bounded_user_text (cq_reason_summary proposal) 300 = Some (pc_reason_summary c)"
    and analysis: "rel_option (\<lambda>raw t. bounded_user_text raw 16384 = Some t)
      (cq_observation_analysis proposal) (pc_observation_analysis c)"
    by (auto simp: prepare_command_proposal_def Let_def result_simps case_prod_beta prod_eq_iff decision_limits
        split: if_splits option.splits)
  have "rel_option (shown_text 16384) (cq_observation_analysis proposal) (pc_observation_analysis c)"
    using analysis by (rule option.rel_mono_strong) (rule bounded_user_text_Some)
  with c one_line_no_newline [OF _ trim_no_trailing_ws] show ?thesis
    by (simp add: command_ok_def bounded_user_text_Some [OF summary])
qed

lemma prepare_change_ok:
  "prepare_change_proposal i proposal = Ok p \<Longrightarrow> change_ok i proposal p"
  by (auto simp: prepare_change_proposal_def result_simps change_ok_def decision_limits
      length_remdups_eq dest!: bounded_user_text_Some split: if_splits)

text \<open>
  C26. Whatever the model proposes, a decision that passes validation is its proposal, checked: one
  to four calls in the proposed order, each of a registered read tool with the arguments as parsed
  and its operands checked; or the proposed command, trimmed, with one to 16384 bytes, no newline, no
  NUL and nothing that redaction would change, and the label of the classifier; or a question; or a
  final text; or the proposed change of one to four steps on one to four distinct pieces of evidence.
  Each identifier is a fresh one, and every text for the user is the redaction of the trimmed text
  proposed, which is not empty and within its own bound (300 bytes for a reason, 2048 for a question, 16384 for a
  final text or an analysis, 256 and 4096 for a title and a summary); redacted it has at most four times as
  many bytes. That the command is harmless is not claimed: the label is shown to the user, who
  still has to approve it.
\<close>

theorem validated_decision_ok:
  assumes "validate_decision fresh d = Ok v"
  shows "decision_ok fresh d v"
proof (cases d)
  case (ToolCalls requests)
  let ?f = "\<lambda>(n, request). prepare_tool_call (fresh n) request"
  from assms ToolCalls obtain calls where v: "v = VToolCalls calls"
    and calls: "try_map ?f (enumerate 0 requests) = Ok calls"
    and n: "requests \<noteq> []" "length requests \<le> 4"
    by (auto simp: validate_decision_def result_simps decision_limits split: if_splits)
  have "list_all2 (\<lambda>(n, request) c. tool_call_from (fresh n) request c) (enumerate 0 requests) calls"
    using try_map_Ok_list_all2 [OF calls] by (rule list_all2_mono) (auto intro: prepare_tool_call_ok)
  then show ?thesis using n try_map_Ok_length [OF calls] by (cases requests) (simp_all add: ToolCalls v)
next
  case (CommandProposal proposal)
  with assms show ?thesis
    using prepare_command_ok by (auto simp: validate_decision_def result_simps)
next
  case (AskUser q)
  with assms show ?thesis
    by (auto simp: validate_decision_def result_simps decision_limits dest!: bounded_user_text_Some)
next
  case (Final s)
  with assms show ?thesis
    by (auto simp: validate_decision_def result_simps decision_limits dest!: bounded_user_text_Some)
next
  case (ProposeChangeSet p)
  with assms show ?thesis
    using prepare_change_ok by (auto simp: validate_decision_def result_simps)
qed

lemma validated_decision_ok_witness:
  "\<exists>c. validate_decision (\<lambda>_. 7) (CommandProposal \<lparr>cq_command = '' df -h '',
        cq_reason_summary = ''Check disks'', cq_observation_analysis = None\<rparr>)
      = Ok (VCommandProposal c) \<and> pc_command c = ''df -h''
      \<and> shown_text 300 ''Check disks'' (pc_reason_summary c)"
proof -
  let ?r = "\<lparr>cq_command = '' df -h '', cq_reason_summary = ''Check disks'',
              cq_observation_analysis = None\<rparr>"
  let ?c = "\<lambda>i. \<lparr>pc_command_id = i, pc_command = ''df -h'', pc_reason_summary = ''Check disks'',
              pc_observation_analysis = None, pc_risk = Low, pc_mutability = ReadIntent\<rparr>"
  have "prepare_command_proposal i ?r = Ok (?c i)" for i by code_simp
  then have v: "validate_decision (\<lambda>_. 7) (CommandProposal ?r) = Ok (VCommandProposal (?c 7))"
    by (simp only: validate_decision_def agent_decision.case result_bind.simps)
  from validated_decision_ok [OF v] v show ?thesis by (intro exI [of _ "?c 7"]) (simp add: command_ok_def)
qed

section \<open>Labels survive composition\<close>

lemma shell_parts_seq:
  "shell_parts acc (a @ CHR '';'' # b) = shell_parts acc a @ shell_parts [] b"
proof (induction acc a rule: shell_parts.induct)
  case (2 acc c s)
  show ?case
  proof (cases "s = []")
    case True
    then show ?thesis by simp
  next
    case False
    then have "hd (s @ CHR '';'' # b) = hd s" "tl (s @ CHR '';'' # b) = tl s @ CHR '';'' # b"
      by simp_all
    note shape = this False
    let ?double = "(c = CHR ''&'' \<or> c = CHR 0x7C) \<and> s \<noteq> [] \<and> hd s = c"
    consider (semicolon) "c = CHR '';''" | (double) "c \<noteq> CHR '';''" "?double"
      | (pipe) "c \<noteq> CHR '';''" "\<not> ?double" "c = CHR 0x7C"
      | (other) "c \<noteq> CHR '';''" "\<not> ?double" "c \<noteq> CHR 0x7C" by blast
    then show ?thesis
    proof cases
      case semicolon
      then show ?thesis using 2(1) by simp
    next
      case double
      then show ?thesis using 2(2) shape by simp
    next
      case pipe
      then show ?thesis using 2(3) shape by simp
    next
      case other
      then show ?thesis using 2(4) shape by auto
    qed
  qed
qed simp

lemma shell_segments_seq:
  "shell_segments (a @ CHR '';'' # b) = shell_segments a @ shell_segments b"
  by (simp add: shell_segments_def shell_parts_seq)

lemma to_ascii_lowercase_append [simp]:
  "to_ascii_lowercase (a @ b) = to_ascii_lowercase a @ to_ascii_lowercase b"
  by (simp add: to_ascii_lowercase_def)

lemma to_ascii_lowercase_seq:
  "to_ascii_lowercase (a @ CHR '';'' # b) = to_ascii_lowercase a @ CHR '';'' # to_ascii_lowercase b"
proof -
  have "to_ascii_lowercase '';'' = '';''" by code_simp
  then have "to_ascii_lowercase (CHR '';'' # b) = CHR '';'' # to_ascii_lowercase b"
    by (simp add: to_ascii_lowercase_def)
  then show ?thesis by simp
qed

lemma contains_any_append:
  "contains_any s ps \<Longrightarrow> contains_any (a @ s @ b) ps"
  unfolding contains_any_def list_ex_iff by (blast intro: str_contains_append)

lemma contains_any_seq:
  assumes "contains_any a ps \<or> contains_any b ps"
  shows "contains_any (a @ CHR '';'' # b) ps"
  using assms
proof
  assume "contains_any a ps"
  from contains_any_append [OF this, of "[]" "CHR '';'' # b"] show ?thesis by simp
next
  assume "contains_any b ps"
  from contains_any_append [OF this, of "a @ '';''" "[]"] show ?thesis by simp
qed

lemma critical_iff:
  "fst (classify_command c) = Critical \<longleftrightarrow>
     contains_any (to_ascii_lowercase c) DESTRUCTIVE_PATTERNS
     \<or> command_invokes_critical_power_verb (to_ascii_lowercase c)"
  by (simp add: classify_command_def Let_def)

lemma power_verb_seq:
  "command_invokes_critical_power_verb (a @ CHR '';'' # b) \<longleftrightarrow>
     command_invokes_critical_power_verb a \<or> command_invokes_critical_power_verb b"
  by (simp add: command_invokes_critical_power_verb_def shell_segments_seq List.map_filter_def)

text \<open>
  A critical command cannot be hidden in a sequence: whatever is put before or after it
  with a semicolon, the whole is still labelled critical; and a sequence is never labelled a
  read when one of its two halves is critical.
\<close>

lemma critical_survives_sequencing:
  assumes "fst (classify_command a) = Critical \<or> fst (classify_command b) = Critical"
  shows "classify_command (a @ '';'' @ b) = (Critical, Mutating)"
proof -
  have "fst (classify_command (a @ CHR '';'' # b)) = Critical"
    using assms contains_any_seq unfolding critical_iff to_ascii_lowercase_seq power_verb_seq by blast
  then show ?thesis by (auto simp: classify_command_def Let_def split: if_splits)
qed

lemma critical_survives_sequencing_witness:
  "classify_command (''uptime'' @ '';'' @ '' sudo -u root /sbin/reboot'') = (Critical, Mutating)"
  by (rule critical_survives_sequencing) code_simp

text \<open>
  Two commands with side effects that are presented as low-risk reads: a sequence of
  listed readers that overwrites a file by redirection, and a command with an embedded
  carriage return, which the terminal takes as Enter.
\<close>

lemma side_effects_labelled_read:
  "classify_command ''date; echo x > /etc/motd'' = (Low, ReadIntent)
   \<and> (\<exists>c. validate_decision fresh
            (CommandProposal \<lparr>cq_command = ''uptime'' @ [CR] @ ''reboot'',
               cq_reason_summary = ''Check'', cq_observation_analysis = None\<rparr>)
          = Ok (VCommandProposal c)
        \<and> CR \<in> set (pc_command c) \<and> pc_risk c = Low \<and> pc_mutability c = ReadIntent)"
proof
  show "classify_command ''date; echo x > /etc/motd'' = (Low, ReadIntent)" by code_simp
  let ?r = "\<lparr>cq_command = ''uptime'' @ [CR] @ ''reboot'', cq_reason_summary = ''Check'',
              cq_observation_analysis = None\<rparr>"
  let ?c = "\<lambda>i. \<lparr>pc_command_id = i, pc_command = ''uptime'' @ [CR] @ ''reboot'',
     pc_reason_summary = ''Check'', pc_observation_analysis = None, pc_risk = Low,
     pc_mutability = ReadIntent\<rparr>"
  have "prepare_command_proposal i ?r = Ok (?c i)" for i by code_simp
  then have "validate_decision fresh (CommandProposal ?r) = Ok (VCommandProposal (?c (fresh 0)))"
    by (simp only: validate_decision_def agent_decision.case result_bind.simps)
  then show "\<exists>c. validate_decision fresh (CommandProposal ?r) = Ok (VCommandProposal c)
        \<and> CR \<in> set (pc_command c) \<and> pc_risk c = Low \<and> pc_mutability c = ReadIntent"
    by (intro exI [of _ "?c (fresh 0)"]) simp
qed

text \<open>Redaction may lengthen a summary past its bound.\<close>

lemma bounded_text_can_grow:
  "bounded_user_text ''TOKEN'' 5 = Some ''TOKEN=[REDACTED]''"
  by code_simp

end
