(* ===== verification/Agent_Approval.thy ===== *)
theory Agent_Approval
  imports Agent_Decision Policy
begin

text \<open>
  Authorization of agent actions (src-tauri/src/agent): the approval record that binds one
  exact action with its validation (approval.rs), the gate that decides whether a tool call
  runs, asks or is blocked (gate.rs), and the boundary that runs an approved command
  (command.rs). SHA-256 with its hexadecimal printing is the parameter \<open>sha\<close>, the derived
  \<open>Debug\<close> rendering of an invocation \<open>debug\<close>, the printing of identifiers \<open>show_uuid\<close>, and the
  terminal is \<open>terminal\<close>.
\<close>

section \<open>Approval records\<close>

datatype approval_request_state = Pending | Granted | Rejected | Invalidated

record approval_request =
  ap_id :: uuid
  ap_run_id :: uuid
  ap_tool_call_id :: uuid
  ap_tool_name :: string
  ap_arguments_hash :: string
  ap_target_ids :: "uuid list"
  ap_risk :: string
  ap_policy_version :: u64
  ap_policy_hash :: string
  ap_precondition_ref :: "string option"
  ap_change_set_id :: "uuid option"
  ap_change_set_version :: "u64 option"
  ap_state :: approval_request_state
  ap_created_at :: u64
  ap_decided_at :: "u64 option"

definition COMMAND_APPROVAL_NAME :: string where
  "COMMAND_APPROVAL_NAME = ''agent.command''"

definition canonical_call :: "(native_tool_invocation \<Rightarrow> string) \<Rightarrow> prepared_tool_call \<Rightarrow> string" where
  "canonical_call debug call = tc_tool_name call @ NL # debug (tc_invocation call)"

definition arguments_hash ::
  "(string \<Rightarrow> string) \<Rightarrow> (native_tool_invocation \<Rightarrow> string) \<Rightarrow> prepared_tool_call \<Rightarrow> string" where
  "arguments_hash sha debug call = sha (canonical_call debug call)"

definition command_hash :: "(string \<Rightarrow> string) \<Rightarrow> prepared_command_proposal \<Rightarrow> string" where
  "command_hash sha command = sha (pc_command command)"

definition command_session_ref :: "(uuid \<Rightarrow> string) \<Rightarrow> uuid \<Rightarrow> string" where
  "command_session_ref show_uuid session_id = ''session:'' @ show_uuid session_id"

definition bind_approval ::
  "(string \<Rightarrow> string) \<Rightarrow> (native_tool_invocation \<Rightarrow> string) \<Rightarrow> uuid \<Rightarrow> u64 \<Rightarrow> uuid \<Rightarrow>
   prepared_tool_call \<Rightarrow> uuid list \<Rightarrow> string \<Rightarrow> u64 \<Rightarrow> string \<Rightarrow> approval_request" where
  "bind_approval sha debug i now run call targets risk policy_version policy_hash =
     \<lparr>ap_id = i, ap_run_id = run, ap_tool_call_id = tc_tool_call_id call,
      ap_tool_name = tc_tool_name call, ap_arguments_hash = arguments_hash sha debug call,
      ap_target_ids = targets, ap_risk = risk, ap_policy_version = policy_version,
      ap_policy_hash = policy_hash, ap_precondition_ref = None, ap_change_set_id = None,
      ap_change_set_version = None, ap_state = Pending, ap_created_at = now, ap_decided_at = None\<rparr>"

definition decide :: "u64 \<Rightarrow> approval_request_state \<Rightarrow> approval_request \<Rightarrow> approval_request" where
  "decide now s a = a\<lparr>ap_state := s, ap_decided_at := Some now\<rparr>"

definition bind_command ::
  "(string \<Rightarrow> string) \<Rightarrow> (uuid \<Rightarrow> string) \<Rightarrow> uuid \<Rightarrow> u64 \<Rightarrow> uuid \<Rightarrow> prepared_command_proposal \<Rightarrow>
   uuid list \<Rightarrow> uuid \<Rightarrow> u64 \<Rightarrow> string \<Rightarrow> approval_request" where
  "bind_command sha show_uuid i now run command targets session_id policy_version policy_hash =
     \<lparr>ap_id = i, ap_run_id = run, ap_tool_call_id = pc_command_id command,
      ap_tool_name = COMMAND_APPROVAL_NAME, ap_arguments_hash = command_hash sha command,
      ap_target_ids = targets, ap_risk = command_risk_str (pc_risk command),
      ap_policy_version = policy_version, ap_policy_hash = policy_hash,
      ap_precondition_ref = Some (command_session_ref show_uuid session_id),
      ap_change_set_id = None, ap_change_set_version = None, ap_state = Pending,
      ap_created_at = now, ap_decided_at = None\<rparr>"

definition bind_change_set ::
  "(uuid \<Rightarrow> string) \<Rightarrow> uuid \<Rightarrow> u64 \<Rightarrow> uuid \<Rightarrow> uuid \<Rightarrow> uuid \<Rightarrow> u64 \<Rightarrow> string \<Rightarrow> uuid list \<Rightarrow>
   string \<Rightarrow> u64 \<Rightarrow> string \<Rightarrow> string option \<Rightarrow> approval_request" where
  "bind_change_set show_uuid i now run proposal_id change_set_id version title targets risk
     policy_version policy_hash precondition =
     \<lparr>ap_id = i, ap_run_id = run, ap_tool_call_id = proposal_id, ap_tool_name = title,
      ap_arguments_hash =
        ''changeset:'' @ show_uuid change_set_id @ '':'' @ nat_digits (unat version),
      ap_target_ids = targets, ap_risk = risk, ap_policy_version = policy_version,
      ap_policy_hash = policy_hash, ap_precondition_ref = precondition,
      ap_change_set_id = Some change_set_id, ap_change_set_version = Some version,
      ap_state = Pending, ap_created_at = now, ap_decided_at = None\<rparr>"

definition is_change_set :: "approval_request \<Rightarrow> bool" where
  "is_change_set a \<longleftrightarrow> ap_change_set_id a \<noteq> None"

definition is_command :: "approval_request \<Rightarrow> bool" where
  "is_command a \<longleftrightarrow> ap_change_set_id a = None \<and> ap_tool_name a = COMMAND_APPROVAL_NAME"

datatype approval_invalidation_reason =
    NotPending
  | ToolCallMismatch
  | ArgumentsChanged
  | TargetsChanged
  | SessionChanged
  | PolicyChanged

fun reason_code :: "approval_invalidation_reason \<Rightarrow> string" where
  "reason_code NotPending = ''APPROVAL_NOT_PENDING''"
| "reason_code ToolCallMismatch = ''APPROVAL_ARGUMENTS_CHANGED''"
| "reason_code ArgumentsChanged = ''APPROVAL_ARGUMENTS_CHANGED''"
| "reason_code TargetsChanged = ''APPROVAL_TARGETS_CHANGED''"
| "reason_code SessionChanged = ''APPROVAL_SESSION_CHANGED''"
| "reason_code PolicyChanged = ''APPROVAL_POLICY_CHANGED''"

section \<open>Validation of a pending approval\<close>

definition validate_pending_change_set_approval ::
  "approval_request \<Rightarrow> uuid \<Rightarrow> u64 \<Rightarrow> uuid list \<Rightarrow> bool \<Rightarrow> (unit, approval_invalidation_reason) result"
  where
  "validate_pending_change_set_approval a change_set_id version targets policy_matches =
     (if ap_state a \<noteq> Pending then Err NotPending
      else if ap_change_set_id a \<noteq> Some change_set_id \<or> ap_change_set_version a \<noteq> Some version
        then Err ArgumentsChanged
      else if ap_target_ids a \<noteq> targets then Err TargetsChanged
      else if \<not> policy_matches then Err PolicyChanged
      else Ok ())"

definition validate_pending_approval ::
  "(string \<Rightarrow> string) \<Rightarrow> (native_tool_invocation \<Rightarrow> string) \<Rightarrow> approval_request \<Rightarrow>
   prepared_tool_call \<Rightarrow> uuid list \<Rightarrow> bool \<Rightarrow> (unit, approval_invalidation_reason) result" where
  "validate_pending_approval sha debug a call targets policy_matches =
     (if ap_state a \<noteq> Pending then Err NotPending
      else if ap_tool_call_id a \<noteq> tc_tool_call_id call then Err ToolCallMismatch
      else if ap_arguments_hash a \<noteq> arguments_hash sha debug call then Err ArgumentsChanged
      else if ap_target_ids a \<noteq> targets then Err TargetsChanged
      else if \<not> policy_matches then Err PolicyChanged
      else Ok ())"

definition validate_pending_command_approval ::
  "(string \<Rightarrow> string) \<Rightarrow> (uuid \<Rightarrow> string) \<Rightarrow> approval_request \<Rightarrow> prepared_command_proposal \<Rightarrow>
   uuid list \<Rightarrow> uuid \<Rightarrow> bool \<Rightarrow> (unit, approval_invalidation_reason) result" where
  "validate_pending_command_approval sha show_uuid a command targets session_id policy_matches =
     (if ap_state a \<noteq> Pending then Err NotPending
      else if \<not> is_command a \<or> ap_tool_call_id a \<noteq> pc_command_id command
        then Err ToolCallMismatch
      else if ap_arguments_hash a \<noteq> command_hash sha command then Err ArgumentsChanged
      else if ap_target_ids a \<noteq> targets then Err TargetsChanged
      else if ap_precondition_ref a \<noteq> Some (command_session_ref show_uuid session_id)
        then Err SessionChanged
      else if \<not> policy_matches then Err PolicyChanged
      else Ok ())"

section \<open>The gate\<close>

datatype authorization =
    Auto
  | AskApproval string u64 string
  | BlockedBy string

datatype command_authorization = CommandAskApproval string u64 string | CommandBlocked string

definition authorize_command :: "prepared_command_proposal \<Rightarrow> command_authorization" where
  "authorize_command command =
     CommandAskApproval (command_risk_str (pc_risk command)) 1 ''runtime-command-policy-v1''"

definition live_policy_matches :: "agent_policy_service \<Rightarrow> u64 \<Rightarrow> string \<Rightarrow> bool" where
  "live_policy_matches service policy_version policy_hash =
     current_matches service
       \<lparr>sn_policy_version = policy_version, sn_policy_hash = policy_hash, sn_decision = Allow,
        sn_matched_rule_ids = []\<rparr>"

definition gate_request :: "uuid \<Rightarrow> tool_descriptor \<Rightarrow> policy_evaluation_request" where
  "gate_request server_id d =
     \<lparr>rq_target = \<lparr>pt_server_id = server_id, pt_group_id = None, pt_environment = None\<rparr>,
      rq_tool = td_name d, rq_risk_level = td_risk_level d,
      rq_resource_impact = td_resource_impact d, rq_target_count = 1,
      rq_execution_strategy = Sequential, rq_source = AgentRuntime\<rparr>"

definition authorize ::
  "uuid \<Rightarrow> u64 \<Rightarrow> persist_steps \<Rightarrow> uuid \<Rightarrow> prepared_tool_call \<Rightarrow> agent_policy_service \<Rightarrow>
   authorization \<times> agent_policy_service" where
  "authorize i now w server_id call service =
     (case find (\<lambda>d. tool_as_str (td_name d) = tc_tool_name call) native_descriptors of
        None \<Rightarrow> (BlockedBy ''AGENT_POLICY_DENIED'', service)
      | Some d \<Rightarrow>
          (case policy_service_evaluate i now w (gate_request server_id d) service of
             (Ok e, service') \<Rightarrow>
               (case pe_decision e of
                  Allow \<Rightarrow> Auto
                | RequireApproval \<Rightarrow>
                    AskApproval (risk_debug (td_risk_level d)) (pe_policy_version e) (pe_policy_hash e)
                | RequireStepApproval \<Rightarrow>
                    AskApproval (risk_debug (td_risk_level d)) (pe_policy_version e) (pe_policy_hash e)
                | Deny \<Rightarrow> BlockedBy ''AGENT_POLICY_DENIED'', service')
           | (Err error, service') \<Rightarrow> (BlockedBy (app_error_code error), service')
           | (Panic, service') \<Rightarrow> (BlockedBy [], service')))"

section \<open>Running an approved command\<close>

definition OBSERVATION_TEXT_LIMIT :: nat where "OBSERVATION_TEXT_LIMIT = 65536"

record command_outcome =
  co_command_id :: uuid
  co_success :: bool
  co_exit_code :: "u32 option"
  co_stdout :: string
  co_stderr :: string
  co_error_code :: "string option"
  co_duration_ms :: u64
  co_cancelled :: bool

definition command_failure :: "uuid \<Rightarrow> string \<Rightarrow> command_outcome" where
  "command_failure i code =
     \<lparr>co_command_id = i, co_success = False, co_exit_code = None, co_stdout = [], co_stderr = [],
      co_error_code = Some code, co_duration_ms = 0, co_cancelled = False\<rparr>"

definition MONTHS :: "string list" where
  "MONTHS = [''Jan'', ''Feb'', ''Mar'', ''Apr'', ''May'', ''Jun'', ''Jul'', ''Aug'', ''Sep'',
             ''Oct'', ''Nov'', ''Dec'']"

definition nth_word :: "string list \<Rightarrow> nat \<Rightarrow> string" where
  "nth_word ws n = (if n < length ws then ws ! n else [])"

definition line_starts_with_syslog_timestamp :: "string \<Rightarrow> bool" where
  "line_starts_with_syslog_timestamp line \<longleftrightarrow>
     (let ws = split_whitespace line in
      if nth_word ws 0 \<in> set MONTHS \<and> list_all is_ascii_digit (nth_word ws 1)
         \<and> CHR '':'' \<in> set (nth_word ws 2)
      then True
      else let head = take_chars 10 line in
        length head = 10 \<and> head ! 4 = CHR ''-'' \<and> head ! 7 = CHR ''-''
        \<and> list_all is_ascii_digit (filter (\<lambda>c. c \<noteq> CHR ''-'') head))"

definition looks_like_log_or_service_line :: "string \<Rightarrow> bool" where
  "looks_like_log_or_service_line line \<longleftrightarrow>
     contains_any (to_ascii_lowercase line)
       [''sshd['', ''systemd['', ''kernel:'', '' cron['', ''sudo['', '' failed password'',
        '' invalid user '']
     \<or> line_starts_with_syslog_timestamp line"

fun split_once :: "char \<Rightarrow> string \<Rightarrow> (string \<times> string) option" where
  "split_once d [] = None"
| "split_once d (c # s) =
     (if c = d then Some ([], s) else map_option (\<lambda>(a, b). (c # a, b)) (split_once d s))"

definition line_looks_like_shell_failure :: "string \<Rightarrow> bool" where
  "line_looks_like_shell_failure line \<longleftrightarrow>
     (let trimmed = trim line in
      if trimmed = [] \<or> looks_like_log_or_service_line trimmed then False
      else let lower = to_ascii_lowercase trimmed in
        if contains_any lower [''cannot be installed without'', ''command not found'', ''syntax error'']
          then True
        else if \<not> contains_any lower [''no such file or directory'', ''permission denied'',
                                     ''operation not permitted'']
          then False
        else if (case split_once (CHR '':'') trimmed of
                   Some (head, rest) \<Rightarrow>
                     (let head = trim head
                      in head \<noteq> [] \<and> length head \<le> 64 \<and> CHR '' '' \<notin> set head \<and> trim rest \<noteq> [])
                 | None \<Rightarrow> False)
          then True
        else lower = ''permission denied'' \<or> lower = ''operation not permitted''
          \<or> starts_with lower ''permission denied:'' \<or> starts_with lower ''operation not permitted:'')"

definition looks_like_shell_failure :: "string \<Rightarrow> bool" where
  "looks_like_shell_failure value \<longleftrightarrow> list_ex line_looks_like_shell_failure (str_lines value)"

definition bounded_output :: "string \<Rightarrow> string" where
  "bounded_output value = take_chars OBSERVATION_TEXT_LIMIT value"

text \<open>
  \<open>terminal\<close> is what the race in \<open>select!\<close> gave: \<open>None\<close> when the cancellation won, otherwise
  the output with its time-out flag or an error.
\<close>

definition execute_command ::
  "bool \<Rightarrow> (uuid, app_error) result \<Rightarrow> (string \<times> bool, app_error) result option \<Rightarrow> u64 \<Rightarrow> uuid \<Rightarrow>
   prepared_command_proposal \<Rightarrow> command_outcome" where
  "execute_command already_cancelled session_profile terminal duration target_id command =
     (if already_cancelled
      then (command_failure (pc_command_id command) ''COMMAND_CANCELLED'')\<lparr>co_cancelled := True\<rparr>
      else if session_profile \<noteq> Ok target_id
        then command_failure (pc_command_id command) ''COMMAND_TARGET_MISMATCH''
      else case terminal of
          None \<Rightarrow> (command_failure (pc_command_id command) ''COMMAND_CANCELLED'')
                    \<lparr>co_duration_ms := duration, co_cancelled := True\<rparr>
        | Some (Ok (raw, timed_out)) \<Rightarrow>
            (let output = fst (redact_secrets raw);
                 success = (\<not> timed_out \<and> \<not> looks_like_shell_failure output)
             in \<lparr>co_command_id = pc_command_id command, co_success = success, co_exit_code = None,
                 co_stdout = bounded_output output, co_stderr = [],
                 co_error_code = (if timed_out then Some ''COMMAND_TERMINAL_TIMEOUT''
                                  else if success then None else Some ''COMMAND_EXIT_NON_ZERO''),
                 co_duration_ms = duration, co_cancelled = False\<rparr>)
        | Some (Err error) \<Rightarrow>
            (command_failure (pc_command_id command) (app_error_code error))
              \<lparr>co_duration_ms := duration\<rparr>
        | Some Panic \<Rightarrow> command_failure (pc_command_id command) [])"

section \<open>The policy behind the gate\<close>

text \<open>
  What the gate needs of a policy source: an evaluation that is returned is the engine's
  verdict on the rules in force, and evaluating does not change those rules.
\<close>

locale policy_source =
  fixes evaluate :: "'c \<Rightarrow> policy_evaluation_request \<Rightarrow> 's \<Rightarrow>
      (policy_evaluation, app_error) result \<times> 's"
    and rules_of :: "'s \<Rightarrow> policy_set"
  assumes rules_kept: "evaluate c rq s = (r, s') \<Longrightarrow> rules_of s' = rules_of s"
    and verdict: "evaluate c rq s = (Ok e, s') \<Longrightarrow> e = policy_evaluate (rules_of s) rq"
begin

lemma identity_of_verdict:
  "evaluate c rq s = (Ok e, s') \<Longrightarrow>
     pe_policy_version e = ps_policy_version (rules_of s')
     \<and> pe_policy_hash e = ps_policy_hash (rules_of s')"
  using rules_kept verdict by fastforce

lemma verdict_repeats:
  "evaluate c rq s = (Ok e, s') \<Longrightarrow> evaluate c' rq s' = (Ok e', s'') \<Longrightarrow> e' = e"
  using rules_kept verdict by metis

end

interpretation live_policy: policy_source
  "\<lambda>(i, now, w). policy_service_evaluate i now w" sv_set
proof
  fix c :: "uuid \<times> u64 \<times> persist_steps" and rq s r s' and e :: policy_evaluation
  obtain i now w where c: "c = (i, now, w)" by (metis prod_cases3)
  show "(case c of (i, now, w) \<Rightarrow> policy_service_evaluate i now w) rq s = (r, s') \<Longrightarrow>
      sv_set s' = sv_set s"
    using policy_service_evaluate_cases by (simp add: c)
  show "(case c of (i, now, w) \<Rightarrow> policy_service_evaluate i now w) rq s = (Ok e, s') \<Longrightarrow>
      e = policy_evaluate (sv_set s) rq"
    using policy_service_evaluate_cases by (fastforce simp: c)
qed

lemma tool_as_str_distinct: "distinct (map tool_as_str ALL_TOOLS)"
  by (simp add: ALL_TOOLS_def)

lemma tool_as_str_inj: "tool_as_str a = tool_as_str b \<Longrightarrow> a = b"
  using tool_as_str_distinct all_tools_complete by (auto simp: distinct_map inj_on_def)

lemma descriptor_by_string:
  assumes "name = tool_as_str n"
  shows "\<exists>d. find (\<lambda>d. tool_as_str (td_name d) = name) native_descriptors = Some d
    \<and> d \<in> set native_descriptors \<and> td_name d = n"
proof -
  have inj: "tool_as_str a = tool_as_str n \<Longrightarrow> a = n" for a
    by (rule tool_as_str_inj)
  obtain d0 where d0: "d0 \<in> set native_descriptors" "td_name d0 = n"
    using find_descriptor by blast
  then have "find (\<lambda>d. tool_as_str (td_name d) = name) native_descriptors \<noteq> None"
    using assms by (auto simp: find_None_set)
  then obtain d where d: "find (\<lambda>d. tool_as_str (td_name d) = name) native_descriptors = Some d"
    by blast
  from find_Some_set [OF d] assms inj show ?thesis using d by blast
qed

text \<open>
  C25. The gate follows the policy: a validated call runs without a question only when the
  rules in force allow it, it asks exactly when they ask, with the descriptor's own risk and
  an identity the live policy matches, it is blocked whenever they deny, and deciding leaves
  the rules unchanged.
\<close>

theorem gate_follows_policy:
  assumes "tool_call_ok call" and "authorize i now w server_id call service = (auth, service')"
  shows "\<exists>d \<in> set native_descriptors. td_name d = invocation_name (tc_invocation call)
    \<and> (let decision = pe_decision (policy_evaluate (sv_set service) (gate_request server_id d)) in
       (auth = Auto \<longrightarrow> decision = Allow)
       \<and> (\<forall>risk v h. auth = AskApproval risk v h \<longrightarrow>
            decision \<in> {RequireApproval, RequireStepApproval}
            \<and> risk = risk_debug (td_risk_level d) \<and> live_policy_matches service' v h)
       \<and> (decision = Deny \<longrightarrow> (\<exists>reason. auth = BlockedBy reason)))
    \<and> sv_set service' = sv_set service"
proof -
  have "tc_tool_name call = tool_as_str (invocation_name (tc_invocation call))"
    using assms(1) by (simp add: tool_call_ok_def Let_def)
  from descriptor_by_string [OF this] obtain d where
    d: "find (\<lambda>d. tool_as_str (td_name d) = tc_tool_name call) native_descriptors = Some d"
      "d \<in> set native_descriptors" "td_name d = invocation_name (tc_invocation call)" by blast
  obtain r s' where ev: "policy_service_evaluate i now w (gate_request server_id d) service = (r, s')"
    by (metis surj_pair)
  from policy_service_evaluate_cases [OF ev] have "sv_set s' = sv_set service"
    "\<And>e. r = Ok e \<Longrightarrow> e = policy_evaluate (sv_set service) (gate_request server_id d)" by auto
  with assms(2) d ev show ?thesis
    by (intro bexI [of _ d])
      (cases r; auto simp: authorize_def Let_def live_policy_matches_def current_matches_def
        split: policy_decision.splits)+
qed

lemma gate_follows_policy_witness:
  "\<exists>auth service'. authorize 1 0 all_steps_ok 7
       \<lparr>tc_tool_call_id = 3, tc_tool_name = ''docker.list'', tc_reason_summary = ''x'',
        tc_invocation = InvDockerList\<rparr>
       (policy_service_new (\<lambda>_. []) default_policy) = (auth, service')
     \<and> sv_set service' = seal (\<lambda>_. []) default_policy"
proof -
  let ?call = "\<lparr>tc_tool_call_id = 3, tc_tool_name = ''docker.list'', tc_reason_summary = ''x'',
        tc_invocation = InvDockerList\<rparr>"
  have "tool_call_ok ?call" by (simp add: tool_call_ok_def READ_ONLY_def)
  moreover obtain auth service' where
    "authorize 1 0 all_steps_ok 7 ?call (policy_service_new (\<lambda>_. []) default_policy) = (auth, service')"
    by (metis surj_pair)
  ultimately show ?thesis using gate_follows_policy by (fastforce simp: policy_service_new_def)
qed

lemma fst_case_result:
  "fst (case p of (Ok e, s) \<Rightarrow> (f e, s) | (Err e, s) \<Rightarrow> (g e, s) | (Panic, s) \<Rightarrow> (k, s))
     = (case fst p of Ok e \<Rightarrow> f e | Err e \<Rightarrow> g e | Panic \<Rightarrow> k)"
  by (cases p; cases "fst p") auto

text \<open>Rules whose scope names an environment or a group.\<close>

fun placed_scope :: "policy_scope \<Rightarrow> bool" where
  "placed_scope (Environment _) = True"
| "placed_scope (Group _) = True"
| "placed_scope _ = False"

definition drop_placed_rules :: "policy_set \<Rightarrow> policy_set" where
  "drop_placed_rules s = s\<lparr>ps_rules := filter (\<lambda>r. \<not> placed_scope (pr_scope r)) (ps_rules s)\<rparr>"

lemma gate_request_placed:
  "placed_scope (pr_scope r) \<Longrightarrow> \<not> matches_rule r (gate_request server_id d)"
  by (cases "pr_scope r") (auto simp: matches_rule_def gate_request_def)

lemma gate_evaluation_ignores_placed:
  "policy_evaluate (drop_placed_rules s) (gate_request server_id d)
     = policy_evaluate s (gate_request server_id d)"
proof -
  have "matching_rules (drop_placed_rules s) (gate_request server_id d)
      = matching_rules s (gate_request server_id d)"
    using gate_request_placed
    by (auto simp: matching_rules_def drop_placed_rules_def intro!: arg_cong [where f = "sort_key rule_key"]
        filter_cong)
  then show ?thesis by (simp add: policy_evaluate_def drop_placed_rules_def)
qed

text \<open>
  The gate builds its policy target without the server's group and environment, so no
  rule scoped to an environment or a group can influence it: dropping all such rules, the
  production denials among them, leaves every authorization as it is.
\<close>

lemma gate_ignores_placed_rules:
  "fst (authorize i now w server_id call (service\<lparr>sv_set := drop_placed_rules (sv_set service)\<rparr>))
     = fst (authorize i now w server_id call service)"
proof -
  have "fst (policy_service_evaluate i now w (gate_request server_id d)
            (service\<lparr>sv_set := drop_placed_rules (sv_set service)\<rparr>))
      = fst (policy_service_evaluate i now w (gate_request server_id d) service)" for d
    by (simp add: policy_service_evaluate_def gate_evaluation_ignores_placed Let_def
        split: option.split prod.split result.split)
  then show ?thesis
    by (simp add: authorize_def fst_case_result split: option.split)
qed

section \<open>Exact binding\<close>

lemma tool_as_str_no_newline: "NL \<notin> set (tool_as_str n)"
  by (cases n) (simp_all add: NL_def)

lemma split_at_newline:
  "NL \<notin> set a \<Longrightarrow> NL \<notin> set b \<Longrightarrow> a @ NL # x = b @ NL # y \<Longrightarrow> a = b \<and> x = y"
proof (induction a arbitrary: b)
  case Nil
  then show ?case by (cases b) auto
next
  case (Cons c a)
  then show ?case by (cases b) auto
qed

text \<open>
  C23. An approval authorizes exactly the action it was bound to. When validation of a bound
  approval succeeds against a call and the live policy, the call has the bound identity, tool
  and typed arguments, the targets are the bound ones and the policy in force is the one the
  user saw. The hash is assumed not to collide on the two calls compared, and the debug
  rendering to tell their invocations apart.
\<close>

theorem approval_authorizes_exact_action:
  assumes "validate_pending_approval sha debug
      (bind_approval sha debug i now run c0 targets0 risk v h) c targets
      (live_policy_matches service v h) = Ok ()"
    and "sha (canonical_call debug c0) = sha (canonical_call debug c) \<Longrightarrow>
      canonical_call debug c0 = canonical_call debug c"
    and "debug (tc_invocation c0) = debug (tc_invocation c) \<Longrightarrow> tc_invocation c0 = tc_invocation c"
    and "tool_call_ok c0" and "tool_call_ok c"
  shows "tc_tool_call_id c = tc_tool_call_id c0 \<and> tc_tool_name c = tc_tool_name c0
    \<and> tc_invocation c = tc_invocation c0 \<and> targets = targets0
    \<and> command_approval_identity service = (v, h)"
proof -
  from assms(1) have same: "tc_tool_call_id c = tc_tool_call_id c0" "targets = targets0"
    "sha (canonical_call debug c0) = sha (canonical_call debug c)"
    "live_policy_matches service v h"
    by (auto simp: validate_pending_approval_def bind_approval_def arguments_hash_def split: if_splits)
  from assms(2) [OF same(3)]
  have "tc_tool_name c0 @ NL # debug (tc_invocation c0) = tc_tool_name c @ NL # debug (tc_invocation c)"
    by (simp add: canonical_call_def)
  moreover have "NL \<notin> set (tc_tool_name c0)" "NL \<notin> set (tc_tool_name c)"
    using assms(4,5) tool_as_str_no_newline by (simp_all add: tool_call_ok_def Let_def)
  ultimately have "tc_tool_name c0 = tc_tool_name c" "tc_invocation c0 = tc_invocation c"
    using split_at_newline assms(3) by blast+
  with same show ?thesis
    by (simp add: live_policy_matches_def current_matches_def command_approval_identity_def)
qed

lemma approval_authorizes_exact_action_witness:
  "let c = \<lparr>tc_tool_call_id = 3, tc_tool_name = ''docker.list'', tc_reason_summary = ''x'',
            tc_invocation = InvDockerList\<rparr>
   in command_approval_identity (policy_service_new (\<lambda>_. ''h'') default_policy) = (1, ''h'')"
proof -
  let ?c = "\<lparr>tc_tool_call_id = 3, tc_tool_name = ''docker.list'', tc_reason_summary = ''x'',
             tc_invocation = InvDockerList\<rparr>"
  have "tool_call_ok ?c" by (simp add: tool_call_ok_def READ_ONLY_def)
  from approval_authorizes_exact_action [where sha = "\<lambda>s. s" and debug = "\<lambda>_. ''d''" and c = ?c
      and c0 = ?c and i = 1 and now = 0 and run = 2 and targets = "[5]" and targets0 = "[5]"
      and risk = "''R1''" and v = 1 and h = "''h''"
      and service = "policy_service_new (\<lambda>_. ''h'') default_policy", OF _ _ _ this this]
  show ?thesis
    by (simp add: validate_pending_approval_def bind_approval_def arguments_hash_def Let_def
        live_policy_matches_def current_matches_def policy_service_new_def seal_def default_policy_def)
qed

text \<open>
  C24. An approval that was decided never authorizes again, whatever its kind; and the kinds
  do not mix: neither the approval of a tool call nor that of a change set can authorize a
  shell command.
\<close>

theorem approvals_are_single_use:
  assumes "st \<noteq> Pending" and "tool_call_ok c0"
  shows "validate_pending_approval sha debug (decide now st a) call targets m = Err NotPending
    \<and> validate_pending_command_approval sha show_uuid (decide now st a) command targets session m
        = Err NotPending
    \<and> validate_pending_change_set_approval (decide now st a) cs version targets m = Err NotPending
    \<and> validate_pending_command_approval sha show_uuid
        (bind_approval sha debug i now run c0 targets0 risk v h) command targets session m
        = Err ToolCallMismatch
    \<and> validate_pending_command_approval sha show_uuid
        (bind_change_set show_uuid i now run p cs version title targets0 risk v h pre) command targets
        session m
        = Err ToolCallMismatch"
proof -
  have "tool_as_str n \<noteq> COMMAND_APPROVAL_NAME" for n
    by (cases n) (simp_all add: COMMAND_APPROVAL_NAME_def)
  then have "tc_tool_name c0 \<noteq> COMMAND_APPROVAL_NAME"
    using assms(2) by (simp add: tool_call_ok_def Let_def)
  then show ?thesis
    using assms(1)
    by (simp add: validate_pending_approval_def validate_pending_command_approval_def
        validate_pending_change_set_approval_def decide_def bind_approval_def bind_change_set_def
        is_command_def)
qed

lemma approvals_are_single_use_witness:
  "validate_pending_change_set_approval
     (decide 9 Granted (bind_change_set (\<lambda>_. []) 1 0 2 3 4 1 ''t'' [] ''R3'' 1 [] None)) 4 1 [] True
   = Err NotPending"
proof -
  have "tool_call_ok \<lparr>tc_tool_call_id = 3, tc_tool_name = ''docker.list'', tc_reason_summary = ''x'',
             tc_invocation = InvDockerList\<rparr>" by (simp add: tool_call_ok_def READ_ONLY_def)
  from approvals_are_single_use [OF _ this, of Granted] show ?thesis by simp
qed

end
