(* ===== verification/Plugin_Permissions.thy ===== *)
theory Plugin_Permissions
  imports Tools_Contract Storage
begin

text \<open>
  Plugin permissions (src-tauri/src/plugins/permissions): the capabilities and what each
  workflow action requires (capability.rs, policy.rs), the permission service over the grant
  table with its cache (grant.rs, service.rs, registry/repository.rs), and the bridge that
  holds a planned change against the core's tool policy (tool\_policy\_bridge.rs). The table
  keeps the hosts as JSON text; the model keeps the list that text encodes, or \<open>None\<close> for a
  text that is no list of strings. Rows come back in table order: the query asks for no
  order, and every reader of the grants only asks whether one of them covers a request.
\<close>

section \<open>Capabilities\<close>

datatype plugin_capability =
    HostRead
  | HostMetadataRead
  | SshExec
  | SshExecSudo
  | SshShell
  | RemoteFsRead
  | RemoteFsWrite
  | RemoteFsUpload
  | RemoteFsDelete
  | SecretReference
  | NetworkHttps

fun capability_str :: "plugin_capability \<Rightarrow> string" where
  "capability_str HostRead = ''host.read''"
| "capability_str HostMetadataRead = ''host.metadata.read''"
| "capability_str SshExec = ''ssh.exec''"
| "capability_str SshExecSudo = ''ssh.exec.sudo''"
| "capability_str SshShell = ''ssh.shell''"
| "capability_str RemoteFsRead = ''remote.fs.read''"
| "capability_str RemoteFsWrite = ''remote.fs.write''"
| "capability_str RemoteFsUpload = ''remote.fs.upload''"
| "capability_str RemoteFsDelete = ''remote.fs.delete''"
| "capability_str SecretReference = ''secret.reference''"
| "capability_str NetworkHttps = ''network.https''"

definition parse_capability :: "string \<Rightarrow> (plugin_capability, string) result" where
  "parse_capability value =
     (if value = ''host.read'' then Ok HostRead
      else if value = ''host.metadata.read'' then Ok HostMetadataRead
      else if value = ''ssh.exec'' then Ok SshExec
      else if value = ''ssh.exec.sudo'' then Ok SshExecSudo
      else if value = ''ssh.shell'' then Ok SshShell
      else if value = ''remote.fs.read'' then Ok RemoteFsRead
      else if value = ''remote.fs.write'' then Ok RemoteFsWrite
      else if value = ''remote.fs.upload'' then Ok RemoteFsUpload
      else if value = ''remote.fs.delete'' then Ok RemoteFsDelete
      else if value = ''secret.reference'' then Ok SecretReference
      else if value = ''network.https'' then Ok NetworkHttps
      else Err (''unknown permission: '' @ value))"

definition action_capabilities :: "string \<Rightarrow> plugin_capability list option" where
  "action_capabilities action_id =
     (if action_id \<in> set [''system.detect'', ''system.command_exists'', ''system.disk'',
                         ''system.memory'', ''network.tcp_check'', ''http.check'']
        then Some [HostRead]
      else if action_id = ''system.preflight_report'' then Some [HostRead, SshExec]
      else if action_id = ''python.detect'' then Some [HostRead, SshExec]
      else if action_id \<in> set [''ssh.command'', ''git.clone'', ''git.rev_parse'', ''git.fetch'',
                              ''git.checkout'', ''python.venv'', ''python.pip.install'',
                              ''database.migration'', ''systemd.status'']
        then Some [SshExec]
      else if action_id = ''changeset.checkpoint'' then Some [SshExec, RemoteFsRead]
      else if action_id = ''ssh.shell'' then Some [SshShell]
      else if action_id = ''remote.fs.read'' then Some [RemoteFsRead]
      else if action_id \<in> set [''remote.fs.write'', ''remote.fs.mkdir'', ''remote.fs.symlink'',
                              ''template.render'']
        then Some [RemoteFsWrite]
      else if action_id = ''remote.fs.write_env'' then Some [RemoteFsWrite]
      else if action_id = ''remote.fs.upload'' then Some [RemoteFsUpload]
      else if action_id = ''remote.fs.remove'' then Some [RemoteFsDelete]
      else if action_id = ''systemd.install'' then Some [RemoteFsWrite, SshExecSudo]
      else if action_id = ''release.activate''
        then Some [RemoteFsWrite, SshExec, SshExecSudo, HostRead]
      else if action_id \<in> set [''systemd.daemon_reload'', ''systemd.enable'', ''systemd.restart'',
                              ''systemd.reload'', ''nginx.test'', ''nginx.reload'']
        then Some [SshExec, SshExecSudo]
      else None)"

definition action_required_capabilities ::
  "string \<Rightarrow> bool \<Rightarrow> (plugin_capability list, string) result" where
  "action_required_capabilities action_id uses_sudo =
     (case action_capabilities action_id of
        None \<Rightarrow> Err (''unknown action: '' @ action_id)
      | Some caps \<Rightarrow>
          Ok (if action_id = ''ssh.command'' \<and> uses_sudo then caps @ [SshExecSudo] else caps))"

section \<open>The grant table and the permission service\<close>

record permission_grant =
  pg_plugin_id :: string
  pg_capability :: plugin_capability
  pg_granted :: bool
  pg_hosts :: "string list"

record permission_row =
  pw_plugin_id :: string
  pw_permission :: string
  pw_granted :: int
  pw_hosts :: "string list option"

definition permission_row_of :: "string \<Rightarrow> permission_grant \<Rightarrow> permission_row" where
  "permission_row_of plugin_id g =
     \<lparr>pw_plugin_id = plugin_id, pw_permission = capability_str (pg_capability g),
      pw_granted = (if pg_granted g then 1 else 0), pw_hosts = Some (pg_hosts g)\<rparr>"

definition permission_key :: "permission_row \<Rightarrow> string \<times> string" where
  "permission_key r = (pw_plugin_id r, pw_permission r)"

text \<open>
  \<open>replace_permissions\<close>: the rows of one plugin are deleted and rewritten in a transaction;
  the table's primary key is (plugin, permission), and \<open>db_ok\<close> is whether the engine
  otherwise carried the statements out.
\<close>

definition replace_permissions ::
  "bool \<Rightarrow> string \<Rightarrow> permission_grant list \<Rightarrow> permission_row list \<Rightarrow>
   (unit, plugin_error) result \<times> permission_row list" where
  "replace_permissions db_ok plugin_id grants table =
     (case insert_rows permission_key (map (permission_row_of plugin_id) grants)
             (filter (\<lambda>r. pw_plugin_id r \<noteq> plugin_id) table) of
        Ok table' \<Rightarrow> if db_ok then (Ok (), table') else (Err Storage_p, table)
      | _ \<Rightarrow> (Err Storage_p, table))"

definition grant_of_row :: "string \<Rightarrow> permission_row \<Rightarrow> (permission_grant, plugin_error) result" where
  "grant_of_row plugin_id row =
     result_bind (map_err (\<lambda>_. Storage_p) (parse_capability (pw_permission row))) (\<lambda>capability.
     result_bind (ok_or Storage_p (pw_hosts row)) (\<lambda>hosts.
       Ok \<lparr>pg_plugin_id = plugin_id, pg_capability = capability,
           pg_granted = (pw_granted row \<noteq> 0), pg_hosts = hosts\<rparr>))"

definition list_permissions ::
  "string \<Rightarrow> permission_row list \<Rightarrow> (permission_grant list, plugin_error) result" where
  "list_permissions plugin_id table =
     try_map (grant_of_row plugin_id) (filter (\<lambda>r. pw_plugin_id r = plugin_id) table)"

record permission_service =
  pv_repository :: "permission_row list"
  pv_cache :: "string \<rightharpoonup> permission_grant list"

definition load_plugin ::
  "string \<Rightarrow> permission_service \<Rightarrow> (unit, plugin_error) result \<times> permission_service" where
  "load_plugin plugin_id s =
     (case list_permissions plugin_id (pv_repository s) of
        Ok grants \<Rightarrow> (Ok (), s\<lparr>pv_cache := (pv_cache s)(plugin_id \<mapsto> grants)\<rparr>)
      | Err e \<Rightarrow> (Err e, s)
      | Panic \<Rightarrow> (Panic, s))"

definition set_grants ::
  "bool \<Rightarrow> string \<Rightarrow> permission_grant list \<Rightarrow> permission_service \<Rightarrow>
   (unit, plugin_error) result \<times> permission_service" where
  "set_grants db_ok plugin_id grants s =
     (case replace_permissions db_ok plugin_id grants (pv_repository s) of
        (Ok u, table) \<Rightarrow>
          (Ok (), s\<lparr>pv_repository := table, pv_cache := (pv_cache s)(plugin_id \<mapsto> grants)\<rparr>)
      | (r, table) \<Rightarrow> (r, s\<lparr>pv_repository := table\<rparr>))"

definition require_cached ::
  "string \<Rightarrow> plugin_capability \<Rightarrow> permission_service \<Rightarrow> (unit, plugin_error) result" where
  "require_cached plugin_id capability s =
     (case pv_cache s plugin_id of
        None \<Rightarrow> Err (PermissionDenied
                  (''no grants loaded for '' @ plugin_id @ '' ('' @ capability_str capability @ '')''))
      | Some grants \<Rightarrow>
          if list_ex (\<lambda>g. pg_capability g = capability \<and> pg_granted g) grants then Ok ()
          else Err (PermissionDenied (capability_str capability)))"

definition clear_plugin :: "string \<Rightarrow> permission_service \<Rightarrow> permission_service" where
  "clear_plugin plugin_id s = s\<lparr>pv_cache := (pv_cache s)(plugin_id := None)\<rparr>"

definition grant_covers :: "plugin_capability \<Rightarrow> string option \<Rightarrow> permission_grant \<Rightarrow> bool" where
  "grant_covers capability host_id g \<longleftrightarrow>
     pg_capability g = capability \<and> pg_granted g
     \<and> (pg_hosts g = [] \<or> (case host_id of Some h \<Rightarrow> h \<in> set (pg_hosts g) | None \<Rightarrow> False))"

definition require_for_host ::
  "string \<Rightarrow> plugin_capability \<Rightarrow> string option \<Rightarrow> permission_service \<Rightarrow> (unit, plugin_error) result"
  where
  "require_for_host plugin_id capability host_id s =
     result_bind (list_permissions plugin_id (pv_repository s)) (\<lambda>grants.
       if list_ex (grant_covers capability host_id) grants then Ok ()
       else Err (PermissionDenied (capability_str capability)))"

section \<open>Planned changes against the tool policy\<close>

datatype privilege_mode = NoPrivilege | Sudo

datatype planned_change =
    RemoteCommand string "string list" privilege_mode
  | RemoteFileWrite string
  | RemoteFileDelete string
  | PackageInstall "string list"
  | ServiceRestartChange string
  | DatabaseMigration string

definition arg :: "nat \<Rightarrow> string list \<Rightarrow> string option" where
  "arg n args = (if n < length args then Some (args ! n) else None)"

definition is_manage_py_check :: "string list \<Rightarrow> bool" where
  "is_manage_py_check args \<longleftrightarrow> arg 0 args = Some ''manage.py'' \<and> arg 1 args = Some ''check''"

definition is_manage_py_collectstatic :: "string list \<Rightarrow> bool" where
  "is_manage_py_collectstatic args \<longleftrightarrow>
     arg 0 args = Some ''manage.py'' \<and> arg 1 args = Some ''collectstatic''"

definition map_systemctl :: "string list \<Rightarrow> native_tool_name option" where
  "map_systemctl args =
     (case arg 0 args of
        None \<Rightarrow> None
      | Some action \<Rightarrow>
          if action = ''reload'' \<and> arg 1 args = Some ''nginx'' then Some NginxReload
          else if action = ''reload'' then Some ServiceReload
          else if action = ''restart'' then Some ServiceRestart
          else if action \<in> set [''status'', ''is-active'', ''show'', ''cat'', ''--version'']
            then Some ServiceStatus
          else None)"

definition map_remote_command :: "string \<Rightarrow> string list \<Rightarrow> native_tool_name option" where
  "map_remote_command executable args =
     (let exe = to_ascii_lowercase executable in
      if exe = ''nginx'' \<and> (''-t'' \<in> set args \<or> ''-T'' \<in> set args) then Some NginxTest
      else if exe = ''nginx'' \<and> ''-s'' \<in> set args then Some NginxReload
      else if exe = ''nginx'' \<and> (''-v'' \<in> set args \<or> ''-V'' \<in> set args) then Some TerminalExecReadonly
      else if exe = ''systemctl'' then map_systemctl args
      else if exe = ''git'' then
        (case arg 0 args of
           Some a \<Rightarrow> if a \<in> set [''--version'', ''rev-parse'', ''status'', ''log'', ''show'']
                     then Some TerminalExecReadonly else None
         | None \<Rightarrow> None)
      else if exe \<in> set [''python'', ''python3'', ''pip'', ''pip3''] then
        (if ''--version'' \<in> set args \<or> ''-V'' \<in> set args \<or> arg 0 args = Some ''--version''
           then Some TerminalExecReadonly
         else if is_manage_py_check args then Some TerminalExecReadonly
         else None)
      else if exe \<in> set [''uname'', ''whoami'', ''id'', ''hostname'', ''pwd'', ''date'', ''uptime'',
                        ''true'', ''false'', ''echo'', ''cat'', ''ls'', ''which'', ''journalctl'',
                        ''curl'', ''nc''] then Some TerminalExecReadonly
      else if str_contains exe ''/python'' \<or> ends_with exe ''python3'' \<or> ends_with exe ''python'' then
        (if is_manage_py_check args \<or> ''--version'' \<in> set args then Some TerminalExecReadonly else None)
      else if starts_with exe ''python'' then
        (if ''--version'' \<in> set args \<or> ''-V'' \<in> set args \<or> is_manage_py_check args
         then Some TerminalExecReadonly else None)
      else None)"

fun native_tool_for_planned_change :: "planned_change \<Rightarrow> native_tool_name option" where
  "native_tool_for_planned_change (RemoteFileWrite _) = None"
| "native_tool_for_planned_change (RemoteFileDelete _) = None"
| "native_tool_for_planned_change (PackageInstall _) = None"
| "native_tool_for_planned_change (DatabaseMigration _) = None"
| "native_tool_for_planned_change (ServiceRestartChange _) = Some ServiceRestart"
| "native_tool_for_planned_change (RemoteCommand executable args _) = map_remote_command executable args"

definition UNMAPPED_READERS :: "string list" where
  "UNMAPPED_READERS =
     [''uname'', ''whoami'', ''id'', ''hostname'', ''pwd'', ''date'', ''uptime'', ''true'', ''false'',
      ''echo'', ''cat'', ''ls'', ''which'', ''printf'', ''test'', ''command'', ''python3'', ''python'',
      ''git'', ''pip'', ''pip3'']"

fun planned_change_is_mutating :: "planned_change \<Rightarrow> bool" where
  "planned_change_is_mutating (RemoteCommand executable args privilege) =
     (case map_remote_command executable args of
        Some tool \<Rightarrow> tool \<notin> set [NginxTest, TerminalExecReadonly, ServiceStatus, FileInspect]
      | None \<Rightarrow> privilege = Sudo
          \<or> (to_ascii_lowercase executable \<notin> set UNMAPPED_READERS
             \<and> \<not> starts_with (to_ascii_lowercase executable) ''python''))"
| "planned_change_is_mutating _ = True"

definition is_plugin_managed_systemctl :: "string \<Rightarrow> string list \<Rightarrow> bool" where
  "is_plugin_managed_systemctl executable args \<longleftrightarrow>
     to_ascii_lowercase executable = ''systemctl''
     \<and> arg 0 args \<in> Some ` set [''enable'', ''daemon-reload'', ''disable'', ''start'']"

definition is_plugin_managed_git :: "string \<Rightarrow> string list \<Rightarrow> bool" where
  "is_plugin_managed_git executable args \<longleftrightarrow>
     to_ascii_lowercase executable = ''git''
     \<and> arg 0 args \<in> Some ` set [''clone'', ''fetch'', ''checkout'', ''pull'']"

definition is_plugin_managed_python_path :: "string \<Rightarrow> string list \<Rightarrow> bool" where
  "is_plugin_managed_python_path executable args \<longleftrightarrow>
     (let exe = to_ascii_lowercase executable
      in (str_contains exe ''/python'' \<or> ends_with exe ''python'' \<or> ends_with exe ''python3'')
         \<and> is_manage_py_collectstatic args)"

definition is_plugin_managed_python_setup :: "string \<Rightarrow> string list \<Rightarrow> bool" where
  "is_plugin_managed_python_setup executable args \<longleftrightarrow>
     (let exe = to_ascii_lowercase executable
      in (exe = ''python'' \<or> exe = ''python3'' \<or> starts_with exe ''python'' \<or> str_contains exe ''/python'')
         \<and> arg 0 args = Some ''-m'' \<and> arg 1 args \<in> Some ` set [''venv'', ''pip''])"

definition is_plugin_managed :: "planned_change \<Rightarrow> bool" where
  "is_plugin_managed change \<longleftrightarrow>
     (case change of
        RemoteCommand executable args _ \<Rightarrow>
          is_plugin_managed_systemctl executable args \<or> is_plugin_managed_python_path executable args
          \<or> is_plugin_managed_git executable args \<or> is_plugin_managed_python_setup executable args
      | _ \<Rightarrow> False)"

definition require_tool_policy_for_change ::
  "planned_change \<Rightarrow> (unit, plugin_error) result" where
  "require_tool_policy_for_change change =
     (case change of
        RemoteFileWrite _ \<Rightarrow> Ok ()
      | RemoteFileDelete _ \<Rightarrow> Ok ()
      | PackageInstall _ \<Rightarrow> Ok ()
      | DatabaseMigration _ \<Rightarrow> Ok ()
      | _ \<Rightarrow>
          (let mutating = planned_change_is_mutating change in
           case native_tool_for_planned_change change of
             None \<Rightarrow>
               if mutating then if is_plugin_managed change then Ok () else Err PolicyDenied
               else Ok ()
           | Some tool \<Rightarrow>
               (case find (\<lambda>d. td_name d = tool) native_descriptors of
                  None \<Rightarrow> Err PolicyDenied
                | Some d \<Rightarrow>
                    (case tool_policy_evaluate (if mutating then approved_repair else foundation) d of
                       Allowed \<Rightarrow> Ok ()
                     | Blocked _ \<Rightarrow> Err PolicyDenied))))"

section \<open>Capabilities: the names round-trip\<close>

lemma parse_capability_str [simp]: "parse_capability (capability_str c) = Ok c"
  by (cases c) (simp_all add: parse_capability_def)

lemma parse_capability_Ok: "parse_capability s = Ok c \<Longrightarrow> s = capability_str c"
  by (auto simp: parse_capability_def split: if_splits)

lemma capability_str_inj [simp]: "capability_str c = capability_str d \<longleftrightarrow> c = d"
  by (metis parse_capability_str result.inject(1))

section \<open>The grant table\<close>

lemma grant_of_own_row [simp]:
  "grant_of_row p (permission_row_of p g) = Ok (g\<lparr>pg_plugin_id := p\<rparr>)"
  by (simp add: grant_of_row_def permission_row_of_def)

lemma grant_covers_rename [simp]:
  "grant_covers capability hid (g\<lparr>pg_plugin_id := p\<rparr>) = grant_covers capability hid g"
  by (cases hid) (simp_all add: grant_covers_def)

lemma grants_of_own_rows:
  "try_map (grant_of_row p) (map (permission_row_of p) grants)
     = Ok (map (\<lambda>g. g\<lparr>pg_plugin_id := p\<rparr>) grants)"
  by (induction grants) simp_all

lemma replace_permissions_eq:
  "replace_permissions db_ok p grants table =
     (if db_ok \<and> distinct (map pg_capability grants)
      then (Ok (), filter (\<lambda>r. pw_plugin_id r \<noteq> p) table @ map (permission_row_of p) grants)
      else (Err Storage_p, table))"
proof -
  let ?new = "map (permission_row_of p) grants" and ?kept = "filter (\<lambda>r. pw_plugin_id r \<noteq> p) table"
  have "distinct (map permission_key ?new) \<longleftrightarrow> distinct (map pg_capability grants)"
    by (auto simp: distinct_map inj_on_def permission_key_def permission_row_of_def comp_def)
  moreover have "permission_key ` set ?new \<inter> permission_key ` set ?kept = {}"
    by (auto simp: permission_key_def permission_row_of_def)
  ultimately show ?thesis by (simp add: replace_permissions_def insert_rows_distinct)
qed

lemma list_replaced:
  assumes "replace_permissions db_ok p grants table = (Ok u, table')"
  shows "list_permissions q table' =
    (if q = p then Ok (map (\<lambda>g. g\<lparr>pg_plugin_id := p\<rparr>) grants) else list_permissions q table)"
proof -
  from assms have t: "table' = filter (\<lambda>r. pw_plugin_id r \<noteq> p) table @ map (permission_row_of p) grants"
    by (simp add: replace_permissions_eq split: if_splits)
  have own: "filter (\<lambda>r. pw_plugin_id r = q) (map (permission_row_of p) grants)
      = (if q = p then map (permission_row_of p) grants else [])"
    by (induction grants) (auto simp: permission_row_of_def)
  have "filter (\<lambda>r. pw_plugin_id r = q \<and> pw_plugin_id r \<noteq> p) table
      = (if q = p then [] else filter (\<lambda>r. pw_plugin_id r = q) table)"
    by (auto simp: filter_empty_conv intro: filter_cong)
  then show ?thesis
    by (simp add: list_permissions_def t own grants_of_own_rows conj_commute)
qed

text \<open>
  C38. Replacing the grants of a plugin takes effect at once and only there: it succeeds exactly
  when the engine works and no capability is granted twice, a failure changes nothing, and
  afterwards a request of any plugin for any capability and host passes exactly when the
  plugin is another one and passed before, or one of the new grants is given for that
  capability and covers the host - whatever the cache held, so a revocation is immediate and
  a grant limited to some hosts never covers a request that names no host.
\<close>

theorem set_grants_exact:
  assumes "set_grants db_ok p grants s = (r, s')"
  shows "(r = Ok () \<longleftrightarrow> db_ok \<and> distinct (map pg_capability grants))
    \<and> (r \<noteq> Ok () \<longrightarrow> s' = s)
    \<and> (r = Ok () \<longrightarrow>
         (\<forall>q capability hid cache.
            require_for_host q capability hid (s'\<lparr>pv_cache := cache\<rparr>) =
              (if q \<noteq> p then require_for_host q capability hid s
               else if \<exists>g \<in> set grants. pg_capability g = capability \<and> pg_granted g
                  \<and> (pg_hosts g = [] \<or> (\<exists>h \<in> set (pg_hosts g). hid = Some h))
                 then Ok ()
               else Err (PermissionDenied (capability_str capability)))))"
proof (cases "db_ok \<and> distinct (map pg_capability grants)")
  case True
  then obtain table' where t: "replace_permissions db_ok p grants (pv_repository s) = (Ok (), table')"
    by (simp add: replace_permissions_eq)
  with assms have s': "r = Ok ()" "pv_repository s' = table'" by (auto simp: set_grants_def)
  have covers: "list_ex (grant_covers capability hid) grants \<longleftrightarrow>
      (\<exists>g \<in> set grants. pg_capability g = capability \<and> pg_granted g
        \<and> (pg_hosts g = [] \<or> (\<exists>h \<in> set (pg_hosts g). hid = Some h)))" for capability hid
    by (auto simp: list_ex_iff grant_covers_def split: option.splits)
  show ?thesis
    using True s' covers
    by (simp add: require_for_host_def list_replaced [OF t] list_ex_iff)
next
  case False
  then have "replace_permissions db_ok p grants (pv_repository s) = (Err Storage_p, pv_repository s)"
    by (simp add: replace_permissions_eq)
  with assms False show ?thesis by (auto simp: set_grants_def)
qed

text \<open>A grant limited to one host, given to a plugin that had none.\<close>

definition sample_grant :: permission_grant where
  "sample_grant = \<lparr>pg_plugin_id = ''nginx'', pg_capability = SshExec, pg_granted = True, pg_hosts = [''web-1'']\<rparr>"

definition no_grants :: permission_service where
  "no_grants = \<lparr>pv_repository = [], pv_cache = Map.empty\<rparr>"

theorem set_grants_exact_witness:
  "\<exists>s'. set_grants True ''nginx'' [sample_grant] no_grants = (Ok (), s')
     \<and> require_for_host ''nginx'' SshExec (Some ''web-1'') s' = Ok ()
     \<and> require_for_host ''nginx'' SshExec (Some ''web-2'') s' = Err (PermissionDenied ''ssh.exec'')
     \<and> require_for_host ''nginx'' SshExec None s' = Err (PermissionDenied ''ssh.exec'')
     \<and> require_for_host ''redis'' SshExec (Some ''web-1'') s' = Err (PermissionDenied ''ssh.exec'')"
proof -
  obtain r s' where eq: "set_grants True ''nginx'' [sample_grant] no_grants = (r, s')"
    by (cases "set_grants True ''nginx'' [sample_grant] no_grants")
  note fact = set_grants_exact [OF eq]
  have r: "r = Ok ()" using fact by simp
  have all: "\<forall>q capability hid cache. require_for_host q capability hid (s'\<lparr>pv_cache := cache\<rparr>) =
      (if q \<noteq> ''nginx'' then require_for_host q capability hid no_grants
       else if \<exists>g \<in> set [sample_grant]. pg_capability g = capability \<and> pg_granted g
                  \<and> (pg_hosts g = [] \<or> (\<exists>h \<in> set (pg_hosts g). hid = Some h))
         then Ok () else Err (PermissionDenied (capability_str capability)))"
    using fact r by simp
  have same: "s'\<lparr>pv_cache := pv_cache s'\<rparr> = s'" by simp
  have none: "require_for_host ''redis'' SshExec (Some ''web-1'') no_grants = Err (PermissionDenied ''ssh.exec'')"
    by (simp add: require_for_host_def no_grants_def list_permissions_def)
  from eq r all [rule_format, where cache = "pv_cache s'"] show ?thesis
    unfolding same by (intro exI [of _ s']) (simp add: sample_grant_def none)
qed

section \<open>Planned changes\<close>

lemma read_tools_of_commands:
  "planned_change_is_mutating (RemoteCommand e args pr) \<Longrightarrow>
   map_remote_command e args \<notin> Some ` {NginxTest, TerminalExecReadonly, ServiceStatus, FileInspect}"
  by auto

lemma repair_policy_allows: "d \<in> set native_descriptors \<Longrightarrow> tool_policy_evaluate approved_repair d = Allowed"
  using table_scope [of d] table_risk_repair [of d] all_tools_complete
  by (simp add: tool_policy_Allowed_iff approved_repair_def)

lemma foundation_allows_read:
  "d \<in> set native_descriptors \<Longrightarrow> td_name d \<in> set READ_ONLY \<Longrightarrow> tool_policy_evaluate foundation d = Allowed"
  using table_scope [of d] table_risk [of d] table_read_iff [of d] table_approval_iff [of d]
  by (simp add: tool_policy_Allowed_iff foundation_def)

lemma mapped_tool_allowed:
  assumes "mutating \<or> tool \<in> set READ_ONLY"
  obtains d where "find (\<lambda>d. td_name d = tool) native_descriptors = Some d"
    and "tool_policy_evaluate (if mutating then approved_repair else foundation) d = Allowed"
proof -
  obtain d where d: "find (\<lambda>d. td_name d = tool) native_descriptors = Some d"
      "td_name d = tool" "d \<in> set native_descriptors"
    using find_descriptor by blast
  show ?thesis
    by (rule that [OF d(1)])
      (use assms d(2) repair_policy_allows [OF d(3)] foundation_allows_read [OF d(3)] in auto)
qed

lemma non_mutating_tool_reads:
  assumes "native_tool_for_planned_change change = Some tool"
    and "\<not> planned_change_is_mutating change"
  shows "tool \<in> set READ_ONLY"
  using assms by (cases change) (auto simp: READ_ONLY_def)

lemma require_tool_policy_cases:
  "require_tool_policy_for_change change =
     (if native_tool_for_planned_change change \<noteq> None \<or> \<not> planned_change_is_mutating change
         \<or> is_plugin_managed change \<or> (\<forall>e args pr. change \<noteq> RemoteCommand e args pr)
      then Ok () else Err PolicyDenied)"
proof (cases "native_tool_for_planned_change change")
  case None
  then show ?thesis
    by (cases change) (simp_all add: require_tool_policy_for_change_def Let_def)
next
  case (Some tool)
  have "planned_change_is_mutating change \<or> tool \<in> set READ_ONLY"
    using non_mutating_tool_reads [OF Some] by blast
  then obtain d where "find (\<lambda>d. td_name d = tool) native_descriptors = Some d"
    and "tool_policy_evaluate
      (if planned_change_is_mutating change then approved_repair else foundation) d = Allowed"
    by (rule mapped_tool_allowed)
  with Some show ?thesis
    by (cases "planned_change_is_mutating change"; cases change)
      (simp_all add: require_tool_policy_for_change_def Let_def
        del: planned_change_is_mutating.simps native_tool_for_planned_change.simps)
qed

text \<open>
  What the tool-policy bridge stops, in full: only a remote command, only when no native
  tool describes it, it is no managed setup verb, and it either asks for sudo or runs a
  program outside the listed readers. Every other change passes, so the native policy never
  refuses a change it has a tool for; and a change that counts as non-mutating is either
  mapped to a tool that only reads or is an unprivileged command of a listed program.
\<close>

lemma tool_policy_bridge_exact:
  "require_tool_policy_for_change change =
     (case change of
        RemoteCommand e args pr \<Rightarrow>
          if map_remote_command e args = None \<and> \<not> is_plugin_managed change
             \<and> (pr = Sudo \<or> (to_ascii_lowercase e \<notin> set UNMAPPED_READERS
                             \<and> \<not> starts_with (to_ascii_lowercase e) ''python''))
          then Err PolicyDenied else Ok ()
      | _ \<Rightarrow> Ok ())
   \<and> (planned_change_is_mutating change
      \<or> (\<exists>tool \<in> set READ_ONLY. native_tool_for_planned_change change = Some tool)
      \<or> (\<exists>e args. change = RemoteCommand e args NoPrivilege))"
proof -
  have "planned_change_is_mutating change
      \<or> (\<exists>tool \<in> set READ_ONLY. native_tool_for_planned_change change = Some tool)
      \<or> (\<exists>e args. change = RemoteCommand e args NoPrivilege)"
  proof (cases change)
    case (RemoteCommand e args pr)
    then show ?thesis
      using non_mutating_tool_reads [of change] by (cases pr; cases "map_remote_command e args") auto
  qed simp_all
  moreover have "planned_change_is_mutating (RemoteCommand e args pr) \<longleftrightarrow>
      pr = Sudo \<or> (to_ascii_lowercase e \<notin> set UNMAPPED_READERS
        \<and> \<not> starts_with (to_ascii_lowercase e) ''python'')"
    if "map_remote_command e args = None" for e args pr
    using that by simp
  ultimately show ?thesis
    unfolding require_tool_policy_cases
    by (cases change) (auto simp del: planned_change_is_mutating.simps)
qed

definition passes_as_read :: "planned_change \<Rightarrow> bool" where
  "passes_as_read change \<longleftrightarrow>
     \<not> planned_change_is_mutating change \<and> require_tool_policy_for_change change = Ok ()"

lemma passes_as_read_mapped:
  "map_remote_command e args = Some TerminalExecReadonly \<Longrightarrow> passes_as_read (RemoteCommand e args pr)"
  by (simp add: passes_as_read_def require_tool_policy_cases)

lemma passes_as_read_unmapped:
  assumes "map_remote_command e args \<in> {None, Some TerminalExecReadonly}"
    and "to_ascii_lowercase e \<in> set UNMAPPED_READERS"
  shows "passes_as_read (RemoteCommand e args NoPrivilege)"
  using assms by (auto simp: passes_as_read_def require_tool_policy_cases)

text \<open>
  The classification misses programs that write: an inline Python program, \<open>pip
  install\<close> without sudo, \<open>curl\<close> and \<open>nc\<close> with any arguments and privilege, and any Python
  script followed by \<open>--version\<close>, even under sudo, all count as non-mutating and pass the
  policy bridge.
\<close>

lemma writing_commands_pass_as_reads:
  "passes_as_read (RemoteCommand ''python3'' [''-c'', code] NoPrivilege)
   \<and> passes_as_read (RemoteCommand ''pip'' (''install'' # packages) NoPrivilege)
   \<and> passes_as_read (RemoteCommand ''curl'' arguments privilege)
   \<and> passes_as_read (RemoteCommand ''nc'' arguments privilege)
   \<and> passes_as_read (RemoteCommand ''python3'' [script, ''--version''] privilege)"
proof -
  have lower: "to_ascii_lowercase ''python3'' = ''python3''" "to_ascii_lowercase ''pip'' = ''pip''"
      "to_ascii_lowercase ''curl'' = ''curl''" "to_ascii_lowercase ''nc'' = ''nc''"
    by code_simp+
  have "passes_as_read (RemoteCommand ''python3'' [''-c'', code] NoPrivilege)"
    by (rule passes_as_read_unmapped)
      (auto simp: lower map_remote_command_def is_manage_py_check_def arg_def UNMAPPED_READERS_def)
  moreover have "passes_as_read (RemoteCommand ''pip'' (''install'' # packages) NoPrivilege)"
    by (rule passes_as_read_unmapped)
      (auto simp: lower map_remote_command_def is_manage_py_check_def arg_def UNMAPPED_READERS_def)
  moreover have "passes_as_read (RemoteCommand ''curl'' arguments privilege)"
    and "passes_as_read (RemoteCommand ''nc'' arguments privilege)"
    and "passes_as_read (RemoteCommand ''python3'' [script, ''--version''] privilege)"
    by (rule passes_as_read_mapped, simp add: lower map_remote_command_def)+
  ultimately show ?thesis by blast
qed

end
