(* ===== verification/Fleet_Run.thy ===== *)
theory Fleet_Run
  imports Agent_Context Domain_Errors "HOL-Library.AList" "HOL-Library.Multiset"
begin

text \<open>
  A fleet run (agent/fleet_target.rs, agent/fleet_run.rs): the exact target bindings, the plan of
  stages over them, its validation as a draft and as loaded metadata, and the state machine of the
  run. A \<open>usize\<close> is a natural number here: sizes are only compared and subtracted with
  saturation. A \<open>HashSet\<close> of a list is used for its size (all elements distinct) and for the
  subset relation. The iteration order of the \<open>HashMap\<close> in the cycle check is the argument
  \<open>hash_order\<close>.
\<close>

section \<open>Targets\<close>

definition MIN_FLEET_TARGETS :: nat where "MIN_FLEET_TARGETS = 2"
definition MAX_FLEET_TARGETS :: nat where "MAX_FLEET_TARGETS = 10"
definition MAX_FLEET_ROLE_BYTES :: nat where "MAX_FLEET_ROLE_BYTES = 48"

record fleet_target_request =
  ft_profile_id :: uuid
  ft_session_id :: uuid
  ft_role :: "string option"

record fleet_target_binding =
  fb_profile_id :: uuid
  fb_session_id :: uuid
  fb_role :: "string option"
  fb_ordinal :: nat

fun normalized_role :: "string option \<Rightarrow> (string option, app_error) result" where
  "normalized_role None = Ok None"
| "normalized_role (Some role) =
     (let role = trim role
      in if role = [] \<or> MAX_FLEET_ROLE_BYTES < length role
            \<or> \<not> list_all (\<lambda>c. is_ascii_alphanumeric c \<or> c \<in> set ''._-'') role
         then Err (Remote AgentFleetTargetInvalid)
         else Ok (Some (to_ascii_lowercase role)))"

fun fleet_target_roles ::
  "uuid list \<Rightarrow> uuid list \<Rightarrow> fleet_target_request list \<Rightarrow> (string option list, app_error) result" where
  "fleet_target_roles profiles sessions [] = Ok []"
| "fleet_target_roles profiles sessions (t # ts) =
     (if ft_profile_id t \<in> set profiles \<or> ft_session_id t \<in> set sessions
      then Err (Remote AgentFleetTargetInvalid)
      else result_bind (normalized_role (ft_role t)) (\<lambda>role.
           result_bind (fleet_target_roles (ft_profile_id t # profiles) (ft_session_id t # sessions) ts)
             (\<lambda>roles. Ok (role # roles))))"

definition validate_fleet_target_shape ::
  "fleet_target_request list \<Rightarrow> (string option list, app_error) result" where
  "validate_fleet_target_shape targets =
     (if length targets < MIN_FLEET_TARGETS then Err (Remote AgentFleetTargetInvalid)
      else if MAX_FLEET_TARGETS < length targets then Err (Remote AgentFleetTargetLimit)
      else fleet_target_roles [] [] targets)"

section \<open>States\<close>

datatype fleet_run_state =
  FleetDraft | FleetValidatingTargets | FleetInvestigating | FleetPlanning | FleetAwaitingApproval
  | FleetApproved | FleetExecuting | FleetVerifying | FleetPausedForReview | FleetSucceeded
  | FleetFailed | FleetRollingBack | FleetRolledBack | FleetRollbackFailed | FleetInterrupted
  | FleetCancelled

definition fleet_terminal :: "fleet_run_state \<Rightarrow> bool" where
  "fleet_terminal s \<longleftrightarrow>
     s \<in> {FleetSucceeded, FleetFailed, FleetRolledBack, FleetRollbackFailed, FleetInterrupted,
          FleetCancelled}"

definition fleet_in_flight :: "fleet_run_state \<Rightarrow> bool" where
  "fleet_in_flight s \<longleftrightarrow>
     s \<in> {FleetValidatingTargets, FleetInvestigating, FleetPlanning, FleetExecuting, FleetVerifying,
          FleetRollingBack}"

definition fleet_can_transition :: "fleet_run_state \<Rightarrow> fleet_run_state \<Rightarrow> bool" where
  "fleet_can_transition s next \<longleftrightarrow>
     \<not> fleet_terminal s \<and>
     (next \<in> {FleetCancelled, FleetFailed, FleetInterrupted} \<or>
      (case s of
         FleetDraft \<Rightarrow> next = FleetValidatingTargets
       | FleetValidatingTargets \<Rightarrow> next = FleetInvestigating
       | FleetInvestigating \<Rightarrow> next \<in> {FleetPlanning, FleetPausedForReview}
       | FleetPlanning \<Rightarrow> next \<in> {FleetAwaitingApproval, FleetPausedForReview}
       | FleetAwaitingApproval \<Rightarrow> next \<in> {FleetApproved, FleetPlanning}
       | FleetApproved \<Rightarrow> next \<in> {FleetExecuting, FleetPlanning}
       | FleetExecuting \<Rightarrow> next \<in> {FleetVerifying, FleetPausedForReview, FleetRollingBack}
       | FleetVerifying \<Rightarrow> next \<in> {FleetSucceeded, FleetPausedForReview, FleetRollingBack}
       | FleetPausedForReview \<Rightarrow>
           next \<in> {FleetInvestigating, FleetPlanning, FleetExecuting, FleetRollingBack}
       | FleetRollingBack \<Rightarrow> next \<in> {FleetRolledBack, FleetRollbackFailed}
       | _ \<Rightarrow> False))"

datatype fleet_stage_state =
  StagePending | StageReady | StageRunning | StageAwaitingApproval | StageVerifying | StageSucceeded
  | StageFailed | StageBlocked | StageCancelled | StageRollbackPending | StageRolledBack
  | StageRollbackFailed

datatype fleet_execution_strategy =
  FleetSequential | FleetCanary | FleetRollingBatch | FleetParallel

datatype fleet_failure_policy =
  FailureStop | FailurePauseForReview | FailureContinue | FailureRollback

datatype fleet_recovery_state = FleetLive | FleetMetadataOnly

section \<open>The plan\<close>

definition MAX_FLEET_STAGES :: nat where "MAX_FLEET_STAGES = 64"
definition MAX_STAGE_SUMMARY_BYTES :: nat where "MAX_STAGE_SUMMARY_BYTES = 512"

record fleet_stage_draft =
  sg_id :: uuid
  sg_summary :: string
  sg_target_ids :: "uuid list"
  sg_depends_on :: "uuid list"
  sg_execution_strategy :: fleet_execution_strategy
  sg_concurrency_limit :: nat

record fleet_stage =
  fs_id :: uuid
  fs_summary :: string
  fs_target_ids :: "uuid list"
  fs_depends_on :: "uuid list"
  fs_execution_strategy :: fleet_execution_strategy
  fs_concurrency_limit :: nat
  fs_state :: fleet_stage_state

record fleet_child_run =
  fc_stage_id :: uuid
  fc_target_id :: uuid
  fc_agent_run_id :: "uuid option"
  fc_attempt :: u32
  fc_state :: fleet_stage_state
  fc_error_code :: "string option"

record fleet_run =
  fr_id :: uuid
  fr_version :: u64
  fr_state :: fleet_run_state
  fr_production :: bool
  fr_failure_policy :: fleet_failure_policy
  fr_targets :: "fleet_target_binding list"
  fr_stages :: "fleet_stage list"
  fr_children :: "fleet_child_run list"
  fr_graph_digest :: string
  fr_recovery_state :: fleet_recovery_state
  fr_created_at_epoch_ms :: u64
  fr_updated_at_epoch_ms :: u64

record fleet_run_draft =
  fd_production :: bool
  fd_failure_policy :: fleet_failure_policy
  fd_targets :: "fleet_target_binding list"
  fd_stages :: "fleet_stage_draft list"

datatype fleet_plan_error =
  InvalidTargets | InvalidStages | UnknownTarget | InvalidDependency | DependencyCycle
  | ProductionParallel | InvalidFleetTransition

section \<open>The cycle check\<close>

text \<open>
  \<open>dependants[d]\<close>: the stages that wait for \<open>d\<close>, in the order of the pushes. \<open>incoming\<close> is a
  \<open>HashMap\<close>: an association list with one entry for each id. Lowering a count below zero is an
  overflow panic.
\<close>

definition dependants :: "fleet_stage list \<Rightarrow> uuid \<Rightarrow> uuid list" where
  "dependants stages d =
     concat (map (\<lambda>stage. map (\<lambda>_. fs_id stage) (filter ((=) d) (fs_depends_on stage))) stages)"

definition incoming_counts :: "fleet_stage list \<Rightarrow> (uuid \<times> nat) list" where
  "incoming_counts stages =
     fold (\<lambda>stage. AList.update (fs_id stage) (length (fs_depends_on stage))) stages []"

fun release_dependants ::
  "uuid list \<Rightarrow> (uuid \<times> nat) list \<Rightarrow> uuid list \<Rightarrow>
   ((uuid \<times> nat) list \<times> uuid list, fleet_plan_error) result" where
  "release_dependants [] incoming ready = Ok (incoming, ready)"
| "release_dependants (d # ds) incoming ready =
     (case map_of incoming d of
        None \<Rightarrow> Err InvalidDependency
      | Some 0 \<Rightarrow> Panic
      | Some (Suc n) \<Rightarrow>
          release_dependants ds (AList.update d n incoming) (if n = 0 then ready @ [d] else ready))"

definition open_counts :: "(uuid \<times> nat) list \<Rightarrow> nat" where
  "open_counts incoming = length (filter (\<lambda>(_, n). n \<noteq> 0) incoming)"

lemma open_counts_update:
  "map_of incoming d = Some (Suc n) \<Longrightarrow>
     open_counts (AList.update d n incoming) + (if n = 0 then 1 else 0) = open_counts incoming"
  by (induction incoming) (auto simp: open_counts_def)

lemma release_dependants_measure:
  "release_dependants ds incoming ready = Ok (incoming', ready') \<Longrightarrow>
     open_counts incoming' + length ready' = open_counts incoming + length ready"
proof (induction ds incoming ready rule: release_dependants.induct)
  case (2 d ds incoming ready)
  then obtain n where n: "map_of incoming d = Some (Suc n)"
    by (auto split: option.splits nat.splits)
  from 2(1) [OF this refl] 2(2) n open_counts_update [OF n] show ?case
    by (auto split: if_splits)
qed simp

text \<open>The \<open>while\<close> loop, with the number of visited stages.\<close>

function visit_ready ::
  "(uuid \<Rightarrow> uuid list) \<Rightarrow> (uuid \<times> nat) list \<Rightarrow> uuid list \<Rightarrow> nat \<Rightarrow> (nat, fleet_plan_error) result" where
  "visit_ready deps incoming [] visited = Ok visited"
| "visit_ready deps incoming (i # ready) visited =
     (case release_dependants (deps i) incoming ready of
        Ok (incoming', ready') \<Rightarrow> visit_ready deps incoming' ready' (Suc visited)
      | Err e \<Rightarrow> Err e
      | Panic \<Rightarrow> Panic)"
  by pat_completeness auto
termination
  by (relation "measure (\<lambda>(_, incoming, ready, _). open_counts incoming + length ready)")
    (auto dest: release_dependants_measure)

definition validate_acyclic ::
  "((uuid \<times> nat) list \<Rightarrow> (uuid \<times> nat) list) \<Rightarrow> fleet_stage list \<Rightarrow> (unit, fleet_plan_error) result" where
  "validate_acyclic hash_order stages =
     (let incoming = incoming_counts stages;
          ready = map fst (filter (\<lambda>(_, n). n = 0) (hash_order incoming))
      in case visit_ready (dependants stages) incoming ready 0 of
           Ok visited \<Rightarrow> if visited = length stages then Ok () else Err DependencyCycle
         | Err e \<Rightarrow> Err e
         | Panic \<Rightarrow> Panic)"

section \<open>Creating a run\<close>

fun validate_fleet_targets ::
  "nat \<Rightarrow> uuid list \<Rightarrow> uuid list \<Rightarrow> fleet_target_binding list \<Rightarrow> (unit, fleet_plan_error) result" where
  "validate_fleet_targets ordinal profiles sessions [] = Ok ()"
| "validate_fleet_targets ordinal profiles sessions (t # ts) =
     (if fb_ordinal t \<noteq> ordinal \<or> fb_profile_id t \<in> set profiles \<or> fb_session_id t \<in> set sessions
      then Err InvalidTargets
      else validate_fleet_targets (Suc ordinal) (fb_profile_id t # profiles) (fb_session_id t # sessions) ts)"

definition validate_targets :: "fleet_target_binding list \<Rightarrow> (unit, fleet_plan_error) result" where
  "validate_targets targets =
     (if length targets < 2 \<or> MAX_FLEET_TARGETS < length targets then Err InvalidTargets
      else validate_fleet_targets 0 [] [] targets)"

definition validate_stage_draft ::
  "bool \<Rightarrow> uuid list \<Rightarrow> uuid list \<Rightarrow> fleet_stage_draft \<Rightarrow> (fleet_stage, fleet_plan_error) result" where
  "validate_stage_draft production known_targets known_stages draft =
     (let summary = fst (redact_secrets (trim (sg_summary draft))) in
      if summary = [] \<or> MAX_STAGE_SUMMARY_BYTES < length summary then Err InvalidStages
      else if sg_target_ids draft = [] \<or> \<not> distinct (sg_target_ids draft) then Err InvalidStages
      else if \<not> set (sg_target_ids draft) \<subseteq> set known_targets then Err UnknownTarget
      else if \<not> distinct (sg_depends_on draft) \<or> sg_id draft \<in> set (sg_depends_on draft)
              \<or> \<not> set (sg_depends_on draft) \<subseteq> set known_stages
      then Err InvalidDependency
      else if sg_concurrency_limit draft = 0
              \<or> length (sg_target_ids draft) < sg_concurrency_limit draft
      then Err InvalidStages
      else if sg_execution_strategy draft = FleetSequential \<and> sg_concurrency_limit draft \<noteq> 1
      then Err InvalidStages
      else if production \<and> sg_execution_strategy draft = FleetParallel then Err ProductionParallel
      else Ok \<lparr>fs_id = sg_id draft, fs_summary = summary, fs_target_ids = sg_target_ids draft,
               fs_depends_on = sg_depends_on draft,
               fs_execution_strategy = sg_execution_strategy draft,
               fs_concurrency_limit = sg_concurrency_limit draft, fs_state = StagePending\<rparr>)"

definition validate_stages ::
  "((uuid \<times> nat) list \<Rightarrow> (uuid \<times> nat) list) \<Rightarrow> bool \<Rightarrow> fleet_target_binding list \<Rightarrow>
   fleet_stage_draft list \<Rightarrow> (fleet_stage list, fleet_plan_error) result" where
  "validate_stages hash_order production targets drafts =
     (if drafts = [] \<or> MAX_FLEET_STAGES < length drafts then Err InvalidStages
      else if \<not> distinct (map sg_id drafts) then Err InvalidStages
      else result_bind
             (try_map (validate_stage_draft production (map fb_profile_id targets) (map sg_id drafts)) drafts)
             (\<lambda>stages. result_bind (validate_acyclic hash_order stages) (\<lambda>_. Ok stages)))"

text \<open>The digest (JSON and SHA-256) and the fresh identifier are arguments.\<close>

definition fleet_draft ::
  "(bool \<Rightarrow> fleet_failure_policy \<Rightarrow> fleet_target_binding list \<Rightarrow> fleet_stage list \<Rightarrow> string) \<Rightarrow>
   ((uuid \<times> nat) list \<Rightarrow> (uuid \<times> nat) list) \<Rightarrow> uuid \<Rightarrow> fleet_run_draft \<Rightarrow> u64 \<Rightarrow>
   (fleet_run, fleet_plan_error) result" where
  "fleet_draft digest hash_order new_id request now =
     result_bind (validate_targets (fd_targets request)) (\<lambda>_.
     result_bind (validate_stages hash_order (fd_production request) (fd_targets request) (fd_stages request))
       (\<lambda>stages. Ok
         \<lparr>fr_id = new_id, fr_version = 1, fr_state = FleetDraft, fr_production = fd_production request,
          fr_failure_policy = fd_failure_policy request, fr_targets = fd_targets request,
          fr_stages = stages, fr_children = [],
          fr_graph_digest = digest (fd_production request) (fd_failure_policy request)
            (fd_targets request) stages,
          fr_recovery_state = FleetLive, fr_created_at_epoch_ms = now, fr_updated_at_epoch_ms = now\<rparr>))"

definition fleet_transition_to ::
  "fleet_run_state \<Rightarrow> u64 \<Rightarrow> fleet_run \<Rightarrow> (fleet_run, fleet_plan_error) result" where
  "fleet_transition_to next now run =
     (if fr_recovery_state run \<noteq> FleetLive \<or> \<not> fleet_can_transition (fr_state run) next
      then Err InvalidFleetTransition
      else Ok (run\<lparr>fr_state := next, fr_updated_at_epoch_ms := now\<rparr>))"

section \<open>The check of a stored run\<close>

definition error_code_ok :: "string \<Rightarrow> bool" where
  "error_code_ok code \<longleftrightarrow>
     code \<noteq> [] \<and> length code \<le> 96 \<and> list_all (\<lambda>c. is_ascii_upper c \<or> c = CHR ''_'') code"

definition is_ascii_hexdigit :: "char \<Rightarrow> bool" where
  "is_ascii_hexdigit c \<longleftrightarrow> is_ascii_digit c \<or> c \<in> set ''abcdefABCDEF''"

definition check_stage_metadata :: "bool \<Rightarrow> uuid list \<Rightarrow> uuid list \<Rightarrow> fleet_stage \<Rightarrow> (unit, fleet_plan_error) result"
  where
  "check_stage_metadata production target_ids stage_ids stage =
     (if fs_target_ids stage = [] \<or> \<not> distinct (fs_target_ids stage)
         \<or> \<not> set (fs_target_ids stage) \<subseteq> set target_ids \<or> \<not> distinct (fs_depends_on stage)
         \<or> fs_id stage \<in> set (fs_depends_on stage) \<or> \<not> set (fs_depends_on stage) \<subseteq> set stage_ids
         \<or> fs_concurrency_limit stage = 0
         \<or> length (fs_target_ids stage) < fs_concurrency_limit stage
         \<or> (fs_execution_strategy stage = FleetSequential \<and> fs_concurrency_limit stage \<noteq> 1)
      then Err InvalidStages
      else if production \<and> fs_execution_strategy stage = FleetParallel then Err ProductionParallel
      else Ok ())"

fun check_children ::
  "uuid list \<Rightarrow> uuid list \<Rightarrow> (uuid \<times> uuid \<times> u32) list \<Rightarrow> fleet_child_run list \<Rightarrow> (unit, fleet_plan_error) result"
  where
  "check_children stage_ids target_ids keys [] = Ok ()"
| "check_children stage_ids target_ids keys (c # cs) =
     (if fc_stage_id c \<notin> set stage_ids \<or> fc_target_id c \<notin> set target_ids \<or> fc_attempt c = 0
         \<or> (fc_stage_id c, fc_target_id c, fc_attempt c) \<in> set keys
         \<or> (case fc_error_code c of None \<Rightarrow> False | Some code \<Rightarrow> \<not> error_code_ok code)
      then Err InvalidStages
      else check_children stage_ids target_ids ((fc_stage_id c, fc_target_id c, fc_attempt c) # keys) cs)"

definition validate_metadata ::
  "((uuid \<times> nat) list \<Rightarrow> (uuid \<times> nat) list) \<Rightarrow> fleet_run \<Rightarrow> (unit, fleet_plan_error) result" where
  "validate_metadata hash_order run =
     (let target_ids = map fb_profile_id (fr_targets run); stage_ids = map fs_id (fr_stages run) in
      result_bind (validate_targets (fr_targets run)) (\<lambda>_.
      if fr_stages run = [] \<or> MAX_FLEET_STAGES < length (fr_stages run) then Err InvalidStages
      else if \<not> distinct stage_ids \<or> length (fr_graph_digest run) \<noteq> 64
              \<or> \<not> list_all is_ascii_hexdigit (fr_graph_digest run)
      then Err InvalidStages
      else result_bind
             (try_for_each (check_stage_metadata (fr_production run) target_ids stage_ids) (fr_stages run)) (\<lambda>_.
           result_bind (validate_acyclic hash_order (fr_stages run)) (\<lambda>_.
           check_children stage_ids target_ids [] (fr_children run)))))"

section \<open>The cycle check decides acyclicity\<close>

text \<open>An edge leads from a stage to each stage that depends on it.\<close>

definition stage_edges :: "fleet_stage list \<Rightarrow> (uuid \<times> uuid) set" where
  "stage_edges stages = {(d, fs_id s) | d s. s \<in> set stages \<and> d \<in> set (fs_depends_on s)}"

definition stage_deps :: "fleet_stage list \<Rightarrow> uuid \<Rightarrow> uuid list" where
  "stage_deps stages i = (case find (\<lambda>s. fs_id s = i) stages of None \<Rightarrow> [] | Some s \<Rightarrow> fs_depends_on s)"

definition unmet :: "fleet_stage list \<Rightarrow> uuid list \<Rightarrow> uuid \<Rightarrow> nat" where
  "unmet stages visited i = length (filter (\<lambda>d. d \<notin> set visited) (stage_deps stages i))"

lemma stage_deps_of:
  "distinct (map fs_id stages) \<Longrightarrow> s \<in> set stages \<Longrightarrow> stage_deps stages (fs_id s) = fs_depends_on s"
  by (induction stages) (auto simp: stage_deps_def)

lemma stage_edges_iff:
  assumes "distinct (map fs_id stages)"
  shows "(d, i) \<in> stage_edges stages \<longleftrightarrow> i \<in> fs_id ` set stages \<and> d \<in> set (stage_deps stages i)"
  using stage_deps_of [OF assms] by (auto simp: stage_edges_def)

lemma finite_stage_edges: "finite (stage_edges stages)"
proof -
  have "stage_edges stages = (\<Union>s \<in> set stages. (\<lambda>d. (d, fs_id s)) ` set (fs_depends_on s))"
    by (auto simp: stage_edges_def)
  then show ?thesis by simp
qed

lemma count_list_map_const: "count_list (map (\<lambda>_. a) xs) i = (if a = i then length xs else 0)"
  by (induction xs) auto

lemma count_dependants:
  "distinct (map fs_id stages) \<Longrightarrow>
     count_list (dependants stages d) i = count_list (stage_deps stages i) d"
proof (induction stages)
  case (Cons s stages)
  have "i \<notin> fs_id ` set stages \<Longrightarrow> count_list (dependants stages d) i = 0"
    by (auto simp: dependants_def count_list_0_iff)
  with Cons show ?case
    by (auto simp: dependants_def stage_deps_def count_list_map_const count_list_eq_length_filter
        image_iff)
qed (simp add: dependants_def stage_deps_def)

lemma map_of_fold_AList_update:
  "map_of (fold (\<lambda>x. AList.update (k x) (v x)) xs al) =
     (\<lambda>i. case find (\<lambda>x. k x = i) (rev xs) of None \<Rightarrow> map_of al i | Some x \<Rightarrow> Some (v x))"
proof (induction xs arbitrary: al)
  case (Cons x xs)
  have "find P (ys @ [x]) = (case find P ys of None \<Rightarrow> if P x then Some x else None | r \<Rightarrow> r)" for P ys
    by (induction ys) auto
  then show ?case
    by (auto simp: Cons update_conv' fun_eq_iff split: option.splits)
qed simp

lemma incoming_counts_spec:
  assumes "distinct (map fs_id stages)"
  shows "map_of (incoming_counts stages) =
      (\<lambda>i. if i \<in> fs_id ` set stages then Some (unmet stages [] i) else None)"
    and "distinct (map fst (incoming_counts stages))"
proof -
  have "distinct (map fst al) \<Longrightarrow>
      distinct (map fst (fold (\<lambda>x. AList.update (k x) (v x)) xs al))"
    for al :: "(uuid \<times> nat) list" and k v and xs :: "fleet_stage list"
    by (induction xs arbitrary: al) (simp_all add: distinct_update)
  then show "distinct (map fst (incoming_counts stages))" by (simp add: incoming_counts_def)
  show "map_of (incoming_counts stages) =
      (\<lambda>i. if i \<in> fs_id ` set stages then Some (unmet stages [] i) else None)"
  proof
    fix i
    show "map_of (incoming_counts stages) i =
        (if i \<in> fs_id ` set stages then Some (unmet stages [] i) else None)"
    proof (cases "find (\<lambda>s. fs_id s = i) (rev stages)")
      case None
      then have "i \<notin> fs_id ` set stages" by (auto simp: find_None_set)
      with None show ?thesis by (simp add: incoming_counts_def map_of_fold_AList_update)
    next
      case (Some s)
      from find_Some_set [OF this] have s: "s \<in> set stages" "fs_id s = i" by auto
      have "stage_deps stages i = fs_depends_on s" using stage_deps_of [OF assms s(1)] s(2) by simp
      moreover have "i \<in> fs_id ` set stages" using s by auto
      ultimately show ?thesis
        using Some by (simp add: incoming_counts_def map_of_fold_AList_update unmet_def)
    qed
  qed
qed

text \<open>Releasing the dependants lowers each count by its number of occurrences.\<close>

lemma release_dependants_spec:
  assumes "map_of incoming = (\<lambda>i. if i \<in> K then Some (cnt i) else None)" and "set ds \<subseteq> K"
    and "\<And>i. count_list ds i \<le> cnt i"
  shows "\<exists>incoming' fresh. release_dependants ds incoming ready = Ok (incoming', ready @ fresh)
    \<and> map_of incoming' = (\<lambda>i. if i \<in> K then Some (cnt i - count_list ds i) else None)
    \<and> distinct fresh \<and> set fresh = {i \<in> set ds. cnt i = count_list ds i}"
  using assms
proof (induction ds arbitrary: incoming ready cnt)
  case (Cons d ds)
  let ?cnt = "cnt(d := cnt d - 1)"
  from Cons.prems(2) Cons.prems(3) [of d] obtain n where n: "cnt d = Suc n" and d: "d \<in> K"
    by (cases "cnt d") auto
  have "map_of (AList.update d n incoming) = (\<lambda>i. if i \<in> K then Some (?cnt i) else None)"
    using Cons.prems(1) n d by (auto simp: update_conv' fun_eq_iff)
  moreover have "count_list ds i \<le> ?cnt i" for i using Cons.prems(3) [of i] n by (auto split: if_splits)
  ultimately obtain incoming' fresh where
    run: "release_dependants ds (AList.update d n incoming) (if n = 0 then ready @ [d] else ready)
        = Ok (incoming', (if n = 0 then ready @ [d] else ready) @ fresh)"
      and m: "map_of incoming' = (\<lambda>i. if i \<in> K then Some (?cnt i - count_list ds i) else None)"
      and f: "distinct fresh" "set fresh = {i \<in> set ds. ?cnt i = count_list ds i}"
    using Cons.IH [of "AList.update d n incoming" ?cnt] Cons.prems(2) by fastforce
  have zero: "n = 0 \<Longrightarrow> d \<notin> set ds" using Cons.prems(3) [of d] n by (simp add: count_list_0_iff [symmetric])
  show ?case
  proof (intro exI conjI)
    show "release_dependants (d # ds) incoming ready
        = Ok (incoming', ready @ ((if n = 0 then [d] else []) @ fresh))"
      using run Cons.prems(1) d n by simp
    show "map_of incoming' = (\<lambda>i. if i \<in> K then Some (cnt i - count_list (d # ds) i) else None)"
      using m n by (auto simp: fun_eq_iff)
    show "distinct ((if n = 0 then [d] else []) @ fresh)" using f zero by auto
    show "set ((if n = 0 then [d] else []) @ fresh)
        = {i \<in> set (d # ds). cnt i = count_list (d # ds) i}"
    proof (rule set_eqI)
      fix i
      show "i \<in> set ((if n = 0 then [d] else []) @ fresh)
          \<longleftrightarrow> i \<in> {i \<in> set (d # ds). cnt i = count_list (d # ds) i}"
      proof (cases "i = d")
        case True
        have "d \<notin> set ds \<Longrightarrow> count_list ds d = 0" by (simp add: count_list_0_iff)
        with True n zero show ?thesis by (cases "d \<in> set ds") (auto simp: f(2))
      qed (simp add: f(2))
    qed
  qed
qed (simp add: fun_eq_iff)

definition all_met :: "fleet_stage list \<Rightarrow> uuid list \<Rightarrow> bool" where
  "all_met stages visited \<longleftrightarrow>
     (\<forall>n < length visited. set (stage_deps stages (visited ! n)) \<subseteq> set (take n visited))"

definition visit_inv ::
  "fleet_stage list \<Rightarrow> uuid list \<Rightarrow> (uuid \<times> nat) list \<Rightarrow> uuid list \<Rightarrow> bool" where
  "visit_inv stages visited incoming ready \<longleftrightarrow>
     map_of incoming = (\<lambda>i. if i \<in> fs_id ` set stages then Some (unmet stages visited i) else None)
     \<and> distinct visited \<and> set visited \<subseteq> fs_id ` set stages \<and> all_met stages visited
     \<and> distinct ready
     \<and> set ready = {i \<in> fs_id ` set stages - set visited. unmet stages visited i = 0}"

lemma unmet_snoc:
  "i \<notin> set visited \<Longrightarrow>
     unmet stages (visited @ [i]) j = unmet stages visited j - count_list (stage_deps stages j) i"
proof -
  assume "i \<notin> set visited"
  then have "length (filter (\<lambda>d. d \<notin> set (visited @ [i])) ds) + count_list ds i
      = length (filter (\<lambda>d. d \<notin> set visited) ds)" for ds
    by (induction ds) auto
  then show ?thesis by (metis unmet_def add_diff_cancel_right')
qed

lemma all_met_snoc: "all_met stages visited \<Longrightarrow> set (stage_deps stages i) \<subseteq> set visited \<Longrightarrow>
    all_met stages (visited @ [i])"
  by (auto simp: all_met_def nth_append less_Suc_eq)

lemma unmet_0_iff: "unmet stages visited i = 0 \<longleftrightarrow> set (stage_deps stages i) \<subseteq> set visited"
  by (auto simp: unmet_def filter_empty_conv)

lemma visit_inv_step:
  assumes "distinct (map fs_id stages)" and "visit_inv stages visited incoming (i # ready)"
  shows "\<exists>incoming' ready'. release_dependants (dependants stages i) incoming ready = Ok (incoming', ready')
    \<and> visit_inv stages (visited @ [i]) incoming' ready'"
proof -
  let ?K = "fs_id ` set stages"
  have m: "map_of incoming = (\<lambda>j. if j \<in> ?K then Some (unmet stages visited j) else None)"
    and i: "i \<in> ?K" "i \<notin> set visited" "unmet stages visited i = 0"
    and ready: "distinct ready" "i \<notin> set ready"
      "set ready = {j \<in> ?K - set visited. unmet stages visited j = 0} - {i}"
    using assms(2) by (auto simp: visit_inv_def)
  have c: "count_list (dependants stages i) j = count_list (stage_deps stages j) i" for j
    by (rule count_dependants [OF assms(1)])
  have le: "count_list (dependants stages i) j \<le> unmet stages visited j" for j
  proof -
    have "count_list ds i \<le> length (filter (\<lambda>d. d \<notin> set visited) ds)" for ds
      using i(2) by (induction ds) auto
    then show ?thesis by (simp add: c unmet_def)
  qed
  have sub: "set (dependants stages i) \<subseteq> ?K" by (auto simp: dependants_def)
  from release_dependants_spec [OF m sub le, of ready] obtain incoming' fresh where
    run: "release_dependants (dependants stages i) incoming ready = Ok (incoming', ready @ fresh)"
      and m': "map_of incoming' = (\<lambda>j. if j \<in> ?K then Some (unmet stages visited j
          - count_list (dependants stages i) j) else None)"
      and fresh: "distinct fresh" "set fresh = {j \<in> set (dependants stages i).
          unmet stages visited j = count_list (dependants stages i) j}"
    by blast
  have later: "unmet stages (visited @ [i]) j = unmet stages visited j - count_list (dependants stages i) j" for j
    by (simp add: unmet_snoc [OF i(2)] c)
  have waiting: "unmet stages visited j \<noteq> 0" if "j \<in> set (dependants stages i)" for j
    using le [of j] that by (metis count_list_0_iff le_zero_eq)
  have visited_met: "unmet stages visited j = 0" if "j \<in> set visited" for j
  proof -
    from that obtain n where "n < length visited" "visited ! n = j" by (auto simp: in_set_conv_nth)
    moreover have "all_met stages visited" using assms(2) by (simp add: visit_inv_def)
    ultimately have "set (stage_deps stages j) \<subseteq> set (take n visited)" by (auto simp: all_met_def)
    then show ?thesis unfolding unmet_0_iff using set_take_subset [of n visited] by blast
  qed
  have "visit_inv stages (visited @ [i]) incoming' (ready @ fresh)"
    unfolding visit_inv_def
  proof (intro conjI)
    show "all_met stages (visited @ [i])"
      using assms(2) i(3) by (auto simp: visit_inv_def unmet_0_iff intro!: all_met_snoc)
    have "set ready \<inter> set fresh = {}" using waiting unfolding ready(3) fresh(2) by blast
    then show "distinct (ready @ fresh)" using ready(1) fresh(1) by simp
    show "set (ready @ fresh)
        = {j \<in> ?K - set (visited @ [i]). unmet stages (visited @ [i]) j = 0}"
    proof (rule set_eqI)
      fix j
      have "j \<notin> set (dependants stages i) \<Longrightarrow> count_list (dependants stages i) j = 0"
        by (simp add: count_list_0_iff)
      moreover have "j \<in> set (dependants stages i) \<Longrightarrow> j \<in> ?K \<and> j \<notin> set visited \<and> j \<noteq> i"
        using sub waiting [of j] visited_met [of j] i(3) by auto
      ultimately show "j \<in> set (ready @ fresh)
          \<longleftrightarrow> j \<in> {j \<in> ?K - set (visited @ [i]). unmet stages (visited @ [i]) j = 0}"
        using le [of j] waiting [of j] unfolding later by (auto simp: ready(3) fresh(2))
    qed
  qed (use assms(2) i m' in \<open>auto simp: visit_inv_def later fun_eq_iff\<close>)
  with run show ?thesis by blast
qed

lemma visit_ready_spec:
  assumes "distinct (map fs_id stages)" and "visit_inv stages visited incoming ready"
  shows "\<exists>order final. visit_ready (dependants stages) incoming ready (length visited) = Ok (length order)
    \<and> visit_inv stages order final []"
  using assms(2)
proof (induction "dependants stages" incoming ready "length visited" arbitrary: visited
    rule: visit_ready.induct)
  case (2 incoming i ready)
  from visit_inv_step [OF assms(1) 2(2)] obtain incoming' ready' where
    run: "release_dependants (dependants stages i) incoming ready = Ok (incoming', ready')"
      and step: "visit_inv stages (visited @ [i]) incoming' ready'" by blast
  from 2(1) [OF run refl, of "visited @ [i]"] step run show ?case by auto
qed auto

lemma acyclic_if_ordered:
  assumes "distinct (map fs_id stages)" and "all_met stages order"
    and "fs_id ` set stages \<subseteq> set order" and "distinct order"
  shows "acyclic (stage_edges stages)"
proof -
  let ?pos = "\<lambda>i. THE n. n < length order \<and> order ! n = i"
  have pos: "?pos (order ! n) = n" if "n < length order" for n
    using that assms(4) by (intro the_equality) (auto simp: nth_eq_iff_index_eq)
  have "stage_edges stages \<subseteq> inv_image less_than ?pos"
  proof safe
    fix d i assume "(d, i) \<in> stage_edges stages"
    then have "i \<in> set order" and d: "d \<in> set (stage_deps stages i)"
      using assms(3) by (auto simp: stage_edges_iff [OF assms(1)])
    then obtain n where n: "n < length order" "order ! n = i" by (auto simp: in_set_conv_nth)
    with assms(2) d have "d \<in> set (take n order)" by (auto simp: all_met_def)
    then obtain m where "m < n" "order ! m = d" by (auto simp: in_set_conv_nth)
    with n pos [of n] pos [of m] show "(d, i) \<in> inv_image less_than ?pos" by simp
  qed
  then have "wf (stage_edges stages)" by (rule wf_subset [rotated]) simp
  then show ?thesis by (rule wf_acyclic)
qed

lemma cyclic_if_stuck:
  assumes "distinct (map fs_id stages)" and "visit_inv stages order final []"
    and "fs_id ` set stages - set order \<noteq> {}"
    and closed: "\<forall>s \<in> set stages. set (fs_depends_on s) \<subseteq> fs_id ` set stages"
  shows "\<not> acyclic (stage_edges stages)"
proof
  assume "acyclic (stage_edges stages)"
  with finite_stage_edges have wf: "wf (stage_edges stages)" by (rule finite_acyclic_wf)
  from assms(3) obtain i0 where "i0 \<in> fs_id ` set stages - set order" by blast
  with wf obtain i where i: "i \<in> fs_id ` set stages - set order"
    and least: "\<And>d. (d, i) \<in> stage_edges stages \<Longrightarrow> d \<notin> fs_id ` set stages - set order"
    by (metis wfE_min)
  from assms(2) i have "unmet stages order i \<noteq> 0" by (auto simp: visit_inv_def)
  then obtain d where d: "d \<in> set (stage_deps stages i)" "d \<notin> set order" by (auto simp: unmet_0_iff)
  have "d \<in> fs_id ` set stages" using d(1) i closed stage_deps_of [OF assms(1)] by fastforce
  with d i least [of d] show False by (auto simp: stage_edges_iff [OF assms(1)])
qed

lemma initial_visit_inv:
  assumes "distinct (map fs_id stages)" and "mset (hash_order (incoming_counts stages)) = mset (incoming_counts stages)"
  shows "visit_inv stages [] (incoming_counts stages)
    (map fst (filter (\<lambda>(_, n). n = 0) (hash_order (incoming_counts stages))))"
proof -
  let ?al = "incoming_counts stages"
  note spec = incoming_counts_spec [OF assms(1)]
  have same: "set (hash_order ?al) = set ?al" using mset_eq_setD [OF assms(2)] .
  have "distinct (map fst (hash_order ?al))"
    using assms(2) spec(2) by (metis mset_eq_imp_distinct_iff mset_map)
  then have "distinct (map fst (filter (\<lambda>(_, n). n = 0) (hash_order ?al)))"
    by (rule distinct_map_filter)
  moreover have "fst ` {x \<in> set ?al. case x of (_, n) \<Rightarrow> n = 0}
      = {i \<in> fs_id ` set stages. unmet stages [] i = 0}"
  proof (rule set_eqI)
    fix i
    have "i \<in> fst ` {x \<in> set ?al. case x of (_, n) \<Rightarrow> n = 0} \<longleftrightarrow> map_of ?al i = Some 0"
      using spec(2) by (force simp: map_of_eq_Some_iff)
    then show "i \<in> fst ` {x \<in> set ?al. case x of (_, n) \<Rightarrow> n = 0}
        \<longleftrightarrow> i \<in> {i \<in> fs_id ` set stages. unmet stages [] i = 0}" by (simp add: spec(1))
  qed
  ultimately show ?thesis by (simp add: visit_inv_def spec(1) all_met_def same)
qed

lemma validate_acyclic_spec:
  assumes "distinct (map fs_id stages)" and "\<forall>s \<in> set stages. set (fs_depends_on s) \<subseteq> fs_id ` set stages"
    and "mset (hash_order (incoming_counts stages)) = mset (incoming_counts stages)"
  shows "validate_acyclic hash_order stages =
    (if acyclic (stage_edges stages) then Ok () else Err DependencyCycle)"
proof -
  from visit_ready_spec [OF assms(1) initial_visit_inv [of stages hash_order, OF assms(1,3)]] obtain order final where
    run: "visit_ready (dependants stages) (incoming_counts stages)
        (map fst (filter (\<lambda>(_, n). n = 0) (hash_order (incoming_counts stages)))) 0 = Ok (length order)"
      and i: "visit_inv stages order final []" by auto
  have n: "card (fs_id ` set stages) = length stages"
    using assms(1) by (metis distinct_card length_map list.set_map)
  have sub: "set order \<subseteq> fs_id ` set stages" "distinct order" "all_met stages order"
    using i by (auto simp: visit_inv_def)
  have len: "length order = length stages \<longleftrightarrow> fs_id ` set stages - set order = {}"
    using card_subset_eq [OF _ sub(1)] distinct_card [OF sub(2)] n sub(1)
    by (metis Diff_eq_empty_iff List.finite_set finite_imageI subset_antisym)
  show ?thesis
  proof (cases "fs_id ` set stages - set order = {}")
    case True
    then have "acyclic (stage_edges stages)"
      using acyclic_if_ordered [OF assms(1) sub(3) _ sub(2)] by blast
    with True len run show ?thesis by (simp add: validate_acyclic_def)
  next
    case False
    with cyclic_if_stuck [OF assms(1) i _ assms(2)] len run show ?thesis
      by (simp add: validate_acyclic_def)
  qed
qed

section \<open>Which drafts are accepted\<close>

lemma validate_fleet_targets_iff:
  "validate_fleet_targets n profiles sessions ts = Ok () \<longleftrightarrow>
     map fb_ordinal ts = [n ..< n + length ts]
     \<and> distinct (map fb_profile_id ts) \<and> fb_profile_id ` set ts \<inter> set profiles = {}
     \<and> distinct (map fb_session_id ts) \<and> fb_session_id ` set ts \<inter> set sessions = {}"
proof (induction ts arbitrary: n profiles sessions)
  case (Cons t ts)
  have "[n ..< n + length (t # ts)] = n # [Suc n ..< Suc n + length ts]"
    using upt_conv_Cons [of n "n + length (t # ts)"] by simp
  then show ?case by (auto simp: Cons)
qed simp

lemma validate_fleet_targets_error:
  "validate_fleet_targets n profiles sessions ts \<in> {Ok (), Err InvalidTargets}"
  by (induction ts arbitrary: n profiles sessions) auto

definition fleet_targets_ok :: "fleet_target_binding list \<Rightarrow> bool" where
  "fleet_targets_ok ts \<longleftrightarrow>
     2 \<le> length ts \<and> length ts \<le> MAX_FLEET_TARGETS \<and> map fb_ordinal ts = [0 ..< length ts]
     \<and> distinct (map fb_profile_id ts) \<and> distinct (map fb_session_id ts)"

lemma validate_targets_eq:
  "validate_targets ts = (if fleet_targets_ok ts then Ok () else Err InvalidTargets)"
  using validate_fleet_targets_iff [of 0 "[]" "[]" ts] validate_fleet_targets_error [of 0 "[]" "[]" ts]
  by (auto simp: validate_targets_def fleet_targets_ok_def)

definition stage_draft_ok :: "bool \<Rightarrow> uuid list \<Rightarrow> uuid list \<Rightarrow> fleet_stage_draft \<Rightarrow> bool" where
  "stage_draft_ok production profiles stage_ids d \<longleftrightarrow>
     (let summary = fst (redact_secrets (trim (sg_summary d)))
      in summary \<noteq> [] \<and> length summary \<le> MAX_STAGE_SUMMARY_BYTES)
     \<and> sg_target_ids d \<noteq> [] \<and> distinct (sg_target_ids d) \<and> set (sg_target_ids d) \<subseteq> set profiles
     \<and> distinct (sg_depends_on d) \<and> sg_id d \<notin> set (sg_depends_on d)
     \<and> set (sg_depends_on d) \<subseteq> set stage_ids
     \<and> 0 < sg_concurrency_limit d \<and> sg_concurrency_limit d \<le> length (sg_target_ids d)
     \<and> (sg_execution_strategy d = FleetSequential \<longrightarrow> sg_concurrency_limit d = 1)
     \<and> \<not> (production \<and> sg_execution_strategy d = FleetParallel)"

definition stage_of_draft :: "fleet_stage_draft \<Rightarrow> fleet_stage" where
  "stage_of_draft d =
     \<lparr>fs_id = sg_id d, fs_summary = fst (redact_secrets (trim (sg_summary d))),
      fs_target_ids = sg_target_ids d, fs_depends_on = sg_depends_on d,
      fs_execution_strategy = sg_execution_strategy d,
      fs_concurrency_limit = sg_concurrency_limit d, fs_state = StagePending\<rparr>"

lemma validate_stage_draft_Ok_iff:
  "validate_stage_draft production profiles ids d = Ok stage \<longleftrightarrow>
     stage_draft_ok production profiles ids d \<and> stage = stage_of_draft d"
  by (auto simp: validate_stage_draft_def stage_draft_ok_def stage_of_draft_def Let_def)

lemma validate_stage_draft_error:
  "validate_stage_draft production profiles ids d \<noteq> Panic"
  "validate_stage_draft production profiles ids d \<noteq> Err DependencyCycle"
  by (auto simp: validate_stage_draft_def Let_def)

lemma try_map_Err: "try_map f xs = Err e \<Longrightarrow> \<exists>x \<in> set xs. f x = Err e"
  by (induction xs) (auto simp: result_simps)

lemma try_map_stage_drafts:
  "try_map (validate_stage_draft production profiles ids) ds = Ok stages \<longleftrightarrow>
     list_all (stage_draft_ok production profiles ids) ds \<and> stages = map stage_of_draft ds"
  by (induction ds arbitrary: stages) (auto simp: result_simps validate_stage_draft_Ok_iff)

text \<open>The shape of a plan, and the dependencies it declares.\<close>

definition fleet_shape_ok :: "fleet_run_draft \<Rightarrow> bool" where
  "fleet_shape_ok r \<longleftrightarrow>
     fleet_targets_ok (fd_targets r) \<and> fd_stages r \<noteq> [] \<and> length (fd_stages r) \<le> MAX_FLEET_STAGES
     \<and> distinct (map sg_id (fd_stages r))
     \<and> list_all (stage_draft_ok (fd_production r) (map fb_profile_id (fd_targets r)) (map sg_id (fd_stages r)))
         (fd_stages r)"

definition draft_edges :: "fleet_run_draft \<Rightarrow> (uuid \<times> uuid) set" where
  "draft_edges r = {(d, sg_id s) | d s. s \<in> set (fd_stages r) \<and> d \<in> set (sg_depends_on s)}"

lemma stage_of_draft_sel [simp]:
  "fs_id (stage_of_draft d) = sg_id d" "fs_depends_on (stage_of_draft d) = sg_depends_on d"
  "fs_target_ids (stage_of_draft d) = sg_target_ids d"
  "fs_execution_strategy (stage_of_draft d) = sg_execution_strategy d"
  "fs_concurrency_limit (stage_of_draft d) = sg_concurrency_limit d"
  "fs_state (stage_of_draft d) = StagePending"
  by (simp_all add: stage_of_draft_def)

lemma stage_edges_of_drafts: "stage_edges (map stage_of_draft (fd_stages r)) = draft_edges r"
  by (force simp: stage_edges_def draft_edges_def)

lemma validate_acyclic_drafts:
  assumes "fleet_shape_ok r" and "\<And>counts. mset (hash_order counts) = mset counts"
  shows "validate_acyclic hash_order (map stage_of_draft (fd_stages r)) =
    (if acyclic (draft_edges r) then Ok () else Err DependencyCycle)"
proof -
  have "distinct (map fs_id (map stage_of_draft (fd_stages r)))"
    using assms(1) by (simp add: fleet_shape_ok_def comp_def)
  moreover have "set (sg_depends_on d) \<subseteq> sg_id ` set (fd_stages r)" if "d \<in> set (fd_stages r)" for d
    using assms(1) that unfolding fleet_shape_ok_def list_all_iff stage_draft_ok_def set_map by blast
  then have "\<forall>s \<in> set (map stage_of_draft (fd_stages r)).
      set (fs_depends_on s) \<subseteq> fs_id ` set (map stage_of_draft (fd_stages r))"
    by (simp add: image_image)
  ultimately show ?thesis
    using validate_acyclic_spec [of "map stage_of_draft (fd_stages r)" hash_order] assms(2)
    by (simp add: stage_edges_of_drafts)
qed

lemma validate_stages_cases:
  assumes "fleet_targets_ok (fd_targets r)" and "\<And>counts. mset (hash_order counts) = mset counts"
  shows "case validate_stages hash_order (fd_production r) (fd_targets r) (fd_stages r) of
      Ok stages \<Rightarrow> fleet_shape_ok r \<and> acyclic (draft_edges r) \<and> stages = map stage_of_draft (fd_stages r)
    | Err e \<Rightarrow> if fleet_shape_ok r then e = DependencyCycle \<and> \<not> acyclic (draft_edges r)
        else e \<noteq> DependencyCycle
    | Panic \<Rightarrow> False"
proof (cases "try_map (validate_stage_draft (fd_production r) (map fb_profile_id (fd_targets r))
    (map sg_id (fd_stages r))) (fd_stages r)")
  case (Ok stages)
  then have all: "list_all (stage_draft_ok (fd_production r) (map fb_profile_id (fd_targets r))
      (map sg_id (fd_stages r))) (fd_stages r)" "stages = map stage_of_draft (fd_stages r)"
    by (auto simp: try_map_stage_drafts)
  then show ?thesis
    using assms(1) Ok validate_acyclic_drafts [OF _ assms(2)]
    by (auto simp: validate_stages_def fleet_shape_ok_def)
next
  case (Err e)
  then have "\<not> fleet_shape_ok r"
    using try_map_stage_drafts [of "fd_production r" "map fb_profile_id (fd_targets r)"
        "map sg_id (fd_stages r)" "fd_stages r"] by (auto simp: fleet_shape_ok_def)
  moreover have "e \<noteq> DependencyCycle" using try_map_Err [OF Err] validate_stage_draft_error(2) by fastforce
  ultimately show ?thesis using Err by (auto simp: validate_stages_def)
next
  case Panic
  have "try_map (validate_stage_draft (fd_production r) (map fb_profile_id (fd_targets r))
      (map sg_id (fd_stages r))) (fd_stages r) \<noteq> Panic"
    by (rule try_map_not_Panic) (rule validate_stage_draft_error(1))
  with Panic show ?thesis by simp
qed

lemma accepted_stage_metadata:
  "stage_draft_ok production profiles ids d \<Longrightarrow>
     check_stage_metadata production profiles ids (stage_of_draft d) = Ok ()"
  by (auto simp: stage_draft_ok_def check_stage_metadata_def)

text \<open>
  C7. Exactly the well-formed plans become a run: two to ten targets, numbered in order and
  with profiles and sessions of their own; at most 64 distinct stages, each with a bounded
  redacted summary, a non-empty choice of the targets, known dependencies and a possible
  concurrency, none of them parallel in production; and dependencies without a cycle. The
  answer does not depend on the order in which the hash map is walked, the cycle check always
  ends, without underflow, and blames a cycle exactly when there is one in a plan that is well formed
  otherwise. What is accepted also passes the check made when a run is stored and loaded.
\<close>

theorem fleet_draft_exact:
  assumes "\<And>counts. mset (hash_order counts) = mset counts"
  shows "case fleet_draft digest hash_order i request now of
      Ok run \<Rightarrow> fleet_shape_ok request \<and> acyclic (draft_edges request)
        \<and> fr_state run = FleetDraft \<and> fr_children run = []
        \<and> fr_targets run = fd_targets request \<and> fr_stages run = map stage_of_draft (fd_stages request)
        \<and> (length (fr_graph_digest run) = 64 \<and> list_all is_ascii_hexdigit (fr_graph_digest run) \<longrightarrow>
             validate_metadata hash_order run = Ok ())
    | Err e \<Rightarrow> if fleet_shape_ok request then e = DependencyCycle \<and> \<not> acyclic (draft_edges request)
        else e \<noteq> DependencyCycle
    | Panic \<Rightarrow> False"
proof (cases "fleet_targets_ok (fd_targets request)")
  case False
  then show ?thesis by (simp add: fleet_draft_def validate_targets_eq fleet_shape_ok_def)
next
  case True
  note stages = validate_stages_cases [OF True assms]
  show ?thesis
  proof (cases "validate_stages hash_order (fd_production request) (fd_targets request) (fd_stages request)")
    case (Ok stages)
    with stages have ok: "fleet_shape_ok request" "acyclic (draft_edges request)"
      "stages = map stage_of_draft (fd_stages request)" by simp_all
    with validate_acyclic_drafts [OF ok(1) assms] have "validate_acyclic hash_order stages = Ok ()" by simp
    with Ok ok True show ?thesis
      by (auto simp: fleet_draft_def validate_targets_eq validate_metadata_def Let_def comp_def
          fleet_shape_ok_def list_all_iff result_simps intro: accepted_stage_metadata)
  qed (use True stages in \<open>simp_all add: fleet_draft_def validate_targets_eq\<close>)
qed

definition two_targets :: "fleet_target_binding list" where
  "two_targets =
     [\<lparr>fb_profile_id = 1, fb_session_id = 11, fb_role = Some ''source'', fb_ordinal = 0\<rparr>,
      \<lparr>fb_profile_id = 2, fb_session_id = 12, fb_role = Some ''replica'', fb_ordinal = 1\<rparr>]"

definition two_stages :: "uuid list \<Rightarrow> fleet_stage_draft list" where
  "two_stages back_edge =
     [\<lparr>sg_id = 21, sg_summary = ''Stop'', sg_target_ids = [1], sg_depends_on = back_edge,
       sg_execution_strategy = FleetSequential, sg_concurrency_limit = 1\<rparr>,
      \<lparr>sg_id = 22, sg_summary = ''Join'', sg_target_ids = [1, 2], sg_depends_on = [21],
       sg_execution_strategy = FleetCanary, sg_concurrency_limit = 2\<rparr>]"

definition two_stage_draft :: "uuid list \<Rightarrow> fleet_run_draft" where
  "two_stage_draft back_edge =
     \<lparr>fd_production = True, fd_failure_policy = FailurePauseForReview, fd_targets = two_targets,
      fd_stages = two_stages back_edge\<rparr>"

lemma fleet_draft_exact_witness:
  "fleet_shape_ok (two_stage_draft []) \<and> acyclic (draft_edges (two_stage_draft []))
   \<and> fleet_shape_ok (two_stage_draft [22]) \<and> \<not> acyclic (draft_edges (two_stage_draft [22]))"
proof -
  have ok: "is_ok (fleet_draft (\<lambda>_ _ _ _. ''00'') rev 5 (two_stage_draft []) 100)"
    and cycle: "fleet_draft (\<lambda>_ _ _ _. ''00'') rev 5 (two_stage_draft [22]) 100 = Err DependencyCycle"
    by code_simp+
  show ?thesis
    using fleet_draft_exact [of rev "two_stage_draft []" "\<lambda>_ _ _ _. ''00''" 5 100]
      fleet_draft_exact [of rev "two_stage_draft [22]" "\<lambda>_ _ _ _. ''00''" 5 100] ok cycle
    by (cases "fleet_draft (\<lambda>_ _ _ _. ''00'') rev 5 (two_stage_draft []) 100") (auto split: if_splits)
qed

end
