(* ===== verification/Fleet_Coordinator.thy ===== *)
theory Fleet_Coordinator
  imports Fleet_Run
begin

text \<open>
  The approval of a fleet run (agent/fleet_control.rs) and the coordinator that issues leases for
  its children (agent/fleet_coordinator.rs). A function that takes \<open>&mut run\<close> returns the run with
  its result, also on an error, since what was changed before the error stays changed. The
  identifiers of new agent runs are the argument \<open>new_id\<close>, indexed by the number of the lease.
\<close>

section \<open>The approval\<close>

datatype fleet_approval_state =
  FleetApprovalPending | FleetApprovalGranted | FleetApprovalRejected | FleetApprovalInvalidated

datatype fleet_approval_code =
  FleetGraphChanged | FleetTargetsChanged | FleetPolicyChanged | FleetNotPending | FleetRecovered

fun fleet_approval_code_str :: "fleet_approval_code \<Rightarrow> string" where
  "fleet_approval_code_str FleetGraphChanged = ''FLEET_APPROVAL_GRAPH_CHANGED''"
| "fleet_approval_code_str FleetTargetsChanged = ''FLEET_APPROVAL_TARGETS_CHANGED''"
| "fleet_approval_code_str FleetPolicyChanged = ''FLEET_APPROVAL_POLICY_CHANGED''"
| "fleet_approval_code_str FleetNotPending = ''FLEET_APPROVAL_NOT_PENDING''"
| "fleet_approval_code_str FleetRecovered = ''FLEET_APPROVAL_RECOVERED''"

record fleet_approval =
  fa_id :: uuid
  fa_fleet_run_id :: uuid
  fa_fleet_version :: u64
  fa_graph_digest :: string
  fa_targets :: "fleet_target_binding list"
  fa_policy_version :: u64
  fa_policy_hash :: string
  fa_state :: fleet_approval_state
  fa_invalidation_code :: "string option"
  fa_created_at_epoch_ms :: u64
  fa_decided_at_epoch_ms :: "u64 option"

definition bind_fleet_approval ::
  "uuid \<Rightarrow> fleet_run \<Rightarrow> u64 \<Rightarrow> string \<Rightarrow> u64 \<Rightarrow> (fleet_approval, fleet_approval_code) result" where
  "bind_fleet_approval new_id run policy_version policy_hash now =
     (if fr_recovery_state run \<noteq> FleetLive \<or> fr_state run \<noteq> FleetAwaitingApproval
      then Err FleetRecovered
      else Ok \<lparr>fa_id = new_id, fa_fleet_run_id = fr_id run, fa_fleet_version = fr_version run,
               fa_graph_digest = fr_graph_digest run, fa_targets = fr_targets run,
               fa_policy_version = policy_version, fa_policy_hash = policy_hash,
               fa_state = FleetApprovalPending, fa_invalidation_code = None,
               fa_created_at_epoch_ms = now, fa_decided_at_epoch_ms = None\<rparr>)"

definition validate_fleet_approval ::
  "fleet_approval \<Rightarrow> fleet_run \<Rightarrow> u64 \<Rightarrow> string \<Rightarrow> (unit, fleet_approval_code) result" where
  "validate_fleet_approval a run policy_version policy_hash =
     (if fa_state a \<noteq> FleetApprovalPending then Err FleetNotPending
      else if fr_recovery_state run \<noteq> FleetLive then Err FleetRecovered
      else if fr_state run \<noteq> FleetAwaitingApproval then Err FleetGraphChanged
      else if fa_fleet_run_id a \<noteq> fr_id run \<or> fa_fleet_version a \<noteq> fr_version run
              \<or> fa_graph_digest a \<noteq> fr_graph_digest run
      then Err FleetGraphChanged
      else if fa_targets a \<noteq> fr_targets run then Err FleetTargetsChanged
      else if fa_policy_version a \<noteq> policy_version \<or> fa_policy_hash a \<noteq> policy_hash
      then Err FleetPolicyChanged
      else Ok ())"

definition decide_fleet :: "fleet_approval_state \<Rightarrow> u64 \<Rightarrow> fleet_approval \<Rightarrow> fleet_approval" where
  "decide_fleet state now a = a\<lparr>fa_state := state, fa_decided_at_epoch_ms := Some now\<rparr>"

definition invalidate_fleet :: "fleet_approval_code \<Rightarrow> u64 \<Rightarrow> fleet_approval \<Rightarrow> fleet_approval" where
  "invalidate_fleet code now a =
     a\<lparr>fa_state := FleetApprovalInvalidated, fa_invalidation_code := Some (fleet_approval_code_str code),
       fa_decided_at_epoch_ms := Some now\<rparr>"

section \<open>Leases\<close>

definition MAX_FLEET_ACTIVE_CHILDREN :: nat where "MAX_FLEET_ACTIVE_CHILDREN = 10"

record fleet_child_lease =
  fl_fleet_run_id :: uuid
  fl_fleet_version :: u64
  fl_graph_digest :: string
  fl_approval_id :: uuid
  fl_stage_id :: uuid
  fl_agent_run_id :: uuid
  fl_target :: fleet_target_binding
  fl_attempt :: u32
  fl_policy_version :: u64
  fl_policy_hash :: string

datatype fleet_child_outcome = ChildSucceeded | ChildFailed | ChildCancelled

datatype fleet_coordinator_error = InvalidAuthority | InvalidFleetState | InvalidChild

definition validate_authority_for_states ::
  "fleet_run \<Rightarrow> fleet_approval \<Rightarrow> u64 \<Rightarrow> string \<Rightarrow> fleet_run_state list \<Rightarrow>
   (unit, fleet_coordinator_error) result" where
  "validate_authority_for_states run a policy_version policy_hash allowed =
     (if fr_recovery_state run \<noteq> FleetLive \<or> fr_state run \<notin> set allowed
         \<or> fa_state a \<noteq> FleetApprovalGranted \<or> fa_fleet_run_id a \<noteq> fr_id run
         \<or> fa_fleet_version a \<noteq> fr_version run \<or> fa_graph_digest a \<noteq> fr_graph_digest run
         \<or> fa_targets a \<noteq> fr_targets run \<or> fa_policy_version a \<noteq> policy_version
         \<or> fa_policy_hash a \<noteq> policy_hash
      then Err InvalidAuthority else Ok ())"

definition validate_authority ::
  "fleet_run \<Rightarrow> fleet_approval \<Rightarrow> u64 \<Rightarrow> string \<Rightarrow> (unit, fleet_coordinator_error) result" where
  "validate_authority run a policy_version policy_hash =
     validate_authority_for_states run a policy_version policy_hash [FleetApproved, FleetExecuting]"

definition child_active :: "fleet_stage_state \<Rightarrow> bool" where
  "child_active s \<longleftrightarrow> s \<in> {StageRunning, StageAwaitingApproval, StageVerifying}"

definition child_settled :: "fleet_stage_state \<Rightarrow> bool" where
  "child_settled s \<longleftrightarrow>
     s \<in> {StageSucceeded, StageFailed, StageCancelled, StageRolledBack, StageRollbackFailed}"

definition active_agent_ids :: "fleet_run \<Rightarrow> uuid list" where
  "active_agent_ids run =
     List.map_filter fc_agent_run_id (filter (\<lambda>c. child_active (fc_state c)) (fr_children run))"

definition refresh_blocked_stages :: "fleet_run \<Rightarrow> fleet_run" where
  "refresh_blocked_stages run =
     (let failed = map fs_id (filter (\<lambda>s. fs_state s \<in> {StageFailed, StageBlocked}) (fr_stages run))
      in run\<lparr>fr_stages := map (\<lambda>s.
            if fs_state s = StagePending \<and> list_ex (\<lambda>d. d \<in> set failed) (fs_depends_on s)
            then s\<lparr>fs_state := StageBlocked\<rparr> else s) (fr_stages run)\<rparr>)"

text \<open>What a claim reads of the run besides its stages and children.\<close>

record claim_context =
  cc_run :: fleet_run
  cc_approval_id :: uuid
  cc_policy_version :: u64
  cc_policy_hash :: string
  cc_new_id :: "nat \<Rightarrow> uuid"
  cc_succeeded :: "uuid list"

record claim_state =
  ca_children :: "fleet_child_run list"
  ca_leases :: "fleet_child_lease list"
  ca_capacity :: nat
  ca_available :: nat

definition child_of :: "uuid \<Rightarrow> uuid \<Rightarrow> fleet_child_run \<Rightarrow> bool" where
  "child_of s t c \<longleftrightarrow> fc_stage_id c = s \<and> fc_target_id c = t"

definition next_attempt :: "uuid \<Rightarrow> uuid \<Rightarrow> fleet_child_run list \<Rightarrow> u32" where
  "next_attempt s t children =
     saturating_add (fold max (map fc_attempt (filter (child_of s t) children)) 0) 1"

definition lease_child ::
  "claim_context \<Rightarrow> fleet_stage \<Rightarrow> fleet_target_binding \<Rightarrow> uuid \<Rightarrow> claim_state \<Rightarrow> claim_state" where
  "lease_child cc stage target t a =
     (let attempt = next_attempt (fs_id stage) t (ca_children a);
          agent = cc_new_id cc (length (ca_leases a));
          child = \<lparr>fc_stage_id = fs_id stage, fc_target_id = t, fc_agent_run_id = Some agent,
                   fc_attempt = attempt, fc_state = StageRunning, fc_error_code = None\<rparr>;
          lease = \<lparr>fl_fleet_run_id = fr_id (cc_run cc), fl_fleet_version = fr_version (cc_run cc),
                   fl_graph_digest = fr_graph_digest (cc_run cc), fl_approval_id = cc_approval_id cc,
                   fl_stage_id = fs_id stage, fl_agent_run_id = agent, fl_target = target,
                   fl_attempt = attempt, fl_policy_version = cc_policy_version cc,
                   fl_policy_hash = cc_policy_hash cc\<rparr>
      in a\<lparr>ca_children := ca_children a @ [child], ca_leases := ca_leases a @ [lease],
           ca_capacity := ca_capacity a - 1, ca_available := ca_available a - 1\<rparr>)"

text \<open>The loop over the targets of one stage; \<open>target_map\<close> keeps the last binding of a profile.\<close>

fun claim_targets ::
  "claim_context \<Rightarrow> fleet_stage \<Rightarrow> bool \<Rightarrow> bool \<Rightarrow> uuid list \<Rightarrow> claim_state \<Rightarrow>
   (unit, fleet_coordinator_error) result \<times> claim_state" where
  "claim_targets cc stage canary_ready canary_done [] a = (Ok (), a)"
| "claim_targets cc stage canary_ready canary_done (t # ts) a =
     (if ca_available a = 0 then (Ok (), a)
      else if list_ex (\<lambda>c. child_of (fs_id stage) t c \<and> child_settled (fc_state c)) (ca_children a)
              \<or> list_ex (\<lambda>c. child_of (fs_id stage) t c \<and> child_active (fc_state c)) (ca_children a)
      then claim_targets cc stage canary_ready canary_done ts a
      else if fs_execution_strategy stage = FleetCanary \<and> t \<noteq> fs_target_ids stage ! 0 \<and> \<not> canary_ready
      then claim_targets cc stage canary_ready canary_done ts a
      else (case find (\<lambda>b. fb_profile_id b = t) (rev (fr_targets (cc_run cc))) of
              None \<Rightarrow> (Err InvalidChild, a)
            | Some target \<Rightarrow>
                (let a = lease_child cc stage target t a
                 in if fs_execution_strategy stage = FleetCanary \<and> \<not> canary_done then (Ok (), a)
                    else claim_targets cc stage canary_ready canary_done ts a)))"

definition stage_claimable :: "claim_context \<Rightarrow> fleet_stage \<Rightarrow> bool" where
  "stage_claimable cc stage \<longleftrightarrow>
     fs_state stage \<in> {StagePending, StageRunning}
     \<and> list_all (\<lambda>d. d \<in> set (cc_succeeded cc)) (fs_depends_on stage)"

definition claim_stage ::
  "claim_context \<Rightarrow> fleet_stage \<Rightarrow> claim_state \<Rightarrow>
   (unit, fleet_coordinator_error) result \<times> fleet_stage \<times> claim_state" where
  "claim_stage cc stage a =
     (let mine = filter (\<lambda>c. fc_stage_id c = fs_id stage) (ca_children a);
          active = length (filter (\<lambda>c. child_active (fc_state c)) mine);
          available = (if fs_execution_strategy stage = FleetSequential \<and> 0 < active then 0
                       else min (ca_capacity a) (fs_concurrency_limit stage - active));
          completed = map fc_target_id (filter (\<lambda>c. fc_state c = StageSucceeded) mine);
          canary_done = (fs_target_ids stage ! 0 \<in> set completed);
          canary_ready = (fs_execution_strategy stage \<noteq> FleetCanary \<or> canary_done \<or> mine = [])
      in if fs_execution_strategy stage = FleetCanary \<and> fs_target_ids stage = [] then (Panic, stage, a)
         else let (r, a') = claim_targets cc stage canary_ready canary_done (fs_target_ids stage)
                              (a\<lparr>ca_available := available\<rparr>)
              in (r, if ca_leases a' \<noteq> ca_leases a then stage\<lparr>fs_state := StageRunning\<rparr> else stage, a'))"

fun claim_stages ::
  "claim_context \<Rightarrow> fleet_stage list \<Rightarrow> claim_state \<Rightarrow>
   (unit, fleet_coordinator_error) result \<times> fleet_stage list \<times> claim_state" where
  "claim_stages cc [] a = (Ok (), [], a)"
| "claim_stages cc (s # ss) a =
     (if ca_capacity a = 0 \<or> \<not> stage_claimable cc s
      then (let (r, ss', a') = claim_stages cc ss a in (r, s # ss', a'))
      else (case claim_stage cc s a of
              (Ok _, s', a') \<Rightarrow> (let (r, ss', a'') = claim_stages cc ss a' in (r, s' # ss', a''))
            | (Err e, s', a') \<Rightarrow> (Err e, s' # ss, a')
            | (Panic, s', a') \<Rightarrow> (Panic, s' # ss, a')))"

definition claim_children ::
  "(nat \<Rightarrow> uuid) \<Rightarrow> fleet_approval \<Rightarrow> u64 \<Rightarrow> string \<Rightarrow> nat \<Rightarrow> u64 \<Rightarrow> fleet_run \<Rightarrow>
   (fleet_child_lease list, fleet_coordinator_error) result \<times> fleet_run" where
  "claim_children new_id a policy_version policy_hash requested now run =
     (let run = refresh_blocked_stages run;
          active = length (filter (\<lambda>c. child_active (fc_state c)) (fr_children run));
          capacity = min requested MAX_FLEET_ACTIVE_CHILDREN - active;
          succeeded = map fs_id (filter (\<lambda>s. fs_state s = StageSucceeded) (fr_stages run));
          cc = \<lparr>cc_run = run, cc_approval_id = fa_id a, cc_policy_version = policy_version,
                cc_policy_hash = policy_hash, cc_new_id = new_id, cc_succeeded = succeeded\<rparr>;
          (r, stages, ca) = claim_stages cc (fr_stages run)
             \<lparr>ca_children = fr_children run, ca_leases = [], ca_capacity = capacity, ca_available = 0\<rparr>;
          run = run\<lparr>fr_stages := stages, fr_children := ca_children ca\<rparr>
      in case r of
           Ok _ \<Rightarrow> (Ok (ca_leases ca), run\<lparr>fr_updated_at_epoch_ms := now\<rparr>)
         | Err e \<Rightarrow> (Err e, run)
         | Panic \<Rightarrow> (Panic, run))"

definition claim_ready ::
  "(nat \<Rightarrow> uuid) \<Rightarrow> fleet_approval \<Rightarrow> u64 \<Rightarrow> string \<Rightarrow> nat \<Rightarrow> u64 \<Rightarrow> fleet_run \<Rightarrow>
   (fleet_child_lease list, fleet_coordinator_error) result \<times> fleet_run" where
  "claim_ready new_id a policy_version policy_hash requested now run =
     (case validate_authority run a policy_version policy_hash of
        Err e \<Rightarrow> (Err e, run)
      | Panic \<Rightarrow> (Panic, run)
      | Ok _ \<Rightarrow>
          if requested = 0 then (Ok [], run)
          else if fr_state run = FleetApproved
          then (case fleet_transition_to FleetExecuting now run of
                  Ok run \<Rightarrow> claim_children new_id a policy_version policy_hash requested now run
                | _ \<Rightarrow> (Err InvalidFleetState, run))
          else if fr_state run \<noteq> FleetExecuting then (Err InvalidFleetState, run)
          else claim_children new_id a policy_version policy_hash requested now run)"

section \<open>Outcomes and interruptions\<close>

fun outcome_state :: "fleet_child_outcome \<Rightarrow> fleet_stage_state" where
  "outcome_state ChildSucceeded = StageSucceeded"
| "outcome_state ChildFailed = StageFailed"
| "outcome_state ChildCancelled = StageCancelled"

definition refreshed_state :: "fleet_child_run list \<Rightarrow> fleet_stage \<Rightarrow> fleet_stage_state" where
  "refreshed_state children stage =
     (let mine = filter (\<lambda>c. fc_stage_id c = fs_id stage) children in
      if list_ex (\<lambda>c. fc_state c = StageFailed) mine then StageFailed
      else if list_all (\<lambda>t. list_ex (\<lambda>c. fc_target_id c = t \<and> fc_state c = StageSucceeded) mine)
                (fs_target_ids stage)
      then StageSucceeded
      else if list_ex (\<lambda>c. child_active (fc_state c)) mine then StageRunning
      else fs_state stage)"

definition refresh_stage :: "uuid \<Rightarrow> fleet_run \<Rightarrow> fleet_run" where
  "refresh_stage stage_id run =
     run\<lparr>fr_stages := update_first (\<lambda>s. fs_id s = stage_id)
           (\<lambda>s. s\<lparr>fs_state := refreshed_state (fr_children run) s\<rparr>) (fr_stages run)\<rparr>"

definition failure_next :: "fleet_failure_policy \<Rightarrow> fleet_run_state option" where
  "failure_next p = (case p of
       FailureStop \<Rightarrow> Some FleetFailed
     | FailurePauseForReview \<Rightarrow> Some FleetPausedForReview
     | FailureRollback \<Rightarrow> Some FleetRollingBack
     | FailureContinue \<Rightarrow> None)"

definition fleet_transition_or ::
  "fleet_run_state \<Rightarrow> u64 \<Rightarrow> fleet_run \<Rightarrow> (unit, fleet_coordinator_error) result \<times> fleet_run" where
  "fleet_transition_or next now run =
     (case fleet_transition_to next now run of
        Ok run \<Rightarrow> (Ok (), run) | Err _ \<Rightarrow> (Err InvalidFleetState, run) | Panic \<Rightarrow> (Panic, run))"

definition apply_failure_policy ::
  "u64 \<Rightarrow> fleet_run \<Rightarrow> (unit, fleet_coordinator_error) result \<times> fleet_run" where
  "apply_failure_policy now run =
     (if \<not> list_ex (\<lambda>s. fs_state s = StageFailed) (fr_stages run) then (Ok (), run)
      else case failure_next (fr_failure_policy run) of
             None \<Rightarrow> (Ok (), run)
           | Some next \<Rightarrow> fleet_transition_or next now run)"

definition set_active_children :: "fleet_stage_state \<Rightarrow> fleet_run \<Rightarrow> fleet_run" where
  "set_active_children state run =
     run\<lparr>fr_children := map (\<lambda>c. if child_active (fc_state c) then c\<lparr>fc_state := state\<rparr> else c)
           (fr_children run)\<rparr>"

definition finish_outcome :: "u64 \<Rightarrow> fleet_run \<Rightarrow> (unit, fleet_coordinator_error) result \<times> fleet_run" where
  "finish_outcome now run =
     (let run = (if fr_state run = FleetPausedForReview then set_active_children StageBlocked run else run);
          (r, run) = (if fr_state run = FleetExecuting
                         \<and> list_all (\<lambda>s. fs_state s = StageSucceeded) (fr_stages run)
                      then fleet_transition_or FleetVerifying now run else (Ok (), run))
      in case r of Ok _ \<Rightarrow> (Ok (), run\<lparr>fr_updated_at_epoch_ms := now\<rparr>) | _ \<Rightarrow> (r, run))"

definition record_outcome ::
  "uuid \<Rightarrow> fleet_child_outcome \<Rightarrow> string option \<Rightarrow> u64 \<Rightarrow> fleet_run \<Rightarrow>
   (unit, fleet_coordinator_error) result \<times> fleet_run" where
  "record_outcome agent outcome error_code now run =
     (let mine = (\<lambda>c. fc_agent_run_id c = Some agent \<and> child_active (fc_state c)) in
      if fr_recovery_state run \<noteq> FleetLive \<or> fr_state run \<noteq> FleetExecuting
      then (Err InvalidFleetState, run)
      else if (case error_code of None \<Rightarrow> False | Some code \<Rightarrow> \<not> error_code_ok code)
              \<or> (outcome = ChildSucceeded \<and> error_code \<noteq> None)
      then (Err InvalidChild, run)
      else case find mine (fr_children run) of
             None \<Rightarrow> (Err InvalidChild, run)
           | Some child \<Rightarrow>
               (let run = run\<lparr>fr_children := update_first mine
                              (\<lambda>c. c\<lparr>fc_state := outcome_state outcome, fc_error_code := error_code\<rparr>)
                              (fr_children run)\<rparr>;
                    run = refresh_stage (fc_stage_id child) run
                in case apply_failure_policy now run of
                     (Ok _, run) \<Rightarrow> finish_outcome now run
                   | (r, run) \<Rightarrow> (r, run)))"

definition pause_fleet_run ::
  "u64 \<Rightarrow> fleet_run \<Rightarrow> (uuid list, fleet_coordinator_error) result \<times> fleet_run" where
  "pause_fleet_run now run =
     (if fr_recovery_state run \<noteq> FleetLive \<or> fr_state run \<noteq> FleetExecuting
      then (Err InvalidFleetState, run)
      else case fleet_transition_to FleetPausedForReview now run of
             Ok run' \<Rightarrow> (Ok (active_agent_ids run), set_active_children StageBlocked run')
           | _ \<Rightarrow> (Err InvalidFleetState, run))"

definition reopen_stages :: "fleet_run \<Rightarrow> fleet_run" where
  "reopen_stages run =
     run\<lparr>fr_stages := map (\<lambda>s.
        if fs_state s \<in> {StageFailed, StageBlocked}
           \<and> list_ex (\<lambda>t. \<not> list_ex (\<lambda>c. child_of (fs_id s) t c \<and> child_settled (fc_state c))
                              (fr_children run)) (fs_target_ids s)
        then s\<lparr>fs_state := StageRunning\<rparr> else s) (fr_stages run)\<rparr>"

definition continue_after_review ::
  "fleet_approval \<Rightarrow> u64 \<Rightarrow> string \<Rightarrow> u64 \<Rightarrow> fleet_run \<Rightarrow>
   (uuid list, fleet_coordinator_error) result \<times> fleet_run" where
  "continue_after_review a policy_version policy_hash now run =
     (case validate_authority_for_states run a policy_version policy_hash [FleetPausedForReview] of
        Err e \<Rightarrow> (Err e, run)
      | Panic \<Rightarrow> (Panic, run)
      | Ok _ \<Rightarrow>
          (let paused = List.map_filter fc_agent_run_id
                          (filter (\<lambda>c. fc_state c = StageBlocked) (fr_children run));
               run = reopen_stages run
           in case fleet_transition_to FleetExecuting now run of
                Ok run \<Rightarrow> (Ok paused, run)
              | _ \<Rightarrow> (Err InvalidFleetState, run)))"

definition cancel_fleet_run ::
  "u64 \<Rightarrow> fleet_run \<Rightarrow> (uuid list, fleet_coordinator_error) result \<times> fleet_run" where
  "cancel_fleet_run now run =
     (if fr_recovery_state run \<noteq> FleetLive \<or> fleet_terminal (fr_state run)
      then (Err InvalidFleetState, run)
      else let active = active_agent_ids run; run = set_active_children StageCancelled run
           in case fleet_transition_to FleetCancelled now run of
                Ok run \<Rightarrow> (Ok active, run)
              | _ \<Rightarrow> (Err InvalidFleetState, run))"

end
