(* ===== verification/Fleet_Rollout.thy ===== *)
theory Fleet_Rollout
  imports Fleet_Coordinator
begin

text \<open>
  What every schedule of a fleet run keeps: one owner for each target of a stage, the bounds on
  the children that run at a time, the order of dependent stages and the canary. The invariant is
  stated over the stages and the children of a run, and each of the three ways in which an
  operation changes them - a stage changes its state, active children stop, a child is leased -
  has its preservation lemma.
\<close>

section \<open>The invariant\<close>

definition stage_succeeded :: "fleet_stage list \<Rightarrow> uuid \<Rightarrow> bool" where
  "stage_succeeded stages d \<longleftrightarrow> (\<exists>s \<in> set stages. fs_id s = d \<and> fs_state s = StageSucceeded)"

definition target_succeeded :: "fleet_child_run list \<Rightarrow> uuid \<Rightarrow> uuid \<Rightarrow> bool" where
  "target_succeeded children s t \<longleftrightarrow>
     list_ex (\<lambda>c. child_of s t c \<and> fc_state c = StageSucceeded) children"

definition free_child :: "fleet_child_run \<Rightarrow> bool" where
  "free_child c \<longleftrightarrow> \<not> child_active (fc_state c) \<and> \<not> child_settled (fc_state c)"

definition active_children :: "fleet_child_run list \<Rightarrow> fleet_child_run list" where
  "active_children children = filter (\<lambda>c. child_active (fc_state c)) children"

definition active_of_stage :: "uuid \<Rightarrow> fleet_child_run list \<Rightarrow> fleet_child_run list" where
  "active_of_stage s children = filter (\<lambda>c. fc_stage_id c = s \<and> child_active (fc_state c)) children"

text \<open>A child belongs to a stage whose dependencies are done, and follows the canary.\<close>

definition child_due :: "fleet_stage list \<Rightarrow> fleet_child_run list \<Rightarrow> uuid \<Rightarrow> uuid \<Rightarrow> bool" where
  "child_due stages children i t \<longleftrightarrow>
     (\<exists>s \<in> set stages. fs_id s = i \<and> t \<in> set (fs_target_ids s)
        \<and> (\<forall>d \<in> set (fs_depends_on s). stage_succeeded stages d)
        \<and> (fs_execution_strategy s = FleetCanary \<and> t \<noteq> fs_target_ids s ! 0 \<longrightarrow>
             target_succeeded children i (fs_target_ids s ! 0)))"

definition rollout_ok :: "fleet_stage list \<Rightarrow> fleet_child_run list \<Rightarrow> bool" where
  "rollout_ok stages children \<longleftrightarrow>
     distinct (map fs_id stages)
     \<and> (\<forall>i t. list_all free_child (butlast (filter (child_of i t) children)))
     \<and> (\<forall>s \<in> set stages. length (active_of_stage (fs_id s) children) \<le> fs_concurrency_limit s)
     \<and> length (active_children children) \<le> MAX_FLEET_ACTIVE_CHILDREN
     \<and> (\<forall>c \<in> set children. child_due stages children (fc_stage_id c) (fc_target_id c))
     \<and> (\<forall>s \<in> set stages. fs_state s = StageSucceeded \<longrightarrow>
          (\<forall>t \<in> set (fs_target_ids s). target_succeeded children (fs_id s) t))"

section \<open>Stages change their state\<close>

text \<open>Success is final and needs a successful child for every target.\<close>

definition restated :: "fleet_child_run list \<Rightarrow> fleet_stage \<Rightarrow> fleet_stage \<Rightarrow> bool" where
  "restated children s s' \<longleftrightarrow>
     s' = s\<lparr>fs_state := fs_state s'\<rparr>
     \<and> (fs_state s = StageSucceeded \<longrightarrow> fs_state s' = StageSucceeded)
     \<and> (fs_state s' = StageSucceeded \<longrightarrow> fs_state s = StageSucceeded
          \<or> (\<forall>t \<in> set (fs_target_ids s). target_succeeded children (fs_id s) t))"

lemma restated_refl [simp]: "restated children s s"
  by (simp add: restated_def)

lemma restated_sel:
  assumes "restated children s s'"
  shows "fs_id s' = fs_id s" "fs_target_ids s' = fs_target_ids s" "fs_depends_on s' = fs_depends_on s"
    "fs_execution_strategy s' = fs_execution_strategy s"
    "fs_concurrency_limit s' = fs_concurrency_limit s"
proof -
  from assms have "s' = s\<lparr>fs_state := fs_state s'\<rparr>" by (simp add: restated_def)
  then obtain x where "s' = s\<lparr>fs_state := x\<rparr>" by blast
  then show "fs_id s' = fs_id s" "fs_target_ids s' = fs_target_ids s" "fs_depends_on s' = fs_depends_on s"
    "fs_execution_strategy s' = fs_execution_strategy s"
    "fs_concurrency_limit s' = fs_concurrency_limit s" by simp_all
qed

lemma rollout_restated:
  assumes "rollout_ok stages children" and "list_all2 (restated children) stages stages'"
  shows "rollout_ok stages' children"
proof -
  have ids: "map fs_id stages' = map fs_id stages"
    using assms(2) by (induction rule: list_all2_induct) (simp_all add: restated_sel)
  have fwd: "\<exists>s' \<in> set stages'. restated children s s'" if "s \<in> set stages" for s
    using assms(2) that by (induction rule: list_all2_induct) auto
  have bwd: "\<exists>s \<in> set stages. restated children s s'" if "s' \<in> set stages'" for s'
    using assms(2) that by (induction rule: list_all2_induct) auto
  have succ: "stage_succeeded stages' d" if "stage_succeeded stages d" for d
  proof -
    from that obtain s where s: "s \<in> set stages" "fs_id s = d" "fs_state s = StageSucceeded"
      by (auto simp: stage_succeeded_def)
    from fwd [OF s(1)] obtain s' where s': "s' \<in> set stages'" "restated children s s'" by blast
    have "fs_id s' = d" "fs_state s' = StageSucceeded"
      using s(2,3) s'(2) restated_sel(1) [OF s'(2)] by (simp_all add: restated_def)
    with s'(1) show ?thesis by (auto simp: stage_succeeded_def)
  qed
  have due: "child_due stages' children i t" if "child_due stages children i t" for i t
  proof -
    from that obtain s where s: "s \<in> set stages" "fs_id s = i" "t \<in> set (fs_target_ids s)"
      "\<forall>d \<in> set (fs_depends_on s). stage_succeeded stages d"
      "fs_execution_strategy s = FleetCanary \<and> t \<noteq> fs_target_ids s ! 0 \<longrightarrow>
        target_succeeded children i (fs_target_ids s ! 0)" by (auto simp: child_due_def)
    from fwd [OF s(1)] obtain s' where s': "s' \<in> set stages'" "restated children s s'" by blast
    show ?thesis
      unfolding child_due_def
      by (rule bexI [OF _ s'(1)], unfold restated_sel [OF s'(2)]) (use s succ in blast)
  qed
  have "length (active_of_stage (fs_id s') children) \<le> fs_concurrency_limit s'" if "s' \<in> set stages'" for s'
  proof -
    from bwd [OF that] obtain s where s: "s \<in> set stages" "restated children s s'" by blast
    show ?thesis unfolding restated_sel [OF s(2)] using assms(1) s(1) by (simp add: rollout_ok_def)
  qed
  moreover have "target_succeeded children (fs_id s') t"
    if "s' \<in> set stages'" "fs_state s' = StageSucceeded" "t \<in> set (fs_target_ids s')" for s' t
  proof -
    from bwd [OF that(1)] obtain s where s: "s \<in> set stages" "restated children s s'" by blast
    from that(3) have "t \<in> set (fs_target_ids s)" by (simp add: restated_sel [OF s(2)])
    with assms(1) s that(2) show ?thesis
      unfolding restated_sel [OF s(2)] by (auto simp: rollout_ok_def restated_def)
  qed
  ultimately show ?thesis using assms(1) ids due by (simp add: rollout_ok_def)
qed

section \<open>Active children stop\<close>

definition stopped :: "fleet_child_run \<Rightarrow> fleet_child_run \<Rightarrow> bool" where
  "stopped c c' \<longleftrightarrow>
     fc_stage_id c' = fc_stage_id c \<and> fc_target_id c' = fc_target_id c
     \<and> (fc_state c' = fc_state c \<or> (child_active (fc_state c) \<and> \<not> child_active (fc_state c')))"

lemma stopped_refl [simp]: "stopped c c"
  by (simp add: stopped_def)

lemma list_all2_filter:
  "list_all2 R xs ys \<Longrightarrow> (\<And>x y. R x y \<Longrightarrow> P x = Q y) \<Longrightarrow> list_all2 R (filter P xs) (filter Q ys)"
  by (induction rule: list_all2_induct) auto

lemma list_all2_butlast: "list_all2 R xs ys \<Longrightarrow> list_all2 R (butlast xs) (butlast ys)"
  by (simp add: list_all2_conv_all_nth nth_butlast)

lemma length_filter_stopped:
  "list_all2 stopped children children' \<Longrightarrow>
     length (filter (\<lambda>c. P (fc_stage_id c) \<and> child_active (fc_state c)) children')
       \<le> length (filter (\<lambda>c. P (fc_stage_id c) \<and> child_active (fc_state c)) children)"
  by (induction rule: list_all2_induct) (auto simp: stopped_def)

lemma target_succeeded_stopped:
  "list_all2 stopped children children' \<Longrightarrow> target_succeeded children s t \<Longrightarrow> target_succeeded children' s t"
  by (induction rule: list_all2_induct)
    (auto simp: stopped_def target_succeeded_def child_of_def child_active_def)

lemma rollout_stopped:
  assumes "rollout_ok stages children" and "list_all2 stopped children children'"
  shows "rollout_ok stages children'"
proof -
  have "list_all free_child (butlast (filter (child_of i t) children'))" for i t
  proof -
    have "list_all2 stopped (butlast (filter (child_of i t) children)) (butlast (filter (child_of i t) children'))"
      using assms(2) by (intro list_all2_butlast list_all2_filter) (auto simp: stopped_def child_of_def)
    moreover have "list_all free_child (butlast (filter (child_of i t) children))"
      using assms(1) by (simp add: rollout_ok_def)
    ultimately show ?thesis
      by (induction rule: list_all2_induct) (auto simp: free_child_def stopped_def)
  qed
  moreover have "child_due stages children' (fc_stage_id c') (fc_target_id c')" if "c' \<in> set children'" for c'
  proof -
    have "\<exists>c \<in> set children. stopped c c'"
      using assms(2) that by (induction rule: list_all2_induct) auto
    then have "child_due stages children (fc_stage_id c') (fc_target_id c')"
      using assms(1) by (auto simp: rollout_ok_def stopped_def)
    then show ?thesis
      using target_succeeded_stopped [OF assms(2)] by (fastforce simp: child_due_def)
  qed
  moreover have "length (active_children children') \<le> length (active_children children)"
    using length_filter_stopped [OF assms(2), of "\<lambda>_. True"] by (simp add: active_children_def)
  moreover have "length (active_of_stage i children') \<le> length (active_of_stage i children)" for i
    using length_filter_stopped [OF assms(2), of "\<lambda>s. s = i"] by (simp add: active_of_stage_def)
  ultimately show ?thesis
    using assms(1) target_succeeded_stopped [OF assms(2)]
    unfolding rollout_ok_def by (meson order_trans)
qed

section \<open>A child is leased\<close>

lemma target_succeeded_append:
  "target_succeeded children s t \<Longrightarrow> target_succeeded (children @ new) s t"
  by (simp add: target_succeeded_def)

lemma child_due_append: "child_due stages children i t \<Longrightarrow> child_due stages (children @ new) i t"
  unfolding child_due_def using target_succeeded_append by blast

lemma rollout_leased:
  assumes "rollout_ok stages children" and "fc_state c = StageRunning"
    and "child_due stages children (fc_stage_id c) (fc_target_id c)"
    and "\<forall>x \<in> set children. child_of (fc_stage_id c) (fc_target_id c) x \<longrightarrow> free_child x"
    and "length (active_children children) < MAX_FLEET_ACTIVE_CHILDREN"
    and "\<forall>s \<in> set stages. fs_id s = fc_stage_id c \<longrightarrow>
      length (active_of_stage (fs_id s) children) < fs_concurrency_limit s"
  shows "rollout_ok stages (children @ [c])"
proof -
  have "list_all free_child (butlast (filter (child_of i t) (children @ [c])))" for i t
    using assms(1,4) by (auto simp: rollout_ok_def child_of_def list_all_iff butlast_append)
  moreover have "length (active_of_stage (fs_id s) (children @ [c])) \<le> fs_concurrency_limit s"
    if "s \<in> set stages" for s
    using assms(1,6) that by (fastforce simp: rollout_ok_def active_of_stage_def)
  moreover have "length (active_children (children @ [c])) \<le> MAX_FLEET_ACTIVE_CHILDREN"
    using assms(5) by (simp add: active_children_def)
  moreover have "child_due stages (children @ [c]) (fc_stage_id x) (fc_target_id x)"
    if "x \<in> set (children @ [c])" for x
    using that assms(1,3) by (auto simp: rollout_ok_def intro!: child_due_append)
  ultimately show ?thesis
    using assms(1) target_succeeded_append unfolding rollout_ok_def by blast
qed

section \<open>Every operation keeps the invariant\<close>

lemma lease_child_sel [simp]:
  "ca_capacity (lease_child cc s b t a) = ca_capacity a - 1"
  "ca_available (lease_child cc s b t a) = ca_available a - 1"
  by (simp_all add: lease_child_def Let_def)

lemma lease_child_children:
  "\<exists>c. ca_children (lease_child cc s b t a) = ca_children a @ [c] \<and> fc_stage_id c = fs_id s
     \<and> fc_target_id c = t \<and> fc_state c = StageRunning"
  by (simp add: lease_child_def Let_def)

definition claim_ok :: "fleet_stage list \<Rightarrow> claim_state \<Rightarrow> bool" where
  "claim_ok stages a \<longleftrightarrow>
     rollout_ok stages (ca_children a)
     \<and> length (active_children (ca_children a)) + ca_capacity a \<le> MAX_FLEET_ACTIVE_CHILDREN"

text \<open>What the loop over the targets of a stage relies on.\<close>

definition targets_ok :: "fleet_stage list \<Rightarrow> fleet_stage \<Rightarrow> bool \<Rightarrow> bool \<Rightarrow> uuid list \<Rightarrow> claim_state \<Rightarrow> bool"
  where
  "targets_ok stages s canary_ready canary_done ts a \<longleftrightarrow>
     claim_ok stages a \<and> s \<in> set stages \<and> set ts \<subseteq> set (fs_target_ids s)
     \<and> (\<forall>d \<in> set (fs_depends_on s). stage_succeeded stages d)
     \<and> ca_available a \<le> ca_capacity a
     \<and> (0 < ca_available a \<longrightarrow>
          length (active_of_stage (fs_id s) (ca_children a)) + ca_available a \<le> fs_concurrency_limit s)
     \<and> (fs_execution_strategy s = FleetCanary \<longrightarrow>
          (canary_done \<longrightarrow> target_succeeded (ca_children a) (fs_id s) (fs_target_ids s ! 0))
          \<and> (canary_ready \<and> \<not> canary_done \<longrightarrow> ts = []
              \<or> (ts ! 0 = fs_target_ids s ! 0 \<and> (\<forall>c \<in> set (ca_children a). fc_stage_id c \<noteq> fs_id s))))"

lemma lease_claim_ok:
  assumes "targets_ok stages s canary_ready canary_done (t # ts) a" and "ca_available a \<noteq> 0"
    and free: "\<forall>c \<in> set (ca_children a). child_of (fs_id s) t c \<longrightarrow> free_child c"
    and canary: "fs_execution_strategy s = FleetCanary \<Longrightarrow> t = fs_target_ids s ! 0 \<or> canary_ready"
  shows "claim_ok stages (lease_child cc s b t a)"
proof -
  let ?ch = "ca_children a"
  obtain c where c: "ca_children (lease_child cc s b t a) = ?ch @ [c]" "fc_stage_id c = fs_id s"
    "fc_target_id c = t" "fc_state c = StageRunning"
    using lease_child_children by blast
  from assms(1) have ok: "rollout_ok stages ?ch" "s \<in> set stages" "t \<in> set (fs_target_ids s)"
    "\<forall>d \<in> set (fs_depends_on s). stage_succeeded stages d"
    by (auto simp: targets_ok_def claim_ok_def)
  have unique: "s' = s" if "s' \<in> set stages" "fs_id s' = fs_id s" for s'
    using ok(1,2) that by (auto simp: rollout_ok_def distinct_map inj_on_def)
  have "child_due stages ?ch (fc_stage_id c) (fc_target_id c)"
    unfolding child_due_def using ok(2-4) assms(1) canary c
    by (intro bexI [of _ s]) (auto simp: targets_ok_def)
  moreover have "length (active_of_stage (fs_id s) ?ch) < fs_concurrency_limit s"
    using assms(1,2) by (auto simp: targets_ok_def)
  then have "\<forall>s' \<in> set stages. fs_id s' = fc_stage_id c \<longrightarrow>
      length (active_of_stage (fs_id s') ?ch) < fs_concurrency_limit s'"
    using unique c(2) by auto
  moreover have "length (active_children ?ch) < MAX_FLEET_ACTIVE_CHILDREN"
    using assms(1,2) by (auto simp: targets_ok_def claim_ok_def)
  ultimately have "rollout_ok stages (?ch @ [c])"
    using rollout_leased [OF ok(1) c(4)] free c(2,3) by auto
  then show ?thesis
    using assms(1,2) c by (auto simp: claim_ok_def targets_ok_def active_children_def child_active_def)
qed

lemma claim_targets_keeps:
  assumes "claim_targets cc s canary_ready canary_done ts a = (r, a')"
    and "targets_ok stages s canary_ready canary_done ts a"
  shows "claim_ok stages a'"
  using assms
proof (induction cc s canary_ready canary_done ts a arbitrary: r a'
    rule: claim_targets.induct)
  case (2 cc s canary_ready canary_done t ts a)
  let ?owned = "list_ex (\<lambda>c. child_of (fs_id s) t c \<and> child_settled (fc_state c)) (ca_children a)
      \<or> list_ex (\<lambda>c. child_of (fs_id s) t c \<and> child_active (fc_state c)) (ca_children a)"
  let ?later = "fs_execution_strategy s = FleetCanary \<and> t \<noteq> fs_target_ids s ! 0 \<and> \<not> canary_ready"
  show ?case
  proof (cases "ca_available a = 0")
    case True
    with 2(4,5) show ?thesis by (simp add: targets_ok_def)
  next
    case avail: False
    show ?thesis
    proof (cases "?owned \<or> ?later")
      case True
      then have "targets_ok stages s canary_ready canary_done ts a"
        using 2(5) by (auto simp: targets_ok_def list_ex_iff child_of_def)
      with 2(1,2,4) avail True show ?thesis by (auto split: if_splits)
    next
      case new: False
      then have free: "\<forall>c \<in> set (ca_children a). child_of (fs_id s) t c \<longrightarrow> free_child c"
        by (auto simp: list_ex_iff free_child_def)
      show ?thesis
      proof (cases "find (\<lambda>b. fb_profile_id b = t) (rev (fr_targets (cc_run cc)))")
        case None
        with 2(4,5) avail new show ?thesis by (auto simp: targets_ok_def)
      next
        case (Some b)
        let ?a = "lease_child cc s b t a"
        have ok: "claim_ok stages ?a"
          by (rule lease_claim_ok [OF 2(5) avail free]) (use new in auto)
        show ?thesis
        proof (cases "fs_execution_strategy s = FleetCanary \<and> \<not> canary_done")
          case True
          with ok 2(4) avail new Some show ?thesis by (auto simp: Let_def)
        next
          case False
          obtain c where c: "ca_children ?a = ca_children a @ [c]" "fc_stage_id c = fs_id s"
            "fc_state c = StageRunning"
            using lease_child_children by blast
          have "targets_ok stages s canary_ready canary_done ts ?a"
            using 2(5) ok False avail c
            by (auto simp: targets_ok_def target_succeeded_append active_of_stage_def child_active_def)
          with 2(3) [OF avail _ _ Some refl] 2(4) avail new Some False show ?thesis by (auto simp: Let_def)
        qed
      qed
    qed
  qed
qed (simp add: targets_ok_def)

lemma claim_stage_keeps:
  assumes "claim_stage cc s a = (r, s', a')" and "claim_ok stages a" and "s \<in> set stages"
    and "\<forall>d \<in> set (fs_depends_on s). stage_succeeded stages d"
  shows "claim_ok stages a'"
proof (cases "fs_execution_strategy s = FleetCanary \<and> fs_target_ids s = []")
  case True
  with assms(1,2) show ?thesis by (simp add: claim_stage_def Let_def)
next
  case False
  define mine where "mine = filter (\<lambda>c. fc_stage_id c = fs_id s) (ca_children a)"
  define active where "active = length (filter (\<lambda>c. child_active (fc_state c)) mine)"
  define available where "available = (if fs_execution_strategy s = FleetSequential \<and> 0 < active then 0
      else min (ca_capacity a) (fs_concurrency_limit s - active))"
  define canary_done where "canary_done \<longleftrightarrow>
      fs_target_ids s ! 0 \<in> set (map fc_target_id (filter (\<lambda>c. fc_state c = StageSucceeded) mine))"
  define canary_ready where "canary_ready \<longleftrightarrow>
      fs_execution_strategy s \<noteq> FleetCanary \<or> canary_done \<or> mine = []"
  have active: "active = length (active_of_stage (fs_id s) (ca_children a))"
    by (simp add: active_def mine_def active_of_stage_def conj_commute)
  have bounds: "available \<le> ca_capacity a"
    "0 < available \<Longrightarrow> length (active_of_stage (fs_id s) (ca_children a)) + available \<le> fs_concurrency_limit s"
    unfolding active [symmetric] by (auto simp: available_def)
  have succ: "canary_done \<Longrightarrow> target_succeeded (ca_children a) (fs_id s) (fs_target_ids s ! 0)"
    by (auto simp: canary_done_def mine_def target_succeeded_def list_ex_iff child_of_def)
  have none: "canary_ready \<Longrightarrow> \<not> canary_done \<Longrightarrow> fs_execution_strategy s = FleetCanary \<Longrightarrow>
      \<forall>c \<in> set (ca_children a). fc_stage_id c \<noteq> fs_id s"
    by (auto simp: canary_ready_def mine_def filter_empty_conv)
  have "targets_ok stages s canary_ready canary_done (fs_target_ids s) (a\<lparr>ca_available := available\<rparr>)"
    unfolding targets_ok_def using assms(2-4) bounds succ none by (simp add: claim_ok_def)
  moreover obtain r1 where
    "claim_targets cc s canary_ready canary_done (fs_target_ids s) (a\<lparr>ca_available := available\<rparr>) = (r1, a')"
    using assms(1) False
    unfolding claim_stage_def Let_def mine_def [symmetric] active_def [symmetric] available_def [symmetric]
      canary_done_def [symmetric] canary_ready_def [symmetric]
    by (auto split: prod.splits)
  ultimately show ?thesis using claim_targets_keeps by blast
qed

lemma claim_stages_keeps:
  "claim_stages cc ss a = (r, ss', a') \<Longrightarrow> claim_ok stages a \<Longrightarrow> set ss \<subseteq> set stages \<Longrightarrow>
   \<forall>d \<in> set (cc_succeeded cc). stage_succeeded stages d \<Longrightarrow> claim_ok stages a'"
proof (induction cc ss a arbitrary: r ss' a' rule: claim_stages.induct)
  case (2 cc s ss a)
  show ?case
  proof (cases "ca_capacity a = 0 \<or> \<not> stage_claimable cc s")
    case True
    with 2 show ?thesis by (auto split: prod.splits)
  next
    case False
    obtain r1 s1 a1 where st: "claim_stage cc s a = (r1, s1, a1)" by (metis prod_cases3)
    have "\<forall>d \<in> set (fs_depends_on s). stage_succeeded stages d"
      using False 2(6) by (auto simp: stage_claimable_def list_all_iff)
    with claim_stage_keeps [OF st] 2(4,5) have ok: "claim_ok stages a1" by simp
    show ?thesis
    proof (cases r1)
      case (Ok u)
      with st have st': "claim_stage cc s a = (Ok (), s1, a1)" by simp
      show ?thesis
        using 2(2) [OF False st' [symmetric] refl refl] 2(3,5,6) False ok st' by (auto split: prod.splits)
    qed (use 2(3) False st ok in auto)
  qed
qed simp

text \<open>A claim only moves stages to \<open>Running\<close>.\<close>

lemma claim_stages_restated:
  "claim_stages cc ss a = (r, ss', a') \<Longrightarrow> list_all2 (restated children) ss ss'"
proof (induction cc ss a arbitrary: r ss' a' rule: claim_stages.induct)
  case (2 cc s ss a)
  show ?case
  proof (cases "ca_capacity a = 0 \<or> \<not> stage_claimable cc s")
    case True
    with 2 show ?thesis by (auto split: prod.splits)
  next
    case False
    obtain r1 s1 a1 where st: "claim_stage cc s a = (r1, s1, a1)" by (metis prod_cases3)
    have one: "restated children s s1"
      using st False by (auto simp: claim_stage_def Let_def restated_def stage_claimable_def
          split: prod.splits if_splits)
    have rest: "list_all2 (restated children) ss ss" by (simp add: list_all2_refl)
    show ?thesis
    proof (cases r1)
      case (Ok u)
      with st have st': "claim_stage cc s a = (Ok (), s1, a1)" by simp
      show ?thesis
        using 2(2) [OF False st' [symmetric] refl refl] 2(3) False st' one by (auto split: prod.splits)
    qed (use 2(3) False st one rest in auto)
  qed
qed simp

definition run_ok :: "fleet_run \<Rightarrow> bool" where
  "run_ok run \<longleftrightarrow> rollout_ok (fr_stages run) (fr_children run)"

lemma list_all2_map_self: "(\<And>x. x \<in> set xs \<Longrightarrow> R x (f x)) \<Longrightarrow> list_all2 R xs (map f xs)"
  by (induction xs) auto

lemma list_all2_update_first:
  "(\<And>x. x \<in> set xs \<Longrightarrow> P x \<Longrightarrow> R x (f x)) \<Longrightarrow> (\<And>x. R x x) \<Longrightarrow> list_all2 R xs (update_first P f xs)"
  by (induction xs) (auto simp: list_all2_refl)

lemma restatedI:
  "(fs_state s = StageSucceeded \<Longrightarrow> x = StageSucceeded) \<Longrightarrow>
   (x = StageSucceeded \<Longrightarrow> fs_state s = StageSucceeded
      \<or> (\<forall>t \<in> set (fs_target_ids s). target_succeeded children (fs_id s) t)) \<Longrightarrow>
   restated children s (s\<lparr>fs_state := x\<rparr>)"
  by (simp add: restated_def)

lemma restate_stages_ok:
  assumes "run_ok run"
    and "\<And>s. s \<in> set (fr_stages run) \<Longrightarrow> restated (fr_children run) s (f s)"
  shows "run_ok (run\<lparr>fr_stages := map f (fr_stages run)\<rparr>)"
proof -
  have "list_all2 (restated (fr_children run)) (fr_stages run) (map f (fr_stages run))"
    by (rule list_all2_map_self) (rule assms(2))
  with assms(1) rollout_restated show ?thesis by (simp add: run_ok_def)
qed

lemma refresh_blocked_ok: "run_ok run \<Longrightarrow> run_ok (refresh_blocked_stages run)"
  unfolding refresh_blocked_stages_def Let_def
  by (rule restate_stages_ok) (auto intro: restatedI)

lemma reopen_ok: "run_ok run \<Longrightarrow> run_ok (reopen_stages run)"
  unfolding reopen_stages_def by (rule restate_stages_ok) (auto intro: restatedI)

lemma set_active_ok:
  assumes "\<not> child_active state" and "run_ok run"
  shows "run_ok (set_active_children state run)"
proof -
  let ?f = "\<lambda>c. if child_active (fc_state c) then c\<lparr>fc_state := state\<rparr> else c"
  have "list_all2 stopped (fr_children run) (map ?f (fr_children run))"
    using assms(1) by (intro list_all2_map_self) (simp add: stopped_def)
  with assms(2) rollout_stopped show ?thesis by (simp add: run_ok_def set_active_children_def)
qed

lemma fleet_transition_to_frame:
  "fleet_transition_to next now run = Ok run' \<Longrightarrow>
     fr_stages run' = fr_stages run \<and> fr_children run' = fr_children run \<and> fr_state run' = next
     \<and> fr_failure_policy run' = fr_failure_policy run"
  by (auto simp: fleet_transition_to_def split: if_splits)

lemma transition_ok: "fleet_transition_to next now run = Ok run' \<Longrightarrow> run_ok run \<Longrightarrow> run_ok run'"
  by (simp add: run_ok_def fleet_transition_to_frame)

lemma transition_or_frame:
  "fleet_transition_or next now run = (r, run') \<Longrightarrow>
     fr_stages run' = fr_stages run \<and> fr_children run' = fr_children run"
  by (auto simp: fleet_transition_or_def fleet_transition_to_def split: result.splits if_splits)

lemma claim_children_ok:
  assumes "claim_children new_id a pv ph n now run = (r, run')" and "run_ok run"
  shows "run_ok run'"
proof -
  let ?run = "refresh_blocked_stages run"
  let ?active = "length (filter (\<lambda>c. child_active (fc_state c)) (fr_children ?run))"
  let ?cc = "\<lparr>cc_run = ?run, cc_approval_id = fa_id a, cc_policy_version = pv, cc_policy_hash = ph,
      cc_new_id = new_id,
      cc_succeeded = map fs_id (filter (\<lambda>s. fs_state s = StageSucceeded) (fr_stages ?run))\<rparr>"
  let ?a = "\<lparr>ca_children = fr_children ?run, ca_leases = [],
      ca_capacity = min n MAX_FLEET_ACTIVE_CHILDREN - ?active, ca_available = 0\<rparr>"
  obtain r1 stages ca where cl: "claim_stages ?cc (fr_stages ?run) ?a = (r1, stages, ca)"
    by (metis prod_cases3)
  have ok: "run_ok ?run" by (rule refresh_blocked_ok [OF assms(2)])
  then have "?active \<le> MAX_FLEET_ACTIVE_CHILDREN"
    by (simp add: run_ok_def rollout_ok_def active_children_def)
  with ok have "claim_ok (fr_stages ?run) ?a"
    by (simp add: claim_ok_def run_ok_def active_children_def)
  with claim_stages_keeps [OF cl] have "claim_ok (fr_stages ?run) ca"
    by (auto simp: stage_succeeded_def)
  then have "rollout_ok stages (ca_children ca)"
    using rollout_restated claim_stages_restated [OF cl] by (auto simp: claim_ok_def)
  moreover have "fr_stages run' = stages \<and> fr_children run' = ca_children ca"
    using assms(1) cl by (auto simp: claim_children_def Let_def split: result.splits)
  ultimately show ?thesis by (simp add: run_ok_def)
qed

lemma claim_ready_ok:
  "claim_ready new_id a pv ph n now run = (r, run') \<Longrightarrow> run_ok run \<Longrightarrow> run_ok run'"
  by (auto simp: claim_ready_def split: result.splits if_splits
      dest: claim_children_ok transition_ok)

lemma unique_owner:
  assumes "rollout_ok stages children" and "c \<in> set children" "c' \<in> set children"
    and "child_of i t c" "child_of i t c'" "\<not> free_child c" "\<not> free_child c'"
  shows "c = c'"
proof -
  let ?mine = "filter (child_of i t) children"
  have free: "list_all free_child (butlast ?mine)" using assms(1) by (simp add: rollout_ok_def)
  have mine: "c \<in> set ?mine" "c' \<in> set ?mine" using assms(2-5) by auto
  show ?thesis
  proof (cases ?mine rule: rev_cases)
    case (snoc xs x)
    have owner: "y = x" if "y \<in> set ?mine" "\<not> free_child y" for y
    proof -
      from that(1) snoc have "y \<in> set xs \<or> y = x" by auto
      moreover from free snoc have "list_all free_child xs" by simp
      ultimately show ?thesis using that(2) by (auto simp: list_all_iff)
    qed
    show ?thesis using owner [OF mine(1) assms(6)] owner [OF mine(2) assms(7)] by simp
  qed (use mine in simp)
qed

lemma refreshed_state_Succeeded:
  assumes "refreshed_state children s = StageSucceeded" and "t \<in> set (fs_target_ids s)"
  shows "fs_state s = StageSucceeded \<or> target_succeeded children (fs_id s) t"
proof -
  have "list_ex (\<lambda>c. fc_target_id c = t \<and> fc_state c = StageSucceeded)
      (filter (\<lambda>c. fc_stage_id c = fs_id s) children) \<Longrightarrow> target_succeeded children (fs_id s) t"
    by (auto simp: target_succeeded_def list_ex_iff child_of_def)
  then show ?thesis
    using assms by (auto simp: refreshed_state_def Let_def list_all_iff split: if_splits)
qed

lemma record_outcome_changed:
  assumes "record_outcome agent outcome code now run = (r, run')" and "run' \<noteq> run"
  obtains child run1 r2 run2 where "fr_state run = FleetExecuting"
    and "find (\<lambda>c. fc_agent_run_id c = Some agent \<and> child_active (fc_state c)) (fr_children run) = Some child"
    and "run1 = refresh_stage (fc_stage_id child) (run\<lparr>fr_children :=
        update_first (\<lambda>c. fc_agent_run_id c = Some agent \<and> child_active (fc_state c))
          (\<lambda>c. c\<lparr>fc_state := outcome_state outcome, fc_error_code := code\<rparr>) (fr_children run)\<rparr>)"
    and "apply_failure_policy now run1 = (r2, run2)"
    and "run' = run2 \<or> (\<exists>r. finish_outcome now run2 = (r, run'))"
proof -
  let ?mine = "\<lambda>c. fc_agent_run_id c = Some agent \<and> child_active (fc_state c)"
  obtain child where child: "find ?mine (fr_children run) = Some child"
    using assms by (auto simp: record_outcome_def Let_def split: if_splits option.splits)
  let ?run1 = "refresh_stage (fc_stage_id child) (run\<lparr>fr_children := update_first ?mine
      (\<lambda>c. c\<lparr>fc_state := outcome_state outcome, fc_error_code := code\<rparr>) (fr_children run)\<rparr>)"
  obtain r2 run2 where p: "apply_failure_policy now ?run1 = (r2, run2)" by fastforce
  have "fr_state run = FleetExecuting"
    using assms by (auto simp: record_outcome_def Let_def split: if_splits)
  moreover have "run' = run2 \<or> (\<exists>r. finish_outcome now run2 = (r, run'))"
    using assms child p by (auto simp: record_outcome_def Let_def split: if_splits result.splits)
  ultimately show thesis using that child p by blast
qed

lemma record_outcome_ok:
  assumes "record_outcome agent outcome code now run = (r, run')" and ok: "run_ok run"
  shows "run_ok run'"
proof -
  let ?mine = "\<lambda>c. fc_agent_run_id c = Some agent \<and> child_active (fc_state c)"
  let ?f = "\<lambda>c. c\<lparr>fc_state := outcome_state outcome, fc_error_code := code\<rparr>"
  show ?thesis
  proof (cases "run' = run")
    case False
    obtain child run1 r3 run3 where "fr_state run = FleetExecuting"
      and child: "find ?mine (fr_children run) = Some child"
      and run1: "run1 = refresh_stage (fc_stage_id child)
          (run\<lparr>fr_children := update_first ?mine ?f (fr_children run)\<rparr>)"
      and p: "apply_failure_policy now run1 = (r3, run3)"
      and fin: "run' = run3 \<or> (\<exists>r. finish_outcome now run3 = (r, run'))"
      by (rule record_outcome_changed [OF assms(1) False])
    then have c: "child \<in> set (fr_children run)" "child_active (fc_state child)"
      using find_Some_set by fastforce+
    let ?children = "update_first ?mine ?f (fr_children run)"
    have "list_all2 stopped (fr_children run) ?children"
      by (rule list_all2_update_first) (cases outcome; auto simp: stopped_def child_active_def)+
    then have ok1: "rollout_ok (fr_stages run) ?children"
      using ok rollout_stopped by (simp add: run_ok_def)
    have open_stage: "fs_state s \<noteq> StageSucceeded"
      if s: "s \<in> set (fr_stages run)" "fs_id s = fc_stage_id child" for s
    proof
      assume "fs_state s = StageSucceeded"
      have "child_due (fr_stages run) (fr_children run) (fc_stage_id child) (fc_target_id child)"
        using ok c(1) by (simp add: run_ok_def rollout_ok_def)
      then have "fc_target_id child \<in> set (fs_target_ids s)"
        using ok s by (auto simp: child_due_def run_ok_def rollout_ok_def distinct_map inj_on_def)
      with ok s \<open>fs_state s = StageSucceeded\<close> have
        "target_succeeded (fr_children run) (fc_stage_id child) (fc_target_id child)"
        by (auto simp: run_ok_def rollout_ok_def)
      then obtain c' where c': "c' \<in> set (fr_children run)" "fc_state c' = StageSucceeded"
        "child_of (fc_stage_id child) (fc_target_id child) c'"
        by (auto simp: target_succeeded_def list_ex_iff)
      with unique_owner [of "fr_stages run" "fr_children run" child c'] ok c have "child = c'"
        by (auto simp: run_ok_def free_child_def child_settled_def child_of_def)
      with c(2) c'(2) show False by (simp add: child_active_def)
    qed
    have "list_all2 (restated ?children) (fr_stages run)
        (update_first (\<lambda>s. fs_id s = fc_stage_id child)
          (\<lambda>s. s\<lparr>fs_state := refreshed_state ?children s\<rparr>) (fr_stages run))"
      by (rule list_all2_update_first)
        (use open_stage refreshed_state_Succeeded in \<open>blast intro: restatedI\<close>, simp)
    then have ok2: "run_ok run1"
      using rollout_restated [OF ok1] by (simp add: run1 run_ok_def refresh_stage_def)
    from p have ok3: "run_ok run3"
      using ok2 transition_or_frame
      by (auto simp: apply_failure_policy_def run_ok_def split: if_splits option.splits)
    have "run_ok run'" if "finish_outcome now run3 = (r', run')" for r'
    proof -
      let ?run4 = "if fr_state run3 = FleetPausedForReview then set_active_children StageBlocked run3 else run3"
      have "run_ok ?run4" using ok3 by (simp add: set_active_ok child_active_def)
      with that show ?thesis
        using transition_or_frame
        by (fastforce simp: finish_outcome_def Let_def run_ok_def split: prod.splits if_splits result.splits)
    qed
    then show ?thesis using ok3 fin by blast
  qed (use ok in simp)
qed

lemma pause_ok: "pause_fleet_run now run = (r, run') \<Longrightarrow> run_ok run \<Longrightarrow> run_ok run'"
  by (auto simp: pause_fleet_run_def child_active_def split: result.splits if_splits
      intro!: set_active_ok dest: transition_ok)

lemma continue_ok: "continue_after_review a pv ph now run = (r, run') \<Longrightarrow> run_ok run \<Longrightarrow> run_ok run'"
  by (auto simp: continue_after_review_def Let_def split: result.splits
      dest: transition_ok intro: reopen_ok transition_ok)

lemma cancel_ok:
  assumes "cancel_fleet_run now run = (r, run')" and "run_ok run"
  shows "run_ok run'"
proof -
  have "run_ok (set_active_children StageCancelled run)"
    by (rule set_active_ok [OF _ assms(2)]) (simp add: child_active_def)
  with assms show ?thesis
    by (auto simp: cancel_fleet_run_def Let_def split: result.splits if_splits dest: transition_ok)
qed

section \<open>Every schedule\<close>

text \<open>
  The steps of a run, in any order and with any arguments: moves of its state machine, claims,
  outcomes, pauses, continuations and cancellations, whatever they return.
\<close>

inductive fleet_step :: "fleet_run \<Rightarrow> fleet_run \<Rightarrow> bool" where
  moved: "fleet_transition_to next now run = Ok run' \<Longrightarrow> fleet_step run run'"
| claimed: "claim_ready new_id a pv ph n now run = (r, run') \<Longrightarrow> fleet_step run run'"
| recorded: "record_outcome agent outcome code now run = (r, run') \<Longrightarrow> fleet_step run run'"
| paused: "pause_fleet_run now run = (r, run') \<Longrightarrow> fleet_step run run'"
| continued: "continue_after_review a pv ph now run = (r, run') \<Longrightarrow> fleet_step run run'"
| cancelled: "cancel_fleet_run now run = (r, run') \<Longrightarrow> fleet_step run run'"

inductive_cases fleet_stepE: "fleet_step run run'"

lemma fleet_step_ok: "fleet_step run run' \<Longrightarrow> run_ok run \<Longrightarrow> run_ok run'"
  by (elim fleet_stepE)
    (blast intro: transition_ok claim_ready_ok record_outcome_ok pause_ok continue_ok cancel_ok)+

lemma fleet_steps_ok: "fleet_step\<^sup>*\<^sup>* run run' \<Longrightarrow> run_ok run \<Longrightarrow> run_ok run'"
  by (induction rule: rtranclp_induct) (auto intro: fleet_step_ok)

lemma drafted_ok:
  assumes "fleet_draft digest hash_order i request now = Ok run"
  shows "run_ok run"
proof -
  from assms obtain stages where
    v: "validate_stages hash_order (fd_production request) (fd_targets request) (fd_stages request) = Ok stages"
    and run: "fr_stages run = stages" "fr_children run = []"
    by (auto simp: fleet_draft_def result_simps)
  from v have "distinct (map sg_id (fd_stages request))" "stages = map stage_of_draft (fd_stages request)"
    by (auto simp: validate_stages_def result_simps try_map_stage_drafts split: if_splits)
  then show ?thesis
    using run by (auto simp: run_ok_def rollout_ok_def comp_def active_of_stage_def active_children_def)
qed

text \<open>
  C6. In every schedule of an accepted plan, by any interleaving of claims, outcomes, pauses, reviews
  and cancellations: a target of a stage has at most one child that runs or is settled, and
  every earlier attempt is blocked, so two agents never own one target and a settled target is
  never tried again; a stage runs at most as many children as its limit and the fleet at most
  ten; a child exists only in a stage whose dependencies have all succeeded, and in a canary
  stage only after the canary target succeeded; and a stage counts as succeeded only
  when every one of its targets has.
\<close>

theorem fleet_rollout_safe:
  assumes "fleet_draft digest hash_order i request now = Ok run0" and "fleet_step\<^sup>*\<^sup>* run0 run"
  shows "(\<forall>s t. list_all free_child (butlast (filter (child_of s t) (fr_children run))))
    \<and> (\<forall>s \<in> set (fr_stages run).
         length (active_of_stage (fs_id s) (fr_children run)) \<le> fs_concurrency_limit s)
    \<and> length (active_children (fr_children run)) \<le> MAX_FLEET_ACTIVE_CHILDREN
    \<and> (\<forall>c \<in> set (fr_children run). child_due (fr_stages run) (fr_children run) (fc_stage_id c) (fc_target_id c))
    \<and> (\<forall>s \<in> set (fr_stages run). fs_state s = StageSucceeded \<longrightarrow>
         (\<forall>t \<in> set (fs_target_ids s). target_succeeded (fr_children run) (fs_id s) t))"
  using fleet_steps_ok [OF assms(2) drafted_ok [OF assms(1)]] by (simp add: run_ok_def rollout_ok_def)

end
