(* ===== verification/Fleet_Service.thy ===== *)
theory Fleet_Service
  imports Fleet_Rollout
begin

text \<open>
  The fleet operations of agent/service.rs over the live runs and the tables of agent/sqlite.rs.
  A transaction is a function on the tables that either commits as a whole or leaves them as they
  were; \<open>io\<close> says whether the engine carries it out. The live run is changed before the
  transaction, and stays changed when the transaction fails. Event numbers are naturals.
\<close>

section \<open>The tables\<close>

datatype agent_store_error =
  RunNotFound | RunAlreadyExists | EventSequenceInvalid nat nat | AgentApprovalNotFound | StoreCorrupt
  | MigrationFailed | PersistenceFailed | StoreUnavailable

fun store_error :: "agent_store_error \<Rightarrow> app_error" where
  "store_error StoreCorrupt = Storage"
| "store_error MigrationFailed = Storage"
| "store_error PersistenceFailed = Storage"
| "store_error StoreUnavailable = Storage"
| "store_error _ = Remote InvalidOperation"

fun fleet_plan_app_error :: "fleet_plan_error \<Rightarrow> app_error" where
  "fleet_plan_app_error InvalidTargets = Remote AgentFleetTargetInvalid"
| "fleet_plan_app_error DependencyCycle = Remote AgentFleetPlanCycle"
| "fleet_plan_app_error ProductionParallel = Remote AgentFleetProductionParallelBlocked"
| "fleet_plan_app_error _ = Remote AgentFleetPlanInvalid"

definition fleet_coordinator_app_error :: "fleet_coordinator_error \<Rightarrow> app_error" where
  "fleet_coordinator_app_error e = Remote InvalidOperation"

datatype fleet_event_kind =
  EventDraftCreated | EventApprovalRequired | EventApprovalGranted | EventApprovalRejected
  | EventApprovalInvalidated | EventChildClaimed | EventStateChanged | EventRecoveryInterrupted

record fleet_event =
  fe_fleet_run_id :: uuid
  fe_seq :: nat
  fe_timestamp_ms :: u64
  fe_kind :: fleet_event_kind
  fe_state :: fleet_run_state
  fe_approval_id :: "uuid option"
  fe_code :: "string option"

definition MAX_DURABLE_FLEET_EVENTS :: nat where "MAX_DURABLE_FLEET_EVENTS = 512"

record fleet_store =
  so_runs :: "uuid \<Rightarrow> fleet_run option"
  so_approvals :: "uuid \<Rightarrow> fleet_approval option"
  so_events :: "uuid \<Rightarrow> fleet_event list"
  so_agent_runs :: "uuid list"

type_synonym hash_order = "(uuid \<times> nat) list \<Rightarrow> (uuid \<times> nat) list"

definition with_tx ::
  "bool \<Rightarrow> (fleet_store \<Rightarrow> (fleet_store, agent_store_error) result) \<Rightarrow> fleet_store \<Rightarrow>
   (unit, agent_store_error) result \<times> fleet_store" where
  "with_tx io f store =
     (if \<not> io then (Err PersistenceFailed, store)
      else case f store of Ok store' \<Rightarrow> (Ok (), store') | Err e \<Rightarrow> (Err e, store) | Panic \<Rightarrow> (Panic, store))"

definition write_fleet_run ::
  "hash_order \<Rightarrow> fleet_run \<Rightarrow> bool \<Rightarrow> fleet_store \<Rightarrow> (fleet_store, agent_store_error) result" where
  "write_fleet_run hash_order run insert_only store =
     (case validate_metadata hash_order run of
        Ok _ \<Rightarrow>
          (case so_runs store (fr_id run) of
             None \<Rightarrow> Ok (store\<lparr>so_runs := (so_runs store)(fr_id run \<mapsto> run)\<rparr>)
           | Some old \<Rightarrow>
               if insert_only then Err RunAlreadyExists
               else Ok (store\<lparr>so_runs := (so_runs store)(fr_id run \<mapsto>
                      run\<lparr>fr_created_at_epoch_ms := fr_created_at_epoch_ms old\<rparr>)\<rparr>))
      | Err _ \<Rightarrow> Err StoreCorrupt
      | Panic \<Rightarrow> Panic)"

definition last_seq :: "fleet_event list \<Rightarrow> nat" where
  "last_seq events = fold max (map fe_seq events) 0"

definition append_fleet_event :: "fleet_event \<Rightarrow> fleet_store \<Rightarrow> (fleet_store, agent_store_error) result" where
  "append_fleet_event e store =
     (let events = so_events store (fe_fleet_run_id e); expected = last_seq events + 1 in
      if expected \<noteq> fe_seq e then Err (EventSequenceInvalid (expected - 1) (fe_seq e))
      else let events = events @ [e];
               kept = filter (\<lambda>x. \<not> fe_seq x \<le> last_seq events - MAX_DURABLE_FLEET_EVENTS) events
           in Ok (store\<lparr>so_events := (so_events store)(fe_fleet_run_id e := kept)\<rparr>))"

fun append_fleet_events ::
  "fleet_event list \<Rightarrow> fleet_store \<Rightarrow> (fleet_store, agent_store_error) result" where
  "append_fleet_events [] store = Ok store"
| "append_fleet_events (e # es) store = result_bind (append_fleet_event e store) (append_fleet_events es)"

fun insert_agent_runs :: "uuid list \<Rightarrow> fleet_store \<Rightarrow> (fleet_store, agent_store_error) result" where
  "insert_agent_runs [] store = Ok store"
| "insert_agent_runs (i # is) store =
     (if i \<in> set (so_agent_runs store) then Err RunAlreadyExists
      else insert_agent_runs is (store\<lparr>so_agent_runs := so_agent_runs store @ [i]\<rparr>))"

definition insert_fleet_run ::
  "bool \<Rightarrow> hash_order \<Rightarrow> fleet_run \<Rightarrow> fleet_store \<Rightarrow> (unit, agent_store_error) result \<times> fleet_store" where
  "insert_fleet_run io hash_order run =
     with_tx io (\<lambda>store. result_bind (write_fleet_run hash_order run True store)
       (append_fleet_event \<lparr>fe_fleet_run_id = fr_id run, fe_seq = 1,
          fe_timestamp_ms = fr_created_at_epoch_ms run, fe_kind = EventDraftCreated,
          fe_state = fr_state run, fe_approval_id = None, fe_code = None\<rparr>))"

definition insert_fleet_approval ::
  "bool \<Rightarrow> hash_order \<Rightarrow> fleet_run \<Rightarrow> fleet_approval \<Rightarrow> fleet_event \<Rightarrow> fleet_store \<Rightarrow>
   (unit, agent_store_error) result \<times> fleet_store" where
  "insert_fleet_approval io hash_order run a e =
     with_tx io (\<lambda>store. result_bind (write_fleet_run hash_order run False store) (\<lambda>store.
       if so_approvals store (fa_id a) \<noteq> None then Err PersistenceFailed
       else append_fleet_event e (store\<lparr>so_approvals := (so_approvals store)(fa_id a \<mapsto> a)\<rparr>)))"

text \<open>The update writes the decision only; the bound fields of the row stay.\<close>

definition store_decision ::
  "bool \<Rightarrow> hash_order \<Rightarrow> fleet_run \<Rightarrow> fleet_approval \<Rightarrow> fleet_event \<Rightarrow> fleet_store \<Rightarrow>
   (unit, agent_store_error) result \<times> fleet_store" where
  "store_decision io hash_order run a e =
     with_tx io (\<lambda>store. result_bind (write_fleet_run hash_order run False store) (\<lambda>store.
       case so_approvals store (fa_id a) of
         None \<Rightarrow> Err AgentApprovalNotFound
       | Some old \<Rightarrow> append_fleet_event e (store\<lparr>so_approvals := (so_approvals store)(fa_id a \<mapsto>
           old\<lparr>fa_state := fa_state a, fa_invalidation_code := fa_invalidation_code a,
               fa_decided_at_epoch_ms := fa_decided_at_epoch_ms a\<rparr>)\<rparr>)))"

definition persist_fleet_schedule ::
  "bool \<Rightarrow> hash_order \<Rightarrow> fleet_run \<Rightarrow> uuid list \<Rightarrow> fleet_event list \<Rightarrow> fleet_store \<Rightarrow>
   (unit, agent_store_error) result \<times> fleet_store" where
  "persist_fleet_schedule io hash_order run agents events =
     with_tx io (\<lambda>store. result_bind (write_fleet_run hash_order run False store) (\<lambda>store.
       result_bind (insert_agent_runs agents store) (append_fleet_events events)))"

text \<open>Loading an approval checks its digest and its policy hash.\<close>

definition get_fleet_approval ::
  "uuid \<Rightarrow> fleet_store \<Rightarrow> (fleet_approval option, agent_store_error) result" where
  "get_fleet_approval i store =
     (case so_approvals store i of
        None \<Rightarrow> Ok None
      | Some a \<Rightarrow> if length (fa_graph_digest a) \<noteq> 64 \<or> fa_policy_hash a = [] then Err StoreCorrupt
                  else Ok (Some a))"

section \<open>The service\<close>

record fleet_service =
  sf_active :: "uuid \<Rightarrow> fleet_run option"
  sf_store :: fleet_store

definition next_fleet_event_seq :: "uuid \<Rightarrow> fleet_store \<Rightarrow> nat" where
  "next_fleet_event_seq i store =
     (case so_events store i of [] \<Rightarrow> 1 | events \<Rightarrow> fe_seq (last (sort_key fe_seq events)) + 1)"

abbreviation set_live :: "fleet_run \<Rightarrow> uuid \<Rightarrow> fleet_service \<Rightarrow> fleet_service" where
  "set_live run i s \<equiv> s\<lparr>sf_active := (sf_active s)(i \<mapsto> run)\<rparr>"

definition fleet_event_of ::
  "uuid \<Rightarrow> nat \<Rightarrow> u64 \<Rightarrow> fleet_event_kind \<Rightarrow> fleet_run \<Rightarrow> uuid option \<Rightarrow> string option \<Rightarrow> fleet_event" where
  "fleet_event_of i seq now kind run approval code =
     \<lparr>fe_fleet_run_id = i, fe_seq = seq, fe_timestamp_ms = now, fe_kind = kind, fe_state = fr_state run,
      fe_approval_id = approval, fe_code = code\<rparr>"

text \<open>Storing after the live run was changed: \<open>.map_err(store_error)?; Ok(value)\<close>.\<close>

definition stored_or ::
  "'a \<Rightarrow> (unit, agent_store_error) result \<times> fleet_store \<Rightarrow> fleet_service \<Rightarrow>
   ('a, app_error) result \<times> fleet_service" where
  "stored_or value res s =
     (case res of
        (Ok _, store) \<Rightarrow> (Ok value, s\<lparr>sf_store := store\<rparr>)
      | (Err e, store) \<Rightarrow> (Err (store_error e), s\<lparr>sf_store := store\<rparr>)
      | (Panic, store) \<Rightarrow> (Panic, s\<lparr>sf_store := store\<rparr>))"

definition create_fleet_draft ::
  "bool \<Rightarrow> (bool \<Rightarrow> fleet_failure_policy \<Rightarrow> fleet_target_binding list \<Rightarrow> fleet_stage list \<Rightarrow> string) \<Rightarrow>
   hash_order \<Rightarrow> uuid \<Rightarrow> fleet_run_draft \<Rightarrow> u64 \<Rightarrow> fleet_service \<Rightarrow>
   (fleet_run, app_error) result \<times> fleet_service" where
  "create_fleet_draft io digest hash_order new_id request now s =
     (case fleet_draft digest hash_order new_id request now of
        Err e \<Rightarrow> (Err (fleet_plan_app_error e), s)
      | Panic \<Rightarrow> (Panic, s)
      | Ok run \<Rightarrow>
          (case insert_fleet_run io hash_order run (sf_store s) of
             (Ok _, store) \<Rightarrow> (Ok run, set_live run (fr_id run) (s\<lparr>sf_store := store\<rparr>))
           | (Err e, store) \<Rightarrow> (Err (store_error e), s\<lparr>sf_store := store\<rparr>)
           | (Panic, store) \<Rightarrow> (Panic, s\<lparr>sf_store := store\<rparr>)))"

fun fleet_transitions ::
  "fleet_run_state list \<Rightarrow> u64 \<Rightarrow> fleet_run \<Rightarrow> (unit, app_error) result \<times> fleet_run" where
  "fleet_transitions [] now run = (Ok (), run)"
| "fleet_transitions (next # rest) now run =
     (case fleet_transition_to next now run of
        Ok run \<Rightarrow> fleet_transitions rest now run
      | Err e \<Rightarrow> (Err (fleet_plan_app_error e), run)
      | Panic \<Rightarrow> (Panic, run))"

definition request_fleet_approval ::
  "bool \<Rightarrow> hash_order \<Rightarrow> uuid \<Rightarrow> u64 \<Rightarrow> uuid \<Rightarrow> u64 \<Rightarrow> u64 \<Rightarrow> string \<Rightarrow> fleet_service \<Rightarrow>
   (fleet_approval, app_error) result \<times> fleet_service" where
  "request_fleet_approval io hash_order new_id now i expected_version policy_version policy_hash s =
     (case sf_active s i of
        None \<Rightarrow> (Err (Remote InvalidOperation), s)
      | Some run \<Rightarrow>
          if fr_version run \<noteq> expected_version \<or> fr_recovery_state run \<noteq> FleetLive
          then (Err (Remote InvalidOperation), s)
          else (case fleet_transitions
                       [FleetValidatingTargets, FleetInvestigating, FleetPlanning, FleetAwaitingApproval]
                       now run of
                  (Err e, run) \<Rightarrow> (Err e, set_live run i s)
                | (Panic, run) \<Rightarrow> (Panic, set_live run i s)
                | (Ok _, run) \<Rightarrow>
                    (let s = set_live run i s in
                     case bind_fleet_approval new_id run policy_version policy_hash now of
                       Ok a \<Rightarrow>
                         stored_or a (insert_fleet_approval io hash_order run a
                             (fleet_event_of i (next_fleet_event_seq i (sf_store s)) now
                                EventApprovalRequired run (Some (fa_id a)) None) (sf_store s)) s
                     | _ \<Rightarrow> (Err (Remote InvalidOperation), s))))"

text \<open>The effect of a decision on the approval and the run.\<close>

definition apply_decision ::
  "bool \<Rightarrow> u64 \<Rightarrow> u64 \<Rightarrow> string \<Rightarrow> fleet_approval \<Rightarrow> fleet_run \<Rightarrow>
   (fleet_event_kind \<times> string option, app_error) result \<times> fleet_approval \<times> fleet_run" where
  "apply_decision grant now policy_version policy_hash a run =
     (case validate_fleet_approval a run policy_version policy_hash of
        Ok _ \<Rightarrow>
          (let a = decide_fleet (if grant then FleetApprovalGranted else FleetApprovalRejected) now a in
           case fleet_transition_to (if grant then FleetApproved else FleetPlanning) now run of
             Ok run \<Rightarrow> (Ok (if grant then EventApprovalGranted else EventApprovalRejected, None), a, run)
           | Err e \<Rightarrow> (Err (fleet_plan_app_error e), a, run)
           | Panic \<Rightarrow> (Panic, a, run))
      | Err reason \<Rightarrow>
          (let a = invalidate_fleet reason now a;
               ok = Ok (EventApprovalInvalidated, Some (fleet_approval_code_str reason)) in
           if fr_state run = FleetAwaitingApproval
           then (case fleet_transition_to FleetPlanning now run of
                   Ok run \<Rightarrow> (ok, a, run)
                 | Err e \<Rightarrow> (Err (fleet_plan_app_error e), a, run)
                 | Panic \<Rightarrow> (Panic, a, run))
           else (ok, a, run))
      | Panic \<Rightarrow> (Panic, a, run))"

definition decide_fleet_approval ::
  "bool \<Rightarrow> hash_order \<Rightarrow> u64 \<Rightarrow> uuid \<Rightarrow> uuid \<Rightarrow> bool \<Rightarrow> u64 \<Rightarrow> string \<Rightarrow> fleet_service \<Rightarrow>
   (fleet_approval, app_error) result \<times> fleet_service" where
  "decide_fleet_approval io hash_order now i approval_id grant policy_version policy_hash s =
     (case get_fleet_approval approval_id (sf_store s) of
        Err e \<Rightarrow> (Err (store_error e), s)
      | Panic \<Rightarrow> (Panic, s)
      | Ok None \<Rightarrow> (Err (Remote InvalidOperation), s)
      | Ok (Some a) \<Rightarrow>
          (case sf_active s i of
             None \<Rightarrow> (Err (Remote InvalidOperation), s)
           | Some run \<Rightarrow>
               if fa_fleet_run_id a \<noteq> i then (Err (Remote InvalidOperation), s)
               else (case apply_decision grant now policy_version policy_hash a run of
                       (Ok (kind, code), a, run) \<Rightarrow>
                         (let s = set_live run i s in
                          stored_or a (store_decision io hash_order run a
                             (fleet_event_of i (next_fleet_event_seq i (sf_store s)) now kind run
                                (Some (fa_id a)) code) (sf_store s)) s)
                     | (Err e, a, run) \<Rightarrow> (Err e, set_live run i s)
                     | (Panic, a, run) \<Rightarrow> (Panic, set_live run i s))))"

text \<open>
  The part of \<open>claim_fleet_children\<close> under the lock; the sessions of the targets were validated
  and the approval \<open>a\<close> and the policy identity read before.
\<close>

definition claim_fleet_children ::
  "bool \<Rightarrow> hash_order \<Rightarrow> (nat \<Rightarrow> uuid) \<Rightarrow> u64 \<Rightarrow> uuid \<Rightarrow> fleet_approval \<Rightarrow> u64 \<Rightarrow> string \<Rightarrow> nat \<Rightarrow>
   fleet_service \<Rightarrow> (fleet_child_lease list, app_error) result \<times> fleet_service" where
  "claim_fleet_children io hash_order new_id now i a policy_version policy_hash capacity s =
     (case sf_active s i of
        None \<Rightarrow> (Err (Remote InvalidOperation), s)
      | Some run \<Rightarrow>
          (case claim_ready new_id a policy_version policy_hash capacity now run of
             (Err e, run) \<Rightarrow> (Err (fleet_coordinator_app_error e), set_live run i s)
           | (Panic, run) \<Rightarrow> (Panic, set_live run i s)
           | (Ok leases, run) \<Rightarrow>
               (let s = set_live run i s;
                    first_seq = next_fleet_event_seq i (sf_store s);
                    events = map (\<lambda>k. fleet_event_of i (first_seq + k) now EventChildClaimed run
                                        (Some (fa_id a)) None) [0 ..< length leases]
                in stored_or leases (persist_fleet_schedule io hash_order run (map fl_agent_run_id leases)
                     events (sf_store s)) s)))"

definition record_fleet_child_outcome ::
  "bool \<Rightarrow> hash_order \<Rightarrow> u64 \<Rightarrow> uuid \<Rightarrow> uuid \<Rightarrow> fleet_child_outcome \<Rightarrow> string option \<Rightarrow> fleet_service \<Rightarrow>
   (fleet_run, app_error) result \<times> fleet_service" where
  "record_fleet_child_outcome io hash_order now i agent outcome code s =
     (case sf_active s i of
        None \<Rightarrow> (Err (Remote InvalidOperation), s)
      | Some run \<Rightarrow>
          (case record_outcome agent outcome code now run of
             (Err e, run) \<Rightarrow> (Err (fleet_coordinator_app_error e), set_live run i s)
           | (Panic, run) \<Rightarrow> (Panic, set_live run i s)
           | (Ok _, run) \<Rightarrow>
               (let s = set_live run i s in
                stored_or run (persist_fleet_schedule io hash_order run []
                  [fleet_event_of i (next_fleet_event_seq i (sf_store s)) now EventStateChanged run None code]
                  (sf_store s)) s)))"

definition continue_fleet ::
  "bool \<Rightarrow> hash_order \<Rightarrow> u64 \<Rightarrow> uuid \<Rightarrow> fleet_approval \<Rightarrow> u64 \<Rightarrow> string \<Rightarrow> fleet_service \<Rightarrow>
   (uuid list, app_error) result \<times> fleet_service" where
  "continue_fleet io hash_order now i a policy_version policy_hash s =
     (case sf_active s i of
        None \<Rightarrow> (Err (Remote InvalidOperation), s)
      | Some run \<Rightarrow>
          (case continue_after_review a policy_version policy_hash now run of
             (Err e, run) \<Rightarrow> (Err (fleet_coordinator_app_error e), set_live run i s)
           | (Panic, run) \<Rightarrow> (Panic, set_live run i s)
           | (Ok paused, run) \<Rightarrow>
               (let s = set_live run i s in
                stored_or paused (persist_fleet_schedule io hash_order run []
                  [fleet_event_of i (next_fleet_event_seq i (sf_store s)) now EventStateChanged run
                     (Some (fa_id a)) (Some ''FLEET_CONTINUED'')] (sf_store s)) s)))"

definition interrupt_fleet ::
  "bool \<Rightarrow> hash_order \<Rightarrow> u64 \<Rightarrow> uuid \<Rightarrow> bool \<Rightarrow> fleet_service \<Rightarrow> (uuid list, app_error) result \<times> fleet_service"
  where
  "interrupt_fleet io hash_order now i cancel s =
     (case sf_active s i of
        None \<Rightarrow> (Err (Remote InvalidOperation), s)
      | Some run \<Rightarrow>
          (case (if cancel then cancel_fleet_run now run else pause_fleet_run now run) of
             (Err e, run) \<Rightarrow> (Err (fleet_coordinator_app_error e), set_live run i s)
           | (Panic, run) \<Rightarrow> (Panic, set_live run i s)
           | (Ok children, run) \<Rightarrow>
               (let s = set_live run i s in
                stored_or children (persist_fleet_schedule io hash_order run []
                  [fleet_event_of i (next_fleet_event_seq i (sf_store s)) now EventStateChanged run None None]
                  (sf_store s)) s)))"

text \<open>
  Start-up: runs become metadata, those that were moving are interrupted, and no approval keeps
  its authority. The live runs are those of this process.
\<close>

definition recover_fleet_run :: "u64 \<Rightarrow> fleet_run \<Rightarrow> fleet_run" where
  "recover_fleet_run now run =
     (let run = run\<lparr>fr_recovery_state := FleetMetadataOnly\<rparr> in
      if fr_state run \<in> {FleetValidatingTargets, FleetInvestigating, FleetPlanning, FleetApproved,
                         FleetExecuting, FleetVerifying, FleetRollingBack}
      then run\<lparr>fr_state := FleetInterrupted, fr_updated_at_epoch_ms := now\<rparr> else run)"

definition recover_fleet_approval :: "u64 \<Rightarrow> fleet_approval \<Rightarrow> fleet_approval" where
  "recover_fleet_approval now a =
     (if fa_state a \<in> {FleetApprovalPending, FleetApprovalGranted}
      then a\<lparr>fa_state := FleetApprovalInvalidated,
             fa_invalidation_code := Some (fleet_approval_code_str FleetRecovered),
             fa_decided_at_epoch_ms := Some now\<rparr>
      else a)"

definition recover_fleet_runs :: "u64 \<Rightarrow> fleet_store \<Rightarrow> fleet_store" where
  "recover_fleet_runs now store =
     store\<lparr>so_runs := map_option (recover_fleet_run now) \<circ> so_runs store,
           so_approvals := map_option (recover_fleet_approval now) \<circ> so_approvals store\<rparr>"

definition opened_service :: "u64 \<Rightarrow> fleet_store \<Rightarrow> fleet_service" where
  "opened_service now store = \<lparr>sf_active = Map.empty, sf_store = recover_fleet_runs now store\<rparr>"

end
