(* ===== verification/Fleet_History.thy ===== *)
theory Fleet_History
  imports Fleet_Service
begin

text \<open>
  Every history of the fleet service: which moves a live run can make, under which approvals
  children are leased, and where a run can end.
\<close>

section \<open>Histories\<close>

text \<open>
  A history keeps, beside the service, the approvals that tasks have read from the tables - a
  claim uses one it read some time ago - and those that a user has granted.
\<close>

record fleet_log =
  lo_service :: fleet_service
  lo_read :: "fleet_approval list"
  lo_grants :: "fleet_approval list"

definition granted_now :: "bool \<Rightarrow> (fleet_approval, app_error) result \<Rightarrow> fleet_approval list" where
  "granted_now grant r =
     (case r of Ok a \<Rightarrow> if grant \<and> fa_state a = FleetApprovalGranted then [a] else [] | _ \<Rightarrow> [])"

inductive service_step :: "fleet_log \<Rightarrow> fleet_log \<Rightarrow> bool" where
  created: "create_fleet_draft io digest hash_order new_id request now (lo_service l) = (res1, s) \<Longrightarrow>
     sf_active (lo_service l) new_id = None \<Longrightarrow> service_step l (l\<lparr>lo_service := s\<rparr>)"
| requested: "request_fleet_approval io hash_order new_id now i v pv ph (lo_service l) = (res2, s) \<Longrightarrow>
     service_step l (l\<lparr>lo_service := s\<rparr>)"
| approval_read: "get_fleet_approval aid (sf_store (lo_service l)) = Ok (Some a) \<Longrightarrow>
     service_step l (l\<lparr>lo_read := a # lo_read l\<rparr>)"
| decided: "decide_fleet_approval io hash_order now i aid grant pv ph (lo_service l) = (res2, s) \<Longrightarrow>
     service_step l (l\<lparr>lo_service := s, lo_grants := granted_now grant res2 @ lo_grants l\<rparr>)"
| claimed: "a \<in> set (lo_read l) \<Longrightarrow>
     claim_fleet_children io hash_order ids now i a pv ph n (lo_service l) = (res3, s) \<Longrightarrow>
     service_step l (l\<lparr>lo_service := s\<rparr>)"
| recorded: "record_fleet_child_outcome io hash_order now i agent outcome code (lo_service l) = (res1, s) \<Longrightarrow>
     service_step l (l\<lparr>lo_service := s\<rparr>)"
| continued: "a \<in> set (lo_read l) \<Longrightarrow>
     continue_fleet io hash_order now i a pv ph (lo_service l) = (res4, s) \<Longrightarrow>
     service_step l (l\<lparr>lo_service := s\<rparr>)"
| interrupted: "interrupt_fleet io hash_order now i cancel (lo_service l) = (res4, s) \<Longrightarrow>
     service_step l (l\<lparr>lo_service := s\<rparr>)"

inductive_cases service_stepE: "service_step l l'"

section \<open>The moves of a live run\<close>

definition fleet_moves :: "fleet_run_state \<Rightarrow> fleet_run_state set" where
  "fleet_moves state =
     {state} \<union> (if fleet_terminal state then {} else {FleetCancelled})
     \<union> (case state of
          FleetDraft \<Rightarrow> {FleetAwaitingApproval}
        | FleetAwaitingApproval \<Rightarrow> {FleetApproved, FleetPlanning}
        | FleetApproved \<Rightarrow> {FleetExecuting}
        | FleetExecuting \<Rightarrow> {FleetFailed, FleetPausedForReview, FleetRollingBack, FleetVerifying}
        | FleetPausedForReview \<Rightarrow> {FleetExecuting}
        | _ \<Rightarrow> {})"

lemma fleet_moves_refl [simp]: "state \<in> fleet_moves state"
  by (simp add: fleet_moves_def)

lemma transition_to_state:
  "fleet_transition_to next now run = Ok run' \<Longrightarrow>
     fr_state run' = next \<and> fleet_can_transition (fr_state run) next \<and> fr_recovery_state run = FleetLive"
  by (auto simp: fleet_transition_to_def split: if_splits)

lemma transition_or_state:
  "fleet_transition_or next now run = (r, run') \<Longrightarrow>
     fr_state run' = next \<or> (fr_state run' = fr_state run \<and> r \<noteq> Ok ())"
  by (auto simp: fleet_transition_or_def split: result.splits dest: transition_to_state)

lemma claim_children_state:
  "claim_children new_id a pv ph n now run = (r, run') \<Longrightarrow> fr_state run' = fr_state run"
  by (auto simp: claim_children_def refresh_blocked_stages_def Let_def split: prod.splits result.splits)

lemma claim_ready_moves:
  assumes "claim_ready new_id a pv ph n now run = (r, run')"
  shows "fr_state run' \<in> fleet_moves (fr_state run)"
  using assms claim_children_state
  by (auto simp: claim_ready_def fleet_moves_def split: result.splits if_splits dest!: transition_to_state)

lemma set_active_state [simp]: "fr_state (set_active_children state run) = fr_state run"
  by (simp add: set_active_children_def)

lemma refresh_stage_state [simp]: "fr_state (refresh_stage i run) = fr_state run"
  by (simp add: refresh_stage_def)

lemma apply_failure_moves:
  "apply_failure_policy now run = (r, run') \<Longrightarrow> fr_state run = FleetExecuting \<Longrightarrow>
     fr_state run' \<in> {FleetExecuting, FleetFailed, FleetPausedForReview, FleetRollingBack}"
  by (auto simp: apply_failure_policy_def failure_next_def split: if_splits fleet_failure_policy.splits
      dest!: transition_or_state)

lemma finish_outcome_moves:
  assumes "finish_outcome now run = (r, run')"
  shows "fr_state run' = fr_state run \<or> (fr_state run = FleetExecuting \<and> fr_state run' = FleetVerifying)"
proof (cases "fr_state run = FleetExecuting \<and> list_all (\<lambda>s. fs_state s = StageSucceeded) (fr_stages run)")
  case True
  obtain r1 run1 where t: "fleet_transition_or FleetVerifying now run = (r1, run1)" by fastforce
  with assms True have "fr_state run' = fr_state run1"
    by (auto simp: finish_outcome_def split: result.splits)
  with transition_or_state [OF t] True show ?thesis by auto
next
  case False
  then show ?thesis
    using assms by (cases "fr_state run = FleetPausedForReview") (auto simp: finish_outcome_def Let_def)
qed

lemma record_outcome_moves:
  assumes "record_outcome agent outcome code now run = (r, run')"
  shows "fr_state run' \<in> fleet_moves (fr_state run)"
proof (cases "run' = run")
  case False
  obtain child run1 r2 run2 where start: "fr_state run = FleetExecuting"
    and "find (\<lambda>c. fc_agent_run_id c = Some agent \<and> child_active (fc_state c)) (fr_children run) = Some child"
    and run1: "run1 = refresh_stage (fc_stage_id child) (run\<lparr>fr_children :=
        update_first (\<lambda>c. fc_agent_run_id c = Some agent \<and> child_active (fc_state c))
          (\<lambda>c. c\<lparr>fc_state := outcome_state outcome, fc_error_code := code\<rparr>) (fr_children run)\<rparr>)"
    and p: "apply_failure_policy now run1 = (r2, run2)"
    and fin: "run' = run2 \<or> (\<exists>r. finish_outcome now run2 = (r, run'))"
    by (rule record_outcome_changed [OF assms False])
  have "fr_state run1 = FleetExecuting" using start run1 by simp
  from apply_failure_moves [OF p this] fin finish_outcome_moves show ?thesis
    unfolding start by (fastforce simp: fleet_moves_def)
qed simp

lemma pause_moves: "pause_fleet_run now run = (r, run') \<Longrightarrow> fr_state run' \<in> fleet_moves (fr_state run)"
  by (auto simp: pause_fleet_run_def fleet_moves_def split: if_splits result.splits
      dest: transition_to_state)

lemma continue_moves:
  "continue_after_review a pv ph now run = (r, run') \<Longrightarrow> fr_state run' \<in> fleet_moves (fr_state run)"
  by (auto simp: continue_after_review_def validate_authority_for_states_def fleet_moves_def Let_def
      reopen_stages_def split: if_splits result.splits dest!: transition_to_state)

lemma cancel_moves: "cancel_fleet_run now run = (r, run') \<Longrightarrow> fr_state run' \<in> fleet_moves (fr_state run)"
  by (auto simp: cancel_fleet_run_def fleet_moves_def Let_def split: if_splits result.splits
      dest!: transition_to_state)

lemma request_moves:
  assumes "fleet_transitions [FleetValidatingTargets, FleetInvestigating, FleetPlanning, FleetAwaitingApproval]
      now run = (r, run')" and "fr_recovery_state run = FleetLive"
  shows "fr_state run' \<in> fleet_moves (fr_state run)"
  using assms
  by (cases "fr_state run")
    (auto simp: fleet_transition_to_def fleet_can_transition_def fleet_terminal_def fleet_moves_def)

lemma decision_moves:
  "apply_decision grant now pv ph a run = (r, a', run') \<Longrightarrow> fr_state run' \<in> fleet_moves (fr_state run)"
  by (auto simp: apply_decision_def validate_fleet_approval_def fleet_moves_def Let_def
      split: if_splits result.splits dest!: transition_to_state)

section \<open>The moves of the service\<close>

definition live_moves :: "fleet_service \<Rightarrow> fleet_service \<Rightarrow> bool" where
  "live_moves s s' \<longleftrightarrow>
     (\<forall>i. case sf_active s i of
        None \<Rightarrow> (case sf_active s' i of None \<Rightarrow> True | Some run \<Rightarrow> fr_state run = FleetDraft)
      | Some run \<Rightarrow> (case sf_active s' i of None \<Rightarrow> False
                     | Some run' \<Rightarrow> fr_state run' \<in> fleet_moves (fr_state run)))"

lemma live_moves_same: "sf_active s' = sf_active s \<Longrightarrow> live_moves s s'"
  by (simp add: live_moves_def split: option.splits)

lemma live_moves_set:
  "sf_active s i = Some run \<Longrightarrow> fr_state run' \<in> fleet_moves (fr_state run) \<Longrightarrow>
   sf_active s' = (sf_active s)(i \<mapsto> run') \<Longrightarrow> live_moves s s'"
  by (auto simp: live_moves_def split: option.splits)

lemma stored_or_active: "stored_or v res s = (r, s') \<Longrightarrow> sf_active s' = sf_active s"
  by (auto simp: stored_or_def split: prod.splits result.splits)

text \<open>An operation on one live run changes this run by one of its moves, and the tables.\<close>

definition changes_run :: "uuid \<Rightarrow> fleet_service \<Rightarrow> fleet_service \<Rightarrow> bool" where
  "changes_run i s s' \<longleftrightarrow>
     sf_active s' = sf_active s
     \<or> (\<exists>run run'. sf_active s i = Some run \<and> fr_state run' \<in> fleet_moves (fr_state run)
          \<and> sf_active s' = (sf_active s)(i \<mapsto> run'))"

lemma changes_run_moves: "changes_run i s s' \<Longrightarrow> live_moves s s'"
  unfolding changes_run_def using live_moves_same live_moves_set by metis

lemma changes_runI:
  "sf_active s i = Some run \<Longrightarrow> fr_state run' \<in> fleet_moves (fr_state run) \<Longrightarrow>
   sf_active s' = (sf_active s)(i \<mapsto> run') \<Longrightarrow> changes_run i s s'"
  unfolding changes_run_def by blast

lemma changes_run_same: "changes_run i s s"
  by (simp add: changes_run_def)

lemma create_moves:
  assumes "create_fleet_draft io digest hash_order new_id request now s = (r, s')"
    and "sf_active s new_id = None"
  shows "live_moves s s'"
proof (cases "sf_active s' = sf_active s")
  case False
  then obtain run where run: "fleet_draft digest hash_order new_id request now = Ok run"
    and s': "sf_active s' = (sf_active s)(fr_id run \<mapsto> run)"
    using assms(1) by (auto simp: create_fleet_draft_def split: result.splits prod.splits)
  from run have "fr_id run = new_id" "fr_state run = FleetDraft"
    by (auto simp: fleet_draft_def result_simps)
  with s' assms(2) show ?thesis by (auto simp: live_moves_def split: option.splits)
qed (rule live_moves_same)

lemma request_changes:
  assumes "request_fleet_approval io hash_order new_id now i v pv ph s = (r, s')"
  shows "changes_run i s s'"
proof (cases "sf_active s i")
  case None
  with assms show ?thesis by (simp add: request_fleet_approval_def changes_run_def)
next
  case (Some run)
  show ?thesis
  proof (cases "fr_version run \<noteq> v \<or> fr_recovery_state run \<noteq> FleetLive")
    case True
    with assms Some show ?thesis by (simp add: request_fleet_approval_def changes_run_def)
  next
    case False
    obtain r1 run1 where t: "fleet_transitions
        [FleetValidatingTargets, FleetInvestigating, FleetPlanning, FleetAwaitingApproval] now run = (r1, run1)"
      by fastforce
    have "sf_active s' = (sf_active s)(i \<mapsto> run1)"
      using assms Some False t unfolding request_fleet_approval_def
      by (auto simp: Let_def split: result.splits dest!: stored_or_active)
    with request_moves [OF t] False Some show ?thesis by (blast intro: changes_runI)
  qed
qed

lemma decide_changes:
  assumes "decide_fleet_approval io hash_order now i aid grant pv ph s = (r, s')"
  shows "changes_run i s s'"
proof (cases "sf_active s' = sf_active s")
  case False
  then obtain a run where run: "sf_active s i = Some run" and id: "fa_fleet_run_id a = i"
    and a: "get_fleet_approval aid (sf_store s) = Ok (Some a)"
    using assms by (auto simp: decide_fleet_approval_def split: result.splits option.splits if_splits)
  obtain r1 a1 run1 where d: "apply_decision grant now pv ph a run = (r1, a1, run1)" by (metis prod_cases3)
  have "sf_active s' = (sf_active s)(i \<mapsto> run1)"
    using assms run id a d unfolding decide_fleet_approval_def
    by (auto simp: Let_def split: result.splits dest!: stored_or_active)
  with decision_moves [OF d] run show ?thesis by (blast intro: changes_runI)
qed (simp add: changes_run_def)

lemma claim_changes:
  assumes "claim_fleet_children io hash_order ids now i a pv ph n s = (r, s')"
  shows "changes_run i s s'"
proof (cases "sf_active s i")
  case (Some run)
  obtain r1 run1 where c: "claim_ready ids a pv ph n now run = (r1, run1)" by fastforce
  have "sf_active s' = (sf_active s)(i \<mapsto> run1)"
    using assms Some c unfolding claim_fleet_children_def
    by (auto simp: Let_def split: result.splits dest!: stored_or_active)
  with claim_ready_moves [OF c] Some show ?thesis by (blast intro: changes_runI)
qed (use assms in \<open>simp add: claim_fleet_children_def changes_run_def\<close>)

lemma record_changes:
  assumes "record_fleet_child_outcome io hash_order now i agent outcome code s = (r, s')"
  shows "changes_run i s s'"
proof (cases "sf_active s i")
  case (Some run)
  obtain r1 run1 where c: "record_outcome agent outcome code now run = (r1, run1)" by fastforce
  have "sf_active s' = (sf_active s)(i \<mapsto> run1)"
    using assms Some c unfolding record_fleet_child_outcome_def
    by (auto simp: Let_def split: result.splits dest!: stored_or_active)
  with record_outcome_moves [OF c] Some show ?thesis by (blast intro: changes_runI)
qed (use assms in \<open>simp add: record_fleet_child_outcome_def changes_run_def\<close>)

lemma continue_changes:
  assumes "continue_fleet io hash_order now i a pv ph s = (r, s')"
  shows "changes_run i s s'"
proof (cases "sf_active s i")
  case (Some run)
  obtain r1 run1 where c: "continue_after_review a pv ph now run = (r1, run1)" by fastforce
  have "sf_active s' = (sf_active s)(i \<mapsto> run1)"
    using assms Some c unfolding continue_fleet_def
    by (auto simp: Let_def split: result.splits dest!: stored_or_active)
  with continue_moves [OF c] Some show ?thesis by (blast intro: changes_runI)
qed (use assms in \<open>simp add: continue_fleet_def changes_run_def\<close>)

lemma interrupt_changes:
  assumes "interrupt_fleet io hash_order now i cancel s = (r, s')"
  shows "changes_run i s s'"
proof (cases "sf_active s i")
  case (Some run)
  obtain r1 run1 where c: "(if cancel then cancel_fleet_run now run else pause_fleet_run now run) = (r1, run1)"
    by fastforce
  then have "fr_state run1 \<in> fleet_moves (fr_state run)"
    using cancel_moves pause_moves by (metis (full_types))
  moreover have "sf_active s' = (sf_active s)(i \<mapsto> run1)"
    using assms Some c unfolding interrupt_fleet_def
    by (auto simp: Let_def split: result.splits dest!: stored_or_active)
  ultimately show ?thesis using Some by (blast intro: changes_runI)
qed (use assms in \<open>simp add: interrupt_fleet_def changes_run_def\<close>)

lemma service_step_moves: "service_step l l' \<Longrightarrow> live_moves (lo_service l) (lo_service l')"
  by (elim service_stepE)
    (auto intro: create_moves changes_run_moves live_moves_same
      dest: request_changes decide_changes claim_changes record_changes continue_changes interrupt_changes)

section \<open>Where a run can end\<close>

definition starting_log :: "u64 \<Rightarrow> fleet_store \<Rightarrow> fleet_log" where
  "starting_log now store =
     \<lparr>lo_service = opened_service now store, lo_read = [], lo_grants = []\<rparr>"

abbreviation live_run :: "fleet_log \<Rightarrow> uuid \<Rightarrow> fleet_run option" where
  "live_run l i \<equiv> sf_active (lo_service l) i"

text \<open>A set of states that no move leaves keeps every run that is in it.\<close>

lemma live_run_stays:
  assumes "service_step\<^sup>*\<^sup>* l l'" and "live_run l i = Some run" and "fr_state run \<in> S"
    and "\<And>state. state \<in> S \<Longrightarrow> fleet_moves state \<subseteq> S"
  shows "\<exists>run'. live_run l' i = Some run' \<and> fr_state run' \<in> S"
  using assms(1)
proof (induction rule: rtranclp_induct)
  case (step l1 l2)
  then obtain run1 where run1: "live_run l1 i = Some run1" "fr_state run1 \<in> S" by blast
  from service_step_moves [OF step(2)] run1(1) obtain run2 where
    "live_run l2 i = Some run2" "fr_state run2 \<in> fleet_moves (fr_state run1)"
    by (auto simp: live_moves_def split: option.splits dest!: spec [of _ i])
  with assms(4) [OF run1(2)] show ?case by blast
qed (use assms in blast)

lemma live_run_reached:
  assumes "service_step\<^sup>*\<^sup>* l l'" and "\<And>i run. live_run l i = Some run \<Longrightarrow> fr_state run \<in> S"
    and "FleetDraft \<in> S" and "\<And>state. state \<in> S \<Longrightarrow> fleet_moves state \<subseteq> S"
  shows "live_run l' i = Some run \<Longrightarrow> fr_state run \<in> S"
  using assms(1)
proof (induction arbitrary: i run rule: rtranclp_induct)
  case (step l1 l2)
  from service_step_moves [OF step(2)] have
    "case live_run l1 i of
        None \<Rightarrow> (case live_run l2 i of None \<Rightarrow> True | Some run \<Rightarrow> fr_state run = FleetDraft)
      | Some run \<Rightarrow> (case live_run l2 i of None \<Rightarrow> False
                     | Some run' \<Rightarrow> fr_state run' \<in> fleet_moves (fr_state run))"
    by (simp add: live_moves_def)
  with step.prems step.IH assms(3,4) show ?case by (fastforce split: option.splits)
qed (use assms in blast)

text \<open>
  C8. No fleet ever finishes. Whatever is decided and whatever the children do, a run of this
  process is never succeeded nor rolled back: when every stage has succeeded it is left
  verifying, when its failure policy is to roll back it is left rolling back, and from both
  the only way on is to cancel it. A plan that was rejected, or whose approval was invalidated
  because the policy changed, is left planning and cannot be submitted again either.
\<close>

theorem fleet_never_finishes:
  assumes "service_step\<^sup>*\<^sup>* (starting_log now store) l" and "live_run l i = Some run"
  shows "fr_state run \<notin> {FleetSucceeded, FleetRolledBack, FleetRollbackFailed}
    \<and> (fr_state run \<in> {FleetVerifying, FleetRollingBack, FleetPlanning} \<and> service_step\<^sup>*\<^sup>* l l' \<longrightarrow>
         (\<exists>run'. live_run l' i = Some run' \<and> fr_state run' \<in> {fr_state run, FleetCancelled}))"
proof -
  let ?S = "{FleetDraft, FleetAwaitingApproval, FleetPlanning, FleetApproved, FleetExecuting,
      FleetPausedForReview, FleetVerifying, FleetRollingBack, FleetFailed, FleetCancelled}"
  have "fr_state run \<in> ?S"
  proof (rule live_run_reached [OF assms(1) _ _ _ assms(2)])
    show "fleet_moves state \<subseteq> ?S" if "state \<in> ?S" for state
      using that by (auto simp: fleet_moves_def fleet_terminal_def)
  qed (simp_all add: starting_log_def opened_service_def)
  moreover have "\<exists>run'. live_run l' i = Some run' \<and> fr_state run' \<in> {fr_state run, FleetCancelled}"
    if "fr_state run \<in> {FleetVerifying, FleetRollingBack, FleetPlanning}" "service_step\<^sup>*\<^sup>* l l'"
  proof (rule live_run_stays [OF that(2) assms(2)])
    show "fleet_moves state \<subseteq> {fr_state run, FleetCancelled}" if "state \<in> {fr_state run, FleetCancelled}" for state
      using that \<open>fr_state run \<in> {FleetVerifying, FleetRollingBack, FleetPlanning}\<close>
      by (auto simp: fleet_moves_def fleet_terminal_def)
  qed simp
  ultimately show ?thesis by auto
qed

section \<open>Leases are given as granted\<close>

definition child_of_lease :: "fleet_child_lease \<Rightarrow> fleet_child_run" where
  "child_of_lease x =
     \<lparr>fc_stage_id = fl_stage_id x, fc_target_id = fb_profile_id (fl_target x),
      fc_agent_run_id = Some (fl_agent_run_id x), fc_attempt = fl_attempt x, fc_state = StageRunning,
      fc_error_code = None\<rparr>"

definition lease_bound :: "claim_context \<Rightarrow> fleet_child_lease \<Rightarrow> bool" where
  "lease_bound cc x \<longleftrightarrow>
     fl_fleet_run_id x = fr_id (cc_run cc) \<and> fl_fleet_version x = fr_version (cc_run cc)
     \<and> fl_graph_digest x = fr_graph_digest (cc_run cc) \<and> fl_approval_id x = cc_approval_id cc
     \<and> fl_policy_version x = cc_policy_version cc \<and> fl_policy_hash x = cc_policy_hash cc
     \<and> fl_target x \<in> set (fr_targets (cc_run cc))"

definition leased :: "claim_context \<Rightarrow> claim_state \<Rightarrow> claim_state \<Rightarrow> bool" where
  "leased cc a a' \<longleftrightarrow>
     (\<exists>new. ca_leases a' = ca_leases a @ new \<and> ca_children a' = ca_children a @ map child_of_lease new
        \<and> list_all (lease_bound cc) new)"

lemma leased_refl: "ca_leases a' = ca_leases a \<Longrightarrow> ca_children a' = ca_children a \<Longrightarrow> leased cc a a'"
  by (simp add: leased_def)

lemma leased_trans: "leased cc a b \<Longrightarrow> leased cc b c \<Longrightarrow> leased cc a c"
  unfolding leased_def by (metis append.assoc list_all_append map_append)

lemma leased_child:
  assumes "find (\<lambda>b. fb_profile_id b = t) (rev (fr_targets (cc_run cc))) = Some b"
  shows "leased cc a (lease_child cc s b t a)"
  using find_Some_set [OF assms]
  by (auto simp: leased_def lease_child_def Let_def child_of_lease_def lease_bound_def)

lemma claim_targets_leased: "claim_targets cc s ready done ts a = (r, a') \<Longrightarrow> leased cc a a'"
proof (induction cc s ready "done" ts a arbitrary: r a' rule: claim_targets.induct)
  case (2 cc s ready "done" t ts a)
  show ?case
  proof (cases "find (\<lambda>b. fb_profile_id b = t) (rev (fr_targets (cc_run cc)))")
    case None
    with 2(1,2,4) show ?thesis by (auto intro: leased_refl split: if_splits)
  next
    case (Some b)
    note one = leased_child [OF Some, of a s]
    show ?thesis
      using 2(1,2,3,4) Some one
      by (auto simp: Let_def intro: leased_refl leased_trans [OF one] split: if_splits)
  qed
qed (simp add: leased_refl)

lemma claim_stage_leased: "claim_stage cc s a = (r, s', a') \<Longrightarrow> leased cc a a'"
  unfolding claim_stage_def Let_def
  by (auto simp: leased_def split: if_splits prod.splits dest!: claim_targets_leased)

lemma claim_stages_leased: "claim_stages cc ss a = (r, ss', a') \<Longrightarrow> leased cc a a'"
proof (induction cc ss a arbitrary: r ss' a' rule: claim_stages.induct)
  case (2 cc s ss a)
  show ?case
  proof (cases "ca_capacity a = 0 \<or> \<not> stage_claimable cc s")
    case True
    with 2 show ?thesis by (auto split: prod.splits)
  next
    case False
    obtain r1 s1 a1 where st: "claim_stage cc s a = (r1, s1, a1)" by (metis prod_cases3)
    note one = claim_stage_leased [OF st]
    show ?thesis
    proof (cases r1)
      case (Ok u)
      with st have st': "claim_stage cc s a = (Ok (), s1, a1)" by simp
      show ?thesis
        using 2(2) [OF False st' [symmetric] refl refl] 2(3) False st' one
        by (auto split: prod.splits intro: leased_trans)
    qed (use 2(3) False st one in auto)
  qed
qed (simp add: leased_refl)

definition authorized_by :: "fleet_approval \<Rightarrow> u64 \<Rightarrow> string \<Rightarrow> fleet_run \<Rightarrow> bool" where
  "authorized_by a pv ph run \<longleftrightarrow>
     fr_recovery_state run = FleetLive \<and> fa_state a = FleetApprovalGranted
     \<and> fa_fleet_run_id a = fr_id run \<and> fa_fleet_version a = fr_version run
     \<and> fa_graph_digest a = fr_graph_digest run \<and> fa_targets a = fr_targets run
     \<and> fa_policy_version a = pv \<and> fa_policy_hash a = ph"

lemma claim_children_Ok:
  assumes "claim_children new_id a pv ph n now run = (Ok leases, run')"
  shows "fr_children run' = fr_children run @ map child_of_lease leases \<and> fr_id run' = fr_id run
    \<and> list_all (\<lambda>x. fl_approval_id x = fa_id a \<and> fl_target x \<in> set (fr_targets run)) leases"
proof -
  let ?run = "refresh_blocked_stages run"
  let ?active = "length (filter (\<lambda>c. child_active (fc_state c)) (fr_children ?run))"
  let ?cc = "\<lparr>cc_run = ?run, cc_approval_id = fa_id a, cc_policy_version = pv, cc_policy_hash = ph,
      cc_new_id = new_id,
      cc_succeeded = map fs_id (filter (\<lambda>s. fs_state s = StageSucceeded) (fr_stages ?run))\<rparr>"
  let ?a = "\<lparr>ca_children = fr_children ?run, ca_leases = [],
      ca_capacity = min n MAX_FLEET_ACTIVE_CHILDREN - ?active, ca_available = 0\<rparr>"
  obtain r1 stages ca where cl: "claim_stages ?cc (fr_stages ?run) ?a = (r1, stages, ca)"
    by (metis prod_cases3)
  have frame: "fr_targets ?run = fr_targets run" "fr_children ?run = fr_children run" "fr_id ?run = fr_id run"
    by (simp_all add: refresh_blocked_stages_def Let_def)
  have "ca_leases ca = leases" "fr_children run' = ca_children ca" "fr_id run' = fr_id run"
    using assms cl frame(3) by (auto simp: claim_children_def Let_def split: result.splits)
  with claim_stages_leased [OF cl] frame show ?thesis
    by (auto simp: leased_def lease_bound_def list_all_iff)
qed

lemma claim_ready_Ok:
  assumes "claim_ready new_id a pv ph n now run = (Ok leases, run')" and "leases \<noteq> []"
  shows "authorized_by a pv ph run \<and> fr_children run' = fr_children run @ map child_of_lease leases
    \<and> fr_id run' = fr_id run
    \<and> list_all (\<lambda>x. fl_approval_id x = fa_id a \<and> fl_target x \<in> set (fr_targets run)) leases"
proof -
  have auth: "authorized_by a pv ph run"
    using assms(1) by (auto simp: claim_ready_def validate_authority_def validate_authority_for_states_def
        authorized_by_def split: if_splits)
  let ?started = "run\<lparr>fr_state := FleetExecuting, fr_updated_at_epoch_ms := now\<rparr>"
  have started: "claim_children new_id a pv ph n now run = (Ok leases, run')
      \<or> claim_children new_id a pv ph n now ?started = (Ok leases, run')"
    using assms by (auto simp: claim_ready_def fleet_transition_to_def split: result.splits if_splits)
  obtain run1 where same: "fr_children run1 = fr_children run" "fr_id run1 = fr_id run"
    "fr_targets run1 = fr_targets run"
    and c: "claim_children new_id a pv ph n now run1 = (Ok leases, run')"
    using started that [of run] that [of ?started] by fastforce
  from claim_children_Ok [OF c] auth show ?thesis by (simp add: same)
qed

lemma write_fleet_run_Ok:
  "write_fleet_run hash_order run b store = Ok store' \<Longrightarrow>
     so_approvals store' = so_approvals store \<and> so_agent_runs store' = so_agent_runs store
     \<and> (\<exists>row. so_runs store' (fr_id run) = Some row \<and> fr_children row = fr_children run)"
  by (auto simp: write_fleet_run_def split: result.splits option.splits if_splits)

lemma append_fleet_event_Ok:
  "append_fleet_event e store = Ok store' \<Longrightarrow>
     so_approvals store' = so_approvals store \<and> so_agent_runs store' = so_agent_runs store
     \<and> so_runs store' = so_runs store"
  by (auto simp: append_fleet_event_def Let_def split: if_splits)

lemma append_fleet_events_Ok:
  "append_fleet_events es store = Ok store' \<Longrightarrow>
     so_approvals store' = so_approvals store \<and> so_agent_runs store' = so_agent_runs store
     \<and> so_runs store' = so_runs store"
  by (induction es arbitrary: store) (fastforce simp: result_simps dest: append_fleet_event_Ok)+

lemma insert_agent_runs_Ok:
  "insert_agent_runs ids store = Ok store' \<Longrightarrow>
     so_approvals store' = so_approvals store \<and> so_agent_runs store' = so_agent_runs store @ ids
     \<and> so_runs store' = so_runs store"
  by (induction ids arbitrary: store) (fastforce split: if_splits)+

lemma with_tx_cases:
  "with_tx io f store = (r, store') \<Longrightarrow> (r = Ok () \<and> f store = Ok store') \<or> (r \<noteq> Ok () \<and> store' = store)"
  by (auto simp: with_tx_def split: if_splits result.splits)

lemma persist_schedule_approvals:
  "persist_fleet_schedule io hash_order run ids es store = (r, store') \<Longrightarrow>
     so_approvals store' = so_approvals store"
  unfolding persist_fleet_schedule_def
  by (drule with_tx_cases)
    (auto simp: result_simps dest!: write_fleet_run_Ok insert_agent_runs_Ok append_fleet_events_Ok)

lemma persist_schedule_Ok:
  "persist_fleet_schedule io hash_order run ids es store = (Ok (), store') \<Longrightarrow>
     so_agent_runs store' = so_agent_runs store @ ids
     \<and> (\<exists>row. so_runs store' (fr_id run) = Some row \<and> fr_children row = fr_children run)"
  unfolding persist_fleet_schedule_def
  by (drule with_tx_cases)
    (auto simp: result_simps dest!: write_fleet_run_Ok insert_agent_runs_Ok append_fleet_events_Ok)

lemma stored_or_store:
  "stored_or v (r, store) s = (r', s') \<Longrightarrow> sf_store s' = store \<and> (r' = Ok w \<longrightarrow> r = Ok () \<and> w = v)"
  by (auto simp: stored_or_def split: result.splits)

lemma stored_or_Ok:
  "stored_or v res s = (Ok w, s') \<Longrightarrow> w = v \<and> (\<exists>store. res = (Ok (), store) \<and> s' = s\<lparr>sf_store := store\<rparr>)"
  by (auto simp: stored_or_def split: prod.splits result.splits)

subsection \<open>A granted approval was granted by the user\<close>

definition keyed :: "fleet_store \<Rightarrow> bool" where
  "keyed store \<longleftrightarrow> (\<forall>i a. so_approvals store i = Some a \<longrightarrow> fa_id a = i)"

definition grants_ok :: "fleet_log \<Rightarrow> bool" where
  "grants_ok l \<longleftrightarrow>
     (\<forall>i a. so_approvals (sf_store (lo_service l)) i = Some a \<longrightarrow>
        fa_id a = i \<and> (fa_state a = FleetApprovalGranted \<longrightarrow> a \<in> set (lo_grants l)))
     \<and> (\<forall>a \<in> set (lo_read l). fa_state a = FleetApprovalGranted \<longrightarrow> a \<in> set (lo_grants l))"

lemma grants_ok_same:
  "grants_ok l \<Longrightarrow> so_approvals (sf_store s) = so_approvals (sf_store (lo_service l)) \<Longrightarrow>
   grants_ok (l\<lparr>lo_service := s\<rparr>)"
  by (simp add: grants_ok_def)

lemma stored_schedule_approvals:
  "stored_or v (persist_fleet_schedule io hash_order run ids es store) s = (r, s') \<Longrightarrow>
     so_approvals (sf_store s') = so_approvals store"
  by (cases "persist_fleet_schedule io hash_order run ids es store")
    (auto simp: stored_or_def dest!: persist_schedule_approvals split: result.splits)

lemma create_approvals:
  "create_fleet_draft io digest hash_order new_id request now s = (r, s') \<Longrightarrow>
     so_approvals (sf_store s') = so_approvals (sf_store s)"
proof -
  have "insert_fleet_run io hash_order run store = (r', store') \<Longrightarrow> so_approvals store' = so_approvals store"
    for run store r' store'
    unfolding insert_fleet_run_def
    by (drule with_tx_cases) (auto simp: result_simps dest!: write_fleet_run_Ok append_fleet_event_Ok)
  then show "create_fleet_draft io digest hash_order new_id request now s = (r, s') \<Longrightarrow> ?thesis"
    by (auto simp: create_fleet_draft_def split: result.splits prod.splits)
qed

lemma claim_approvals:
  "claim_fleet_children io hash_order ids now i a pv ph n s = (r, s') \<Longrightarrow>
     so_approvals (sf_store s') = so_approvals (sf_store s)"
  by (auto simp: claim_fleet_children_def Let_def split: option.splits result.splits prod.splits
      dest!: stored_schedule_approvals)

lemma record_approvals:
  "record_fleet_child_outcome io hash_order now i agent outcome code s = (r, s') \<Longrightarrow>
     so_approvals (sf_store s') = so_approvals (sf_store s)"
  by (auto simp: record_fleet_child_outcome_def Let_def split: option.splits result.splits prod.splits
      dest!: stored_schedule_approvals)

lemma continue_approvals:
  "continue_fleet io hash_order now i a pv ph s = (r, s') \<Longrightarrow>
     so_approvals (sf_store s') = so_approvals (sf_store s)"
  by (auto simp: continue_fleet_def Let_def split: option.splits result.splits prod.splits
      dest!: stored_schedule_approvals)

lemma interrupt_approvals:
  "interrupt_fleet io hash_order now i cancel s = (r, s') \<Longrightarrow>
     so_approvals (sf_store s') = so_approvals (sf_store s)"
  by (auto simp: interrupt_fleet_def Let_def split: option.splits result.splits prod.splits
      dest!: stored_schedule_approvals)

lemma request_grants:
  assumes "request_fleet_approval io hash_order new_id now i v pv ph s = (r, s')"
    and "so_approvals (sf_store s') j = Some a"
  shows "so_approvals (sf_store s) j = Some a \<or> (fa_id a = j \<and> fa_state a = FleetApprovalPending)"
proof -
  have ins: "so_approvals store' j = Some a \<Longrightarrow> fa_state b = FleetApprovalPending \<Longrightarrow>
      so_approvals store j = Some a \<or> (fa_id a = j \<and> fa_state a = FleetApprovalPending)"
    if "insert_fleet_approval io hash_order run b e store = (r', store')" for run b e store r' store'
    using with_tx_cases [OF that [unfolded insert_fleet_approval_def]]
    by (auto simp: result_simps split: if_splits dest!: write_fleet_run_Ok append_fleet_event_Ok)
  show ?thesis
  proof (cases "so_approvals (sf_store s') = so_approvals (sf_store s)")
    case False
    then obtain run b e s1 where b: "bind_fleet_approval new_id run pv ph now = Ok b"
      and st: "stored_or b (insert_fleet_approval io hash_order run b e (sf_store s)) s1 = (r, s')"
      using assms(1)
      by (auto simp: request_fleet_approval_def Let_def split: option.splits if_splits prod.splits result.splits)
    obtain r' store' where i: "insert_fleet_approval io hash_order run b e (sf_store s) = (r', store')"
      by fastforce
    with st have "sf_store s' = store'" by (auto dest: stored_or_store)
    moreover have "fa_state b = FleetApprovalPending"
      using b by (auto simp: bind_fleet_approval_def split: if_splits)
    ultimately show ?thesis using ins [OF i] assms(2) by simp
  qed (use assms(2) in simp)
qed

lemma apply_decision_frame:
  "apply_decision grant now pv ph a run = (Ok x, b, run') \<Longrightarrow>
     b = a\<lparr>fa_state := fa_state b, fa_invalidation_code := fa_invalidation_code b,
           fa_decided_at_epoch_ms := fa_decided_at_epoch_ms b\<rparr>
     \<and> (fa_state b = FleetApprovalGranted \<longrightarrow> grant)"
  by (auto simp: apply_decision_def decide_fleet_def invalidate_fleet_def Let_def
      split: result.splits if_splits)

lemma decide_grants:
  assumes "decide_fleet_approval io hash_order now i aid grant pv ph s = (r, s')"
    and "so_approvals (sf_store s') j = Some b" and "keyed (sf_store s)"
  shows "so_approvals (sf_store s) j = Some b
    \<or> (fa_id b = j \<and> r = Ok b \<and> (fa_state b = FleetApprovalGranted \<longrightarrow> grant))"
proof (cases "so_approvals (sf_store s') = so_approvals (sf_store s)")
  case False
  then obtain a run where run: "sf_active s i = Some run" and id: "fa_fleet_run_id a = i"
    and a: "get_fleet_approval aid (sf_store s) = Ok (Some a)"
    using assms(1) by (auto simp: decide_fleet_approval_def split: result.splits option.splits if_splits)
  obtain r1 c run1 where d: "apply_decision grant now pv ph a run = (r1, c, run1)" by (metis prod_cases3)
  obtain x where "r1 = Ok x"
    using assms(1) run id a d False
    by (cases r1) (auto simp: decide_fleet_approval_def Let_def)
  with d have d: "apply_decision grant now pv ph a run = (Ok x, c, run1)" by simp
  obtain e s1 where st: "stored_or c (store_decision io hash_order run1 c e (sf_store s)) s1 = (r, s')"
    using assms(1) run id a d by (cases x) (auto simp: decide_fleet_approval_def Let_def)
  obtain r2 store' where sd: "store_decision io hash_order run1 c e (sf_store s) = (r2, store')"
    by fastforce
  with st have store': "sf_store s' = store'" by (auto dest: stored_or_store)
  with False with_tx_cases [OF sd [unfolded store_decision_def]] have r2: "r2 = Ok ()" by auto
  with st sd have r: "r = Ok c" by (simp add: stored_or_def)
  have row: "so_approvals (sf_store s) aid = Some a" "fa_id a = aid"
    using a assms(3) by (auto simp: get_fleet_approval_def keyed_def split: option.splits if_splits)
  have c: "c = a\<lparr>fa_state := fa_state c, fa_invalidation_code := fa_invalidation_code c,
      fa_decided_at_epoch_ms := fa_decided_at_epoch_ms c\<rparr>" and g: "fa_state c = FleetApprovalGranted \<longrightarrow> grant"
    using apply_decision_frame [OF d] by auto
  have "fa_id c = aid" by (subst c) (simp add: row(2))
  have "so_approvals store' = (so_approvals (sf_store s))(aid \<mapsto> c)"
    using with_tx_cases [OF sd [unfolded store_decision_def]] r2 row \<open>fa_id c = aid\<close> c
    by (auto simp: result_simps split: option.splits dest!: write_fleet_run_Ok append_fleet_event_Ok)
  then show ?thesis using assms(2) store' r g \<open>fa_id c = aid\<close> by (auto split: if_splits)
qed (use assms(2) in simp)

lemma grants_keyed: "grants_ok l \<Longrightarrow> keyed (sf_store (lo_service l))"
  by (simp add: grants_ok_def keyed_def)

lemma service_step_grants:
  assumes "service_step l l'" and "grants_ok l"
  shows "grants_ok l'"
  using assms(1)
proof (cases rule: service_step.cases)
  case requested
  then show ?thesis using assms(2) request_grants [OF requested(2)] by (fastforce simp: grants_ok_def)
next
  case approval_read
  then show ?thesis
    using assms(2) by (auto simp: grants_ok_def get_fleet_approval_def split: option.splits if_splits)
next
  case (decided io hash_order now i aid grant pv ph res2 s)
  have row: "fa_id b = j \<and> (fa_state b = FleetApprovalGranted \<longrightarrow>
      b \<in> set (granted_now grant res2 @ lo_grants l))"
    if "so_approvals (sf_store s) j = Some b" for j b
    using decide_grants [OF decided(2) that grants_keyed [OF assms(2)]] assms(2)
    by (auto simp: grants_ok_def granted_now_def)
  show ?thesis using row assms(2) decided(1) by (auto simp: grants_ok_def)
qed (use assms(2) in \<open>simp_all add: grants_ok_same create_approvals claim_approvals record_approvals
    continue_approvals interrupt_approvals\<close>)

lemma service_steps_grants: "service_step\<^sup>*\<^sup>* l l' \<Longrightarrow> grants_ok l \<Longrightarrow> grants_ok l'"
  by (induction rule: rtranclp_induct) (auto intro: service_step_grants)

lemma recover_fleet_approval_facts:
  "fa_id (recover_fleet_approval now a) = fa_id a"
  "fa_state (recover_fleet_approval now a) \<noteq> FleetApprovalGranted"
  by (simp_all add: recover_fleet_approval_def)

lemma starting_grants:
  assumes "keyed store"
  shows "grants_ok (starting_log now store)"
proof -
  have "fa_id a = i \<and> fa_state a \<noteq> FleetApprovalGranted"
    if "so_approvals (recover_fleet_runs now store) i = Some a" for i a
  proof -
    from that obtain b where "so_approvals store i = Some b" "a = recover_fleet_approval now b"
      by (auto simp: recover_fleet_runs_def)
    with assms recover_fleet_approval_facts show ?thesis by (simp add: keyed_def)
  qed
  then show ?thesis by (auto simp: grants_ok_def starting_log_def opened_service_def)
qed

text \<open>
  C5. A child is leased only as the user granted it. In any history since start-up, when a claim
  returns leases, the approval it used was granted in this process for exactly this run, its
  version, its graph digest and its targets, under the policy version and hash that are
  current at the claim, although the claim may have read it long before. Every lease names that
  approval and one of the approved targets, the children of the live run grow by exactly the
  leases, and before the leases are returned their ownership is stored in the tables.
\<close>

theorem fleet_leases_as_granted:
  assumes "keyed store" and "service_step\<^sup>*\<^sup>* (starting_log now0 store) l" and "a \<in> set (lo_read l)"
    and "claim_fleet_children io hash_order ids now i a pv ph n (lo_service l) = (Ok leases, s')"
    and "leases \<noteq> []"
  shows "\<exists>run run'. live_run l i = Some run \<and> sf_active s' i = Some run'
    \<and> a \<in> set (lo_grants l) \<and> authorized_by a pv ph run
    \<and> list_all (\<lambda>x. fl_approval_id x = fa_id a \<and> fl_target x \<in> set (fa_targets a)) leases
    \<and> fr_children run' = fr_children run @ map child_of_lease leases
    \<and> so_agent_runs (sf_store s') = so_agent_runs (sf_store (lo_service l)) @ map fl_agent_run_id leases
    \<and> (\<exists>row. so_runs (sf_store s') (fr_id run) = Some row \<and> fr_children row = fr_children run')"
proof -
  have grants: "grants_ok l"
    by (rule service_steps_grants [OF assms(2) starting_grants [OF assms(1)]])
  obtain run where run: "live_run l i = Some run"
    using assms(4) by (auto simp: claim_fleet_children_def split: option.splits)
  obtain r1 run1 where c: "claim_ready ids a pv ph n now run = (r1, run1)" by fastforce
  with assms(4) run obtain given es where r1: "r1 = Ok given" and st: "stored_or given
      (persist_fleet_schedule io hash_order run1 (map fl_agent_run_id given) es (sf_store (lo_service l)))
      (set_live run1 i (lo_service l)) = (Ok leases, s')"
    by (cases r1) (auto simp: claim_fleet_children_def Let_def)
  from stored_or_Ok [OF st] obtain store' where given: "given = leases"
    and p: "persist_fleet_schedule io hash_order run1 (map fl_agent_run_id leases) es
      (sf_store (lo_service l)) = (Ok (), store')" and s': "s' = set_live run1 i (lo_service l)\<lparr>sf_store := store'\<rparr>"
    by auto
  from c r1 given have "claim_ready ids a pv ph n now run = (Ok leases, run1)" by simp
  from claim_ready_Ok [OF this assms(5)] persist_schedule_Ok [OF p] run s' grants assms(3) show ?thesis
    by (auto simp: grants_ok_def authorized_by_def)
qed

section \<open>A concrete fleet\<close>

definition empty_store :: fleet_store where
  "empty_store = \<lparr>so_runs = Map.empty, so_approvals = Map.empty, so_events = (\<lambda>_. []), so_agent_runs = []\<rparr>"

definition demo_digest :: "bool \<Rightarrow> fleet_failure_policy \<Rightarrow> fleet_target_binding list \<Rightarrow> fleet_stage list \<Rightarrow> string" where
  "demo_digest _ _ _ _ = replicate 64 CHR ''a''"

definition demo_run :: "fleet_run_state \<Rightarrow> u64 \<Rightarrow> fleet_run" where
  "demo_run state updated =
     \<lparr>fr_id = 5, fr_version = 1, fr_state = state, fr_production = True,
      fr_failure_policy = FailurePauseForReview, fr_targets = two_targets,
      fr_stages = map stage_of_draft (two_stages []), fr_children = [],
      fr_graph_digest = replicate 64 CHR ''a'', fr_recovery_state = FleetLive,
      fr_created_at_epoch_ms = 100, fr_updated_at_epoch_ms = updated\<rparr>"

definition demo_approval :: "fleet_approval_state \<Rightarrow> u64 option \<Rightarrow> fleet_approval" where
  "demo_approval state at =
     \<lparr>fa_id = 7, fa_fleet_run_id = 5, fa_fleet_version = 1, fa_graph_digest = replicate 64 CHR ''a'',
      fa_targets = two_targets, fa_policy_version = 3, fa_policy_hash = ''policy'',
      fa_state = state, fa_invalidation_code = None, fa_created_at_epoch_ms = 101,
      fa_decided_at_epoch_ms = at\<rparr>"

definition demo_service :: "fleet_run \<Rightarrow> (uuid \<Rightarrow> fleet_approval option) \<Rightarrow> fleet_event list \<Rightarrow> fleet_service" where
  "demo_service run approvals events =
     \<lparr>sf_active = [5 \<mapsto> run],
      sf_store = \<lparr>so_runs = [5 \<mapsto> run], so_approvals = approvals, so_events = (\<lambda>_. [])(5 := events),
                  so_agent_runs = []\<rparr>\<rparr>"

definition demo_event :: "nat \<Rightarrow> u64 \<Rightarrow> fleet_event_kind \<Rightarrow> fleet_run_state \<Rightarrow> uuid option \<Rightarrow> fleet_event" where
  "demo_event seq now kind state approval =
     \<lparr>fe_fleet_run_id = 5, fe_seq = seq, fe_timestamp_ms = now, fe_kind = kind, fe_state = state,
      fe_approval_id = approval, fe_code = None\<rparr>"

lemma demo_drafted: "fleet_draft demo_digest rev 5 (two_stage_draft []) 100 = Ok (demo_run FleetDraft 100)"
  by code_simp

lemma demo_valid: "validate_metadata rev (demo_run state updated) = Ok ()"
proof -
  have "validate_metadata rev (demo_run state updated) = validate_metadata rev (demo_run FleetDraft 100)"
    unfolding validate_metadata_def by (simp add: demo_run_def cong: if_cong)
  also have "\<dots> = Ok ()" by code_simp
  finally show ?thesis .
qed

lemma demo_run_sel [simp]:
  "fr_id (demo_run state t) = 5" "fr_version (demo_run state t) = 1" "fr_state (demo_run state t) = state"
  "fr_recovery_state (demo_run state t) = FleetLive" "fr_created_at_epoch_ms (demo_run state t) = 100"
  "fr_graph_digest (demo_run state t) = replicate 64 CHR ''a''" "fr_targets (demo_run state t) = two_targets"
  "(demo_run state t)\<lparr>fr_state := state', fr_updated_at_epoch_ms := t'\<rparr> = demo_run state' t'"
  "(demo_run state t)\<lparr>fr_created_at_epoch_ms := 100\<rparr> = demo_run state t"
  by (simp_all add: demo_run_def)

lemma opened_empty: "opened_service 0 empty_store = \<lparr>sf_active = Map.empty, sf_store = empty_store\<rparr>"
  by (simp add: opened_service_def recover_fleet_runs_def empty_store_def comp_def)

lemmas store_defs = with_tx_def write_fleet_run_def append_fleet_event_def last_seq_def stored_or_def
  next_fleet_event_seq_def fleet_event_of_def MAX_DURABLE_FLEET_EVENTS_def

lemma demo_create:
  "create_fleet_draft True demo_digest rev 5 (two_stage_draft []) 100 (opened_service 0 empty_store) =
     (Ok (demo_run FleetDraft 100), demo_service (demo_run FleetDraft 100) Map.empty
        [demo_event 1 100 EventDraftCreated FleetDraft None])"
  unfolding opened_empty
  by (simp add: create_fleet_draft_def demo_drafted insert_fleet_run_def store_defs demo_valid
      empty_store_def demo_service_def demo_event_def Let_def)

lemma demo_request:
  "request_fleet_approval True rev 7 101 5 1 3 ''policy''
     (demo_service (demo_run FleetDraft 100) Map.empty [demo_event 1 100 EventDraftCreated FleetDraft None]) =
   (Ok (demo_approval FleetApprovalPending None),
    demo_service (demo_run FleetAwaitingApproval 101) [7 \<mapsto> demo_approval FleetApprovalPending None]
      [demo_event 1 100 EventDraftCreated FleetDraft None,
       demo_event 2 101 EventApprovalRequired FleetAwaitingApproval (Some 7)])"
  by (simp add: request_fleet_approval_def demo_service_def fleet_transition_to_def
      fleet_can_transition_def fleet_terminal_def bind_fleet_approval_def insert_fleet_approval_def
      store_defs demo_valid demo_event_def demo_approval_def Let_def numeral_2_eq_2 numeral_3_eq_3)

lemma demo_decide:
  "decide_fleet_approval True rev 102 5 7 grant 3 ''policy''
     (demo_service (demo_run FleetAwaitingApproval 101) [7 \<mapsto> demo_approval FleetApprovalPending None]
        [demo_event 1 100 EventDraftCreated FleetDraft None,
         demo_event 2 101 EventApprovalRequired FleetAwaitingApproval (Some 7)]) =
   (let a = demo_approval (if grant then FleetApprovalGranted else FleetApprovalRejected) (Some 102);
        state = (if grant then FleetApproved else FleetPlanning)
    in (Ok a, demo_service (demo_run state 102) [7 \<mapsto> a]
         [demo_event 1 100 EventDraftCreated FleetDraft None,
          demo_event 2 101 EventApprovalRequired FleetAwaitingApproval (Some 7),
          demo_event 3 102 (if grant then EventApprovalGranted else EventApprovalRejected) state (Some 7)]))"
  by (cases grant)
    (simp_all add: decide_fleet_approval_def get_fleet_approval_def apply_decision_def
      validate_fleet_approval_def decide_fleet_def demo_service_def fleet_transition_to_def
      fleet_can_transition_def fleet_terminal_def store_decision_def
      store_defs demo_valid demo_event_def demo_approval_def Let_def numeral_2_eq_2 numeral_3_eq_3)

definition demo_log :: "fleet_service \<Rightarrow> fleet_approval list \<Rightarrow> fleet_approval list \<Rightarrow> fleet_log" where
  "demo_log s reads grants = \<lparr>lo_service = s, lo_read = reads, lo_grants = grants\<rparr>"

definition demo_decided :: "bool \<Rightarrow> fleet_service" where
  "demo_decided grant =
     (let a = demo_approval (if grant then FleetApprovalGranted else FleetApprovalRejected) (Some 102);
          state = (if grant then FleetApproved else FleetPlanning)
      in demo_service (demo_run state 102) [7 \<mapsto> a]
         [demo_event 1 100 EventDraftCreated FleetDraft None,
          demo_event 2 101 EventApprovalRequired FleetAwaitingApproval (Some 7),
          demo_event 3 102 (if grant then EventApprovalGranted else EventApprovalRejected) state (Some 7)])"

abbreviation demo_granted :: fleet_approval where
  "demo_granted \<equiv> demo_approval FleetApprovalGranted (Some 102)"

lemma demo_decided_reachable:
  "service_step\<^sup>*\<^sup>* (starting_log 0 empty_store)
     (demo_log (demo_decided grant) [] (if grant then [demo_granted] else []))"
proof -
  let ?s1 = "demo_service (demo_run FleetDraft 100) Map.empty [demo_event 1 100 EventDraftCreated FleetDraft None]"
  let ?s2 = "demo_service (demo_run FleetAwaitingApproval 101) [7 \<mapsto> demo_approval FleetApprovalPending None]
      [demo_event 1 100 EventDraftCreated FleetDraft None,
       demo_event 2 101 EventApprovalRequired FleetAwaitingApproval (Some 7)]"
  have "service_step (starting_log 0 empty_store) (demo_log ?s1 [] [])"
    using service_step.created [of True demo_digest rev 5 "two_stage_draft []" 100 "starting_log 0 empty_store"]
      demo_create by (simp add: starting_log_def demo_log_def opened_empty)
  moreover have "service_step (demo_log ?s1 [] []) (demo_log ?s2 [] [])"
    using service_step.requested [of True rev 7 101 5 1 3 "''policy''" "demo_log ?s1 [] []"] demo_request
    by (simp add: demo_log_def)
  moreover have "service_step (demo_log ?s2 [] [])
      (demo_log (demo_decided grant) [] (if grant then [demo_granted] else []))"
    using service_step.decided [of True rev 102 5 7 grant 3 "''policy''" "demo_log ?s2 [] []"]
      demo_decide [of grant]
    by (cases grant) (simp_all add: demo_log_def demo_decided_def granted_now_def Let_def demo_approval_def)
  ultimately show ?thesis by (meson rtranclp.rtrancl_into_rtrancl rtranclp.rtrancl_refl)
qed

lemma demo_read_reachable:
  "service_step\<^sup>*\<^sup>* (starting_log 0 empty_store)
     (demo_log (demo_decided True) [demo_granted] [demo_granted])"
proof -
  let ?l = "demo_log (demo_decided True) [] [demo_granted]"
  have "get_fleet_approval 7 (sf_store (lo_service ?l)) = Ok (Some demo_granted)"
    by (simp add: demo_log_def demo_decided_def demo_service_def get_fleet_approval_def demo_approval_def Let_def)
  from service_step.approval_read [OF this] have
    "service_step ?l (demo_log (demo_decided True) [demo_granted] [demo_granted])"
    by (simp add: demo_log_def)
  with demo_decided_reachable [of True] show ?thesis by (auto intro: rtranclp.rtrancl_into_rtrancl)
qed

definition demo_lease :: fleet_child_lease where
  "demo_lease =
     \<lparr>fl_fleet_run_id = 5, fl_fleet_version = 1, fl_graph_digest = replicate 64 CHR ''a'',
      fl_approval_id = 7, fl_stage_id = 21, fl_agent_run_id = 31, fl_target = two_targets ! 0,
      fl_attempt = 1, fl_policy_version = 3, fl_policy_hash = ''policy''\<rparr>"

definition demo_claimed_run :: fleet_run where
  "demo_claimed_run = (demo_run FleetExecuting 103)\<lparr>
     fr_stages := (let stages = map stage_of_draft (two_stages [])
                   in stages[0 := (stages ! 0)\<lparr>fs_state := StageRunning\<rparr>]),
     fr_children := [child_of_lease demo_lease]\<rparr>"

lemma demo_claim:
  "claim_ready (\<lambda>k. 31 + of_nat k) demo_granted 3 ''policy'' 10 103 (demo_run FleetApproved 102)
     = (Ok [demo_lease], demo_claimed_run)"
  by code_simp

lemma demo_claimed_valid: "validate_metadata rev demo_claimed_run = Ok ()"
  by code_simp

lemma demo_claim_fleet:
  "\<exists>s'. claim_fleet_children True rev (\<lambda>k. 31 + of_nat k) 103 5 demo_granted 3 ''policy'' 10 (demo_decided True)
     = (Ok [demo_lease], s')"
proof -
  have "fr_id demo_claimed_run = 5" by (simp add: demo_claimed_run_def demo_run_def)
  then show ?thesis
    by (simp add: claim_fleet_children_def demo_claim demo_decided_def demo_service_def
        persist_fleet_schedule_def store_defs demo_claimed_valid demo_event_def demo_lease_def
        numeral_2_eq_2 numeral_3_eq_3 Let_def)
qed

lemma fleet_leases_as_granted_witness:
  "\<exists>s' row. claim_fleet_children True rev (\<lambda>k. 31 + of_nat k) 103 5 demo_granted 3 ''policy'' 10
       (demo_decided True) = (Ok [demo_lease], s')
     \<and> authorized_by demo_granted 3 ''policy'' (demo_run FleetApproved 102)
     \<and> so_runs (sf_store s') 5 = Some row \<and> fr_children row = [child_of_lease demo_lease]"
proof -
  let ?l = "demo_log (demo_decided True) [demo_granted] [demo_granted]"
  from demo_claim_fleet obtain s' where
    claim: "claim_fleet_children True rev (\<lambda>k. 31 + of_nat k) 103 5 demo_granted 3 ''policy'' 10
      (demo_decided True) = (Ok [demo_lease], s')" by blast
  have live: "live_run ?l 5 = Some (demo_run FleetApproved 102)"
    by (simp add: demo_log_def demo_decided_def demo_service_def Let_def)
  have "keyed empty_store" "demo_granted \<in> set (lo_read ?l)"
    by (simp_all add: keyed_def empty_store_def demo_log_def)
  from fleet_leases_as_granted [OF this(1) demo_read_reachable this(2), of True rev "\<lambda>k. 31 + of_nat k" 103 5
      3 "''policy''" 10 "[demo_lease]" s'] claim live
  show ?thesis by (auto simp: demo_log_def demo_run_def)
qed

lemma fleet_never_finishes_witness:
  "fr_state (demo_run FleetPlanning 102) = FleetPlanning
   \<and> (\<exists>run'. live_run (demo_log (demo_decided False) [] []) 5 = Some run'
        \<and> fr_state run' \<in> {FleetPlanning, FleetCancelled})"
proof -
  let ?l = "demo_log (demo_decided False) [] []"
  have "live_run ?l 5 = Some (demo_run FleetPlanning 102)"
    by (simp add: demo_log_def demo_decided_def demo_service_def Let_def)
  moreover have "service_step\<^sup>*\<^sup>* (starting_log 0 empty_store) ?l"
    using demo_decided_reachable [of False] by simp
  ultimately show ?thesis using fleet_never_finishes [of 0 empty_store ?l 5 _ ?l] by simp
qed


lemma demo_moves:
  "fleet_step\<^sup>*\<^sup>* (demo_run FleetDraft 100) (demo_run FleetApproved 102)"
proof -
  have move: "fleet_step (demo_run state t) (demo_run state' t')"
    if "fleet_can_transition state state'" "100 \<le> t'" for state state' t t'
    using that by (intro fleet_step.moved [of state' t'])
      (simp add: fleet_transition_to_def max_def)
  have "fleet_step (demo_run FleetDraft 100) (demo_run FleetValidatingTargets 101)"
    "fleet_step (demo_run FleetValidatingTargets 101) (demo_run FleetInvestigating 101)"
    "fleet_step (demo_run FleetInvestigating 101) (demo_run FleetPlanning 101)"
    "fleet_step (demo_run FleetPlanning 101) (demo_run FleetAwaitingApproval 101)"
    "fleet_step (demo_run FleetAwaitingApproval 101) (demo_run FleetApproved 102)"
    by (auto intro!: move simp: fleet_can_transition_def fleet_terminal_def)
  then show ?thesis by (meson converse_rtranclp_into_rtranclp rtranclp.rtrancl_refl)
qed

lemma demo_claim_step: "fleet_step\<^sup>*\<^sup>* (demo_run FleetDraft 100) demo_claimed_run"
  using demo_moves fleet_step.claimed [OF demo_claim] by (rule rtranclp.rtrancl_into_rtrancl)

lemma fleet_rollout_safe_witness:
  "map fc_target_id (fr_children demo_claimed_run) = [1]
   \<and> child_due (fr_stages demo_claimed_run) (fr_children demo_claimed_run) 21 1
   \<and> length (active_children (fr_children demo_claimed_run)) \<le> MAX_FLEET_ACTIVE_CHILDREN"
proof -
  have children: "fr_children demo_claimed_run = [child_of_lease demo_lease]"
    by (simp add: demo_claimed_run_def)
  have ids: "fc_stage_id (child_of_lease demo_lease) = 21" "fc_target_id (child_of_lease demo_lease) = 1"
    by (code_simp, code_simp)
  from fleet_rollout_safe [OF demo_drafted demo_claim_step] show ?thesis
    by (auto simp: children ids)
qed

end
