(* ===== verification/Catalog.thy ===== *)
theory Catalog
  imports Storage Rust_Str
begin

text \<open>
  The catalog of servers: groups/service.rs and profiles/service.rs over the tables of
  \<open>Storage\<close>. Every operation holds the write lock of the catalog for its whole body, so an
  operation is a function from the tables to a result and the tables it leaves. What the engine
  makes of each read and write is \<open>catalog_io\<close>; new identifiers and the text of the clock are
  parameters. The last part is the import of profiles from other programs.
\<close>

section \<open>The tables behind the two services\<close>

record catalog =
  ca_groups :: "stored_group list"
  ca_profiles :: "server_profile list"

record catalog_io =
  io_read_groups :: bool
  io_read_profiles :: bool
  io_write_groups :: bool
  io_write_profiles :: bool

fun attempt ::
  "('a, 'e) result \<Rightarrow> ('a \<Rightarrow> ('b, 'e) result \<times> 's) \<Rightarrow> 's \<Rightarrow> ('b, 'e) result \<times> 's" where
  "attempt (Ok x) f s = f x"
| "attempt (Err e) f s = (Err e, s)"
| "attempt Panic f s = (Panic, s)"

fun returning :: "(unit, 'e) result \<times> 's \<Rightarrow> 'a \<Rightarrow> ('a, 'e) result \<times> 's" where
  "returning (Ok _, s) x = (Ok x, s)"
| "returning (Err e, s) x = (Err e, s)"
| "returning (Panic, s) x = (Panic, s)"

definition read_groups :: "catalog_io \<Rightarrow> catalog \<Rightarrow> (host_group list, app_error) result" where
  "read_groups io cat = (if io_read_groups io then list_groups (ca_groups cat) else Err Storage)"

definition read_profiles :: "catalog_io \<Rightarrow> catalog \<Rightarrow> (server_profile list, app_error) result" where
  "read_profiles io cat =
     (if io_read_profiles io then list_profiles (ca_profiles cat) else Err Storage)"

definition save_groups ::
  "catalog_io \<Rightarrow> host_group list \<Rightarrow> catalog \<Rightarrow> (unit, app_error) result \<times> catalog" where
  "save_groups io groups cat =
     (case replace_groups (io_write_groups io) groups (ca_groups cat) of
        (r, t) \<Rightarrow> (r, cat\<lparr>ca_groups := t\<rparr>))"

definition save_profiles ::
  "catalog_io \<Rightarrow> server_profile list \<Rightarrow> catalog \<Rightarrow> (unit, app_error) result \<times> catalog" where
  "save_profiles io profiles cat =
     (case replace_profiles (io_write_profiles io) profiles (ca_profiles cat) of
        (r, t) \<Rightarrow> (r, cat\<lparr>ca_profiles := t\<rparr>))"

text \<open>\<open>max().unwrap_or(-1).saturating_add(1)\<close> on \<open>i32\<close>, whose order is the signed one.\<close>

definition i32_saturating_succ :: "i32 \<Rightarrow> i32" where
  "i32_saturating_succ n = (if sint n = 2 ^ 31 - 1 then n else n + 1)"

definition next_sort_order :: "i32 list \<Rightarrow> i32" where
  "next_sort_order orders =
     i32_saturating_succ (case max_by_key i32_key orders of None \<Rightarrow> - 1 | Some n \<Rightarrow> n)"

definition i32_try_from :: "nat \<Rightarrow> i32 option" where
  "i32_try_from n = (if int n \<le> 2 ^ 31 - 1 then Some (of_nat n) else None)"

section \<open>Groups\<close>

definition validate_group_name :: "string \<Rightarrow> (string, app_error) result" where
  "validate_group_name name =
     (let trimmed = trim name in
      if trimmed = [] \<or> char_count trimmed > 50 then Err (Core InvalidGroup) else Ok trimmed)"

definition list_catalog_groups :: "catalog_io \<Rightarrow> catalog \<Rightarrow> (host_group list, app_error) result" where
  "list_catalog_groups io cat =
     result_bind (read_groups io cat) (\<lambda>groups. Ok (sort_key (i32_key \<circ> hg_sort_order) groups))"

definition new_group :: "uuid \<Rightarrow> string \<Rightarrow> string \<Rightarrow> host_group list \<Rightarrow> host_group" where
  "new_group new_id now name groups =
     \<lparr>hg_id = new_id, hg_name = name, hg_sort_order = next_sort_order (map hg_sort_order groups),
      hg_collapsed = False, hg_created_at = now, hg_updated_at = now\<rparr>"

definition create_group ::
  "catalog_io \<Rightarrow> uuid \<Rightarrow> string \<Rightarrow> string \<Rightarrow> catalog \<Rightarrow> (host_group, app_error) result \<times> catalog" where
  "create_group io new_id now name cat =
     attempt (validate_group_name name) (\<lambda>name. attempt (read_groups io cat) (\<lambda>groups.
       let g = new_group new_id now name groups in
       returning (save_groups io (groups @ [g]) cat) g) cat) cat"

text \<open>
  The map of names is built from the groups in order, so of two groups with one name the later
  counts. Names are made unique keeping the first; every missing one becomes a group.
\<close>

fun add_missing_groups ::
  "(nat \<Rightarrow> uuid) \<Rightarrow> (nat \<Rightarrow> string) \<Rightarrow> string list \<Rightarrow> nat \<Rightarrow>
   (string \<Rightarrow> uuid option) \<times> host_group list \<Rightarrow> (string \<Rightarrow> uuid option) \<times> host_group list" where
  "add_missing_groups new_id now [] k (ids, groups) = (ids, groups)"
| "add_missing_groups new_id now (name # names) k (ids, groups) =
     (if ids name \<noteq> None then add_missing_groups new_id now names k (ids, groups)
      else let g = new_group (new_id k) (now k) name groups in
        add_missing_groups new_id now names (k + 1) (ids(name \<mapsto> hg_id g), groups @ [g]))"

definition ensure_groups_by_name ::
  "catalog_io \<Rightarrow> (nat \<Rightarrow> uuid) \<Rightarrow> (nat \<Rightarrow> string) \<Rightarrow> string list \<Rightarrow> catalog \<Rightarrow>
   ((string \<Rightarrow> uuid option) \<times> nat, app_error) result \<times> catalog" where
  "ensure_groups_by_name io new_id now names cat =
     attempt (try_map validate_group_name names) (\<lambda>names. attempt (read_groups io cat) (\<lambda>groups.
       let known = map_of (rev (map (\<lambda>g. (hg_name g, hg_id g)) groups));
           (ids, groups') = add_missing_groups new_id now (rev (remdups (rev names))) 0 (known, groups);
           created = length groups' - length groups
       in if created = 0 then (Ok (ids, created), cat)
          else returning (save_groups io groups' cat) (ids, created)) cat) cat"

record update_group_request =
  ug_id :: uuid
  ug_name :: string
  ug_sort_order :: i32
  ug_collapsed :: bool

definition update_group ::
  "catalog_io \<Rightarrow> string \<Rightarrow> update_group_request \<Rightarrow> catalog \<Rightarrow> (host_group, app_error) result \<times> catalog" where
  "update_group io now request cat =
     attempt (validate_group_name (ug_name request)) (\<lambda>name.
       if sint (ug_sort_order request) < 0 then (Err (Core InvalidGroup), cat)
       else attempt (read_groups io cat) (\<lambda>groups.
         attempt (ok_or (Core GroupNotFound) (find (\<lambda>g. hg_id g = ug_id request) groups)) (\<lambda>g.
           let updated = g\<lparr>hg_name := name, hg_sort_order := ug_sort_order request,
                           hg_collapsed := ug_collapsed request, hg_updated_at := now\<rparr>;
               groups' = update_first (\<lambda>g. hg_id g = ug_id request) (\<lambda>_. updated) groups
           in returning (save_groups io groups' cat) updated) cat) cat) cat"

text \<open>
  Deleting a group first saves its profiles without it, then the groups; the second write may
  fail after the first.
\<close>

definition ungroup :: "uuid \<Rightarrow> string \<Rightarrow> server_profile \<Rightarrow> server_profile" where
  "ungroup i now p =
     (if sp_group_id p = Some i then p\<lparr>sp_group_id := None, sp_updated_at := now\<rparr> else p)"

definition delete_group ::
  "catalog_io \<Rightarrow> string \<Rightarrow> uuid \<Rightarrow> catalog \<Rightarrow> (unit, app_error) result \<times> catalog" where
  "delete_group io now i cat =
     attempt (read_groups io cat) (\<lambda>groups.
       let remaining = filter (\<lambda>g. hg_id g \<noteq> i) groups in
       if length remaining = length groups then (Err (Core GroupNotFound), cat)
       else attempt (read_profiles io cat) (\<lambda>profiles.
         case save_profiles io (map (ungroup i now) profiles) cat of
           (Ok _, cat') \<Rightarrow> save_groups io remaining cat'
         | failed \<Rightarrow> failed) cat) cat"

fun assign_group_orders ::
  "string \<Rightarrow> nat \<Rightarrow> uuid list \<Rightarrow> host_group list \<Rightarrow> (host_group list, app_error) result" where
  "assign_group_orders now k [] groups = Ok groups"
| "assign_group_orders now k (i # ids) groups =
     (if find (\<lambda>g. hg_id g = i) groups = None then Err (Core InvalidGroup)
      else result_bind (ok_or (Core InvalidGroup) (i32_try_from k)) (\<lambda>order.
        assign_group_orders now (k + 1) ids
          (update_first (\<lambda>g. hg_id g = i) (\<lambda>g. g\<lparr>hg_sort_order := order, hg_updated_at := now\<rparr>) groups)))"

definition reorder_groups ::
  "catalog_io \<Rightarrow> string \<Rightarrow> uuid list \<Rightarrow> catalog \<Rightarrow> (host_group list, app_error) result \<times> catalog" where
  "reorder_groups io now ordered cat =
     attempt (read_groups io cat) (\<lambda>groups.
       if length ordered \<noteq> length groups \<or> set ordered \<noteq> hg_id ` set groups then (Err (Core InvalidGroup), cat)
       else attempt (assign_group_orders now 0 ordered groups) (\<lambda>groups.
         let groups = sort_key (i32_key \<circ> hg_sort_order) groups in
         returning (save_groups io groups cat) groups) cat) cat"

section \<open>Profiles\<close>

definition validate_route ::
  "connection_route \<Rightarrow> uuid option \<Rightarrow> server_profile list \<Rightarrow> (unit, app_error) result" where
  "validate_route route current profiles =
     (case route of
        Direct \<Rightarrow> Ok ()
      | Bastion b \<Rightarrow> if trim (br_provider b) = [] then Err (Core InvalidProfile) else Ok ()
      | JumpHost i \<Rightarrow>
          if Some i = current then Err (Route InvalidJumpHost)
          else result_bind (ok_or (Route InvalidJumpHost) (find (\<lambda>p. sp_id p = i) profiles)) (\<lambda>jump.
            if sp_connection_route jump \<noteq> Direct then Err (Route InvalidJumpHost) else Ok ()))"

definition validate_fields ::
  "string \<Rightarrow> string \<Rightarrow> u16 \<Rightarrow> string \<Rightarrow> (string \<times> string \<times> string, app_error) result" where
  "validate_fields name host p username =
     (let name = trim name; host = trim host; username = trim username in
      if name = [] \<or> char_count name > 100 \<or> host = [] \<or> char_count host > 255 \<or> has_whitespace host
         \<or> p = 0 \<or> username = [] \<or> char_count username > 255
      then Err (Core InvalidProfile) else Ok (name, host, username))"

fun validate_auth :: "auth_method \<Rightarrow> key_source option \<Rightarrow> (key_source option, app_error) result" where
  "validate_auth Password None = Ok None"
| "validate_auth PrivateKey (Some (KeyFile p)) =
     (let p = trim p in
      if p = [] \<or> length p > 4096 \<or> CHR 0x00 \<in> set p then Err (Core InvalidProfile) else Ok (Some (KeyFile p)))"
| "validate_auth PrivateKey (Some (Vault k)) = Ok (Some (Vault k))"
| "validate_auth _ _ = Err (Core InvalidProfile)"

definition next_profile_order :: "server_profile list \<Rightarrow> uuid option \<Rightarrow> i32" where
  "next_profile_order profiles g =
     next_sort_order (map sp_sort_order (filter (\<lambda>p. sp_group_id p = g) profiles))"

definition validate_group :: "catalog_io \<Rightarrow> uuid option \<Rightarrow> catalog \<Rightarrow> (unit, app_error) result" where
  "validate_group io g cat =
     (case g of None \<Rightarrow> Ok ()
      | Some i \<Rightarrow> result_bind (read_groups io cat) (\<lambda>groups.
          if list_ex (\<lambda>g. hg_id g = i) groups then Ok () else Err (Core InvalidGroup)))"

definition jumps_through :: "uuid \<Rightarrow> server_profile \<Rightarrow> bool" where
  "jumps_through i p \<longleftrightarrow> sp_connection_route p = JumpHost i"

definition list_catalog_profiles ::
  "catalog_io \<Rightarrow> catalog \<Rightarrow> (server_profile list, app_error) result" where
  "list_catalog_profiles io cat =
     result_bind (read_profiles io cat) (\<lambda>ps. Ok (sort_key (i32_key \<circ> sp_sort_order) ps))"

definition get_profile :: "catalog_io \<Rightarrow> uuid \<Rightarrow> catalog \<Rightarrow> (server_profile, app_error) result" where
  "get_profile io i cat =
     result_bind (read_profiles io cat) (\<lambda>ps. ok_or (Core ProfileNotFound) (find (\<lambda>p. sp_id p = i) ps))"

record create_profile_request =
  cp_name :: string
  cp_host :: string
  cp_port :: u16
  cp_username :: string
  cp_group_id :: "uuid option"
  cp_auth_method :: auth_method
  cp_key_source :: "key_source option"
  cp_connection_route :: connection_route

definition new_profile ::
  "uuid \<Rightarrow> string \<Rightarrow> string \<times> string \<times> string \<Rightarrow> key_source option \<Rightarrow> create_profile_request \<Rightarrow>
   server_profile list \<Rightarrow> server_profile" where
  "new_profile new_id now vals key request profiles =
     \<lparr>sp_id = new_id, sp_name = fst vals, sp_host = fst (snd vals), sp_port = cp_port request,
      sp_username = snd (snd vals), sp_group_id = cp_group_id request,
      sp_auth_method = cp_auth_method request, sp_key_source = key,
      sp_connection_route = cp_connection_route request,
      sp_sort_order = next_profile_order profiles (cp_group_id request),
      sp_created_at = now, sp_updated_at = now, sp_last_connected_at = None,
      sp_os_distribution = None\<rparr>"

definition create_profile ::
  "catalog_io \<Rightarrow> uuid \<Rightarrow> string \<Rightarrow> create_profile_request \<Rightarrow> catalog \<Rightarrow>
   (server_profile, app_error) result \<times> catalog" where
  "create_profile io new_id now request cat =
     attempt (validate_fields (cp_name request) (cp_host request) (cp_port request) (cp_username request))
       (\<lambda>vals.
     attempt (validate_auth (cp_auth_method request) (cp_key_source request)) (\<lambda>key.
     attempt (validate_group io (cp_group_id request) cat) (\<lambda>_.
     attempt (read_profiles io cat) (\<lambda>profiles.
     attempt (validate_route (cp_connection_route request) None profiles) (\<lambda>_.
       let p = new_profile new_id now vals key request profiles
       in returning (save_profiles io (profiles @ [p]) cat) p) cat) cat) cat) cat) cat"

record update_profile_request = create_profile_request +
  up_id :: uuid
  up_sort_order :: i32

definition edited_profile ::
  "string \<Rightarrow> string \<times> string \<times> string \<Rightarrow> key_source option \<Rightarrow> update_profile_request \<Rightarrow>
   server_profile list \<Rightarrow> server_profile \<Rightarrow> server_profile" where
  "edited_profile now vals key request profiles old =
     old\<lparr>sp_name := fst vals, sp_host := fst (snd vals), sp_port := cp_port request,
       sp_username := snd (snd vals), sp_group_id := cp_group_id request,
       sp_auth_method := cp_auth_method request, sp_key_source := key,
       sp_connection_route := cp_connection_route request,
       sp_sort_order := (if sp_group_id old = cp_group_id request then up_sort_order request
                         else next_profile_order profiles (cp_group_id request)),
       sp_os_distribution := (if sp_host old \<noteq> fst (snd vals) \<or> sp_port old \<noteq> cp_port request then None
                              else sp_os_distribution old),
       sp_updated_at := now\<rparr>"

definition update_profile ::
  "catalog_io \<Rightarrow> string \<Rightarrow> update_profile_request \<Rightarrow> catalog \<Rightarrow>
   (server_profile, app_error) result \<times> catalog" where
  "update_profile io now request cat =
     attempt (validate_fields (cp_name request) (cp_host request) (cp_port request) (cp_username request))
       (\<lambda>vals.
     attempt (validate_auth (cp_auth_method request) (cp_key_source request)) (\<lambda>key.
     if sint (up_sort_order request) < 0 then (Err (Core InvalidProfile), cat) else
     attempt (validate_group io (cp_group_id request) cat) (\<lambda>_.
     attempt (read_profiles io cat) (\<lambda>profiles.
     attempt (validate_route (cp_connection_route request) (Some (up_id request)) profiles) (\<lambda>_.
     if cp_connection_route request \<noteq> Direct \<and> list_ex (jumps_through (up_id request)) profiles
     then (Err (Route ProfileInUseAsJumpHost), cat) else
     attempt (ok_or (Core ProfileNotFound) (find (\<lambda>p. sp_id p = up_id request) profiles)) (\<lambda>old.
       let updated = edited_profile now vals key request profiles old;
           profiles' = update_first (\<lambda>p. sp_id p = up_id request) (\<lambda>_. updated) profiles
       in returning (save_profiles io profiles' cat) updated) cat) cat) cat) cat) cat) cat"

definition delete_profile ::
  "catalog_io \<Rightarrow> uuid \<Rightarrow> catalog \<Rightarrow> (unit, app_error) result \<times> catalog" where
  "delete_profile io i cat =
     attempt (read_profiles io cat) (\<lambda>profiles.
       if list_ex (jumps_through i) profiles then (Err (Route ProfileInUseAsJumpHost), cat)
       else let remaining = filter (\<lambda>p. sp_id p \<noteq> i) profiles in
         if length remaining = length profiles then (Err (Core ProfileNotFound), cat)
         else save_profiles io remaining cat) cat"

definition connected_profile :: "string \<Rightarrow> os_distribution option \<Rightarrow> server_profile \<Rightarrow> server_profile" where
  "connected_profile now detected old =
     old\<lparr>sp_last_connected_at := Some now,
       sp_os_distribution := (if sp_os_distribution old = None then detected
                              else sp_os_distribution old),
       sp_updated_at := now\<rparr>"

definition mark_connected ::
  "catalog_io \<Rightarrow> string \<Rightarrow> uuid \<Rightarrow> os_distribution option \<Rightarrow> catalog \<Rightarrow>
   (server_profile, app_error) result \<times> catalog" where
  "mark_connected io now i detected cat =
     attempt (read_profiles io cat) (\<lambda>profiles.
     attempt (ok_or (Core ProfileNotFound) (find (\<lambda>p. sp_id p = i) profiles)) (\<lambda>old.
       let updated = connected_profile now detected old
       in returning (save_profiles io (update_first (\<lambda>p. sp_id p = i) (\<lambda>_. updated) profiles) cat)
            updated) cat) cat"

fun assign_profile_orders ::
  "string \<Rightarrow> uuid option \<Rightarrow> nat \<Rightarrow> uuid list \<Rightarrow> server_profile list \<Rightarrow>
   (server_profile list, app_error) result" where
  "assign_profile_orders now g k [] profiles = Ok profiles"
| "assign_profile_orders now g k (i # ids) profiles =
     (if find (\<lambda>p. sp_id p = i \<and> sp_group_id p = g) profiles = None then Err (Core InvalidProfile)
      else result_bind (ok_or (Core InvalidProfile) (i32_try_from k)) (\<lambda>order.
        assign_profile_orders now g (k + 1) ids
          (update_first (\<lambda>p. sp_id p = i \<and> sp_group_id p = g)
            (\<lambda>p. p\<lparr>sp_sort_order := order, sp_updated_at := now\<rparr>) profiles)))"

definition reorder_profiles ::
  "catalog_io \<Rightarrow> string \<Rightarrow> uuid option \<Rightarrow> uuid list \<Rightarrow> catalog \<Rightarrow>
   (server_profile list, app_error) result \<times> catalog" where
  "reorder_profiles io now g ordered cat =
     attempt (validate_group io g cat) (\<lambda>_. attempt (read_profiles io cat) (\<lambda>profiles.
       let expected = sp_id ` set (filter (\<lambda>p. sp_group_id p = g) profiles) in
       if length ordered \<noteq> card expected \<or> set ordered \<noteq> expected then (Err (Core InvalidProfile), cat)
       else attempt (assign_profile_orders now g 0 ordered profiles) (\<lambda>profiles.
         let profiles = sort_key (i32_key \<circ> sp_sort_order) profiles in
         returning (save_profiles io profiles cat) profiles) cat) cat) cat"

section \<open>Import\<close>

record import_upsert =
  iu_name :: string
  iu_host :: string
  iu_port :: u16
  iu_username :: string
  iu_group_id :: "uuid option"
  iu_auth_method :: auth_method
  iu_key_source :: "key_source option"
  iu_source_id :: "string option"
  iu_jump_source_id :: "string option"
  iu_password :: "string option"

record import_outcome =
  oc_profile_id :: uuid
  oc_created :: bool
  oc_password :: "string option"

record import_result =
  im_outcomes :: "import_outcome list"
  im_profiles_created :: nat
  im_profiles_updated :: nat
  im_jumps_wired :: nat

definition prepare_import :: "import_upsert \<Rightarrow> (import_upsert, app_error) result" where
  "prepare_import item =
     result_bind (validate_fields (iu_name item) (iu_host item) (iu_port item) (iu_username item))
       (\<lambda>(name, host, username).
     result_bind (validate_auth (iu_auth_method item) (iu_key_source item)) (\<lambda>key.
       Ok (item\<lparr>iu_name := name, iu_host := host, iu_username := username, iu_key_source := key\<rparr>)))"

definition same_endpoint :: "import_upsert \<Rightarrow> server_profile \<Rightarrow> bool" where
  "same_endpoint item p \<longleftrightarrow>
     sp_host p = iu_host item \<and> sp_port p = iu_port item \<and> sp_username p = iu_username item"

definition imported_over ::
  "string \<Rightarrow> import_upsert \<Rightarrow> server_profile list \<Rightarrow> server_profile \<Rightarrow> server_profile" where
  "imported_over now item profiles old =
     \<lparr>sp_id = sp_id old, sp_name = iu_name item, sp_host = iu_host item, sp_port = iu_port item,
      sp_username = iu_username item, sp_group_id = iu_group_id item,
      sp_auth_method = iu_auth_method item, sp_key_source = iu_key_source item,
      sp_connection_route = sp_connection_route old,
      sp_sort_order = (if sp_group_id old = iu_group_id item then sp_sort_order old
                       else next_profile_order profiles (iu_group_id item)),
      sp_created_at = sp_created_at old, sp_updated_at = now,
      sp_last_connected_at = sp_last_connected_at old, sp_os_distribution = sp_os_distribution old\<rparr>"

definition imported_new ::
  "uuid \<Rightarrow> string \<Rightarrow> import_upsert \<Rightarrow> server_profile list \<Rightarrow> server_profile" where
  "imported_new new_id now item profiles =
     \<lparr>sp_id = new_id, sp_name = iu_name item, sp_host = iu_host item, sp_port = iu_port item,
      sp_username = iu_username item, sp_group_id = iu_group_id item,
      sp_auth_method = iu_auth_method item, sp_key_source = iu_key_source item,
      sp_connection_route = Direct, sp_sort_order = next_profile_order profiles (iu_group_id item),
      sp_created_at = now, sp_updated_at = now, sp_last_connected_at = None,
      sp_os_distribution = None\<rparr>"

record import_state =
  is_profiles :: "server_profile list"
  is_outcomes :: "import_outcome list"
  is_sources :: "string \<Rightarrow> uuid option"
  is_jumps :: "(uuid \<times> string) list"

definition import_item :: "uuid \<Rightarrow> string \<Rightarrow> import_upsert \<Rightarrow> import_state \<Rightarrow> import_state" where
  "import_item new_id now item st =
     (let profiles = is_profiles st;
          (profiles', i, created) =
            (case find (same_endpoint item) profiles of
               Some old \<Rightarrow>
                 (update_first (same_endpoint item) (imported_over now item profiles) profiles, sp_id old, False)
             | None \<Rightarrow> (profiles @ [imported_new new_id now item profiles], new_id, True))
      in \<lparr>is_profiles = profiles',
          is_outcomes = is_outcomes st @
            [\<lparr>oc_profile_id = i, oc_created = created, oc_password = iu_password item\<rparr>],
          is_sources = (case iu_source_id item of None \<Rightarrow> is_sources st
                        | Some source \<Rightarrow> (is_sources st)(source \<mapsto> i)),
          is_jumps = (case iu_jump_source_id item of None \<Rightarrow> is_jumps st
                      | Some jump \<Rightarrow> is_jumps st @ [(i, jump)])\<rparr>)"

fun import_items ::
  "(nat \<Rightarrow> uuid) \<Rightarrow> (nat \<Rightarrow> string) \<Rightarrow> nat \<Rightarrow> import_upsert list \<Rightarrow> import_state \<Rightarrow> import_state" where
  "import_items new_id now k [] st = st"
| "import_items new_id now k (item # items) st =
     import_items new_id now (k + 1) items (import_item (new_id k) (now k) item st)"

text \<open>Wiring one jump: whether it counts as wired, and the profiles afterwards.\<close>

definition wire_jump ::
  "string \<Rightarrow> (string \<Rightarrow> uuid option) \<Rightarrow> uuid \<times> string \<Rightarrow> server_profile list \<Rightarrow> bool \<times> server_profile list" where
  "wire_jump now sources pending profiles =
     (case pending of (i, source) \<Rightarrow>
        case sources source of
          None \<Rightarrow> (False, profiles)
        | Some jump \<Rightarrow>
            (case find (\<lambda>p. sp_id p = jump) profiles of
               None \<Rightarrow> (False, profiles)
             | Some j \<Rightarrow>
                 if sp_connection_route j \<noteq> Direct then (False, profiles)
                 else if list_ex (jumps_through i) profiles then (False, profiles)
                 else (case find (\<lambda>p. sp_id p = i) profiles of
                         None \<Rightarrow> (False, profiles)
                       | Some p \<Rightarrow>
                           if sp_connection_route p = JumpHost jump then (True, profiles)
                           else (True, update_first (\<lambda>p. sp_id p = i)
                             (\<lambda>p. p\<lparr>sp_connection_route := JumpHost jump, sp_updated_at := now\<rparr>) profiles))))"

fun wire_jumps ::
  "(nat \<Rightarrow> string) \<Rightarrow> nat \<Rightarrow> (string \<Rightarrow> uuid option) \<Rightarrow> (uuid \<times> string) list \<Rightarrow> server_profile list \<Rightarrow>
   nat \<times> server_profile list" where
  "wire_jumps now k sources [] profiles = (0, profiles)"
| "wire_jumps now k sources (pending # jumps) profiles =
     (let (wired, profiles') = wire_jump (now k) sources pending profiles;
          (n, profiles'') = wire_jumps now (k + 1) sources jumps profiles'
      in (if wired then n + 1 else n, profiles''))"

definition upsert_import_batch ::
  "catalog_io \<Rightarrow> (nat \<Rightarrow> uuid) \<Rightarrow> (nat \<Rightarrow> string) \<Rightarrow> import_upsert list \<Rightarrow> catalog \<Rightarrow>
   (import_result, app_error) result \<times> catalog" where
  "upsert_import_batch io new_id now items cat =
     (if items = [] then (Ok \<lparr>im_outcomes = [], im_profiles_created = 0, im_profiles_updated = 0,
                              im_jumps_wired = 0\<rparr>, cat)
      else attempt (try_map prepare_import items) (\<lambda>items.
        attempt (read_groups io cat) (\<lambda>groups.
        if list_ex (\<lambda>item. case iu_group_id item of None \<Rightarrow> False
                       | Some g \<Rightarrow> g \<notin> hg_id ` set groups) items
        then (Err (Core InvalidGroup), cat) else
        attempt (read_profiles io cat) (\<lambda>profiles.
          let st = import_items new_id now 0 items
                     \<lparr>is_profiles = profiles, is_outcomes = [], is_sources = Map.empty, is_jumps = []\<rparr>;
              created = length (filter oc_created (is_outcomes st));
              (wired, profiles') =
                wire_jumps now (length items) (is_sources st) (is_jumps st) (is_profiles st)
          in returning (save_profiles io profiles' cat)
               \<lparr>im_outcomes = is_outcomes st, im_profiles_created = created,
                im_profiles_updated = length (is_outcomes st) - created,
                im_jumps_wired = wired\<rparr>) cat) cat) cat)"

end
