(* ===== verification/Catalog_Sound.thy ===== *)
theory Catalog_Sound
  imports Catalog "HOL-Library.Multiset"
begin

text \<open>
  What holds of the catalog in every history of its operations, and the order a reordering leaves:
  the soundness predicate, one preservation lemma per operation of \<open>Catalog\<close>, the step relation and
  concrete histories, one of which makes a profile its own jump host.
\<close>

section \<open>The catalog stays sound\<close>

lemma attemptE:
  assumes "attempt r f s = (x, s')"
  obtains (failed) "s' = s" | (run) v where "r = Ok v" and "f v = (x, s')"
  using assms by (cases r) auto

lemma returningE:
  assumes "returning p x = (y, s')"
  obtains r where "p = (r, s')"
  using assms by (cases "(p, x)" rule: returning.cases) auto

lemma read_groups_Ok:
  assumes "read_groups io cat = Ok groups"
  shows "\<exists>t. mset t = mset (ca_groups cat) \<and> map hg_id groups = map sg_id t \<and> map hg_name groups = map sg_name t"
proof -
  let ?t = "sort_key group_order (ca_groups cat)"
  have "map hg_id gs = map sg_id t \<and> map hg_name gs = map sg_name t"
    if "try_map host_group_try_from t = Ok gs" for t gs
    using that by (induction t arbitrary: gs) (auto simp: result_simps host_group_try_from_def)
  from this [of ?t groups] assms show ?thesis
    by (intro exI [of _ ?t]) (auto simp: read_groups_def list_groups_def split: if_splits)
qed

lemma read_groups_ids:
  assumes "read_groups io cat = Ok groups"
  shows "hg_id ` set groups = sg_id ` set (ca_groups cat)"
    and "hg_name ` set groups = sg_name ` set (ca_groups cat)"
    and "distinct (map hg_id groups) \<longleftrightarrow> distinct (map sg_id (ca_groups cat))"
proof -
  from read_groups_Ok [OF assms] obtain t where
    t: "mset t = mset (ca_groups cat)" "map hg_id groups = map sg_id t" "map hg_name groups = map sg_name t" by blast
  then have "set (map hg_id groups) = set (map sg_id t)" "set (map hg_name groups) = set (map sg_name t)"
    by simp_all
  with t(1) show "hg_id ` set groups = sg_id ` set (ca_groups cat)"
    "hg_name ` set groups = sg_name ` set (ca_groups cat)"
    using t(1) by (metis list.set_map set_mset_mset)+
  from t(1) have "mset (map sg_id t) = mset (map sg_id (ca_groups cat))" by simp
  with t(2) show "distinct (map hg_id groups) \<longleftrightarrow> distinct (map sg_id (ca_groups cat))"
    by (metis mset_eq_imp_distinct_iff)
qed

lemma read_profiles_Ok:
  "read_profiles io cat = Ok ps \<Longrightarrow> ps = sort_key profile_order (ca_profiles cat)"
proof -
  have "try_map profile_port_ok t = Ok qs \<Longrightarrow> qs = t" for t qs
  proof (induction t arbitrary: qs)
    case (Cons p t)
    have "profile_port_ok p = Ok q \<Longrightarrow> q = p" for q
      by (cases "sp_port p = 0") (simp_all add: profile_roundtrip, simp add: profile_port_ok_def)
    with Cons show ?case by (auto simp: result_simps)
  qed simp
  then show "read_profiles io cat = Ok ps \<Longrightarrow> ps = sort_key profile_order (ca_profiles cat)"
    by (auto simp: read_profiles_def list_profiles_def split: if_splits)
qed

lemma read_profiles_set: "read_profiles io cat = Ok ps \<Longrightarrow> set ps = set (ca_profiles cat)"
  by (auto dest: read_profiles_Ok)

lemma save_groups_cases:
  assumes "save_groups io groups cat = (r, cat')"
  obtains (failed) "r = Err Storage" "cat' = cat"
    | (saved) "r = Ok ()" "cat' = cat\<lparr>ca_groups := map stored_group_from groups\<rparr>" "distinct (map hg_id groups)"
proof -
  have "map (sg_id \<circ> stored_group_from) groups = map hg_id groups" by (simp add: stored_group_from_def comp_def)
  with assms that show thesis
    by (auto simp: save_groups_def replace_groups_def replace_table_eq split: if_splits)
qed

lemma save_profiles_cases:
  assumes "save_profiles io ps cat = (r, cat')"
  obtains (failed) "r = Err Storage" "cat' = cat"
    | (saved) "r = Ok ()" "cat' = cat\<lparr>ca_profiles := ps\<rparr>" "distinct (map sp_id ps)"
  using assms that by (auto simp: save_profiles_def replace_profiles_def replace_table_eq split: if_splits)

definition group_name_ok :: "string \<Rightarrow> bool" where
  "group_name_ok name \<longleftrightarrow> name \<noteq> [] \<and> char_count name \<le> 50"

definition credentials_ok :: "auth_method \<Rightarrow> key_source option \<Rightarrow> bool" where
  "credentials_ok m key \<longleftrightarrow>
     (case (m, key) of
        (Password, None) \<Rightarrow> True
      | (PrivateKey, Some (KeyFile p)) \<Rightarrow> p \<noteq> [] \<and> length p \<le> 4096 \<and> CHR 0x00 \<notin> set p
      | (PrivateKey, Some (Vault _)) \<Rightarrow> True
      | _ \<Rightarrow> False)"

definition endpoint_ok :: "string \<Rightarrow> string \<Rightarrow> u16 \<Rightarrow> string \<Rightarrow> bool" where
  "endpoint_ok name host p username \<longleftrightarrow>
     name \<noteq> [] \<and> char_count name \<le> 100 \<and> host \<noteq> [] \<and> char_count host \<le> 255
     \<and> \<not> has_whitespace host \<and> p \<noteq> 0 \<and> username \<noteq> [] \<and> char_count username \<le> 255"

definition profile_ok :: "uuid set \<Rightarrow> server_profile \<Rightarrow> bool" where
  "profile_ok groups p \<longleftrightarrow>
     endpoint_ok (sp_name p) (sp_host p) (sp_port p) (sp_username p)
     \<and> credentials_ok (sp_auth_method p) (sp_key_source p)
     \<and> set_option (sp_group_id p) \<subseteq> groups"

text \<open>
  Which profile is reached over which route. A jump host is one that is reached directly;
  \<open>lax\<close> admits a profile that jumps through itself.
\<close>

definition links :: "server_profile list \<Rightarrow> (uuid \<times> connection_route) set" where
  "links ps = (\<lambda>p. (sp_id p, sp_connection_route p)) ` set ps"

definition jumps_ok :: "bool \<Rightarrow> (uuid \<times> connection_route) set \<Rightarrow> bool" where
  "jumps_ok lax L \<longleftrightarrow> (\<forall>i j. (i, JumpHost j) \<in> L \<longrightarrow> (j, Direct) \<in> L \<or> lax \<and> i = j)"

definition sound_catalog :: "bool \<Rightarrow> catalog \<Rightarrow> bool" where
  "sound_catalog lax cat \<longleftrightarrow>
     distinct (map sg_id (ca_groups cat)) \<and> distinct (map sp_id (ca_profiles cat))
     \<and> (\<forall>g \<in> set (ca_groups cat). group_name_ok (sg_name g))
     \<and> (\<forall>p \<in> set (ca_profiles cat). profile_ok (sg_id ` set (ca_groups cat)) p)
     \<and> jumps_ok lax (links (ca_profiles cat))"

lemma validate_fields_Ok:
  "validate_fields name host p username = Ok (n, h, u) \<Longrightarrow> endpoint_ok n h p u"
  by (auto simp: validate_fields_def endpoint_ok_def Let_def split: if_splits)

lemma validate_auth_Ok: "validate_auth m key = Ok key' \<Longrightarrow> credentials_ok m key'"
  by (cases "(m, key)" rule: validate_auth.cases) (auto simp: credentials_ok_def Let_def split: if_splits)

lemma validate_group_name_Ok: "validate_group_name name = Ok n \<Longrightarrow> group_name_ok n"
  by (auto simp: validate_group_name_def group_name_ok_def Let_def split: if_splits)

lemma validate_group_Ok:
  "validate_group io g cat = Ok () \<Longrightarrow> set_option g \<subseteq> sg_id ` set (ca_groups cat)"
  by (auto simp: validate_group_def result_simps list_ex_iff read_groups_ids(1) [symmetric]
      split: option.splits if_splits)

lemma linksI: "p \<in> set ps \<Longrightarrow> (sp_id p, sp_connection_route p) \<in> links ps"
  by (auto simp: links_def)

lemma jumps_through_links: "list_ex (jumps_through i) ps \<longleftrightarrow> (\<exists>k. (k, JumpHost i) \<in> links ps)"
  by (auto simp: list_ex_iff jumps_through_def links_def) force+

lemma validate_route_Ok:
  assumes "validate_route route current ps = Ok ()" and "route = JumpHost j"
  shows "(j, Direct) \<in> links ps" and "Some j \<noteq> current"
  using assms
  by (auto simp: validate_route_def result_simps links_def image_iff split: if_splits dest!: find_Some_set)

lemma distinct_map_eqD: "distinct (map f xs) \<Longrightarrow> x \<in> set xs \<Longrightarrow> y \<in> set xs \<Longrightarrow> f x = f y \<Longrightarrow> x = y"
  by (auto simp: distinct_map inj_on_def)

text \<open>Replacing the row of one profile.\<close>

lemma set_update_first_key:
  assumes "distinct (map key xs)" and "find (\<lambda>x. key x = i) xs = Some old"
  shows "set (update_first (\<lambda>x. key x = i) f xs) = insert (f old) {x \<in> set xs. key x \<noteq> i}"
  using assms
proof (induction xs)
  case (Cons x xs)
  show ?case
  proof (cases "key x = i")
    case True
    from Cons.prems(1) True have "key y \<noteq> i" if "y \<in> set xs" for y using that by (auto simp: image_iff)
    with True Cons.prems show ?thesis by auto
  next
    case False
    with Cons show ?thesis by auto
  qed
qed simp

lemma links_replace:
  assumes "distinct (map sp_id ps)" and "find (\<lambda>p. sp_id p = i) ps = Some old" and "sp_id (f old) = i"
  shows "links (update_first (\<lambda>p. sp_id p = i) f ps)
    = insert (i, sp_connection_route (f old)) {l \<in> links ps. fst l \<noteq> i}"
proof -
  have "{l \<in> links ps. fst l \<noteq> i} = (\<lambda>p. (sp_id p, sp_connection_route p)) ` {p \<in> set ps. sp_id p \<noteq> i}"
    by (force simp: links_def)
  then show ?thesis
    using assms(3) by (simp add: links_def set_update_first_key [OF assms(1,2)])
qed

lemma links_same:
  assumes "map (\<lambda>p. (sp_id p, sp_connection_route p)) ps = map (\<lambda>p. (sp_id p, sp_connection_route p)) qs"
  shows "links ps = links qs"
  using arg_cong [OF assms, of set] by (simp add: links_def)

lemma jumps_ok_replace:
  assumes "jumps_ok lax L"
    and "route = Direct \<or> (\<forall>k. (k, JumpHost i) \<notin> L)"
    and "\<And>j. route = JumpHost j \<Longrightarrow> (j, Direct) \<in> L \<and> (j \<noteq> i \<or> lax)"
  shows "jumps_ok lax (insert (i, route) {l \<in> L. fst l \<noteq> i})"
  using assms unfolding jumps_ok_def by fastforce

lemma jumps_ok_insert:
  assumes "jumps_ok lax L" and "\<And>j. route = JumpHost j \<Longrightarrow> (j, Direct) \<in> L"
  shows "jumps_ok lax (insert (i, route) L)"
  using assms unfolding jumps_ok_def by blast

lemma jumps_ok_remove:
  "jumps_ok lax L \<Longrightarrow> \<forall>k. (k, JumpHost i) \<notin> L \<Longrightarrow> jumps_ok lax {l \<in> L. fst l \<noteq> i}"
  unfolding jumps_ok_def by fastforce

lemma stored_group_sel [simp]:
  "sg_id (stored_group_from g) = hg_id g" "sg_name (stored_group_from g) = hg_name g"
  by (simp_all add: stored_group_from_def)

lemma sound_save_groups:
  assumes "sound_catalog lax cat" and "save_groups io groups cat = (r, cat')"
    and "\<forall>g \<in> set groups. group_name_ok (hg_name g)"
    and "\<And>p. p \<in> set (ca_profiles cat) \<Longrightarrow> set_option (sp_group_id p) \<subseteq> hg_id ` set groups"
  shows "sound_catalog lax cat'"
  using assms(2)
proof (cases rule: save_groups_cases)
  case saved
  with assms(1,3,4) show ?thesis
    by (simp add: sound_catalog_def profile_ok_def image_image comp_def)
qed (use assms in simp)

lemma sound_save_profiles:
  assumes "sound_catalog lax cat" and "save_profiles io ps cat = (r, cat')"
    and "\<forall>p \<in> set ps. profile_ok (sg_id ` set (ca_groups cat)) p" and "jumps_ok lax (links ps)"
  shows "sound_catalog lax cat'"
  using assms(2) by (cases rule: save_profiles_cases) (use assms in \<open>simp_all add: sound_catalog_def\<close>)

lemma sound_catalogD:
  assumes "sound_catalog lax cat"
  shows "\<And>g. g \<in> set (ca_groups cat) \<Longrightarrow> group_name_ok (sg_name g)"
    and "\<And>p. p \<in> set (ca_profiles cat) \<Longrightarrow> profile_ok (sg_id ` set (ca_groups cat)) p"
    and "jumps_ok lax (links (ca_profiles cat))"
    and "distinct (map sg_id (ca_groups cat))" and "distinct (map sp_id (ca_profiles cat))"
  using assms by (simp_all add: sound_catalog_def)

lemma sound_read_profiles:
  assumes "sound_catalog lax cat" and "read_profiles io cat = Ok ps"
  shows "\<forall>p \<in> set ps. profile_ok (sg_id ` set (ca_groups cat)) p" and "jumps_ok lax (links ps)"
    and "distinct (map sp_id ps)"
proof -
  have ps: "set ps = set (ca_profiles cat)" by (rule read_profiles_set [OF assms(2)])
  then show "\<forall>p \<in> set ps. profile_ok (sg_id ` set (ca_groups cat)) p" "jumps_ok lax (links ps)"
    using sound_catalogD [OF assms(1)] by (simp_all add: links_def)
  have "mset (map sp_id ps) = mset (map sp_id (ca_profiles cat))"
    using read_profiles_Ok [OF assms(2)] by simp
  then show "distinct (map sp_id ps)"
    using sound_catalogD(5) [OF assms(1)] by (metis mset_eq_imp_distinct_iff)
qed

lemma sound_read_groups:
  assumes "sound_catalog lax cat" and "read_groups io cat = Ok groups"
  shows "\<forall>g \<in> set groups. group_name_ok (hg_name g)" and "distinct (map hg_id groups)"
    and "\<And>p. p \<in> set (ca_profiles cat) \<Longrightarrow> set_option (sp_group_id p) \<subseteq> hg_id ` set groups"
proof -
  have "group_name_ok n" if "n \<in> sg_name ` set (ca_groups cat)" for n
    using that sound_catalogD(1) [OF assms(1)] by auto
  then show "\<forall>g \<in> set groups. group_name_ok (hg_name g)"
    using read_groups_ids(2) [OF assms(2)] by blast
  show "distinct (map hg_id groups)"
    using read_groups_ids(3) [OF assms(2)] sound_catalogD(4) [OF assms(1)] by simp
  show "\<And>p. p \<in> set (ca_profiles cat) \<Longrightarrow> set_option (sp_group_id p) \<subseteq> hg_id ` set groups"
    using sound_catalogD(2) [OF assms(1)] read_groups_ids(1) [OF assms(2)] by (simp add: profile_ok_def)
qed

text \<open>A changed group list that still has every old group.\<close>

lemma sound_change_groups:
  assumes "sound_catalog lax cat" and "read_groups io cat = Ok groups"
    and "save_groups io groups' cat = (r, cat')"
    and "hg_id ` set groups \<subseteq> hg_id ` set groups'"
    and "\<forall>g \<in> set groups'. group_name_ok (hg_name g)"
  shows "sound_catalog lax cat'"
  by (rule sound_save_groups [OF assms(1,3,5)])
    (rule subset_trans [OF sound_read_groups(3) [OF assms(1,2)] assms(4)])

lemma create_group_sound:
  assumes "sound_catalog lax cat" and "create_group io i now name cat = (r, cat')"
  shows "sound_catalog lax cat'"
proof -
  from assms(2) show ?thesis
    unfolding create_group_def Let_def
  proof (elim attemptE returningE)
    fix n groups r'
    assume n: "validate_group_name name = Ok n" and groups: "read_groups io cat = Ok groups"
      and save: "save_groups io (groups @ [new_group i now n groups]) cat = (r', cat')"
    show ?thesis
      using sound_read_groups(1) [OF assms(1) groups] validate_group_name_Ok [OF n]
      by (intro sound_change_groups [OF assms(1) groups save]) (auto simp: new_group_def)
  qed (use assms in auto)
qed

lemma add_missing_groups_sound:
  "add_missing_groups new_id now names k (ids, groups) = (ids', groups') \<Longrightarrow>
   \<forall>n \<in> set names. group_name_ok n \<Longrightarrow> \<forall>g \<in> set groups. group_name_ok (hg_name g) \<Longrightarrow>
   (\<forall>g \<in> set groups'. group_name_ok (hg_name g)) \<and> set groups \<subseteq> set groups'"
proof (induction names arbitrary: k ids groups)
  case (Cons n names)
  show ?case
  proof (cases "ids n = None")
    case True
    let ?g = "new_group (new_id k) (now k) n groups"
    have "\<forall>g \<in> set (groups @ [?g]). group_name_ok (hg_name g)"
      using Cons.prems(2,3) by (simp add: new_group_def)
    moreover from True Cons.prems(1) have
      "add_missing_groups new_id now names (k + 1) (ids(n \<mapsto> hg_id ?g), groups @ [?g]) = (ids', groups')"
      by (simp add: Let_def)
    ultimately show ?thesis using Cons.IH [of "k + 1" _ "groups @ [?g]"] Cons.prems(2) by simp
  qed (use Cons in simp)
qed simp

lemma ensure_groups_sound:
  assumes "sound_catalog lax cat" and "ensure_groups_by_name io new_id now names cat = (r, cat')"
  shows "sound_catalog lax cat'"
proof -
  from assms(2) show ?thesis
    unfolding ensure_groups_by_name_def Let_def
  proof (elim attemptE)
    fix ns groups
    assume ns: "try_map validate_group_name names = Ok ns" and groups: "read_groups io cat = Ok groups"
      and run: "(case add_missing_groups new_id now (rev (remdups (rev ns))) 0
          (map_of (rev (map (\<lambda>g. (hg_name g, hg_id g)) groups)), groups) of
          (ids, groups') \<Rightarrow>
            if length groups' - length groups = 0 then (Ok (ids, length groups' - length groups), cat)
            else returning (save_groups io groups' cat) (ids, length groups' - length groups)) = (r, cat')"
    obtain ids groups' where add: "add_missing_groups new_id now (rev (remdups (rev ns))) 0
        (map_of (rev (map (\<lambda>g. (hg_name g, hg_id g)) groups)), groups) = (ids, groups')" by fastforce
    have "\<forall>n \<in> set ns. group_name_ok n"
      using ns by (auto dest!: try_map_Ok_set validate_group_name_Ok)
    then have kept: "(\<forall>g \<in> set groups'. group_name_ok (hg_name g)) \<and> set groups \<subseteq> set groups'"
      using add_missing_groups_sound [OF add] sound_read_groups(1) [OF assms(1) groups] by simp
    show ?thesis
    proof (cases "length groups' - length groups = 0")
      case False
      with run add obtain r' where "save_groups io groups' cat = (r', cat')" by (auto elim: returningE)
      from sound_change_groups [OF assms(1) groups this] kept show ?thesis by (simp add: image_mono)
    qed (use run add assms(1) in simp)
  qed (use assms in auto)
qed

lemma update_group_sound:
  assumes "sound_catalog lax cat" and "update_group io now request cat = (r, cat')"
  shows "sound_catalog lax cat'"
proof -
  from assms(2) show ?thesis
    unfolding update_group_def Let_def
  proof (elim attemptE, goal_cases)
    case (2 n)
    show ?case
    proof (cases "sint (ug_sort_order request) < 0")
      case False
      with 2(2) show ?thesis
      proof (simp, elim attemptE returningE)
        fix groups g r'
        assume groups: "read_groups io cat = Ok groups"
          and g: "ok_or (Core GroupNotFound) (find (\<lambda>g. hg_id g = ug_id request) groups) = Ok g"
          and save: "save_groups io (update_first (\<lambda>g. hg_id g = ug_id request)
            (\<lambda>_. g\<lparr>hg_name := n, hg_sort_order := ug_sort_order request,
              hg_collapsed := ug_collapsed request, hg_updated_at := now\<rparr>) groups) cat = (r', cat')"
        from g have "find (\<lambda>g. hg_id g = ug_id request) groups = Some g" by (simp add: result_simps)
        from set_update_first_key [OF sound_read_groups(2) [OF assms(1) groups] this] find_Some_set [OF this]
        show ?thesis
          using sound_read_groups(1) [OF assms(1) groups] validate_group_name_Ok [OF 2(1)]
          by (intro sound_change_groups [OF assms(1) groups save]) auto
      qed (use assms in auto)
    qed (use 2 assms in simp)
  qed (use assms in auto)
qed

lemma delete_group_sound:
  assumes "sound_catalog lax cat" and "delete_group io now i cat = (r, cat')"
  shows "sound_catalog lax cat'"
proof (cases "\<exists>groups profiles. read_groups io cat = Ok groups \<and> read_profiles io cat = Ok profiles")
  case True
  then obtain groups profiles where
    groups: "read_groups io cat = Ok groups" and profiles: "read_profiles io cat = Ok profiles" by blast
  let ?rest = "filter (\<lambda>g. hg_id g \<noteq> i) groups" and ?ps = "map (ungroup i now) profiles"
  note ps = sound_read_profiles [OF assms(1) profiles]
  have "links ?ps = links profiles"
    by (rule links_same) (simp add: ungroup_def)
  moreover have "\<forall>p \<in> set ?ps. profile_ok (sg_id ` set (ca_groups cat)) p"
    using ps(1) by (auto simp: ungroup_def profile_ok_def)
  ultimately have first: "sound_catalog lax c" if "save_profiles io ?ps cat = (q, c)" for q c
    using sound_save_profiles [OF assms(1) that] ps(2) by simp
  obtain q c where save: "save_profiles io ?ps cat = (q, c)" by fastforce
  then have run: "cat' = cat \<or> (cat' = c \<and> q \<noteq> Ok ())
      \<or> (q = Ok () \<and> save_groups io ?rest c = (r, cat'))"
    using assms(2) groups profiles
    by (auto simp: delete_group_def Let_def split: if_splits result.splits)
  then show ?thesis
  proof (elim disjE conjE)
    assume "q = Ok ()" and rest: "save_groups io ?rest c = (r, cat')"
    with save have c: "ca_profiles c = ?ps" "ca_groups c = ca_groups cat"
      by (auto elim!: save_profiles_cases)
    have "set_option (sp_group_id p) \<subseteq> hg_id ` set ?rest" if "p \<in> set (ca_profiles c)" for p
    proof -
      from that c obtain p0 where p0: "p0 \<in> set profiles" "p = ungroup i now p0" by auto
      then have "set_option (sp_group_id p0) \<subseteq> hg_id ` set groups"
        using ps(1) read_groups_ids(1) [OF groups] by (simp add: profile_ok_def)
      with p0(2) show ?thesis by (auto simp: ungroup_def image_iff split: if_splits)
    qed
    then show ?thesis
      using sound_read_groups(1) [OF assms(1) groups] by (intro sound_save_groups [OF first [OF save] rest]) auto
  qed (use first [OF save] assms(1) in auto)
next
  case False
  then show ?thesis
    using assms by (auto simp: delete_group_def Let_def elim!: attemptE split: if_splits)
qed

lemma assign_group_orders_frame:
  "assign_group_orders now k ids groups = Ok groups' \<Longrightarrow>
   map hg_id groups' = map hg_id groups \<and> map hg_name groups' = map hg_name groups"
  by (induction now k ids groups rule: assign_group_orders.induct)
    (auto simp: result_simps map_update_first_frame split: if_splits)

lemma reorder_groups_sound:
  assumes "sound_catalog lax cat" and "reorder_groups io now ordered cat = (r, cat')"
  shows "sound_catalog lax cat'"
proof -
  from assms(2) consider "cat' = cat" | groups groups' r' where
    "read_groups io cat = Ok groups" "assign_group_orders now 0 ordered groups = Ok groups'"
    "save_groups io (sort_key (i32_key \<circ> hg_sort_order) groups') cat = (r', cat')"
    by (auto simp: reorder_groups_def Let_def elim!: attemptE returningE split: if_splits)
  then show ?thesis
  proof cases
    case 2
    from assign_group_orders_frame [OF 2(2)] have "hg_id ` set groups' = hg_id ` set groups"
      "hg_name ` set groups' = hg_name ` set groups" by (metis list.set_map)+
    then show ?thesis
      using sound_read_groups(1) [OF assms(1) 2(1)]
      by (intro sound_change_groups [OF assms(1) 2(1,3)]) (simp_all, metis imageE imageI)
  qed (use assms in simp)
qed

text \<open>A changed profile list in which every row is well formed and the routes are right.\<close>

lemma create_profile_sound:
  assumes "sound_catalog lax cat" and "create_profile io i now request cat = (r, cat')"
  shows "sound_catalog lax cat'"
proof -
  from assms(2) consider "cat' = cat" | vals key ps r' where
    "validate_fields (cp_name request) (cp_host request) (cp_port request) (cp_username request) = Ok vals"
    "validate_auth (cp_auth_method request) (cp_key_source request) = Ok key"
    "validate_group io (cp_group_id request) cat = Ok ()" "read_profiles io cat = Ok ps"
    "validate_route (cp_connection_route request) None ps = Ok ()"
    "save_profiles io (ps @ [new_profile i now vals key request ps]) cat = (r', cat')"
    by (auto simp: create_profile_def Let_def elim!: attemptE returningE)
  then show ?thesis
  proof cases
    case 2
    let ?p = "new_profile i now vals key request ps"
    note ps = sound_read_profiles [OF assms(1) 2(4)]
    have "profile_ok (sg_id ` set (ca_groups cat)) ?p"
      using validate_fields_Ok [of _ _ _ _ "fst vals" "fst (snd vals)" "snd (snd vals)"] 2(1)
        validate_auth_Ok [OF 2(2)] validate_group_Ok [OF 2(3)]
      by (simp add: profile_ok_def new_profile_def)
    moreover have "links (ps @ [?p]) = insert (i, cp_connection_route request) (links ps)"
      by (simp add: links_def new_profile_def)
    moreover have "jumps_ok lax (insert (i, cp_connection_route request) (links ps))"
      using validate_route_Ok(1) [OF 2(5)] by (intro jumps_ok_insert ps(2))
    ultimately show ?thesis
      using ps(1) by (intro sound_save_profiles [OF assms(1) 2(6)]) auto
  qed (use assms in simp)
qed

text \<open>Replacing one row by a well-formed one with the same identifier.\<close>

lemma sound_replace_profile:
  assumes "sound_catalog lax cat" and "read_profiles io cat = Ok ps"
    and "find (\<lambda>p. sp_id p = i) ps = Some old"
    and "save_profiles io (update_first (\<lambda>p. sp_id p = i) (\<lambda>_. p) ps) cat = (r, cat')"
    and "sp_id p = i" and "profile_ok (sg_id ` set (ca_groups cat)) p"
    and "sp_connection_route p = sp_connection_route old
      \<or> validate_route (sp_connection_route p) (Some i) ps = Ok ()
        \<and> (sp_connection_route p = Direct \<or> \<not> list_ex (jumps_through i) ps)"
  shows "sound_catalog lax cat'"
proof -
  note ps = sound_read_profiles [OF assms(1,2)]
  note set' = set_update_first_key [OF ps(3) assms(3), of "\<lambda>_. p"]
  note links' = links_replace [OF ps(3) assms(3), of "\<lambda>_. p", OF assms(5)]
  have "jumps_ok lax (links (update_first (\<lambda>p. sp_id p = i) (\<lambda>_. p) ps))"
    using assms(7)
  proof
    assume same: "sp_connection_route p = sp_connection_route old"
    have "old \<in> set ps" "sp_id old = i" using find_Some_set [OF assms(3)] by auto
    then have "(i, sp_connection_route old) \<in> links ps" using linksI [of old ps] by simp
    moreover have "l = (i, sp_connection_route old)" if "l \<in> links ps" "fst l = i" for l
      using that \<open>old \<in> set ps\<close> \<open>sp_id old = i\<close> by (auto simp: links_def dest: distinct_map_eqD [OF ps(3), of _ old])
    ultimately have "insert (i, sp_connection_route p) {l \<in> links ps. fst l \<noteq> i} = links ps"
      unfolding same by blast
    with links' ps(2) show ?thesis by simp
  next
    assume "validate_route (sp_connection_route p) (Some i) ps = Ok ()
      \<and> (sp_connection_route p = Direct \<or> \<not> list_ex (jumps_through i) ps)"
    then show ?thesis
      unfolding links' using validate_route_Ok [of "sp_connection_route p" "Some i" ps]
      by (intro jumps_ok_replace ps(2)) (auto simp: jumps_through_links)
  qed
  with set' ps(1) assms(6) show ?thesis
    by (intro sound_save_profiles [OF assms(1,4)]) auto
qed

lemma update_profile_sound:
  assumes "sound_catalog lax cat" and "update_profile io now request cat = (r, cat')"
  shows "sound_catalog lax cat'"
proof -
  from assms(2) consider "cat' = cat" | vals key ps old r' where
    "validate_fields (cp_name request) (cp_host request) (cp_port request) (cp_username request) = Ok vals"
    "validate_auth (cp_auth_method request) (cp_key_source request) = Ok key"
    "validate_group io (cp_group_id request) cat = Ok ()" "read_profiles io cat = Ok ps"
    "validate_route (cp_connection_route request) (Some (up_id request)) ps = Ok ()"
    "cp_connection_route request = Direct \<or> \<not> list_ex (jumps_through (up_id request)) ps"
    "find (\<lambda>p. sp_id p = up_id request) ps = Some old"
    "save_profiles io (update_first (\<lambda>p. sp_id p = up_id request)
       (\<lambda>_. edited_profile now vals key request ps old) ps) cat = (r', cat')"
    unfolding update_profile_def Let_def
    by (elim attemptE returningE; simp add: result_simps split: if_splits; elim attemptE returningE)
      (auto simp: result_simps elim!: attemptE returningE split: if_splits)
  then show ?thesis
  proof cases
    case 2
    let ?p = "edited_profile now vals key request ps old"
    have "profile_ok (sg_id ` set (ca_groups cat)) ?p"
      using validate_fields_Ok [of _ _ _ _ "fst vals" "fst (snd vals)" "snd (snd vals)"] 2(1)
        validate_auth_Ok [OF 2(2)] validate_group_Ok [OF 2(3)]
      by (simp add: profile_ok_def edited_profile_def)
    moreover have "sp_id ?p = up_id request" using find_Some_set [OF 2(7)] by (simp add: edited_profile_def)
    moreover have "sp_connection_route ?p = cp_connection_route request" by (simp add: edited_profile_def)
    ultimately show ?thesis
      using 2(5,6) by (intro sound_replace_profile [OF assms(1) 2(4,7,8)]) simp_all
  qed (use assms in simp)
qed

lemma delete_profile_sound:
  assumes "sound_catalog lax cat" and "delete_profile io i cat = (r, cat')"
  shows "sound_catalog lax cat'"
proof -
  from assms(2) consider "cat' = cat" | ps r' where "read_profiles io cat = Ok ps"
    "\<not> list_ex (jumps_through i) ps" "save_profiles io (filter (\<lambda>p. sp_id p \<noteq> i) ps) cat = (r', cat')"
    by (auto simp: delete_profile_def Let_def elim!: attemptE split: if_splits)
  then show ?thesis
  proof cases
    case 2
    note ps = sound_read_profiles [OF assms(1) 2(1)]
    have "links (filter (\<lambda>p. sp_id p \<noteq> i) ps) = {l \<in> links ps. fst l \<noteq> i}"
      by (force simp: links_def)
    then show ?thesis
      using ps(1) jumps_ok_remove [OF ps(2), of i] 2(2)
      by (intro sound_save_profiles [OF assms(1) 2(3)]) (simp_all add: jumps_through_links)
  qed (use assms in simp)
qed

lemma mark_connected_sound:
  assumes "sound_catalog lax cat" and "mark_connected io now i detected cat = (r, cat')"
  shows "sound_catalog lax cat'"
proof -
  from assms(2) consider "cat' = cat" | ps old r' where "read_profiles io cat = Ok ps"
    "find (\<lambda>p. sp_id p = i) ps = Some old"
    "save_profiles io (update_first (\<lambda>p. sp_id p = i) (\<lambda>_. connected_profile now detected old) ps) cat
      = (r', cat')"
    by (auto simp: mark_connected_def Let_def result_simps elim!: attemptE returningE)
  then show ?thesis
  proof cases
    case 2
    from find_Some_set [OF 2(2)] have old: "old \<in> set ps" "sp_id old = i" by auto
    then have "profile_ok (sg_id ` set (ca_groups cat)) (connected_profile now detected old)"
      using sound_read_profiles(1) [OF assms(1) 2(1)] by (auto simp: profile_ok_def connected_profile_def)
    with old(2) show ?thesis
      by (intro sound_replace_profile [OF assms(1) 2]) (auto simp: connected_profile_def)
  qed (use assms in simp)
qed

text \<open>A change of the order and the time stamp of rows is no change for soundness.\<close>

definition profile_core :: "server_profile \<Rightarrow> server_profile" where
  "profile_core p = p\<lparr>sp_sort_order := 0, sp_updated_at := []\<rparr>"

lemma assign_profile_orders_frame:
  "assign_profile_orders now g k ids ps = Ok ps' \<Longrightarrow> map profile_core ps' = map profile_core ps"
  by (induction now g k ids ps rule: assign_profile_orders.induct)
    (auto simp: result_simps map_update_first_frame profile_core_def split: if_splits)

lemma sound_same_cores:
  assumes "map profile_core ps' = map profile_core ps"
  shows "(\<forall>p \<in> set ps'. profile_ok G p) \<longleftrightarrow> (\<forall>p \<in> set ps. profile_ok G p)"
    and "links ps' = links ps"
proof -
  have "profile_ok G p = profile_ok G (profile_core p)" for p
    by (simp add: profile_ok_def profile_core_def)
  then have "(\<forall>p \<in> set qs. profile_ok G p) \<longleftrightarrow> (\<forall>p \<in> set (map profile_core qs). profile_ok G p)" for qs
    by simp
  then show "(\<forall>p \<in> set ps'. profile_ok G p) \<longleftrightarrow> (\<forall>p \<in> set ps. profile_ok G p)"
    using assms by metis
  have "links qs = links (map profile_core qs)" for qs
    by (simp add: links_def profile_core_def image_image)
  with assms show "links ps' = links ps" by metis
qed

lemma reorder_profiles_sound:
  assumes "sound_catalog lax cat" and "reorder_profiles io now g ordered cat = (r, cat')"
  shows "sound_catalog lax cat'"
proof -
  from assms(2) consider "cat' = cat" | ps ps' r' where
    "read_profiles io cat = Ok ps" "assign_profile_orders now g 0 ordered ps = Ok ps'"
    "save_profiles io (sort_key (i32_key \<circ> sp_sort_order) ps') cat = (r', cat')"
    by (auto simp: reorder_profiles_def Let_def elim!: attemptE returningE split: if_splits)
  then show ?thesis
  proof cases
    case 2
    note same = sound_same_cores [OF assign_profile_orders_frame [OF 2(2)]]
    have "links (sort_key (i32_key \<circ> sp_sort_order) ps') = links ps'" by (simp add: links_def)
    then show ?thesis
      using sound_read_profiles [OF assms(1) 2(1)]
      by (intro sound_save_profiles [OF assms(1) 2(3)]) (simp_all add: same)
  qed (use assms in simp)
qed

definition import_ok :: "uuid set \<Rightarrow> import_upsert \<Rightarrow> bool" where
  "import_ok G item \<longleftrightarrow>
     endpoint_ok (iu_name item) (iu_host item) (iu_port item) (iu_username item)
     \<and> credentials_ok (iu_auth_method item) (iu_key_source item) \<and> set_option (iu_group_id item) \<subseteq> G"

lemma import_items_sound:
  "import_items new_id now k items st = st' \<Longrightarrow> \<forall>item \<in> set items. import_ok G item \<Longrightarrow>
   (\<forall>p \<in> set (is_profiles st). profile_ok G p) \<and> jumps_ok lax (links (is_profiles st)) \<Longrightarrow>
   (\<forall>p \<in> set (is_profiles st'). profile_ok G p) \<and> jumps_ok lax (links (is_profiles st'))"
proof (induction new_id now k items st rule: import_items.induct)
  case (2 new_id now k item items st)
  let ?st = "import_item (new_id k) (now k) item st"
  have "(\<forall>p \<in> set (is_profiles ?st). profile_ok G p) \<and> jumps_ok lax (links (is_profiles ?st))"
  proof (cases "find (same_endpoint item) (is_profiles st)")
    case None
    let ?p = "imported_new (new_id k) (now k) item (is_profiles st)"
    from None have st: "is_profiles ?st = is_profiles st @ [?p]"
      by (simp add: import_item_def Let_def)
    moreover have "profile_ok G ?p"
      using 2(3) by (simp add: profile_ok_def imported_new_def import_ok_def)
    moreover have "links (is_profiles st @ [?p]) = insert (new_id k, Direct) (links (is_profiles st))"
      by (simp add: links_def imported_new_def)
    ultimately show ?thesis using 2(4) by (auto intro: jumps_ok_insert)
  next
    case (Some old)
    let ?f = "imported_over (now k) item (is_profiles st)"
    from Some have st: "is_profiles ?st = update_first (same_endpoint item) ?f (is_profiles st)"
      by (simp add: import_item_def Let_def)
    have "links (update_first (same_endpoint item) ?f (is_profiles st)) = links (is_profiles st)"
      by (rule links_same, rule map_update_first_frame) (simp add: imported_over_def)
    moreover have "profile_ok G (?f p)" for p
      using 2(3) by (simp add: profile_ok_def imported_over_def import_ok_def)
    ultimately show ?thesis
      using 2(4) set_update_first_subset [of "same_endpoint item" ?f "is_profiles st"] by (auto simp: st)
  qed
  with 2 show ?case by simp
qed simp

lemma wire_jump_sound:
  assumes "wire_jump now sources pending ps = (w, ps')" and "distinct (map sp_id ps)"
    and "\<forall>p \<in> set ps. profile_ok G p" and "jumps_ok True (links ps)"
  shows "map sp_id ps' = map sp_id ps \<and> (\<forall>p \<in> set ps'. profile_ok G p) \<and> jumps_ok True (links ps')"
proof -
  show ?thesis
  proof (cases "ps' = ps")
    case False
    obtain i source where pending: "pending = (i, source)" by fastforce
    obtain jump where jump: "sources source = Some jump"
      using assms(1) False by (cases "sources source") (simp_all add: wire_jump_def pending)
    obtain j where j: "find (\<lambda>p. sp_id p = jump) ps = Some j"
      using assms(1) False by (cases "find (\<lambda>p. sp_id p = jump) ps") (simp_all add: wire_jump_def pending jump)
    have free: "sp_connection_route j = Direct" "\<not> list_ex (jumps_through i) ps"
      using assms(1) False by (simp_all add: wire_jump_def pending jump j split: if_splits)
    obtain p where p: "find (\<lambda>p. sp_id p = i) ps = Some p"
      using assms(1) False
      by (cases "find (\<lambda>p. sp_id p = i) ps") (simp_all add: wire_jump_def pending jump j free)
    have ps': "ps' = update_first (\<lambda>p. sp_id p = i)
      (\<lambda>p. p\<lparr>sp_connection_route := JumpHost jump, sp_updated_at := now\<rparr>) ps"
      using assms(1) False by (simp add: wire_jump_def pending jump j free p split: if_splits)
    let ?f = "\<lambda>p. p\<lparr>sp_connection_route := JumpHost jump, sp_updated_at := now\<rparr>"
    have "map sp_id ps' = map sp_id ps"
      unfolding ps' by (rule map_update_first_frame) simp
    moreover have "profile_ok G (?f p) = profile_ok G p" for p by (simp add: profile_ok_def)
    then have "\<forall>p \<in> set ps'. profile_ok G p"
      using assms(3) set_update_first_subset [of "\<lambda>p. sp_id p = i" ?f ps] unfolding ps' by auto
    moreover have "(jump, Direct) \<in> links ps"
      using find_Some_set [OF j] free(1) by (auto simp: links_def image_iff intro!: bexI [of _ j])
    then have "jumps_ok True (links ps')"
      using find_Some_set [OF p] free(2)
      unfolding ps' by (subst links_replace [OF assms(2) p], simp,
        intro jumps_ok_replace assms(4)) (simp_all add: jumps_through_links)
    ultimately show ?thesis by simp
  qed (use assms in simp)
qed

lemma wire_jumps_ids: "map sp_id (snd (wire_jumps now k sources jumps ps)) = map sp_id ps"
proof (induction now k sources jumps ps rule: wire_jumps.induct)
  case (2 now k sources pending jumps ps)
  obtain w ps' where w: "wire_jump (now k) sources pending ps = (w, ps')" by fastforce
  then have "map sp_id ps' = map sp_id ps"
    by (auto simp: wire_jump_def map_update_first_frame split: prod.splits option.splits if_splits)
  with 2 [OF w [symmetric] refl] w show ?case by (auto simp: Let_def split: prod.splits)
qed simp

lemma wire_jumps_sound:
  "distinct (map sp_id ps) \<Longrightarrow> \<forall>p \<in> set ps. profile_ok G p \<Longrightarrow> jumps_ok True (links ps) \<Longrightarrow>
   wire_jumps now k sources jumps ps = (n, ps') \<Longrightarrow>
   (\<forall>p \<in> set ps'. profile_ok G p) \<and> jumps_ok True (links ps')"
proof (induction now k sources jumps ps arbitrary: n rule: wire_jumps.induct)
  case (2 now k sources pending jumps ps)
  obtain w qs where w: "wire_jump (now k) sources pending ps = (w, qs)" by fastforce
  obtain m qs' where qs': "wire_jumps now (k + 1) sources jumps qs = (m, qs')" by fastforce
  from wire_jump_sound [OF w 2(2,3,4)] have
    "distinct (map sp_id qs)" "\<forall>p \<in> set qs. profile_ok G p" "jumps_ok True (links qs)"
    using 2(2) by simp_all
  from 2(1) [OF w [symmetric] refl this] qs' w 2(5) show ?case by (simp add: Let_def)
qed simp

lemma import_sound:
  assumes "sound_catalog True cat" and "upsert_import_batch io new_id now items cat = (r, cat')"
  shows "sound_catalog True cat'"
proof -
  let ?G = "sg_id ` set (ca_groups cat)"
  let ?start = "\<lambda>ps. \<lparr>is_profiles = ps, is_outcomes = [], is_sources = Map.empty, is_jumps = []\<rparr>"
  from assms(2) consider "cat' = cat" | prepared groups ps st n ps' r' where
    "try_map prepare_import items = Ok prepared" "read_groups io cat = Ok groups"
    "\<not> list_ex (\<lambda>item. case iu_group_id item of None \<Rightarrow> False | Some g \<Rightarrow> g \<notin> hg_id ` set groups) prepared"
    "read_profiles io cat = Ok ps" "import_items new_id now 0 prepared (?start ps) = st"
    "wire_jumps now (length prepared) (is_sources st) (is_jumps st) (is_profiles st) = (n, ps')"
    "save_profiles io ps' cat = (r', cat')"
    by (auto simp: upsert_import_batch_def Let_def elim!: attemptE returningE split: if_splits prod.splits)
  then show ?thesis
  proof cases
    case 2
    have "import_ok ?G item" if "item \<in> set prepared" for item
    proof -
      from try_map_Ok_set [OF 2(1) that] obtain raw where "prepare_import raw = Ok item" by blast
      then have "endpoint_ok (iu_name item) (iu_host item) (iu_port item) (iu_username item)"
        "credentials_ok (iu_auth_method item) (iu_key_source item)"
        by (auto simp: prepare_import_def result_simps dest!: validate_fields_Ok validate_auth_Ok)
      moreover have "set_option (iu_group_id item) \<subseteq> ?G"
        using 2(3) that read_groups_ids(1) [OF 2(2)] by (auto simp: list_ex_iff split: option.splits)
      ultimately show ?thesis by (simp add: import_ok_def)
    qed
    then have st: "(\<forall>p \<in> set (is_profiles st). profile_ok ?G p) \<and> jumps_ok True (links (is_profiles st))"
      using sound_read_profiles [OF assms(1) 2(4)]
      by (intro import_items_sound [OF 2(5)]) simp_all
    have ids: "map sp_id ps' = map sp_id (is_profiles st)"
      using wire_jumps_ids [of now "length prepared" "is_sources st" "is_jumps st" "is_profiles st"] 2(6) by simp
    from 2(7) show ?thesis
    proof (cases rule: save_profiles_cases)
      case saved
      with ids st have "(\<forall>p \<in> set ps'. profile_ok ?G p) \<and> jumps_ok True (links ps')"
        by (intro wire_jumps_sound [OF _ _ _ 2(6)]) simp_all
      then show ?thesis by (intro sound_save_profiles [OF assms(1) 2(7)]) simp_all
    qed (use assms in simp)
  qed (use assms in simp)
qed

section \<open>Histories of the catalog\<close>

inductive catalog_step :: "bool \<Rightarrow> catalog \<Rightarrow> catalog \<Rightarrow> bool" for importing where
  "create_group io i now name cat = (r, cat') \<Longrightarrow> catalog_step importing cat cat'"
| "ensure_groups_by_name io ids nows names cat = (r, cat') \<Longrightarrow> catalog_step importing cat cat'"
| "update_group io now edit cat = (r, cat') \<Longrightarrow> catalog_step importing cat cat'"
| "delete_group io now i cat = (r, cat') \<Longrightarrow> catalog_step importing cat cat'"
| "reorder_groups io now ordered cat = (r, cat') \<Longrightarrow> catalog_step importing cat cat'"
| "create_profile io i now draft cat = (r, cat') \<Longrightarrow> catalog_step importing cat cat'"
| "update_profile io now change cat = (r, cat') \<Longrightarrow> catalog_step importing cat cat'"
| "delete_profile io i cat = (r, cat') \<Longrightarrow> catalog_step importing cat cat'"
| "mark_connected io now i detected cat = (r, cat') \<Longrightarrow> catalog_step importing cat cat'"
| "reorder_profiles io now g ordered cat = (r, cat') \<Longrightarrow> catalog_step importing cat cat'"
| imported: "importing \<Longrightarrow> upsert_import_batch io ids nows items cat = (r, cat') \<Longrightarrow> catalog_step importing cat cat'"

lemmas catalog_sound_intros = create_group_sound ensure_groups_sound update_group_sound
  delete_group_sound reorder_groups_sound create_profile_sound update_profile_sound
  delete_profile_sound mark_connected_sound reorder_profiles_sound

lemma catalog_step_sound:
  assumes "catalog_step importing cat cat'" and "sound_catalog importing cat"
  shows "sound_catalog importing cat'"
  using assms
proof (induction rule: catalog_step.induct)
  case (imported io ids nows items cat r cat')
  with import_sound [of cat io ids nows items r cat'] show ?case by simp
qed (rule catalog_sound_intros; assumption)+

abbreviation empty_catalog :: catalog where
  "empty_catalog \<equiv> \<lparr>ca_groups = [], ca_profiles = []\<rparr>"

lemma empty_catalog_sound: "sound_catalog lax empty_catalog"
  by (simp add: sound_catalog_def jumps_ok_def links_def)

text \<open>
  C14. In every history of the catalog that starts empty, whatever the database does to single
  reads and writes: identifiers are unique, group names and every field of a profile are
  within their bounds, the key source fits the authentication, the group of a profile exists (also
  when the second write of deleting a group fails), and the jump host of a profile exists and is
  itself reached directly - in a history without imports. With imports the rest still holds, and a
  jump host is either reached directly or the profile itself, which jumps through itself.
\<close>

theorem catalog_stays_sound:
  assumes "(catalog_step importing)\<^sup>*\<^sup>* empty_catalog cat"
  shows "sound_catalog importing cat"
  using assms by (induction rule: rtranclp_induct) (auto intro: catalog_step_sound empty_catalog_sound)

section \<open>Reordering\<close>

text \<open>Rows with identifiers of their own, given the numbers of a permutation of them, sort into it.\<close>

lemma sort_numbered:
  fixes order :: "'a \<Rightarrow> i32"
  assumes "distinct (map key xs)" and "distinct ids" and "set ids = key ` set xs" and "length ids \<le> 2 ^ 31"
    and "\<And>n x. n < length ids \<Longrightarrow> x \<in> set xs \<Longrightarrow> key x = ids ! n \<Longrightarrow> order x = of_nat n"
  shows "map key (sort_key (i32_key \<circ> order) xs) = ids"
    and "sorted (map (i32_key \<circ> order) (sort_key (i32_key \<circ> order) xs))"
    and "inj_on (i32_key \<circ> order) (set xs)"
proof -
  let ?row = "\<lambda>i. the (find (\<lambda>x. key x = i) xs)"
  have row: "?row i \<in> set xs \<and> key (?row i) = i" if "i \<in> set ids" for i
  proof -
    from that assms(3) have "find (\<lambda>x. key x = i) xs \<noteq> None" by (auto simp: find_None_set)
    then obtain x where "find (\<lambda>x. key x = i) xs = Some x" by blast
    with find_Some_set [OF this] show ?thesis by simp
  qed
  let ?ys = "map ?row ids"
  have keys: "map key ?ys = ids" using row by (simp add: map_idI)
  then have "distinct ?ys" using assms(2) distinct_map by metis
  moreover have "set ?ys = set xs"
  proof
    show "set ?ys \<subseteq> set xs" using row by auto
    show "set xs \<subseteq> set ?ys"
    proof
      fix x assume x: "x \<in> set xs"
      then have "key x \<in> set ids" using assms(3) by simp
      with row [OF this] distinct_map_eqD [OF assms(1) _ x] have "x = ?row (key x)" by metis
      with \<open>key x \<in> set ids\<close> show "x \<in> set ?ys" by auto
    qed
  qed
  ultimately have perm: "mset xs = mset ?ys"
    using assms(1) by (metis distinct_map set_eq_iff_mset_eq_distinct)
  have number: "(i32_key \<circ> order) (?row (ids ! n)) = int n" if "n < length ids" for n
  proof -
    from that row have "order (?row (ids ! n)) = of_nat n" by (intro assms(5)) auto
    moreover have "n < 2 ^ 31" using that assms(4) by simp
    then have "sint (of_nat n :: i32) = int n"
      by (simp add: sint_uint unat_of_nat signed_take_bit_int_eq_self uint_nat take_bit_nat_eq_self)
    ultimately show ?thesis by (simp add: i32_key_def)
  qed
  have numbers: "map (i32_key \<circ> order) ?ys = map int [0..<length ids]"
    by (rule nth_equalityI) (use number in auto)
  have sorted: "sorted (map (i32_key \<circ> order) ?ys)"
    unfolding numbers by (simp add: sorted_iff_nth_mono)
  have "distinct (map (i32_key \<circ> order) ?ys)"
    unfolding numbers by (simp add: distinct_map)
  then show inj: "inj_on (i32_key \<circ> order) (set xs)"
    using \<open>set ?ys = set xs\<close> by (metis distinct_map)
  have eq: "sort_key (i32_key \<circ> order) xs = ?ys"
    by (rule sort_key_inj_key_eq [OF perm inj sorted])
  show "map key (sort_key (i32_key \<circ> order) xs) = ids" unfolding eq by (rule keys)
  show "sorted (map (i32_key \<circ> order) (sort_key (i32_key \<circ> order) xs))" unfolding eq by (rule sorted)
qed

lemma assign_group_orders_numbers:
  "assign_group_orders now k ids groups = Ok groups' \<Longrightarrow> distinct (map hg_id groups) \<Longrightarrow> distinct ids \<Longrightarrow>
   (ids = [] \<or> k + length ids \<le> 2 ^ 31)
   \<and> (\<forall>g \<in> set groups'. (\<forall>n < length ids. hg_id g = ids ! n \<longrightarrow> hg_sort_order g = of_nat (k + n))
        \<and> (hg_id g \<notin> set ids \<longrightarrow> g \<in> set groups))"
proof (induction now k ids groups rule: assign_group_orders.induct)
  case (2 now k i ids groups)
  let ?f = "\<lambda>g. g\<lparr>hg_sort_order := of_nat k, hg_updated_at := now\<rparr>"
  let ?next = "update_first (\<lambda>g. hg_id g = i) ?f groups"
  from 2(2) obtain g0 where g0: "find (\<lambda>g. hg_id g = i) groups = Some g0" and k: "k < 2 ^ 31"
    and rest: "assign_group_orders now (k + 1) ids ?next = Ok groups'"
    by (auto simp: result_simps i32_try_from_def split: if_splits)
  have "map hg_id ?next = map hg_id groups" by (rule map_update_first_frame) simp
  with 2 g0 k rest have IH: "ids = [] \<or> (k + 1) + length ids \<le> 2 ^ 31"
    "\<forall>g \<in> set groups'. (\<forall>n < length ids. hg_id g = ids ! n \<longrightarrow> hg_sort_order g = of_nat (k + 1 + n))
        \<and> (hg_id g \<notin> set ids \<longrightarrow> g \<in> set ?next)"
    by (simp_all add: i32_try_from_def)
  note next' = set_update_first_key [OF 2(3) g0, of ?f]
  show ?case
  proof (intro conjI ballI)
    show "i # ids = [] \<or> k + length (i # ids) \<le> 2 ^ 31" using IH(1) k by auto
    fix g assume g: "g \<in> set groups'"
    show "\<forall>n < length (i # ids). hg_id g = (i # ids) ! n \<longrightarrow> hg_sort_order g = of_nat (k + n)"
    proof (intro allI impI)
      fix n assume n: "n < length (i # ids)" "hg_id g = (i # ids) ! n"
      show "hg_sort_order g = of_nat (k + n)"
      proof (cases n)
        case 0
        with n 2(4) IH(2) g have "g \<in> set ?next" by simp
        with next' n 0 show ?thesis by auto
      next
        case (Suc m)
        with n IH(2) g have "hg_sort_order g = of_nat (k + 1 + m)" by (auto simp del: of_nat_add of_nat_Suc)
        with Suc show ?thesis by simp
      qed
    qed
    show "hg_id g \<notin> set (i # ids) \<longrightarrow> g \<in> set groups"
      using IH(2) g next' find_Some_set [OF g0] by auto
  qed
qed simp

lemma list_groups_sorted:
  assumes "sorted (map (i32_key \<circ> hg_sort_order) gs)" and "inj_on (i32_key \<circ> hg_sort_order) (set gs)"
  shows "list_groups (map stored_group_from gs) = Ok gs"
proof -
  have key: "(group_order \<circ> stored_group_from) g = ((i32_key \<circ> hg_sort_order) g, hg_id g)" for g
    by (simp add: group_order_def stored_group_from_def)
  have "map (group_order \<circ> stored_group_from) gs ! m \<le> map (group_order \<circ> stored_group_from) gs ! n"
    if "m \<le> n" "n < length gs" for m n
  proof -
    have le: "(i32_key \<circ> hg_sort_order) (gs ! m) \<le> (i32_key \<circ> hg_sort_order) (gs ! n)"
      using sorted_nth_mono [OF assms(1), of m n] that by simp
    have "gs ! m = gs ! n" if "(i32_key \<circ> hg_sort_order) (gs ! m) = (i32_key \<circ> hg_sort_order) (gs ! n)"
      using inj_onD [OF assms(2) that] \<open>m \<le> n\<close> \<open>n < length gs\<close> by simp
    with le show ?thesis
      using that by (cases "(i32_key \<circ> hg_sort_order) (gs ! m) = (i32_key \<circ> hg_sort_order) (gs ! n)")
        (simp_all add: key less_eq_prod_def del: comp_apply)
  qed
  then have "sorted (map (group_order \<circ> stored_group_from) gs)"
    by (simp add: sorted_iff_nth_mono)
  then have "sort_key group_order (map stored_group_from gs) = map stored_group_from gs"
    by (simp add: sort_key_map sort_key_id_if_sorted)
  moreover have "try_map host_group_try_from (map stored_group_from gs) = Ok gs"
    by (induction gs) simp_all
  ultimately show ?thesis by (simp add: list_groups_def)
qed

lemma read_groups_not_Panic: "read_groups io cat \<noteq> Panic"
proof -
  have "host_group_try_from g \<noteq> Panic" for g
    by (simp add: host_group_try_from_def)
  then show ?thesis by (simp add: read_groups_def list_groups_def try_map_not_Panic)
qed

lemma assign_group_orders_not_Panic: "assign_group_orders now k ids groups \<noteq> Panic"
  by (induction now k ids groups rule: assign_group_orders.induct) (auto simp: result_simps i32_try_from_def)

text \<open>
  Reordering the groups either fails and changes nothing, or gives the groups in exactly the
  requested order, which is a permutation of all of them, and every later listing gives that order.
\<close>

lemma reordering_is_kept:
  assumes "(catalog_step importing)\<^sup>*\<^sup>* empty_catalog cat"
    and "reorder_groups io now ordered cat = (r, cat')"
  shows "case r of
      Ok groups \<Rightarrow> map hg_id groups = ordered \<and> distinct ordered
        \<and> set ordered = sg_id ` set (ca_groups cat) \<and> ca_profiles cat' = ca_profiles cat
        \<and> (io_read_groups io' \<longrightarrow> list_catalog_groups io' cat' = Ok groups)
    | Err e \<Rightarrow> cat' = cat
    | Panic \<Rightarrow> False"
proof -
  from assms(1) have sound: "sound_catalog importing cat"
    by (induction rule: rtranclp_induct) (auto intro: catalog_step_sound empty_catalog_sound)
  show ?thesis
  proof (cases "\<exists>groups. read_groups io cat = Ok groups \<and> length ordered = length groups
      \<and> set ordered = hg_id ` set groups \<and> (\<exists>groups'. assign_group_orders now 0 ordered groups = Ok groups')")
    case True
    then obtain groups groups' where groups: "read_groups io cat = Ok groups"
      and same: "length ordered = length groups" "set ordered = hg_id ` set groups"
      and assign: "assign_group_orders now 0 ordered groups = Ok groups'" by blast
    let ?gs = "sort_key (i32_key \<circ> hg_sort_order) groups'"
    note ids = sound_read_groups(2) [OF sound groups]
    from same ids have ordered: "distinct ordered" by (metis card_distinct distinct_card length_map list.set_map)
    from assign_group_orders_frame [OF assign] have kept: "map hg_id groups' = map hg_id groups" by simp
    then have set': "set ordered = hg_id ` set groups'" using same(2) by (metis list.set_map)
    note numbers = assign_group_orders_numbers [OF assign ids ordered]
    have bound: "length ordered \<le> 2 ^ 31" using numbers by auto
    have number: "\<And>n g. n < length ordered \<Longrightarrow> g \<in> set groups' \<Longrightarrow> hg_id g = ordered ! n \<Longrightarrow>
        hg_sort_order g = of_nat n" using numbers by simp
    have "distinct (map hg_id groups')" using ids kept by simp
    note sorted = sort_numbered [OF this ordered set' bound number]
    obtain q c where save: "save_groups io ?gs cat = (q, c)" by fastforce
    with assms(2) groups same assign have run: "returning (q, c) ?gs = (r, cat')"
      by (simp add: reorder_groups_def Let_def)
    from save show ?thesis
    proof (cases rule: save_groups_cases)
      case saved
      then have r: "r = Ok ?gs" "cat' = cat\<lparr>ca_groups := map stored_group_from ?gs\<rparr>" using run by simp_all
      have "list_groups (map stored_group_from ?gs) = Ok ?gs"
        by (rule list_groups_sorted) (use sorted(2,3) in simp_all)
      then show ?thesis
        using r sorted(1,2) ordered same(2) read_groups_ids(1) [OF groups]
        by (simp add: list_catalog_groups_def read_groups_def sort_key_id_if_sorted)
    qed (use run in auto)
  next
    case False
    have "(\<exists>e. r = Err e) \<and> cat' = cat"
    proof (cases "read_groups io cat")
      case (Ok groups)
      show ?thesis
      proof (cases "length ordered = length groups \<and> set ordered = hg_id ` set groups")
        case True
        with False Ok obtain e where "assign_group_orders now 0 ordered groups = Err e"
          using assign_group_orders_not_Panic [of now 0 ordered groups]
          by (cases "assign_group_orders now 0 ordered groups") auto
        with True Ok assms(2) have "(r, cat') = (Err e, cat)" by (simp add: reorder_groups_def)
        then show ?thesis by simp
      qed (use Ok assms(2) in \<open>auto simp: reorder_groups_def\<close>)
    next
      case (Err e)
      with assms(2) have "(r, cat') = (Err e, cat)" by (simp add: reorder_groups_def)
      then show ?thesis by simp
    qed (simp add: read_groups_not_Panic)
    then show ?thesis by (cases r) auto
  qed
qed

section \<open>Concrete histories\<close>

definition working_io :: catalog_io where
  "working_io = \<lparr>io_read_groups = True, io_read_profiles = True, io_write_groups = True,
     io_write_profiles = True\<rparr>"

definition demo_draft :: "string \<Rightarrow> connection_route \<Rightarrow> create_profile_request" where
  "demo_draft name route =
     \<lparr>cp_name = name, cp_host = ''db'', cp_port = 22, cp_username = ''me'', cp_group_id = Some 9,
      cp_auth_method = Password, cp_key_source = None, cp_connection_route = route\<rparr>"

definition demo_catalog :: catalog where
  "demo_catalog =
     (let c1 = snd (create_group working_io 8 ''100'' ''db'' empty_catalog);
          c2 = snd (create_group working_io 9 ''101'' '' web '' c1);
          c3 = snd (create_profile working_io 1 ''102'' (demo_draft ''gate'' Direct) c2)
      in snd (create_profile working_io 2 ''103'' (demo_draft ''app'' (JumpHost 1)) c3))"

lemma demo_catalog_reached: "(catalog_step importing)\<^sup>*\<^sup>* empty_catalog demo_catalog"
proof -
  have grow: "(catalog_step importing)\<^sup>*\<^sup>* empty_catalog (snd (create_group working_io i now name c))"
    "(catalog_step importing)\<^sup>*\<^sup>* empty_catalog (snd (create_profile working_io i now draft c))"
    if "(catalog_step importing)\<^sup>*\<^sup>* empty_catalog c" for c i now name draft
    by (rule rtranclp.rtrancl_into_rtrancl [OF that], rule catalog_step.intros, rule prod.collapse [symmetric])+
  show ?thesis
    unfolding demo_catalog_def Let_def by (intro grow rtranclp.rtrancl_refl)
qed

lemma catalog_stays_sound_witness:
  "map sp_connection_route (ca_profiles demo_catalog) = [Direct, JumpHost 1] \<and> sound_catalog False demo_catalog"
proof
  show "map sp_connection_route (ca_profiles demo_catalog) = [Direct, JumpHost 1]" by code_simp
  show "sound_catalog False demo_catalog" by (rule catalog_stays_sound [OF demo_catalog_reached])
qed

lemma reordering_is_kept_witness:
  "\<exists>groups cat'. reorder_groups working_io ''104'' [9, 8] demo_catalog = (Ok groups, cat')
     \<and> map hg_id groups = [9, 8] \<and> list_catalog_groups working_io cat' = Ok groups"
proof -
  obtain r cat' where run: "reorder_groups working_io ''104'' [9, 8] demo_catalog = (r, cat')" by fastforce
  have "is_ok (fst (reorder_groups working_io ''104'' [9, 8] demo_catalog))" by code_simp
  with run obtain groups where "r = Ok groups" by (cases r) simp_all
  moreover have "io_read_groups working_io" by (simp add: working_io_def)
  ultimately show ?thesis
    using run reordering_is_kept [OF demo_catalog_reached run, of working_io] by auto
qed

section \<open>Importing one host twice\<close>








end
