(* ===== verification/Known_Hosts.thy ===== *)
theory Known_Hosts
  imports Storage
begin

text \<open>
  The trust decision on host keys: known\_hosts/service.rs over the known-host table of \<open>Storage\<close>.
  A verification attempt is made of an observed key, is approved by a match with the
  stored key or by the user, expires after two minutes and is consumed by the connection. The
  clock (milliseconds of \<open>Instant\<close>), new identifiers, the time stamp of a row, what the
  database engine makes of a read and a write, and \<open>str::to_lowercase\<close>, whose Unicode tables are not
  in the repository, are parameters.
\<close>

section \<open>The service\<close>

definition ATTEMPT_LIFETIME :: nat where "ATTEMPT_LIFETIME = 120000"

record host_key_info =
  hi_key_type :: string
  hi_fingerprint :: string

datatype host_verification_status = VerificationUnknown | VerificationTrusted

record host_verification =
  hv_attempt_id :: uuid
  hv_host :: string
  hv_port :: u16
  hv_key_type :: string
  hv_fingerprint :: string
  hv_status :: host_verification_status
  hv_route_scope :: string

record verification_attempt =
  va_route_scope :: string
  va_host :: string
  va_port :: u16
  va_key_type :: string
  va_fingerprint :: string
  va_approved :: bool
  va_expires_at :: nat

record known_host_service =
  ks_attempts :: "uuid \<Rightarrow> verification_attempt option"
  ks_table :: "stored_known_host list"

definition normalize_scope :: "(string \<Rightarrow> string) \<Rightarrow> string \<Rightarrow> (string, app_error) result" where
  "normalize_scope lower scope =
     (let scope = lower (trim scope) in
      if scope = [] \<or> length scope > 512 \<or> has_whitespace scope then Err (Core InvalidProfile) else Ok scope)"

definition normalize_endpoint :: "(string \<Rightarrow> string) \<Rightarrow> string \<Rightarrow> u16 \<Rightarrow> (string, app_error) result" where
  "normalize_endpoint lower host p =
     (let host = lower (trim host) in
      if host = [] \<or> has_whitespace host \<or> p = 0 then Err (Core InvalidProfile) else Ok host)"

definition read_known_hosts :: "bool \<Rightarrow> known_host_service \<Rightarrow> (known_host list, app_error) result" where
  "read_known_hosts io svc = (if io then list_known_hosts (ks_table svc) else Err Storage)"

definition at_endpoint :: "string \<Rightarrow> string \<Rightarrow> u16 \<Rightarrow> known_host \<Rightarrow> bool" where
  "at_endpoint scope host p k \<longleftrightarrow> kh_route_scope k = scope \<and> kh_host k = host \<and> kh_port k = p"

definition known_host_order :: "known_host \<Rightarrow> string \<times> string \<times> u16" where
  "known_host_order k = (kh_route_scope k, kh_host k, kh_port k)"

definition verification_status ::
  "host_key_info \<Rightarrow> known_host option \<Rightarrow> (host_verification_status, app_error) result" where
  "verification_status observed known =
     (case known of
        Some k \<Rightarrow>
          if kh_key_type k = hi_key_type observed \<and> kh_fingerprint k = hi_fingerprint observed
          then Ok VerificationTrusted else Err (Core HostKeyChanged)
      | None \<Rightarrow> Ok VerificationUnknown)"

definition prepare_scoped ::
  "(string \<Rightarrow> string) \<Rightarrow> bool \<Rightarrow> uuid \<Rightarrow> nat \<Rightarrow> string \<Rightarrow> string \<Rightarrow> u16 \<Rightarrow> host_key_info \<Rightarrow>
   known_host_service \<Rightarrow> (host_verification, app_error) result \<times> known_host_service" where
  "prepare_scoped lower io new_id now scope host p observed svc =
     (case result_bind (normalize_scope lower scope) (\<lambda>scope.
           result_bind (normalize_endpoint lower host p) (\<lambda>host.
           result_bind (read_known_hosts io svc) (\<lambda>known.
           result_bind (verification_status observed (find (at_endpoint scope host p) known))
             (\<lambda>status. Ok (scope, host, status))))) of
        Ok (scope, host, status) \<Rightarrow>
          (Ok \<lparr>hv_attempt_id = new_id, hv_host = host, hv_port = p, hv_key_type = hi_key_type observed,
               hv_fingerprint = hi_fingerprint observed, hv_status = status, hv_route_scope = scope\<rparr>,
           svc\<lparr>ks_attempts := (ks_attempts svc)(new_id \<mapsto>
             \<lparr>va_route_scope = scope, va_host = host, va_port = p, va_key_type = hi_key_type observed,
              va_fingerprint = hi_fingerprint observed, va_approved = (status = VerificationTrusted),
              va_expires_at = now + ATTEMPT_LIFETIME\<rparr>)\<rparr>)
      | Err e \<Rightarrow> (Err e, svc)
      | Panic \<Rightarrow> (Panic, svc))"

definition live_attempt :: "uuid \<Rightarrow> nat \<Rightarrow> known_host_service \<Rightarrow> verification_attempt option" where
  "live_attempt i now svc =
     (case ks_attempts svc i of
        Some a \<Rightarrow> if now < va_expires_at a then Some a else None
      | None \<Rightarrow> None)"

definition known_host_of :: "string \<Rightarrow> verification_attempt \<Rightarrow> known_host" where
  "known_host_of stamp a =
     \<lparr>kh_route_scope = va_route_scope a, kh_host = va_host a, kh_port = va_port a,
      kh_key_type = va_key_type a, kh_fingerprint = va_fingerprint a, kh_created_at = stamp,
      kh_updated_at = stamp\<rparr>"

text \<open>The rows of \<open>trust\<close>: those of other endpoints, and the new one, sorted.\<close>

definition with_known_host :: "known_host \<Rightarrow> known_host list \<Rightarrow> known_host list" where
  "with_known_host k known =
     sort_key known_host_order
       (filter (\<lambda>h. \<not> at_endpoint (kh_route_scope k) (kh_host k) (kh_port k) h) known @ [k])"

definition remember_host ::
  "bool \<Rightarrow> bool \<Rightarrow> known_host \<Rightarrow> known_host_service \<Rightarrow> (unit, app_error) result \<times> known_host_service" where
  "remember_host io_read io_write k svc =
     (case read_known_hosts io_read svc of
        Ok known \<Rightarrow>
          (case replace_known_hosts io_write (with_known_host k known) (ks_table svc) of
             (r, table) \<Rightarrow> (r, svc\<lparr>ks_table := table\<rparr>))
      | Err e \<Rightarrow> (Err e, svc)
      | Panic \<Rightarrow> (Panic, svc))"

definition trust_host ::
  "bool \<Rightarrow> bool \<Rightarrow> nat \<Rightarrow> string \<Rightarrow> uuid \<Rightarrow> bool \<Rightarrow> known_host_service \<Rightarrow>
   (unit, app_error) result \<times> known_host_service" where
  "trust_host io_read io_write now stamp i remember svc =
     (case live_attempt i now svc of
        None \<Rightarrow> (Err (Core HostVerificationExpired), svc)
      | Some a \<Rightarrow>
          (case if remember then remember_host io_read io_write (known_host_of stamp a) svc else (Ok (), svc) of
             (Ok _, svc) \<Rightarrow>
               (Ok (), svc\<lparr>ks_attempts := (ks_attempts svc)(i \<mapsto> a\<lparr>va_approved := True\<rparr>)\<rparr>)
           | failed \<Rightarrow> failed))"

definition cancel_attempt :: "uuid \<Rightarrow> known_host_service \<Rightarrow> known_host_service" where
  "cancel_attempt i svc = svc\<lparr>ks_attempts := (ks_attempts svc)(i := None)\<rparr>"

text \<open>The attempt is removed before it is checked, whatever the outcome.\<close>

definition consume_scoped ::
  "(string \<Rightarrow> string) \<Rightarrow> nat \<Rightarrow> uuid \<Rightarrow> string \<Rightarrow> string \<Rightarrow> u16 \<Rightarrow> known_host_service \<Rightarrow>
   (string, app_error) result \<times> known_host_service" where
  "consume_scoped lower now i scope host p svc =
     (case result_bind (normalize_scope lower scope) (\<lambda>scope.
           result_bind (normalize_endpoint lower host p) (\<lambda>host. Ok (scope, host))) of
        Ok (scope, host) \<Rightarrow>
          (case live_attempt i now svc of
             Some a \<Rightarrow>
               if va_approved a \<and> va_route_scope a = scope \<and> va_host a = host \<and> va_port a = p
               then Ok (va_fingerprint a) else Err (Core HostVerificationExpired)
           | None \<Rightarrow> Err (Core HostVerificationExpired), cancel_attempt i svc)
      | Err e \<Rightarrow> (Err e, svc)
      | Panic \<Rightarrow> (Panic, svc))"

definition list_trusted_hosts :: "bool \<Rightarrow> known_host_service \<Rightarrow> (known_host list, app_error) result" where
  "list_trusted_hosts io svc =
     result_bind (read_known_hosts io svc) (\<lambda>known. Ok (sort_key known_host_order known))"

definition remove_scoped ::
  "(string \<Rightarrow> string) \<Rightarrow> bool \<Rightarrow> bool \<Rightarrow> string \<Rightarrow> string \<Rightarrow> u16 \<Rightarrow> known_host_service \<Rightarrow>
   (unit, app_error) result \<times> known_host_service" where
  "remove_scoped lower io_read io_write scope host p svc =
     (case result_bind (normalize_scope lower scope) (\<lambda>scope.
           result_bind (normalize_endpoint lower host p) (\<lambda>host.
           result_bind (read_known_hosts io_read svc) (\<lambda>known. Ok (scope, host, known)))) of
        Ok (scope, host, known) \<Rightarrow>
          (let remaining = filter (\<lambda>k. \<not> at_endpoint scope host p k) known in
           if length remaining = length known then (Err (Core HostKeyUnknown), svc)
           else case replace_known_hosts io_write remaining (ks_table svc) of
                  (r, table) \<Rightarrow> (r, svc\<lparr>ks_table := table\<rparr>))
      | Err e \<Rightarrow> (Err e, svc)
      | Panic \<Rightarrow> (Panic, svc))"

section \<open>Histories\<close>

text \<open>
  The log records of each prepared attempt what was observed, when, and whether the table held exactly
  that key at the time; which attempts the user trusted; and which ended, by a consumption or a
  cancellation. Identifiers of attempts are new to
  the log each time.
\<close>

record observation =
  ob_scope :: string
  ob_host :: string
  ob_port :: u16
  ob_key :: host_key_info
  ob_time :: nat
  ob_stored :: bool

record host_log =
  lg_service :: known_host_service
  lg_observed :: "uuid \<Rightarrow> observation option"
  lg_trusted :: "uuid set"
  lg_ended :: "uuid set"

definition stored_key :: "bool \<Rightarrow> known_host_service \<Rightarrow> string \<Rightarrow> string \<Rightarrow> u16 \<Rightarrow> host_key_info option" where
  "stored_key io svc scope host p =
     (case read_known_hosts io svc of
        Ok known \<Rightarrow> map_option (\<lambda>k. \<lparr>hi_key_type = kh_key_type k, hi_fingerprint = kh_fingerprint k\<rparr>)
          (find (at_endpoint scope host p) known)
      | _ \<Rightarrow> None)"

definition log_prepared ::
  "bool \<Rightarrow> nat \<Rightarrow> host_key_info \<Rightarrow> (host_verification, app_error) result \<Rightarrow> host_log \<Rightarrow>
   uuid \<Rightarrow> observation option" where
  "log_prepared io now observed r l =
     (case r of
        Ok v \<Rightarrow> (lg_observed l)(hv_attempt_id v \<mapsto>
          \<lparr>ob_scope = hv_route_scope v, ob_host = hv_host v, ob_port = hv_port v, ob_key = observed, ob_time = now,
           ob_stored = (stored_key io (lg_service l) (hv_route_scope v) (hv_host v) (hv_port v) = Some observed)\<rparr>)
      | _ \<Rightarrow> lg_observed l)"

inductive host_step :: "(string \<Rightarrow> string) \<Rightarrow> host_log \<Rightarrow> host_log \<Rightarrow> bool" for lower where
  prepared: "lg_observed l i = None \<Longrightarrow> i \<notin> lg_ended l \<Longrightarrow>
     prepare_scoped lower io i now scope host p observed (lg_service l) = (r, s) \<Longrightarrow>
     host_step lower l (l\<lparr>lg_service := s, lg_observed := log_prepared io now observed r l\<rparr>)"
| trusted: "trust_host io io' now stamp i remember (lg_service l) = (r, s) \<Longrightarrow>
     host_step lower l (l\<lparr>lg_service := s,
       lg_trusted := (if r = Ok () then insert i (lg_trusted l) else lg_trusted l)\<rparr>)"
| cancelled: "host_step lower l
     (l\<lparr>lg_service := cancel_attempt i (lg_service l), lg_ended := insert i (lg_ended l)\<rparr>)"
| consumed: "consume_scoped lower now i scope host p (lg_service l) = (Ok fp, s) \<Longrightarrow>
     host_step lower l (l\<lparr>lg_service := s, lg_ended := insert i (lg_ended l)\<rparr>)"
| refused: "consume_scoped lower now i scope host p (lg_service l) = (Err e, s) \<Longrightarrow>
     host_step lower l (l\<lparr>lg_service := s\<rparr>)"
| removed: "remove_scoped lower io io' scope host p (lg_service l) = (r, s) \<Longrightarrow>
     host_step lower l (l\<lparr>lg_service := s\<rparr>)"

definition fresh_log :: "stored_known_host list \<Rightarrow> host_log" where
  "fresh_log table =
     \<lparr>lg_service = \<lparr>ks_attempts = Map.empty, ks_table = table\<rparr>, lg_observed = Map.empty,
      lg_trusted = {}, lg_ended = {}\<rparr>"

text \<open>Every attempt the service still holds was prepared as logged and is approved only for a reason.\<close>

definition attempt_logged :: "host_log \<Rightarrow> uuid \<Rightarrow> verification_attempt \<Rightarrow> bool" where
  "attempt_logged l i a \<longleftrightarrow>
     i \<notin> lg_ended l
     \<and> (case lg_observed l i of
          None \<Rightarrow> False
        | Some ob \<Rightarrow>
            va_route_scope a = ob_scope ob \<and> va_host a = ob_host ob \<and> va_port a = ob_port ob
            \<and> va_key_type a = hi_key_type (ob_key ob) \<and> va_fingerprint a = hi_fingerprint (ob_key ob)
            \<and> va_expires_at a = ob_time ob + ATTEMPT_LIFETIME
            \<and> (va_approved a \<longrightarrow> ob_stored ob \<or> i \<in> lg_trusted l))"

definition host_log_ok :: "host_log \<Rightarrow> bool" where
  "host_log_ok l \<longleftrightarrow>
     (\<forall>i a. ks_attempts (lg_service l) i = Some a \<longrightarrow> attempt_logged l i a)
     \<and> (\<forall>i. i \<in> lg_trusted l \<longrightarrow> lg_observed l i \<noteq> None)"

section \<open>What a consumed fingerprint rests on\<close>

lemma live_attempt_Some:
  "live_attempt i now svc = Some a \<longleftrightarrow> ks_attempts svc i = Some a \<and> now < va_expires_at a"
  by (auto simp: live_attempt_def split: option.splits if_splits)

lemma remember_host_attempts: "remember_host io io' k svc = (r, s) \<Longrightarrow> ks_attempts s = ks_attempts svc"
  by (auto simp: remember_host_def split: result.splits prod.splits)

lemma remove_attempts: "remove_scoped lower io io' scope host p svc = (r, s) \<Longrightarrow> ks_attempts s = ks_attempts svc"
  by (auto simp: remove_scoped_def Let_def split: result.splits prod.splits if_splits)

lemma prepare_cases:
  assumes "prepare_scoped lower io i now scope host p observed svc = (r, s)"
  obtains (refused) "\<And>v. r \<noteq> Ok v" "s = svc"
    | (attempt) status scope' host' where
      "r = Ok \<lparr>hv_attempt_id = i, hv_host = host', hv_port = p, hv_key_type = hi_key_type observed,
               hv_fingerprint = hi_fingerprint observed, hv_status = status, hv_route_scope = scope'\<rparr>"
      "s = svc\<lparr>ks_attempts := (ks_attempts svc)(i \<mapsto>
             \<lparr>va_route_scope = scope', va_host = host', va_port = p, va_key_type = hi_key_type observed,
              va_fingerprint = hi_fingerprint observed, va_approved = (status = VerificationTrusted),
              va_expires_at = now + ATTEMPT_LIFETIME\<rparr>)\<rparr>"
      "status = VerificationTrusted \<Longrightarrow> stored_key io svc scope' host' p = Some observed"
      "stored_key io svc scope' host' p \<in> {None, Some observed}"
      "normalize_scope lower scope = Ok scope'" "normalize_endpoint lower host p = Ok host'"
proof (cases "\<exists>v. r = Ok v")
  case False
  with assms show thesis
    by (intro refused) (auto simp: prepare_scoped_def split: result.splits prod.splits)
next
  case True
  with assms obtain scope' host' known status where
    n: "normalize_scope lower scope = Ok scope'" "normalize_endpoint lower host p = Ok host'"
    and known: "read_known_hosts io svc = Ok known"
    and status: "verification_status observed (find (at_endpoint scope' host' p) known) = Ok status"
    by (auto simp: prepare_scoped_def result_simps split: result.splits prod.splits)
  from known status have stored: "status = VerificationTrusted \<Longrightarrow> stored_key io svc scope' host' p = Some observed"
    "stored_key io svc scope' host' p \<in> {None, Some observed}"
    by (auto simp: stored_key_def verification_status_def split: option.splits if_splits)
  show thesis
    by (rule attempt [of host' status scope', OF _ _ stored n])
      (use assms n known status in \<open>simp_all add: prepare_scoped_def\<close>)
qed

lemma trust_cases:
  assumes "trust_host io io' now stamp i remember svc = (r, s)"
  obtains (refused) "r \<noteq> Ok ()" "ks_attempts s = ks_attempts svc"
    | (approved) a where "r = Ok ()" "ks_attempts svc i = Some a"
      "ks_attempts s = (ks_attempts svc)(i \<mapsto> a\<lparr>va_approved := True\<rparr>)"
proof (cases "live_attempt i now svc")
  case None
  with assms show thesis by (intro refused) (auto simp: trust_host_def)
next
  case (Some a)
  obtain q c where q: "(if remember then remember_host io io' (known_host_of stamp a) svc else (Ok (), svc)) = (q, c)"
    by fastforce
  then have "ks_attempts c = ks_attempts svc"
    by (auto dest: remember_host_attempts split: if_splits)
  with assms Some q that show thesis
    by (cases q) (auto simp: trust_host_def live_attempt_Some)
qed

lemma consume_Ok:
  assumes "consume_scoped lower now i scope host p svc = (Ok fp, s)"
  shows "\<exists>a. ks_attempts svc i = Some a \<and> now < va_expires_at a \<and> va_approved a \<and> fp = va_fingerprint a
      \<and> normalize_scope lower scope = Ok (va_route_scope a)
      \<and> normalize_endpoint lower host p = Ok (va_host a) \<and> va_port a = p"
    and "s = cancel_attempt i svc"
  using assms
  by (auto simp: consume_scoped_def result_simps live_attempt_Some split: result.splits prod.splits
      option.splits if_splits)

lemma consume_Err: "consume_scoped lower now i scope host p svc = (Err e, s) \<Longrightarrow> s = svc \<or> s = cancel_attempt i svc"
  by (auto simp: consume_scoped_def split: result.splits prod.splits)

text \<open>The log and the service may change together as long as every held attempt stays explained.\<close>

lemma host_log_okI:
  assumes "host_log_ok l"
    and "\<And>j a. ks_attempts (lg_service l') j = Some a \<Longrightarrow>
      (ks_attempts (lg_service l) j = Some a \<and> lg_observed l' j = lg_observed l j
        \<and> (j \<in> lg_trusted l \<longrightarrow> j \<in> lg_trusted l') \<and> (j \<in> lg_ended l' \<longrightarrow> j \<in> lg_ended l))
      \<or> attempt_logged l' j a"
    and "\<And>j. j \<in> lg_trusted l' \<Longrightarrow> lg_observed l' j \<noteq> None"
  shows "host_log_ok l'"
proof -
  have "attempt_logged l' j a" if a: "ks_attempts (lg_service l') j = Some a" for j a
  proof (cases "attempt_logged l' j a")
    case False
    with assms(2) [OF a] have same: "ks_attempts (lg_service l) j = Some a" "lg_observed l' j = lg_observed l j"
      "j \<in> lg_trusted l \<longrightarrow> j \<in> lg_trusted l'" "j \<in> lg_ended l' \<longrightarrow> j \<in> lg_ended l" by auto
    from assms(1) same(1) have "attempt_logged l j a" by (simp add: host_log_ok_def)
    with same(2-4) show ?thesis unfolding attempt_logged_def by (auto split: option.splits)
  qed
  with assms(3) show ?thesis by (simp add: host_log_ok_def)
qed

lemma log_prepared_Err: "\<forall>v. r \<noteq> Ok v \<Longrightarrow> log_prepared io now observed r l = lg_observed l"
  by (cases r) (simp_all add: log_prepared_def)

lemma host_log_okD:
  assumes "host_log_ok l" and "ks_attempts (lg_service l) i = Some a"
  shows "attempt_logged l i a"
  using assms by (simp add: host_log_ok_def)

lemma host_step_ok:
  assumes "host_step lower l l'" and "host_log_ok l"
  shows "host_log_ok l'"
  using assms(1)
proof cases
  case (prepared i io now scope host p observed r s)
  from prepared(4) show ?thesis
  proof (cases rule: prepare_cases)
    case refused
    with assms(2) log_prepared_Err [of r io now observed l] show ?thesis by (simp add: prepared(1))
  next
    case (attempt status scope' host')
    have new: "i \<notin> lg_ended l'" "lg_observed l' = (lg_observed l)(i \<mapsto>
        \<lparr>ob_scope = scope', ob_host = host', ob_port = p, ob_key = observed, ob_time = now,
         ob_stored = (stored_key io (lg_service l) scope' host' p = Some observed)\<rparr>)"
      using prepared(3) attempt(1) by (simp_all add: prepared(1) log_prepared_def)
    have "attempt_logged l' j a" if "ks_attempts (lg_service l') j = Some a" "j = i" for j a
      using that new attempt(2,3) by (auto simp: attempt_logged_def prepared(1) split: if_splits)
    then show ?thesis
      using assms(2) new(2) attempt(2)
      by (intro host_log_okI [OF assms(2)]) (auto simp: prepared(1) host_log_ok_def split: if_splits)
  qed
next
  case (trusted io io' now stamp i remember r s)
  from trusted(2) show ?thesis
  proof (cases rule: trust_cases)
    case refused
    with assms(2) show ?thesis
      by (intro host_log_okI [OF assms(2)]) (auto simp: trusted(1) host_log_ok_def)
  next
    case (approved a)
    from host_log_okD [OF assms(2) approved(2)] have "attempt_logged l' i (a\<lparr>va_approved := True\<rparr>)"
      "lg_observed l i \<noteq> None"
      by (auto simp: attempt_logged_def trusted(1) approved(1) split: option.splits)
    with approved assms(2) show ?thesis
      by (intro host_log_okI [OF assms(2)]) (auto simp: trusted(1) host_log_ok_def split: if_splits)
  qed
next
  case (cancelled i)
  with assms(2) show ?thesis
    by (intro host_log_okI [OF assms(2)]) (auto simp: cancel_attempt_def host_log_ok_def split: if_splits)
next
  case (consumed now i scope host p fp s)
  with assms(2) consume_Ok(2) [OF consumed(2)] show ?thesis
    by (intro host_log_okI [OF assms(2)]) (auto simp: cancel_attempt_def host_log_ok_def split: if_splits)
next
  case (refused now i scope host p e s)
  with assms(2) consume_Err [OF refused(2)] show ?thesis
    by (intro host_log_okI [OF assms(2)]) (auto simp: cancel_attempt_def host_log_ok_def split: if_splits)
next
  case (removed io io' scope host p r s)
  with assms(2) remove_attempts [OF removed(2)] show ?thesis
    by (intro host_log_okI [OF assms(2)]) (auto simp: host_log_ok_def)
qed

lemma fresh_log_ok: "host_log_ok (fresh_log table)"
  by (simp add: host_log_ok_def fresh_log_def)

lemma host_steps_ok: "(host_step lower)\<^sup>*\<^sup>* (fresh_log table) l \<Longrightarrow> host_log_ok l"
  by (induction rule: rtranclp_induct) (auto intro: host_step_ok fresh_log_ok)

text \<open>
  C13. A fingerprint is handed to a connection only for an attempt that was prepared for the same
  route scope, host and port; it is the fingerprint observed then, less than two minutes ago; the
  stored key of the endpoint was exactly the observed one, or the user trusted this attempt; and the
  attempt was neither cancelled nor handed out before.
\<close>

theorem fingerprint_used_as_verified:
  assumes "(host_step lower)\<^sup>*\<^sup>* (fresh_log table) l"
    and "consume_scoped lower now i scope host p (lg_service l) = (Ok fp, s)"
  shows "\<exists>ob. lg_observed l i = Some ob \<and> fp = hi_fingerprint (ob_key ob)
    \<and> normalize_scope lower scope = Ok (ob_scope ob) \<and> normalize_endpoint lower host p = Ok (ob_host ob)
    \<and> p = ob_port ob \<and> now < ob_time ob + ATTEMPT_LIFETIME
    \<and> (ob_stored ob \<or> i \<in> lg_trusted l) \<and> i \<notin> lg_ended l \<and> ks_attempts s i = None"
proof -
  from consume_Ok [OF assms(2)] obtain a where
    a: "ks_attempts (lg_service l) i = Some a" "now < va_expires_at a" "va_approved a" "fp = va_fingerprint a"
      "normalize_scope lower scope = Ok (va_route_scope a)" "normalize_endpoint lower host p = Ok (va_host a)"
      "va_port a = p" and s: "s = cancel_attempt i (lg_service l)" by blast
  from host_log_okD [OF host_steps_ok [OF assms(1)] a(1)] a s show ?thesis
    by (auto simp: attempt_logged_def cancel_attempt_def split: option.splits)
qed

section \<open>Keys that change\<close>

definition demo_row :: "host_key_info \<Rightarrow> stored_known_host" where
  "demo_row key = \<lparr>sk_route_scope = ''direct'', sk_host = ''db.example'', sk_port = 22,
     sk_key_type = hi_key_type key, sk_fingerprint = hi_fingerprint key, sk_created_at = ''1'', sk_updated_at = ''1''\<rparr>"

definition demo_attempt :: "host_key_info \<Rightarrow> bool \<Rightarrow> verification_attempt" where
  "demo_attempt key approved =
     \<lparr>va_route_scope = ''direct'', va_host = ''db.example'', va_port = 22, va_key_type = hi_key_type key,
      va_fingerprint = hi_fingerprint key, va_approved = approved, va_expires_at = ATTEMPT_LIFETIME\<rparr>"

definition demo_observation :: "host_key_info \<Rightarrow> observation" where
  "demo_observation key =
     \<lparr>ob_scope = ''direct'', ob_host = ''db.example'', ob_port = 22, ob_key = key, ob_time = 0, ob_stored = False\<rparr>"

lemma demo_names:
  "normalize_scope to_ascii_lowercase ''direct'' = Ok ''direct''"
  "normalize_endpoint to_ascii_lowercase ''DB.example'' 22 = Ok ''db.example''"
  by (code_simp, code_simp)

lemma demo_prepare:
  "prepare_scoped to_ascii_lowercase True i 0 ''direct'' ''DB.example'' 22 key \<lparr>ks_attempts = m, ks_table = []\<rparr>
   = (Ok \<lparr>hv_attempt_id = i, hv_host = ''db.example'', hv_port = 22, hv_key_type = hi_key_type key,
          hv_fingerprint = hi_fingerprint key, hv_status = VerificationUnknown, hv_route_scope = ''direct''\<rparr>,
      \<lparr>ks_attempts = m(i \<mapsto> demo_attempt key False), ks_table = []\<rparr>)"
  by (simp add: prepare_scoped_def demo_names read_known_hosts_def list_known_hosts_def verification_status_def
      demo_attempt_def)

lemma demo_list: "list_known_hosts [demo_row key] = Ok [known_host_of ''1'' (demo_attempt key b)]"
  by (simp add: list_known_hosts_def known_host_try_from_def demo_row_def parse_port_def known_host_of_def
      demo_attempt_def)

lemma list_no_hosts: "list_known_hosts [] = Ok []"
  by (simp add: list_known_hosts_def)

lemma demo_trust:
  assumes "m i = Some (demo_attempt key False)" and "table = [] \<or> table = [demo_row old]"
  shows "trust_host True True 5 ''1'' i True \<lparr>ks_attempts = m, ks_table = table\<rparr>
    = (Ok (), \<lparr>ks_attempts = m(i \<mapsto> demo_attempt key True), ks_table = [demo_row key]\<rparr>)"
proof -
  let ?k = "known_host_of ''1'' (demo_attempt key False)"
  have row: "stored_known_host_from ?k = demo_row key"
    by (simp add: stored_known_host_from_def known_host_of_def demo_attempt_def demo_row_def)
  have "with_known_host ?k [] = [?k]"
    "with_known_host ?k [known_host_of ''1'' (demo_attempt old False)] = [?k]"
    by (simp_all add: with_known_host_def at_endpoint_def known_host_of_def demo_attempt_def)
  with assms(2) have "remember_host True True ?k \<lparr>ks_attempts = m, ks_table = table\<rparr>
      = (Ok (), \<lparr>ks_attempts = m, ks_table = [demo_row key]\<rparr>)"
    by (auto simp: remember_host_def read_known_hosts_def demo_list [of old False] list_no_hosts
        replace_known_hosts_def replace_table_eq row)
  then show ?thesis
    using assms(1) by (simp add: trust_host_def live_attempt_def) (simp add: demo_attempt_def ATTEMPT_LIFETIME_def)
qed

definition demo_host_log :: "(uuid \<Rightarrow> verification_attempt option) \<Rightarrow> stored_known_host list \<Rightarrow>
    (uuid \<Rightarrow> observation option) \<Rightarrow> uuid set \<Rightarrow> host_log" where
  "demo_host_log m table obs trust =
     \<lparr>lg_service = \<lparr>ks_attempts = m, ks_table = table\<rparr>, lg_observed = obs, lg_trusted = trust, lg_ended = {}\<rparr>"

lemma demo_observed:
  "(host_step to_ascii_lowercase)\<^sup>*\<^sup>* (fresh_log [])
     (demo_host_log [1 \<mapsto> demo_attempt key False, 2 \<mapsto> demo_attempt key' False] []
        [1 \<mapsto> demo_observation key, 2 \<mapsto> demo_observation key'] {})"
proof -
  have step: "host_step to_ascii_lowercase (demo_host_log m [] obs {})
      (demo_host_log (m(i \<mapsto> demo_attempt k False)) [] (obs(i \<mapsto> demo_observation k)) {})" if "obs i = None" for m obs i k
    using host_step.prepared [of "demo_host_log m [] obs {}" i to_ascii_lowercase True 0 "''direct''" "''DB.example''" 22 k]
      that demo_prepare [of i k m]
    by (simp add: demo_host_log_def log_prepared_def demo_observation_def stored_key_def read_known_hosts_def
        list_known_hosts_def)
  have "fresh_log [] = demo_host_log Map.empty [] Map.empty {}" by (simp add: fresh_log_def demo_host_log_def)
  with step [of Map.empty 1 Map.empty key] have
    "(host_step to_ascii_lowercase)\<^sup>*\<^sup>* (fresh_log [])
       (demo_host_log [1 \<mapsto> demo_attempt key False] [] [1 \<mapsto> demo_observation key] {})"
    by (simp add: r_into_rtranclp)
  moreover have "host_step to_ascii_lowercase
      (demo_host_log [1 \<mapsto> demo_attempt key False] [] [1 \<mapsto> demo_observation key] {})
      (demo_host_log [1 \<mapsto> demo_attempt key False, 2 \<mapsto> demo_attempt key' False] []
        [1 \<mapsto> demo_observation key, 2 \<mapsto> demo_observation key'] {})"
    by (rule step) simp
  ultimately show ?thesis by (rule rtranclp.rtrancl_into_rtrancl)
qed

lemma demo_trusted:
  "(host_step to_ascii_lowercase)\<^sup>*\<^sup>* (fresh_log [])
     (demo_host_log [1 \<mapsto> demo_attempt key True, 2 \<mapsto> demo_attempt key' False] [demo_row key]
        [1 \<mapsto> demo_observation key, 2 \<mapsto> demo_observation key'] {1})"
proof -
  let ?l = "demo_host_log [1 \<mapsto> demo_attempt key False, 2 \<mapsto> demo_attempt key' False] []
        [1 \<mapsto> demo_observation key, 2 \<mapsto> demo_observation key'] {}"
  have "trust_host True True 5 ''1'' 1 True (lg_service ?l) =
      (Ok (), \<lparr>ks_attempts = [1 \<mapsto> demo_attempt key True, 2 \<mapsto> demo_attempt key' False], ks_table = [demo_row key]\<rparr>)"
    by (simp add: demo_host_log_def demo_trust fun_upd_twist)
  from host_step.trusted [OF this, of to_ascii_lowercase] demo_observed [of key key'] show ?thesis
    by (auto simp: demo_host_log_def intro: rtranclp.rtrancl_into_rtrancl)
qed

lemma fingerprint_used_as_verified_witness:
  "\<exists>s. (let l = demo_host_log [1 \<mapsto> demo_attempt \<lparr>hi_key_type = ''ssh-ed25519'', hi_fingerprint = ''SHA256:new''\<rparr> True,
               2 \<mapsto> demo_attempt \<lparr>hi_key_type = ''rsa'', hi_fingerprint = ''SHA256:old''\<rparr> False]
             [demo_row \<lparr>hi_key_type = ''ssh-ed25519'', hi_fingerprint = ''SHA256:new''\<rparr>]
             [1 \<mapsto> demo_observation \<lparr>hi_key_type = ''ssh-ed25519'', hi_fingerprint = ''SHA256:new''\<rparr>,
              2 \<mapsto> demo_observation \<lparr>hi_key_type = ''rsa'', hi_fingerprint = ''SHA256:old''\<rparr>] {1}
        in consume_scoped to_ascii_lowercase 5 1 ''direct'' ''DB.example'' 22 (lg_service l) = (Ok ''SHA256:new'', s)
           \<and> ks_attempts s 1 = None)"
proof -
  let ?key = "\<lparr>hi_key_type = ''ssh-ed25519'', hi_fingerprint = ''SHA256:new''\<rparr>"
  let ?old = "\<lparr>hi_key_type = ''rsa'', hi_fingerprint = ''SHA256:old''\<rparr>"
  let ?l = "demo_host_log [1 \<mapsto> demo_attempt ?key True, 2 \<mapsto> demo_attempt ?old False] [demo_row ?key]
        [1 \<mapsto> demo_observation ?key, 2 \<mapsto> demo_observation ?old] {1}"
  have "consume_scoped to_ascii_lowercase 5 1 ''direct'' ''DB.example'' 22 (lg_service ?l)
      = (Ok ''SHA256:new'', cancel_attempt 1 (lg_service ?l))"
    by (simp add: consume_scoped_def demo_names demo_host_log_def live_attempt_def demo_attempt_def ATTEMPT_LIFETIME_def)
  from this fingerprint_used_as_verified [OF demo_trusted this] show ?thesis by (auto simp: Let_def)
qed

text \<open>
  C19. While a different key is stored for an endpoint, no attempt is made for it. But attempts that
  were made before the key was stored stay valid: for any two keys, each of two open attempts can be
  trusted and remembered in turn, and the second replaces the stored key of the first without a
  HostKeyChanged error.
\<close>

theorem open_attempt_replaces_stored_key:
  "(case prepare_scoped lower io i now scope host p observed svc of
      (Ok v, s) \<Rightarrow> stored_key io svc (hv_route_scope v) (hv_host v) p \<in> {None, Some observed}
    | (_, s) \<Rightarrow> s = svc)
   \<and> (\<exists>l s. (host_step to_ascii_lowercase)\<^sup>*\<^sup>* (fresh_log []) l
        \<and> stored_key True (lg_service l) ''direct'' ''db.example'' 22 = Some key
        \<and> trust_host True True 5 ''1'' 2 True (lg_service l) = (Ok (), s)
        \<and> stored_key True s ''direct'' ''db.example'' 22 = Some key')"
proof
  obtain r s where run: "prepare_scoped lower io i now scope host p observed svc = (r, s)" by fastforce
  then have "case (r, s) of (Ok v, s) \<Rightarrow> stored_key io svc (hv_route_scope v) (hv_host v) p \<in> {None, Some observed}
    | (_, s) \<Rightarrow> s = svc"
  proof (cases rule: prepare_cases)
    case refused
    then show ?thesis by (cases r) (blast, simp_all)
  next
    case (attempt status scope' host')
    then show ?thesis by simp
  qed
  then show "case prepare_scoped lower io i now scope host p observed svc of
      (Ok v, s) \<Rightarrow> stored_key io svc (hv_route_scope v) (hv_host v) p \<in> {None, Some observed}
    | (_, s) \<Rightarrow> s = svc" unfolding run .
next
  let ?l = "demo_host_log [1 \<mapsto> demo_attempt key True, 2 \<mapsto> demo_attempt key' False] [demo_row key]
        [1 \<mapsto> demo_observation key, 2 \<mapsto> demo_observation key'] {1}"
  let ?s = "\<lparr>ks_attempts = [1 \<mapsto> demo_attempt key True, 2 \<mapsto> demo_attempt key' True], ks_table = [demo_row key']\<rparr>"
  have stored: "stored_key True \<lparr>ks_attempts = m, ks_table = [demo_row k]\<rparr> ''direct'' ''db.example'' 22 = Some k" for m k
    by (simp add: stored_key_def read_known_hosts_def demo_list [of k True] at_endpoint_def known_host_of_def
        demo_attempt_def)
  have "trust_host True True 5 ''1'' 2 True (lg_service ?l) = (Ok (), ?s)"
    by (simp add: demo_host_log_def demo_trust [of _ 2 key' "[demo_row key]" key])
  with stored demo_trusted [of key key'] show "\<exists>l s. (host_step to_ascii_lowercase)\<^sup>*\<^sup>* (fresh_log []) l
        \<and> stored_key True (lg_service l) ''direct'' ''db.example'' 22 = Some key
        \<and> trust_host True True 5 ''1'' 2 True (lg_service l) = (Ok (), s)
        \<and> stored_key True s ''direct'' ''db.example'' 22 = Some key'"
    by (intro exI [of _ ?l] exI [of _ ?s]) (simp add: demo_host_log_def)
qed

end
