(* ===== verification/Transfer_Grants.thy ===== *)
theory Transfer_Grants
  imports Storage
begin

text \<open>
  What the user hands to transfers: the grants of local files (transfers/grants.rs), which the
  window refers to by identifier and which a transfer uses up, and the history of upload
  directories (transfers/history.rs). Local paths are lists of components, up to which
  \<open>std::path::Path\<close> compares them (no drive prefixes); file names are bytes. The file system's
  answers, new identifiers and the clock are arguments. No holder of the drop's lock can panic,
  so its poisoning is not modelled.
\<close>

section \<open>Local paths\<close>

datatype path_component = RootDir | CurDir | ParentDir | Normal string

type_synonym local_path = "path_component list"

definition path_file_name :: "local_path \<Rightarrow> string option" where
  "path_file_name p = (if p = [] then None else case last p of Normal s \<Rightarrow> Some s | _ \<Rightarrow> None)"

definition path_parent :: "local_path \<Rightarrow> local_path option" where
  "path_parent p = (if p = [] \<or> last p = RootDir then None else Some (butlast p))"

definition path_is_absolute :: "local_path \<Rightarrow> bool" where
  "path_is_absolute p \<longleftrightarrow> p \<noteq> [] \<and> hd p = RootDir"

abbreviation byte_in :: "char \<Rightarrow> int \<Rightarrow> int \<Rightarrow> bool" where
  "byte_in c lo hi \<equiv> lo \<le> byte c \<and> byte c \<le> hi"

text \<open>The well-formed sequences of UTF-8, as \<open>OsStr::to_str\<close> accepts them.\<close>

fun is_utf8 :: "string \<Rightarrow> bool" where
  "is_utf8 [] = True"
| "is_utf8 [a] = byte_in a 0 0x7F"
| "is_utf8 [a, b] =
     (if byte_in a 0 0x7F then is_utf8 [b] else byte_in a 0xC2 0xDF \<and> is_cont_byte b)"
| "is_utf8 [a, b, c] =
     (if byte_in a 0 0x7F then is_utf8 [b, c]
      else if byte_in a 0xC2 0xDF then is_cont_byte b \<and> is_utf8 [c]
      else byte_in a 0xE0 0xEF \<and> is_cont_byte b \<and> is_cont_byte c
        \<and> (byte a = 0xE0 \<longrightarrow> 0xA0 \<le> byte b) \<and> (byte a = 0xED \<longrightarrow> byte b \<le> 0x9F))"
| "is_utf8 (a # b # c # d # s) =
     (if byte_in a 0 0x7F then is_utf8 (b # c # d # s)
      else if byte_in a 0xC2 0xDF then is_cont_byte b \<and> is_utf8 (c # d # s)
      else if byte_in a 0xE0 0xEF then is_cont_byte b \<and> is_cont_byte c
        \<and> (byte a = 0xE0 \<longrightarrow> 0xA0 \<le> byte b) \<and> (byte a = 0xED \<longrightarrow> byte b \<le> 0x9F) \<and> is_utf8 (d # s)
      else byte_in a 0xF0 0xF4 \<and> is_cont_byte b \<and> is_cont_byte c \<and> is_cont_byte d
        \<and> (byte a = 0xF0 \<longrightarrow> 0x90 \<le> byte b) \<and> (byte a = 0xF4 \<longrightarrow> byte b \<le> 0x8F) \<and> is_utf8 s)"

definition to_str :: "string \<Rightarrow> string option" where
  "to_str s = (if is_utf8 s then Some s else None)"

section \<open>Grants\<close>

datatype local_file_grant_kind = UploadSource | DownloadTarget

record local_file_grant =
  fg_path :: local_path
  fg_name :: string
  fg_size :: u64
  fg_kind :: local_file_grant_kind

record local_file_selection =
  ls_grant_id :: uuid
  ls_name :: string
  ls_size :: u64

record grant_service =
  gs_grants :: "uuid \<Rightarrow> local_file_grant option"
  gs_drop :: "local_path list option"

definition new_grant_service :: grant_service where
  "new_grant_service = \<lparr>gs_grants = (\<lambda>_. None), gs_drop = None\<rparr>"

definition insert_grant ::
  "uuid \<Rightarrow> local_path \<Rightarrow> string \<Rightarrow> u64 \<Rightarrow> local_file_grant_kind \<Rightarrow> grant_service \<Rightarrow>
   (local_file_selection, app_error) result \<times> grant_service" where
  "insert_grant new_id p name bytes kind svc =
     (Ok \<lparr>ls_grant_id = new_id, ls_name = name, ls_size = bytes\<rparr>,
      svc\<lparr>gs_grants := (gs_grants svc)(new_id \<mapsto>
        \<lparr>fg_path = p, fg_name = name, fg_size = bytes, fg_kind = kind\<rparr>)\<rparr>)"

definition grant_file_name :: "local_path \<Rightarrow> (string, app_error) result" where
  "grant_file_name p =
     (case Option.bind (path_file_name p) to_str of
        Some name \<Rightarrow> if name = [] then Err (File LocalFileInvalid) else Ok name
      | None \<Rightarrow> Err (File LocalFileInvalid))"

text \<open>The metadata of a path: whether it is a regular file, and its length.\<close>

definition grant_upload ::
  "(local_path \<Rightarrow> (bool \<times> u64) option) \<Rightarrow> uuid \<Rightarrow> local_path \<Rightarrow> grant_service \<Rightarrow>
   (local_file_selection, app_error) result \<times> grant_service" where
  "grant_upload metadata new_id p svc =
     (case metadata p of
        None \<Rightarrow> (Err (File LocalFileInvalid), svc)
      | Some (is_file, bytes) \<Rightarrow>
          if \<not> is_file then (Err (File LocalFileInvalid), svc)
          else case grant_file_name p of
              Ok name \<Rightarrow> insert_grant new_id p name bytes UploadSource svc
            | Err e \<Rightarrow> (Err e, svc)
            | Panic \<Rightarrow> (Panic, svc))"

definition grant_download ::
  "(local_path \<Rightarrow> bool) \<Rightarrow> uuid \<Rightarrow> local_path \<Rightarrow> string \<Rightarrow> grant_service \<Rightarrow>
   (local_file_selection, app_error) result \<times> grant_service" where
  "grant_download is_dir new_id p suggested svc =
     (let name = (case Option.bind (path_file_name p) to_str of
                    Some name \<Rightarrow> if name = [] then suggested else name
                  | None \<Rightarrow> suggested)
      in if name = [] \<or> is_dir p then (Err (File LocalFileInvalid), svc)
         else insert_grant new_id p name 0 DownloadTarget svc)"

text \<open>The grant is removed before its kind is checked.\<close>

definition consume_grant ::
  "uuid \<Rightarrow> local_file_grant_kind \<Rightarrow> grant_service \<Rightarrow> (local_file_grant, app_error) result \<times> grant_service" where
  "consume_grant i expected svc =
     (case gs_grants svc i of
        None \<Rightarrow> (Err (File LocalFileInvalid), svc)
      | Some g \<Rightarrow>
          (if fg_kind g \<noteq> expected then Err (File LocalFileInvalid) else Ok g,
           svc\<lparr>gs_grants := (gs_grants svc)(i := None)\<rparr>))"

definition stage_upload_drop :: "local_path list \<Rightarrow> grant_service \<Rightarrow> grant_service" where
  "stage_upload_drop paths svc = svc\<lparr>gs_drop := Some paths\<rparr>"

fun grant_dropped ::
  "(local_path \<Rightarrow> (bool \<times> u64) option) \<Rightarrow> (uuid \<times> local_path) list \<Rightarrow> grant_service \<Rightarrow>
   local_file_selection list \<times> grant_service" where
  "grant_dropped metadata [] svc = ([], svc)"
| "grant_dropped metadata ((new_id, p) # ps) svc =
     (case grant_upload metadata new_id p svc of
        (Ok selection, svc) \<Rightarrow> (case grant_dropped metadata ps svc of (ss, svc) \<Rightarrow> (selection # ss, svc))
      | (_, svc) \<Rightarrow> grant_dropped metadata ps svc)"

text \<open>
  A drop that is not there yet is waited for one second: \<open>arriving\<close> is the one staged
  meanwhile, if any. \<open>ids\<close> are the new identifiers, by position.
\<close>

definition accept_latest_upload_drop ::
  "(local_path \<Rightarrow> (bool \<times> u64) option) \<Rightarrow> (nat \<Rightarrow> uuid) \<Rightarrow> local_path list option \<Rightarrow> grant_service \<Rightarrow>
   (local_file_selection list, app_error) result \<times> grant_service" where
  "accept_latest_upload_drop metadata ids arriving svc =
     (case (case gs_drop svc of None \<Rightarrow> arriving | staged \<Rightarrow> staged) of
        None \<Rightarrow> (Err (File LocalFileInvalid), svc)
      | Some paths \<Rightarrow>
          (case grant_dropped metadata (map (\<lambda>(k, p). (ids k, p)) (enumerate 0 paths)) (svc\<lparr>gs_drop := None\<rparr>) of
             (selections, svc) \<Rightarrow>
               (if selections = [] then Err (File LocalFileInvalid) else Ok selections, svc)))"

section \<open>The history of upload directories\<close>

definition MAX_HISTORY_ENTRIES :: nat where "MAX_HISTORY_ENTRIES = 256"

definition MAX_REMOTE_PATH_LENGTH :: nat where "MAX_REMOTE_PATH_LENGTH = 4096"

record upload_directory_entry =
  ud_profile_id :: uuid
  ud_remote_directory :: string
  ud_local_directory :: local_path
  ud_last_uploaded_at_ms :: u64

type_synonym directory_history = "upload_directory_entry list stored_file"

definition validate_remote_directory :: "string \<Rightarrow> (unit, app_error) result" where
  "validate_remote_directory p =
     (if starts_with p ''/'' \<and> CHR 0x00 \<notin> set p \<and> length p \<le> MAX_REMOTE_PATH_LENGTH
      then Ok () else Err (File SftpPathInvalid))"

definition for_directory :: "uuid \<Rightarrow> string \<Rightarrow> upload_directory_entry \<Rightarrow> bool" where
  "for_directory profile directory e \<longleftrightarrow>
     ud_profile_id e = profile \<and> ud_remote_directory e = directory"

definition find_directory ::
  "uuid \<Rightarrow> string \<Rightarrow> directory_history \<Rightarrow> (local_path option, app_error) result" where
  "find_directory profile directory history =
     result_bind (validate_remote_directory directory) (\<lambda>_.
     result_bind (load_or_default [] history) (\<lambda>entries.
       Ok (map_option ud_local_directory (find (for_directory profile directory) (rev entries)))))"

text \<open>\<open>filter(|entry| seen.insert(key))\<close>: the first of each key.\<close>

fun first_of_each :: "('a \<Rightarrow> 'k) \<Rightarrow> 'k set \<Rightarrow> 'a list \<Rightarrow> 'a list" where
  "first_of_each key seen [] = []"
| "first_of_each key seen (x # xs) =
     (if key x \<in> seen then first_of_each key seen xs
      else x # first_of_each key (insert (key x) seen) xs)"

text \<open>The latest upload first, of two at the same time the later entry. The keys are distinct, so
  descending is the reverse of ascending.\<close>

definition upload_order :: "nat \<times> upload_directory_entry \<Rightarrow> u64 \<times> nat" where
  "upload_order = (\<lambda>(k, e). (ud_last_uploaded_at_ms e, k))"

definition list_directories ::
  "uuid \<Rightarrow> directory_history \<Rightarrow> ((string \<times> u64) list, app_error) result" where
  "list_directories profile history =
     result_bind (load_or_default [] history) (\<lambda>entries.
       Ok (map (\<lambda>e. (ud_remote_directory e, ud_last_uploaded_at_ms e))
         (first_of_each ud_remote_directory {}
           (map snd (rev (sort_key upload_order
             (filter (\<lambda>(k, e). ud_profile_id e = profile) (enumerate 0 entries))))))))"

definition remembered_entries ::
  "u64 \<Rightarrow> uuid \<Rightarrow> string \<Rightarrow> local_path \<Rightarrow> upload_directory_entry list \<Rightarrow> upload_directory_entry list" where
  "remembered_entries now profile directory local entries =
     keep_last MAX_HISTORY_ENTRIES
       (filter (\<lambda>e. ud_profile_id e \<noteq> profile \<or> ud_remote_directory e \<noteq> directory) entries
        @ [\<lparr>ud_profile_id = profile, ud_remote_directory = directory, ud_local_directory = local,
            ud_last_uploaded_at_ms = now\<rparr>])"

definition remember_directory ::
  "persist_steps \<Rightarrow> u64 \<Rightarrow> uuid \<Rightarrow> string \<Rightarrow> local_path \<Rightarrow> directory_history \<Rightarrow>
   (unit, app_error) result \<times> directory_history" where
  "remember_directory w now profile directory local history =
     (case validate_remote_directory directory of
        Ok _ \<Rightarrow>
          (if \<not> path_is_absolute local then (Err (File LocalFileInvalid), history)
           else case load_or_default [] history of
               Ok entries \<Rightarrow> save_atomic w (remembered_entries now profile directory local entries) history
             | Err e \<Rightarrow> (Err e, history)
             | Panic \<Rightarrow> (Panic, history))
      | Err e \<Rightarrow> (Err e, history)
      | Panic \<Rightarrow> (Panic, history))"

section \<open>What the history keeps\<close>

lemma find_append: "find P (xs @ ys) = (case find P xs of None \<Rightarrow> find P ys | Some x \<Rightarrow> Some x)"
  by (induction xs) auto

lemma find_filter_implied: "(\<And>x. P x \<Longrightarrow> Q x) \<Longrightarrow> find P (filter Q xs) = find P xs"
  by (induction xs) auto

lemma find_take: "find P (take n xs) = find P xs \<or> find P (take n xs) = None"
proof -
  have "find P xs = (case find P (take n xs) of None \<Rightarrow> find P (drop n xs) | Some x \<Rightarrow> Some x)"
    using find_append [of P "take n xs" "drop n xs"] by simp
  then show ?thesis by (cases "find P (take n xs)") simp_all
qed

lemma find_Some_iff_mem: "(\<exists>x. find P xs = Some x) \<longleftrightarrow> (\<exists>x \<in> set xs. P x)"
  by (induction xs) auto

text \<open>A key is looked up from the end, where the new entry stands; the oldest entries go first.\<close>

lemma find_remembered:
  "find (for_directory p d) (rev (remembered_entries now profile directory local entries)) =
     (if p = profile \<and> d = directory
      then Some \<lparr>ud_profile_id = profile, ud_remote_directory = directory, ud_local_directory = local,
                 ud_last_uploaded_at_ms = now\<rparr>
      else find (for_directory p d) (take (MAX_HISTORY_ENTRIES - 1)
        (rev (filter (\<lambda>e. ud_profile_id e \<noteq> profile \<or> ud_remote_directory e \<noteq> directory) entries))))"
proof -
  have max: "MAX_HISTORY_ENTRIES = Suc (MAX_HISTORY_ENTRIES - 1)" by (simp add: MAX_HISTORY_ENTRIES_def)
  have "rev (keep_last MAX_HISTORY_ENTRIES (xs @ [x])) = x # take (MAX_HISTORY_ENTRIES - 1) (rev xs)"
    for xs and x :: upload_directory_entry
    using max by (cases "length xs \<le> MAX_HISTORY_ENTRIES - 1") (simp_all add: keep_last_def rev_drop take_Cons')
  from this [of "filter (\<lambda>e. ud_profile_id e \<noteq> profile \<or> ud_remote_directory e \<noteq> directory) entries"] show ?thesis
    by (auto simp: remembered_entries_def for_directory_def)
qed

text \<open>
  The directory remembered last is the one found: after a successful \<open>remember\<close> the pair of
  profile and remote directory leads to the new local directory; any other pair leads where it led
  before, or nowhere when its entry was among the oldest that no longer fit; and the file never
  holds more than 256 entries.
\<close>

lemma remembered_directory_found:
  assumes "remember_directory w now profile directory local history = (Ok (), history')"
  shows "find_directory profile directory history' = Ok (Some local)
    \<and> (\<forall>p d. (p, d) \<noteq> (profile, directory) \<longrightarrow>
         find_directory p d history' = find_directory p d history
         \<or> find_directory p d history' = Ok None)
    \<and> (\<exists>entries. history' = Contents entries \<and> length entries \<le> MAX_HISTORY_ENTRIES)"
proof -
  from assms obtain entries where valid: "validate_remote_directory directory = Ok ()"
    and old: "load_or_default [] history = Ok entries"
    and saved: "save_atomic w (remembered_entries now profile directory local entries) history = (Ok (), history')"
    by (auto simp: remember_directory_def split: result.splits if_splits)
  have new: "history' = Contents (remembered_entries now profile directory local entries)"
    using saved save_atomic_cases [of w "remembered_entries now profile directory local entries" history] by auto
  have "find_directory profile directory history' = Ok (Some local)"
    by (simp add: find_directory_def valid new find_remembered)
  moreover have "find_directory p d history' = find_directory p d history \<or> find_directory p d history' = Ok None"
    if "(p, d) \<noteq> (profile, directory)" for p d
  proof (cases "validate_remote_directory d")
    case (Ok u)
    let ?Q = "\<lambda>e. ud_profile_id e \<noteq> profile \<or> ud_remote_directory e \<noteq> directory"
    have "find (for_directory p d) (rev (filter ?Q entries)) = find (for_directory p d) (rev entries)"
      unfolding rev_filter using that by (intro find_filter_implied) (auto simp: for_directory_def)
    with that show ?thesis
      using find_take [of "for_directory p d" "MAX_HISTORY_ENTRIES - 1" "rev (filter ?Q entries)"]
      by (auto simp: find_directory_def Ok old new find_remembered)
  qed (simp_all add: find_directory_def)
  moreover have "length (remembered_entries now profile directory local entries) \<le> MAX_HISTORY_ENTRIES"
    by (simp add: remembered_entries_def)
  ultimately show ?thesis using new by blast
qed

lemma remembered_directory_found_witness:
  "find_directory 1 ''/srv/app'' (snd (remember_directory all_steps_ok 5 1 ''/srv/app'' [RootDir, Normal ''home''] Missing))
     = Ok (Some [RootDir, Normal ''home''])"
proof -
  have "remember_directory all_steps_ok 5 1 ''/srv/app'' [RootDir, Normal ''home''] Missing
      = (Ok (), snd (remember_directory all_steps_ok 5 1 ''/srv/app'' [RootDir, Normal ''home''] Missing))"
    by (simp add: remember_directory_def validate_remote_directory_def starts_with_def path_is_absolute_def
        MAX_REMOTE_PATH_LENGTH_def)
  from remembered_directory_found [OF this] show ?thesis by blast
qed

text \<open>The list shown for a profile: every remote directory that \<open>find\<close> knows, once, latest first.\<close>

lemma set_first_of_each:
  "key ` set (first_of_each key seen xs) = key ` set xs - seen" and
  distinct_first_of_each: "distinct (map key (first_of_each key seen xs))" and
  subset_first_of_each: "set (first_of_each key seen xs) \<subseteq> {x \<in> set xs. key x \<notin> seen}"
proof (induction xs arbitrary: seen)
  case (Cons x xs)
  { case 1 show ?case using Cons(1) [of seen] Cons(1) [of "insert (key x) seen"] by auto
  next
    case 2 show ?case using Cons(2) [of seen] Cons(2) [of "insert (key x) seen"] Cons(3) [of "insert (key x) seen"] by auto
  next
    case 3 show ?case using Cons(3) [of seen] Cons(3) [of "insert (key x) seen"] by auto }
qed simp_all

lemma sorted_first_of_each: "sorted_wrt P xs \<Longrightarrow> sorted_wrt P (first_of_each key seen xs)"
  using subset_first_of_each [of key] by (induction xs arbitrary: seen) fastforce+

lemma list_directories_exact:
  assumes "list_directories profile history = Ok l"
  shows "distinct (map fst l)" and "sorted_wrt (\<lambda>a b. snd a \<ge> snd b) l"
    and "validate_remote_directory d = Ok () \<Longrightarrow>
      d \<in> fst ` set l \<longleftrightarrow> (\<exists>p. find_directory profile d history = Ok (Some p))"
proof -
  from assms obtain entries where e: "load_or_default [] history = Ok entries"
    by (auto simp: list_directories_def split: result.splits elim: result_bind.elims)
  define mine where "mine = map snd (rev (sort_key upload_order (filter (\<lambda>(k, e). ud_profile_id e = profile) (enumerate 0 entries))))"
  define shown where "shown = first_of_each ud_remote_directory {} mine"
  have l: "l = map (\<lambda>e. (ud_remote_directory e, ud_last_uploaded_at_ms e)) shown"
    using assms by (simp add: list_directories_def e mine_def shown_def)
  show "distinct (map fst l)"
    using distinct_first_of_each [of ud_remote_directory "{}" mine] by (simp add: l shown_def comp_def)
  have "sorted_wrt (\<lambda>a b. ud_last_uploaded_at_ms b \<le> ud_last_uploaded_at_ms a) mine"
    unfolding mine_def sorted_wrt_map sorted_wrt_rev
    by (rule sorted_wrt_mono_rel [OF _ sorted_sort_key [unfolded sorted_map]])
      (auto simp: upload_order_def less_eq_prod_def split: prod.splits)
  then show "sorted_wrt (\<lambda>a b. snd a \<ge> snd b) l"
    by (simp add: l shown_def sorted_wrt_map sorted_first_of_each)
  have mine: "set mine = {e \<in> set entries. ud_profile_id e = profile}"
  proof -
    have "set mine = {e \<in> set (map snd (enumerate 0 entries)). ud_profile_id e = profile}"
      unfolding mine_def set_map set_rev set_sort set_filter by (auto split: prod.splits)
    then show ?thesis by simp
  qed
  assume "validate_remote_directory d = Ok ()"
  moreover have "fst ` set l = ud_remote_directory ` set mine"
    using set_first_of_each [of ud_remote_directory "{}" mine] by (simp add: l shown_def image_image)
  ultimately show "d \<in> fst ` set l \<longleftrightarrow> (\<exists>p. find_directory profile d history = Ok (Some p))"
    using find_Some_iff_mem [of "for_directory profile d" "rev entries"]
    by (auto simp: find_directory_def e mine for_directory_def)
qed

end
