(* ===== verification/Transfer_Queue.thy ===== *)
theory Transfer_Queue
  imports Transfer_Grants "HOL-Library.Multiset" "HOL-Library.AList"
begin

text \<open>
  The transfer queue: transfers/queue.rs, whose jobs are made of the grants of \<open>Transfer_Grants\<close>. Every job is a record in a map; every call of \<open>spawn\<close> is a task of its own that
  waits for one of two permits, runs the transfer and records the outcome. The cancellation flags,
  which a record and its worker share by reference, are a list of booleans addressed by
  index. The tasks are a multiset, since any of them may move next; the segments of \<open>run\<close>
  between two waits are the definitions \<open>begin_job\<close>, \<open>add_progress\<close> and \<open>finish_job\<close>. What the
  transfer itself does to the files is in \<open>Transfer_Files\<close>. The events sent to the window
  are not modelled; paths are resolved by the server, so their resolution is an argument.
\<close>

section \<open>Jobs\<close>

definition TRANSFER_CONCURRENCY :: nat where "TRANSFER_CONCURRENCY = 2"

datatype transfer_direction = UploadDirection | DownloadDirection

datatype transfer_state = JobQueued | JobRunning | JobCompleted | JobFailed | JobCancelled

record transfer_job =
  tj_id :: uuid
  tj_session_id :: uuid
  tj_direction :: transfer_direction
  tj_name :: string
  tj_remote_path :: string
  tj_total_bytes :: u64
  tj_transferred_bytes :: u64
  tj_state :: transfer_state
  tj_error_code :: "string option"

datatype transfer_spec = UploadSpec local_path string bool | DownloadSpec string local_path

record transfer_record =
  tr_job :: transfer_job
  tr_spec :: transfer_spec
  tr_sftp :: uuid
  tr_cancelled :: nat

datatype transfer_task =
    Waiting uuid
  | Permitted uuid
  | Working uuid transfer_spec nat
  | Finishing uuid "(unit, app_error) result"

record transfer_queue =
  tq_records :: "(uuid \<times> transfer_record) list"
  tq_flags :: "bool list"
  tq_tasks :: "transfer_task multiset"

definition new_queue :: transfer_queue where
  "new_queue = \<lparr>tq_records = [], tq_flags = [], tq_tasks = {#}\<rparr>"

abbreviation job_record :: "transfer_queue \<Rightarrow> uuid \<Rightarrow> transfer_record option" where
  "job_record q \<equiv> map_of (tq_records q)"

definition put_record :: "uuid \<Rightarrow> transfer_record \<Rightarrow> transfer_queue \<Rightarrow> transfer_queue" where
  "put_record i r q = q\<lparr>tq_records := AList.update i r (tq_records q)\<rparr>"

definition spawn_job :: "uuid \<Rightarrow> transfer_queue \<Rightarrow> transfer_queue" where
  "spawn_job i q = q\<lparr>tq_tasks := add_mset (Waiting i) (tq_tasks q)\<rparr>"

definition new_flag :: "transfer_queue \<Rightarrow> transfer_queue" where
  "new_flag q = q\<lparr>tq_flags := tq_flags q @ [False]\<rparr>"

definition set_flag :: "nat \<Rightarrow> transfer_queue \<Rightarrow> transfer_queue" where
  "set_flag a q = q\<lparr>tq_flags := (tq_flags q)[a := True]\<rparr>"

definition insert_and_spawn ::
  "transfer_job \<Rightarrow> transfer_spec \<Rightarrow> uuid \<Rightarrow> transfer_queue \<Rightarrow> transfer_queue" where
  "insert_and_spawn job spec sftp q =
     spawn_job (tj_id job) (put_record (tj_id job)
       \<lparr>tr_job = job, tr_spec = spec, tr_sftp = sftp, tr_cancelled = length (tq_flags q)\<rparr> (new_flag q))"

definition queued_job ::
  "uuid \<Rightarrow> uuid \<Rightarrow> transfer_direction \<Rightarrow> string \<Rightarrow> string \<Rightarrow> u64 \<Rightarrow> transfer_job" where
  "queued_job i session direction name remote bytes_total =
     \<lparr>tj_id = i, tj_session_id = session, tj_direction = direction, tj_name = name,
      tj_remote_path = remote, tj_total_bytes = bytes_total, tj_transferred_bytes = 0,
      tj_state = JobQueued, tj_error_code = None\<rparr>"

definition enqueue_upload ::
  "uuid \<Rightarrow> uuid \<Rightarrow> uuid \<Rightarrow> local_file_grant \<Rightarrow> (string, app_error) result \<Rightarrow> bool \<Rightarrow> transfer_queue \<Rightarrow>
   (transfer_job, app_error) result \<times> transfer_queue" where
  "enqueue_upload new_id session sftp grant resolved overwrite q =
     (case resolved of
        Err e \<Rightarrow> (Err e, q)
      | Panic \<Rightarrow> (Panic, q)
      | Ok remote \<Rightarrow>
          (let job = queued_job new_id session UploadDirection (fg_name grant) remote (fg_size grant)
           in (Ok job, insert_and_spawn job (UploadSpec (fg_path grant) remote overwrite) sftp q)))"

definition enqueue_download ::
  "uuid \<Rightarrow> uuid \<Rightarrow> uuid \<Rightarrow> local_file_grant \<Rightarrow> (string \<times> u64, app_error) result \<Rightarrow> transfer_queue \<Rightarrow>
   (transfer_job, app_error) result \<times> transfer_queue" where
  "enqueue_download new_id session sftp grant resolved q =
     (case resolved of
        Err e \<Rightarrow> (Err e, q)
      | Panic \<Rightarrow> (Panic, q)
      | Ok (remote, bytes_total) \<Rightarrow>
          (let name = last (split_char CHR ''/'' remote) in
           if name = [] then (Err (File SftpPathInvalid), q)
           else let job = queued_job new_id session DownloadDirection name remote bytes_total
             in (Ok job, insert_and_spawn job (DownloadSpec remote (fg_path grant)) sftp q)))"

definition list_jobs :: "transfer_queue \<Rightarrow> transfer_job list" where
  "list_jobs q = sort_key tj_id (map (tr_job \<circ> snd) (tq_records q))"

definition list_for_session :: "uuid \<Rightarrow> transfer_queue \<Rightarrow> transfer_job list" where
  "list_for_session session q = filter (\<lambda>job. tj_session_id job = session) (list_jobs q)"

definition set_job_state :: "transfer_state \<Rightarrow> transfer_record \<Rightarrow> transfer_record" where
  "set_job_state state r = r\<lparr>tr_job := (tr_job r)\<lparr>tj_state := state\<rparr>\<rparr>"

definition cancel_job :: "uuid \<Rightarrow> transfer_queue \<Rightarrow> (unit, app_error) result \<times> transfer_queue" where
  "cancel_job i q =
     (case job_record q i of
        None \<Rightarrow> (Err (File TransferNotFound), q)
      | Some r \<Rightarrow>
          if tj_state (tr_job r) \<notin> {JobQueued, JobRunning} then (Err (File TransferStateInvalid), q)
          else let q = set_flag (tr_cancelled r) q in
            (Ok (), if tj_state (tr_job r) = JobQueued then put_record i (set_job_state JobCancelled r) q else q))"

fun with_overwrite :: "bool \<Rightarrow> transfer_spec \<Rightarrow> transfer_spec" where
  "with_overwrite overwrite (UploadSpec l r _) = UploadSpec l r overwrite"
| "with_overwrite overwrite (DownloadSpec r l) = DownloadSpec r l"

definition retry_job ::
  "uuid \<Rightarrow> bool \<Rightarrow> transfer_queue \<Rightarrow> (transfer_job, app_error) result \<times> transfer_queue" where
  "retry_job i overwrite q =
     (case job_record q i of
        None \<Rightarrow> (Err (File TransferNotFound), q)
      | Some r \<Rightarrow>
          if tj_state (tr_job r) \<notin> {JobFailed, JobCancelled} then (Err (File TransferStateInvalid), q)
          else let job = (tr_job r)\<lparr>tj_state := JobQueued, tj_transferred_bytes := 0, tj_error_code := None\<rparr>;
                   r = r\<lparr>tr_job := job, tr_spec := with_overwrite overwrite (tr_spec r),
                         tr_cancelled := length (tq_flags q)\<rparr>
               in (Ok job, spawn_job i (put_record i r (new_flag q))))"

definition session_active :: "uuid \<Rightarrow> transfer_record \<Rightarrow> bool" where
  "session_active session r \<longleftrightarrow>
     tj_session_id (tr_job r) = session \<and> tj_state (tr_job r) \<in> {JobQueued, JobRunning}"

definition cancel_session_jobs :: "uuid \<Rightarrow> transfer_queue \<Rightarrow> transfer_queue" where
  "cancel_session_jobs session q =
     q\<lparr>tq_flags := fold (\<lambda>r flags. if session_active session r then flags[tr_cancelled r := True] else flags)
         (map snd (tq_records q)) (tq_flags q),
       tq_records := map (\<lambda>(i, r). (i, if session_active session r \<and> tj_state (tr_job r) = JobQueued
         then set_job_state JobCancelled r else r)) (tq_records q)\<rparr>"

section \<open>The task of a job\<close>

text \<open>From the permit to the start of the transfer: the task that goes on, if any.\<close>

definition begin_job :: "uuid \<Rightarrow> transfer_queue \<Rightarrow> transfer_task option \<times> transfer_queue" where
  "begin_job i q =
     (case job_record q i of
        None \<Rightarrow> (None, q)
      | Some r \<Rightarrow>
          if tq_flags q ! tr_cancelled r \<or> tj_state (tr_job r) \<noteq> JobQueued then (None, q)
          else (Some (Working i (tr_spec r) (tr_cancelled r)), put_record i (set_job_state JobRunning r) q))"

definition add_progress :: "uuid \<Rightarrow> u64 \<Rightarrow> transfer_queue \<Rightarrow> transfer_queue" where
  "add_progress i bytes q =
     (case job_record q i of
        None \<Rightarrow> q
      | Some r \<Rightarrow>
          (let job = tr_job r in put_record i (r\<lparr>tr_job := job\<lparr>tj_transferred_bytes :=
             min (saturating_add (tj_transferred_bytes job) bytes) (tj_total_bytes job)\<rparr>\<rparr>) q))"

definition finish_job :: "uuid \<Rightarrow> (unit, app_error) result \<Rightarrow> transfer_queue \<Rightarrow> transfer_queue" where
  "finish_job i result q =
     (case job_record q i of
        None \<Rightarrow> q
      | Some r \<Rightarrow>
          (let job = tr_job r in
           case result of
             Ok _ \<Rightarrow> put_record i (r\<lparr>tr_job := job\<lparr>tj_transferred_bytes := tj_total_bytes job,
               tj_state := JobCompleted, tj_error_code := None\<rparr>\<rparr>) q
           | Err e \<Rightarrow> put_record i (r\<lparr>tr_job := job\<lparr>
               tj_state := (if e = File TransferCancelled \<or> tq_flags q ! tr_cancelled r
                            then JobCancelled else JobFailed),
               tj_error_code := Some (app_error_code e)\<rparr>\<rparr>) q
           | Panic \<Rightarrow> q))"

fun holds_permit :: "transfer_task \<Rightarrow> bool" where
  "holds_permit (Permitted _) = True"
| "holds_permit (Working _ _ _) = True"
| "holds_permit _ = False"

definition permits :: "transfer_queue \<Rightarrow> nat" where
  "permits q = size (filter_mset holds_permit (tq_tasks q))"

definition replace_task :: "transfer_task \<Rightarrow> transfer_task multiset \<Rightarrow> transfer_queue \<Rightarrow> transfer_queue" where
  "replace_task t ts q = q\<lparr>tq_tasks := tq_tasks q - {#t#} + ts\<rparr>"

text \<open>
  A task that moves on. A transfer returns \<open>TransferCancelled\<close> only when it saw its flag set.
\<close>

inductive task_step :: "transfer_queue \<Rightarrow> transfer_queue \<Rightarrow> bool" where
  acquired: "Waiting i \<in># tq_tasks q \<Longrightarrow> permits q < TRANSFER_CONCURRENCY \<Longrightarrow>
     task_step q (replace_task (Waiting i) {#Permitted i#} q)"
| begun: "Permitted i \<in># tq_tasks q \<Longrightarrow> begin_job i q = (Some t, q') \<Longrightarrow>
     task_step q (replace_task (Permitted i) {#t#} q')"
| returned: "Permitted i \<in># tq_tasks q \<Longrightarrow> begin_job i q = (None, q') \<Longrightarrow>
     task_step q (replace_task (Permitted i) {#} q')"
| progressed: "Working i spec a \<in># tq_tasks q \<Longrightarrow> task_step q (add_progress i bytes q)"
| worked: "Working i spec a \<in># tq_tasks q \<Longrightarrow> outcome \<noteq> Panic \<Longrightarrow>
     (outcome = Err (File TransferCancelled) \<Longrightarrow> tq_flags q ! a) \<Longrightarrow>
     task_step q (replace_task (Working i spec a) {#Finishing i outcome#} q)"
| finished: "Finishing i outcome \<in># tq_tasks q \<Longrightarrow>
     task_step q (replace_task (Finishing i outcome) {#} (finish_job i outcome q))"

text \<open>Every move of the queue: a task that moves on, or a call from outside. New jobs have new
  identifiers.\<close>

inductive queue_step :: "transfer_queue \<Rightarrow> transfer_queue \<Rightarrow> bool" where
  tasked: "task_step q q' \<Longrightarrow> queue_step q q'"
| uploaded: "job_record q i = None \<Longrightarrow> enqueue_upload i session sftp grant resolved overwrite q = (r, q') \<Longrightarrow>
     queue_step q q'"
| downloaded: "job_record q i = None \<Longrightarrow> enqueue_download i session sftp grant source q = (r, q') \<Longrightarrow>
     queue_step q q'"
| cancelled: "cancel_job i q = (r, q') \<Longrightarrow> queue_step q q'"
| retried: "retry_job i overwrite q = (r, q') \<Longrightarrow> queue_step q q'"
| session_cancelled: "queue_step q (cancel_session_jobs session q)"

section \<open>The invariant\<close>

fun task_job :: "transfer_task \<Rightarrow> uuid" where
  "task_job (Waiting i) = i"
| "task_job (Permitted i) = i"
| "task_job (Working i _ _) = i"
| "task_job (Finishing i _) = i"

fun is_worker :: "transfer_task \<Rightarrow> bool" where
  "is_worker (Working _ _ _) = True"
| "is_worker (Finishing _ _) = True"
| "is_worker _ = False"

definition tasks_of :: "uuid \<Rightarrow> transfer_queue \<Rightarrow> transfer_task multiset" where
  "tasks_of i q = filter_mset (\<lambda>t. task_job t = i) (tq_tasks q)"

definition worker_count :: "transfer_task multiset \<Rightarrow> nat" where
  "worker_count M = size (filter_mset is_worker M)"

definition job_ok :: "bool \<Rightarrow> bool \<Rightarrow> transfer_job \<Rightarrow> bool" where
  "job_ok flag waiting job \<longleftrightarrow>
     tj_transferred_bytes job \<le> tj_total_bytes job
     \<and> (case tj_state job of
          JobQueued \<Rightarrow> tj_transferred_bytes job = 0 \<and> tj_error_code job = None \<and> \<not> flag \<and> waiting
        | JobRunning \<Rightarrow> tj_error_code job = None
        | JobCompleted \<Rightarrow> tj_transferred_bytes job = tj_total_bytes job \<and> tj_error_code job = None
        | JobFailed \<Rightarrow> tj_error_code job \<noteq> None \<and> \<not> flag
        | JobCancelled \<Rightarrow> flag)"

text \<open>One job: its record, the flags, and the tasks that belong to it.\<close>

definition record_sound :: "bool list \<Rightarrow> uuid \<Rightarrow> transfer_record \<Rightarrow> transfer_task multiset \<Rightarrow> bool" where
  "record_sound flags i r M \<longleftrightarrow>
     tj_id (tr_job r) = i \<and> tr_cancelled r < length flags
     \<and> job_ok (flags ! tr_cancelled r) (Waiting i \<in># M \<or> Permitted i \<in># M) (tr_job r)
     \<and> worker_count M = (if tj_state (tr_job r) = JobRunning then 1 else 0)
     \<and> (\<forall>spec a. Working i spec a \<in># M \<longrightarrow> tr_spec r = spec \<and> tr_cancelled r = a)
     \<and> (\<forall>outcome. Finishing i outcome \<in># M \<longrightarrow> outcome \<noteq> Panic
          \<and> (outcome = Err (File TransferCancelled) \<longrightarrow> flags ! tr_cancelled r))"

definition job_sound ::
  "bool list \<Rightarrow> uuid \<Rightarrow> transfer_record option \<Rightarrow> transfer_task multiset \<Rightarrow> bool" where
  "job_sound flags i entry M \<longleftrightarrow>
     (case entry of None \<Rightarrow> worker_count M = 0 | Some r \<Rightarrow> record_sound flags i r M)"

definition flags_apart :: "(uuid \<Rightarrow> transfer_record option) \<Rightarrow> bool" where
  "flags_apart m \<longleftrightarrow>
     (\<forall>i j r s. m i = Some r \<longrightarrow> m j = Some s \<longrightarrow> i \<noteq> j \<longrightarrow> tr_cancelled r \<noteq> tr_cancelled s)"

definition queue_ok :: "transfer_queue \<Rightarrow> bool" where
  "queue_ok q \<longleftrightarrow>
     permits q \<le> TRANSFER_CONCURRENCY \<and> distinct (map fst (tq_records q)) \<and> flags_apart (job_record q)
     \<and> (\<forall>i. job_sound (tq_flags q) i (job_record q i) (tasks_of i q))"

lemma worker_count_simps [simp]:
  "worker_count {#} = 0"
  "worker_count (add_mset t M) = (if is_worker t then Suc (worker_count M) else worker_count M)"
  "worker_count (M + N) = worker_count M + worker_count N"
  by (simp_all add: worker_count_def)

lemma worker_count_pos: "t \<in># M \<Longrightarrow> is_worker t \<Longrightarrow> 0 < worker_count M"
  by (auto dest!: multi_member_split)

lemma no_workers:
  assumes "worker_count M = 0"
  shows "Working i spec a \<notin># M" and "Finishing i outcome \<notin># M"
  using worker_count_pos [of "Working i spec a" M] worker_count_pos [of "Finishing i outcome" M] assms by auto

lemma queue_sel [simp]:
  "tq_records (spawn_job i q) = tq_records q" "tq_flags (spawn_job i q) = tq_flags q"
  "tq_tasks (spawn_job i q) = add_mset (Waiting i) (tq_tasks q)"
  "job_record (put_record i r q) = (job_record q)(i \<mapsto> r)" "tq_flags (put_record i r q) = tq_flags q"
  "tq_tasks (put_record i r q) = tq_tasks q"
  "tq_records (new_flag q) = tq_records q" "tq_flags (new_flag q) = tq_flags q @ [False]"
  "tq_tasks (new_flag q) = tq_tasks q"
  "tq_records (set_flag a q) = tq_records q" "tq_flags (set_flag a q) = (tq_flags q)[a := True]"
  "tq_tasks (set_flag a q) = tq_tasks q"
  "tq_records (replace_task t ts q) = tq_records q" "tq_flags (replace_task t ts q) = tq_flags q"
  "tq_tasks (replace_task t ts q) = tq_tasks q - {#t#} + ts"
  by (simp_all add: spawn_job_def put_record_def new_flag_def set_flag_def replace_task_def update_conv')

lemma distinct_put_record:
  "distinct (map fst (tq_records q)) \<Longrightarrow> distinct (map fst (tq_records (put_record i r q)))"
  by (simp add: put_record_def distinct_update)

lemma job_record_id [simp]: "job_sound flags i (Some r) M \<longleftrightarrow> record_sound flags i r M"
  by (simp add: job_sound_def)

text \<open>A move that concerns one job: its record, its flag and its tasks.\<close>

lemma queue_ok_local:
  assumes "queue_ok q"
    and "permits q' \<le> TRANSFER_CONCURRENCY" and "distinct (map fst (tq_records q'))"
    and "\<And>j. j \<noteq> i \<Longrightarrow> job_record q' j = job_record q j \<and> tasks_of j q' = tasks_of j q"
    and "\<And>j r. j \<noteq> i \<Longrightarrow> job_record q j = Some r \<Longrightarrow>
      tq_flags q' ! tr_cancelled r = tq_flags q ! tr_cancelled r"
    and "length (tq_flags q) \<le> length (tq_flags q')"
    and "\<And>r. job_record q' i = Some r \<Longrightarrow> (\<exists>s. job_record q i = Some s \<and> tr_cancelled r = tr_cancelled s)
      \<or> tr_cancelled r = length (tq_flags q)"
    and "job_sound (tq_flags q') i (job_record q' i) (tasks_of i q')"
  shows "queue_ok q'"
proof -
  have old: "job_sound (tq_flags q) j (job_record q j) (tasks_of j q)" for j
    using assms(1) by (simp add: queue_ok_def)
  have apart: "flags_apart (job_record q)" using assms(1) by (simp add: queue_ok_def)
  have below: "tr_cancelled r < length (tq_flags q)" if "job_record q j = Some r" for j r
    using old [of j] that by (simp add: record_sound_def)
  have "job_sound (tq_flags q') j (job_record q' j) (tasks_of j q')" if "j \<noteq> i" for j
  proof (cases "job_record q j")
    case (Some r)
    with old [of j] assms(4,5,6) that show ?thesis by (simp add: record_sound_def)
  qed (use old [of j] assms(4) that in \<open>simp add: job_sound_def\<close>)
  moreover have "flags_apart (job_record q')"
    unfolding flags_apart_def
  proof (intro allI impI)
    fix j k r s
    assume j: "job_record q' j = Some r" and k: "job_record q' k = Some s" and "j \<noteq> k"
    have other: "tr_cancelled x \<noteq> tr_cancelled y"
      if x: "job_record q' i = Some x" and y: "job_record q' l = Some y" "l \<noteq> i" for x y l
    proof -
      from y assms(4) have l: "job_record q l = Some y" by simp
      from assms(7) [OF x] show ?thesis
      proof
        assume "\<exists>s. job_record q i = Some s \<and> tr_cancelled x = tr_cancelled s"
        with apart l y(2) show ?thesis by (auto simp: flags_apart_def)
      qed (use below [OF l] in simp)
    qed
    show "tr_cancelled r \<noteq> tr_cancelled s"
    proof (cases "j = i \<or> k = i")
      case True
      with other j k \<open>j \<noteq> k\<close> show ?thesis by metis
    next
      case False
      with j k assms(4) apart \<open>j \<noteq> k\<close> show ?thesis by (auto simp: flags_apart_def)
    qed
  qed
  ultimately show ?thesis using assms(2,3,8) unfolding queue_ok_def by metis
qed

lemma task_in: "t \<in># tq_tasks q \<Longrightarrow> task_job t = i \<Longrightarrow> t \<in># tasks_of i q"
  by (simp add: tasks_of_def)

lemma tasks_of_cong: "tq_tasks q' = tq_tasks q \<Longrightarrow> tasks_of i q' = tasks_of i q"
  by (simp add: tasks_of_def)

lemma permits_cong: "tq_tasks q' = tq_tasks q \<Longrightarrow> permits q' = permits q"
  by (simp add: permits_def)

lemma tasks_of_replace:
  assumes "t \<in># tq_tasks q" and "task_job t = i" and "\<forall>s \<in># ts. task_job s = i"
  obtains M where "tasks_of i q = add_mset t M" and "tasks_of i (replace_task t ts q) = M + ts"
    and "\<And>j. j \<noteq> i \<Longrightarrow> tasks_of j (replace_task t ts q) = tasks_of j q"
proof -
  from assms(1) obtain N where N: "tq_tasks q = add_mset t N" by (metis multi_member_split)
  have "filter_mset (\<lambda>s. task_job s = i) ts = ts" using assms(3) by (simp add: filter_mset_eq_conv)
  moreover have "filter_mset (\<lambda>s. task_job s = j) ts = {#}" if "j \<noteq> i" for j
    using that assms(3) by (auto simp: filter_mset_eq_conv)
  ultimately show thesis
    using assms(2) N by (intro that [of "filter_mset (\<lambda>s. task_job s = i) N"]) (auto simp: tasks_of_def)
qed

lemma permits_replace:
  assumes "t \<in># tq_tasks q"
  shows "permits (replace_task t ts q)
    = permits q - (if holds_permit t then 1 else 0) + size (filter_mset holds_permit ts)"
proof -
  from assms obtain N where "tq_tasks q = add_mset t N" by (metis multi_member_split)
  then show ?thesis by (simp add: permits_def)
qed

lemma permits_pos: "t \<in># tq_tasks q \<Longrightarrow> holds_permit t \<Longrightarrow> 0 < permits q"
  by (auto simp: permits_def dest!: multi_member_split)

lemma queue_okD:
  assumes "queue_ok q"
  shows "permits q \<le> TRANSFER_CONCURRENCY" and "distinct (map fst (tq_records q))"
    and "flags_apart (job_record q)" and "job_sound (tq_flags q) i (job_record q i) (tasks_of i q)"
  using assms by (simp_all add: queue_ok_def)

lemma queue_ok_record:
  assumes "queue_ok q" and "job_record q i = Some r"
  shows "record_sound (tq_flags q) i r (tasks_of i q)"
  using queue_okD(4) [OF assms(1), of i] assms(2) by simp

lemma flag_of_other:
  assumes "queue_ok q" and "job_record q i = Some r" and "j \<noteq> i" and "job_record q j = Some s"
  shows "tr_cancelled s \<noteq> tr_cancelled r"
  using queue_okD(3) [OF assms(1)] assms(2-4) by (auto simp: flags_apart_def)

text \<open>A worker exists only for a running job.\<close>

lemma worker_running:
  assumes "queue_ok q" and "t \<in># tq_tasks q" and "is_worker t" and "task_job t = i"
  obtains r where "job_record q i = Some r" and "tj_state (tr_job r) = JobRunning"
proof -
  have "0 < worker_count (tasks_of i q)"
    using worker_count_pos [OF task_in [OF assms(2,4)] assms(3)] .
  with queue_okD(4) [OF assms(1), of i] that show thesis
    by (cases "job_record q i") (auto simp: job_sound_def record_sound_def split: if_splits)
qed

lemma insert_job_ok:
  assumes "queue_ok q" and "job_record q i = None"
    and "q' = insert_and_spawn (queued_job i session direction name remote n) spec sftp q"
  shows "queue_ok q'"
proof (rule queue_ok_local [OF assms(1), of _ i])
  note old = queue_okD [OF assms(1)]
  have none: "worker_count (tasks_of i q) = 0" using old(4) [of i] assms(2) by (simp add: job_sound_def)
  have tasks: "tasks_of i q' = add_mset (Waiting i) (tasks_of i q)"
    "\<And>j. j \<noteq> i \<Longrightarrow> tasks_of j q' = tasks_of j q"
    by (simp_all add: assms(3) insert_and_spawn_def queued_job_def tasks_of_def)
  have sel: "job_record q' = (job_record q)(i \<mapsto> \<lparr>tr_job = queued_job i session direction name remote n,
      tr_spec = spec, tr_sftp = sftp, tr_cancelled = length (tq_flags q)\<rparr>)" "tq_flags q' = tq_flags q @ [False]"
    by (simp_all add: assms(3) insert_and_spawn_def queued_job_def)
  show "permits q' \<le> TRANSFER_CONCURRENCY"
    using old(1) by (simp add: permits_def assms(3) insert_and_spawn_def)
  show "distinct (map fst (tq_records q'))"
    using old(2) by (simp add: assms(3) insert_and_spawn_def distinct_put_record)
  show "j \<noteq> i \<Longrightarrow> job_record q' j = job_record q j \<and> tasks_of j q' = tasks_of j q" for j
    by (simp add: sel tasks)
  show "j \<noteq> i \<Longrightarrow> job_record q j = Some r \<Longrightarrow> tq_flags q' ! tr_cancelled r = tq_flags q ! tr_cancelled r" for j r
    using queue_ok_record [OF assms(1), of j r] by (simp add: sel record_sound_def nth_append)
  show "length (tq_flags q) \<le> length (tq_flags q')" by (simp add: sel)
  show "job_sound (tq_flags q') i (job_record q' i) (tasks_of i q')"
    using none by (simp add: sel tasks record_sound_def job_ok_def queued_job_def no_workers)
qed (simp add: assms(3) insert_and_spawn_def queued_job_def)

lemma cancel_job_ok:
  assumes "queue_ok q" and "cancel_job i q = (r, q')"
  shows "queue_ok q'"
proof (cases "q' = q")
  case False
  note old = queue_okD [OF assms(1)]
  from assms(2) False obtain s where s: "job_record q i = Some s" "tj_state (tr_job s) \<in> {JobQueued, JobRunning}"
    "q' = (if tj_state (tr_job s) = JobQueued then put_record i (set_job_state JobCancelled s)
        (set_flag (tr_cancelled s) q) else set_flag (tr_cancelled s) q)"
    by (auto simp: cancel_job_def Let_def split: option.splits if_splits)
  then have tasks: "tq_tasks q' = tq_tasks q" and flags: "tq_flags q' = (tq_flags q)[tr_cancelled s := True]" by simp_all
  note sound = queue_ok_record [OF assms(1) s(1)]
  show ?thesis
  proof (rule queue_ok_local [OF assms(1), of _ i])
    show "permits q' \<le> TRANSFER_CONCURRENCY" using old(1) permits_cong [OF tasks] by simp
    show "distinct (map fst (tq_records q'))" using old(2) s(3) by (simp add: distinct_put_record)
    show "j \<noteq> i \<Longrightarrow> job_record q' j = job_record q j \<and> tasks_of j q' = tasks_of j q" for j
      using s(3) tasks_of_cong [OF tasks] by simp
    show "j \<noteq> i \<Longrightarrow> job_record q j = Some x \<Longrightarrow> tq_flags q' ! tr_cancelled x = tq_flags q ! tr_cancelled x" for j x
      using flag_of_other [OF assms(1) s(1), of j x] by (simp add: flags)
    show "job_sound (tq_flags q') i (job_record q' i) (tasks_of i q')"
      using sound s unfolding tasks_of_cong [OF tasks] flags
      by (auto simp: record_sound_def job_ok_def set_job_state_def)
  qed (use s in \<open>auto simp: flags set_job_state_def split: if_splits\<close>)
qed (use assms in simp)

lemma retry_ok:
  assumes "queue_ok q" and "retry_job i overwrite q = (r, q')"
  shows "queue_ok q'"
proof (cases "q' = q")
  case False
  note old = queue_okD [OF assms(1)]
  from assms(2) False obtain s s' where s: "job_record q i = Some s"
    "tj_state (tr_job s) \<in> {JobFailed, JobCancelled}" "q' = spawn_job i (put_record i s' (new_flag q))"
    "tr_cancelled s' = length (tq_flags q)"
    "tr_job s' = (tr_job s)\<lparr>tj_state := JobQueued, tj_transferred_bytes := 0, tj_error_code := None\<rparr>"
    by (auto simp: retry_job_def Let_def split: option.splits if_splits)
  have tasks: "tasks_of i q' = add_mset (Waiting i) (tasks_of i q)" "j \<noteq> i \<Longrightarrow> tasks_of j q' = tasks_of j q" for j
    using s(3) by (simp_all add: tasks_of_def)
  note sound = queue_ok_record [OF assms(1) s(1)]
  have none: "worker_count (tasks_of i q) = 0" using sound s(2) by (auto simp: record_sound_def)
  show ?thesis
  proof (rule queue_ok_local [OF assms(1), of _ i])
    show "permits q' \<le> TRANSFER_CONCURRENCY" using old(1) s(3) by (simp add: permits_def)
    show "distinct (map fst (tq_records q'))" using old(2) s(3) by (simp add: distinct_put_record)
    show "j \<noteq> i \<Longrightarrow> job_record q' j = job_record q j \<and> tasks_of j q' = tasks_of j q" for j
      using s(3) tasks by simp
    show "j \<noteq> i \<Longrightarrow> job_record q j = Some x \<Longrightarrow> tq_flags q' ! tr_cancelled x = tq_flags q ! tr_cancelled x" for j x
      using queue_ok_record [OF assms(1), of j x] s(3) by (simp add: record_sound_def nth_append)
    show "job_sound (tq_flags q') i (job_record q' i) (tasks_of i q')"
    proof -
      have "job_record q' i = Some s'" "tq_flags q' = tq_flags q @ [False]" by (simp_all add: s(3))
      with sound none show ?thesis
        by (simp add: s(4,5) tasks record_sound_def job_ok_def no_workers)
    qed
  qed (use s in auto)
qed (use assms in simp)

text \<open>A task of one job moves on and may change the record, but no flag.\<close>

lemma task_move_ok:
  assumes "queue_ok q" and "t \<in># tq_tasks q" and "task_job t = i" and "\<forall>s \<in># ts. task_job s = i"
    and "tq_tasks c = tq_tasks q" and "tq_flags c = tq_flags q"
    and "tq_records c = tq_records q \<or> (\<exists>r. c = put_record i r q \<and> (\<exists>s. job_record q i = Some s \<and> tr_cancelled r = tr_cancelled s))"
    and "permits (replace_task t ts q) \<le> TRANSFER_CONCURRENCY"
    and "\<And>M. tasks_of i q = add_mset t M \<Longrightarrow> job_sound (tq_flags q) i (job_record q i) (add_mset t M) \<Longrightarrow>
      job_sound (tq_flags q) i (job_record c i) (M + ts)"
  shows "queue_ok (replace_task t ts c)"
proof -
  obtain M where M: "tasks_of i q = add_mset t M" "tasks_of i (replace_task t ts q) = M + ts"
    "\<And>j. j \<noteq> i \<Longrightarrow> tasks_of j (replace_task t ts q) = tasks_of j q"
    by (rule tasks_of_replace [OF assms(2-4)]) blast
  have same: "tasks_of j (replace_task t ts c) = tasks_of j (replace_task t ts q)" for j
    by (rule tasks_of_cong) (simp add: assms(5))
  show ?thesis
  proof (rule queue_ok_local [OF assms(1), of _ i])
    have "permits (replace_task t ts c) = permits (replace_task t ts q)"
      by (rule permits_cong) (simp add: assms(5))
    with assms(8) show "permits (replace_task t ts c) \<le> TRANSFER_CONCURRENCY" by simp
    show "distinct (map fst (tq_records (replace_task t ts c)))"
      using assms(7) queue_okD(2) [OF assms(1)] by (auto simp: distinct_put_record)
    show "j \<noteq> i \<Longrightarrow> job_record (replace_task t ts c) j = job_record q j
        \<and> tasks_of j (replace_task t ts c) = tasks_of j q" for j
      using assms(7) M(3) same by auto
    show "job_sound (tq_flags (replace_task t ts c)) i (job_record (replace_task t ts c) i)
        (tasks_of i (replace_task t ts c))"
      using assms(9) [OF M(1)] queue_okD(4) [OF assms(1), of i] M same by (simp add: assms(6))
  qed (use assms(6,7) in auto)
qed

text \<open>The two shapes of such a move: the record stays, or is rewritten with the same flag.\<close>

lemma task_stay_ok:
  assumes "queue_ok q" and "t \<in># tq_tasks q" and "task_job t = i" and "\<forall>s \<in># ts. task_job s = i"
    and "permits (replace_task t ts q) \<le> TRANSFER_CONCURRENCY"
    and "\<And>M. job_sound (tq_flags q) i (job_record q i) (add_mset t M) \<Longrightarrow>
      job_sound (tq_flags q) i (job_record q i) (M + ts)"
  shows "queue_ok (replace_task t ts q)"
  by (rule task_move_ok [OF assms(1-4)]) (use assms(5,6) in simp_all)

lemma task_rewrite_ok:
  assumes "queue_ok q" and "t \<in># tq_tasks q" and "task_job t = i" and "\<forall>s \<in># ts. task_job s = i"
    and "permits (replace_task t ts q) \<le> TRANSFER_CONCURRENCY"
    and "job_record q i = Some s" and "tr_cancelled r = tr_cancelled s"
    and "\<And>M. record_sound (tq_flags q) i s (add_mset t M) \<Longrightarrow> record_sound (tq_flags q) i r (M + ts)"
  shows "queue_ok (replace_task t ts (put_record i r q))"
  by (rule task_move_ok [OF assms(1-4)]) (use assms(5-8) in auto)

lemma acquire_ok:
  assumes "queue_ok q" and "Waiting i \<in># tq_tasks q" and "permits q < TRANSFER_CONCURRENCY"
  shows "queue_ok (replace_task (Waiting i) {#Permitted i#} q)"
proof (rule task_stay_ok [OF assms(1,2)])
  show "permits (replace_task (Waiting i) {#Permitted i#} q) \<le> TRANSFER_CONCURRENCY"
    using assms(3) by (simp add: permits_replace [OF assms(2)])
  show "job_sound (tq_flags q) i (job_record q i) (M + {#Permitted i#})"
    if "job_sound (tq_flags q) i (job_record q i) (add_mset (Waiting i) M)" for M
    using that by (cases "job_record q i") (simp_all add: job_sound_def record_sound_def)
qed simp_all

lemma begin_ok:
  assumes "queue_ok q" and "Permitted i \<in># tq_tasks q" and "begin_job i q = (t, q')"
  shows "queue_ok (replace_task (Permitted i) (case t of None \<Rightarrow> {#} | Some t \<Rightarrow> {#t#}) q')"
proof (cases t)
  case None
  with assms(3) have "q' = q" and stop: "job_record q i = Some r \<Longrightarrow>
      tq_flags q ! tr_cancelled r \<or> tj_state (tr_job r) \<noteq> JobQueued" for r
    by (auto simp: begin_job_def split: option.splits if_splits)
  moreover have "queue_ok (replace_task (Permitted i) {#} q)"
  proof (rule task_stay_ok [OF assms(1,2)])
    show "permits (replace_task (Permitted i) {#} q) \<le> TRANSFER_CONCURRENCY"
      using queue_okD(1) [OF assms(1)] by (simp add: permits_replace [OF assms(2)])
    show "job_sound (tq_flags q) i (job_record q i) (M + {#})"
      if "job_sound (tq_flags q) i (job_record q i) (add_mset (Permitted i) M)" for M
    proof (cases "job_record q i")
      case (Some r)
      with that stop [OF Some] show ?thesis
        by (cases "tj_state (tr_job r)") (auto simp: record_sound_def job_ok_def)
    qed (use that in \<open>simp add: job_sound_def\<close>)
  qed simp_all
  ultimately show ?thesis by (simp add: None)
next
  case (Some t')
  with assms(3) obtain r where r: "job_record q i = Some r" "\<not> tq_flags q ! tr_cancelled r"
    "tj_state (tr_job r) = JobQueued" "q' = put_record i (set_job_state JobRunning r) q"
    "t' = Working i (tr_spec r) (tr_cancelled r)"
    by (auto simp: begin_job_def split: option.splits if_splits)
  have "queue_ok (replace_task (Permitted i) {#t'#} (put_record i (set_job_state JobRunning r) q))"
  proof (rule task_rewrite_ok [OF assms(1,2) _ _ _ r(1)])
    show "permits (replace_task (Permitted i) {#t'#} q) \<le> TRANSFER_CONCURRENCY"
      using queue_okD(1) [OF assms(1)] permits_pos [OF assms(2)] r(5) by (simp add: permits_replace [OF assms(2)])
    show "record_sound (tq_flags q) i (set_job_state JobRunning r) (M + {#t'#})"
      if "record_sound (tq_flags q) i r (add_mset (Permitted i) M)" for M
    proof -
      have "worker_count M = 0" using that r(3) by (simp add: record_sound_def)
      from no_workers [OF this] that r(3) show ?thesis
        by (simp add: r(5) record_sound_def job_ok_def set_job_state_def)
    qed
  qed (simp_all add: r(5) set_job_state_def)
  then show ?thesis by (simp add: Some r(4))
qed

lemma progress_ok:
  assumes "queue_ok q" and "Working i spec a \<in># tq_tasks q"
  shows "queue_ok (add_progress i bytes q)"
proof -
  obtain r where r: "job_record q i = Some r" "tj_state (tr_job r) = JobRunning"
    by (rule worker_running [OF assms]) simp_all
  define s where "s = r\<lparr>tr_job := (tr_job r)\<lparr>tj_transferred_bytes :=
      min (saturating_add (tj_transferred_bytes (tr_job r)) bytes) (tj_total_bytes (tr_job r))\<rparr>\<rparr>"
  have "queue_ok (replace_task (Working i spec a) {#Working i spec a#} (put_record i s q))"
  proof (rule task_rewrite_ok [OF assms _ _ _ r(1)])
    show "permits (replace_task (Working i spec a) {#Working i spec a#} q) \<le> TRANSFER_CONCURRENCY"
      using queue_okD(1) [OF assms(1)] permits_pos [OF assms(2)] by (simp add: permits_replace [OF assms(2)])
    show "record_sound (tq_flags q) i s (M + {#Working i spec a#})"
      if "record_sound (tq_flags q) i r (add_mset (Working i spec a) M)" for M
      using that r(2) by (auto simp: s_def record_sound_def job_ok_def)
  qed (simp_all add: s_def)
  moreover have "add_progress i bytes q = put_record i s q" by (simp add: add_progress_def r(1) s_def Let_def)
  moreover have "replace_task (Working i spec a) {#Working i spec a#} (put_record i s q) = put_record i s q"
    using assms(2) by (simp add: replace_task_def put_record_def)
  ultimately show ?thesis by simp
qed

lemma worked_ok:
  assumes "queue_ok q" and "Working i spec a \<in># tq_tasks q" and "outcome \<noteq> Panic"
    and "outcome = Err (File TransferCancelled) \<Longrightarrow> tq_flags q ! a"
  shows "queue_ok (replace_task (Working i spec a) {#Finishing i outcome#} q)"
proof -
  obtain r where r: "job_record q i = Some r" by (rule worker_running [OF assms(1,2)]) simp_all
  show ?thesis
  proof (rule task_stay_ok [OF assms(1,2)])
    show "permits (replace_task (Working i spec a) {#Finishing i outcome#} q) \<le> TRANSFER_CONCURRENCY"
      using queue_okD(1) [OF assms(1)] by (simp add: permits_replace [OF assms(2)])
    show "job_sound (tq_flags q) i (job_record q i) (M + {#Finishing i outcome#})"
      if M: "job_sound (tq_flags q) i (job_record q i) (add_mset (Working i spec a) M)" for M
    proof -
      have "tr_cancelled r = a" using M r by (simp add: record_sound_def)
      with M r assms(3,4) show ?thesis by (auto simp: record_sound_def)
    qed
  qed simp_all
qed

lemma finish_ok:
  assumes "queue_ok q" and "Finishing i outcome \<in># tq_tasks q"
  shows "queue_ok (replace_task (Finishing i outcome) {#} (finish_job i outcome q))"
proof -
  obtain r where r: "job_record q i = Some r" "tj_state (tr_job r) = JobRunning"
    by (rule worker_running [OF assms]) simp_all
  note sound = queue_ok_record [OF assms(1) r(1)]
  have le: "permits (replace_task (Finishing i outcome) {#} q) \<le> TRANSFER_CONCURRENCY"
    using queue_okD(1) [OF assms(1)] by (simp add: permits_replace [OF assms(2)])
  have out: "outcome \<noteq> Panic" "outcome = Err (File TransferCancelled) \<Longrightarrow> tq_flags q ! tr_cancelled r"
    using sound task_in [OF assms(2)] by (auto simp: record_sound_def)
  have step: "queue_ok (replace_task (Finishing i outcome) {#} (put_record i s q))"
    if new: "tr_cancelled s = tr_cancelled r" "tr_spec s = tr_spec r" "tj_id (tr_job s) = tj_id (tr_job r)"
      "tj_state (tr_job s) \<noteq> JobRunning"
      "job_ok (tq_flags q ! tr_cancelled r) True (tr_job r) \<Longrightarrow>
        job_ok (tq_flags q ! tr_cancelled r) False (tr_job s)" for s
  proof (rule task_rewrite_ok [OF assms _ _ le r(1) new(1)])
    show "record_sound (tq_flags q) i s (M + {#})"
      if M: "record_sound (tq_flags q) i r (add_mset (Finishing i outcome) M)" for M
    proof -
      have "job_ok (tq_flags q ! tr_cancelled r) True (tr_job r)"
        using M r(2) by (simp add: record_sound_def job_ok_def)
      from new(5) [OF this] have "job_ok (tq_flags q ! tr_cancelled r) w (tr_job s)" for w
        by (auto simp: job_ok_def split: transfer_state.splits)
      moreover have none: "worker_count M = 0" using M r(2) by (simp add: record_sound_def)
      ultimately show ?thesis
        using M new by (simp add: record_sound_def no_workers)
    qed
  qed simp_all
  show ?thesis
  proof (cases outcome)
    case (Ok x)
    have "finish_job i outcome q = put_record i (r\<lparr>tr_job := (tr_job r)\<lparr>tj_transferred_bytes := tj_total_bytes (tr_job r),
        tj_state := JobCompleted, tj_error_code := None\<rparr>\<rparr>) q"
      using Ok r(1) by (simp add: finish_job_def Let_def)
    then show ?thesis by (simp only:) (rule step, simp_all add: job_ok_def)
  next
    case (Err e)
    have "finish_job i outcome q = put_record i (r\<lparr>tr_job := (tr_job r)\<lparr>
        tj_state := (if e = File TransferCancelled \<or> tq_flags q ! tr_cancelled r then JobCancelled else JobFailed),
        tj_error_code := Some (app_error_code e)\<rparr>\<rparr>) q"
      using Err r(1) by (simp add: finish_job_def Let_def)
    then show ?thesis
      by (simp only:) (rule step, use Err out(2) in \<open>simp_all add: job_ok_def\<close>)
  qed (use out in simp)
qed

text \<open>A whole session is cancelled: the records change one by one, each with its own flag.\<close>

abbreviation cancel_one :: "uuid \<Rightarrow> transfer_record \<Rightarrow> transfer_record" where
  "cancel_one session r \<equiv> (if session_active session r \<and> tj_state (tr_job r) = JobQueued
     then set_job_state JobCancelled r else r)"

lemma set_job_state_sel [simp]:
  "tr_cancelled (set_job_state st r) = tr_cancelled r" "tr_spec (set_job_state st r) = tr_spec r"
  "tj_id (tr_job (set_job_state st r)) = tj_id (tr_job r)" "tj_state (tr_job (set_job_state st r)) = st"
  "tj_transferred_bytes (tr_job (set_job_state st r)) = tj_transferred_bytes (tr_job r)"
  "tj_total_bytes (tr_job (set_job_state st r)) = tj_total_bytes (tr_job r)"
  by (simp_all add: set_job_state_def)

abbreviation raise_flags :: "uuid \<Rightarrow> transfer_record list \<Rightarrow> bool list \<Rightarrow> bool list" where
  "raise_flags session \<equiv>
     fold (\<lambda>r flags. if session_active session r then flags[tr_cancelled r := True] else flags)"

lemma length_raise_flags [simp]: "length (raise_flags session rs flags) = length flags"
  by (induction rs arbitrary: flags) simp_all

lemma nth_raised: "a < length flags \<Longrightarrow> flags[b := True] ! a \<longleftrightarrow> a = b \<or> flags ! a"
  by (cases "a = b") simp_all

lemma raise_flags_nth:
  "a < length flags \<Longrightarrow> raise_flags session rs flags ! a \<longleftrightarrow>
    flags ! a \<or> (\<exists>r \<in> set rs. session_active session r \<and> tr_cancelled r = a)"
  by (induction rs arbitrary: flags) (auto simp: nth_raised)

lemma map_of_map_snd: "map_of (map (\<lambda>(i, r). (i, f r)) xs) j = map_option f (map_of xs j)"
  by (induction xs) auto

lemma session_cancel_ok:
  assumes "queue_ok q"
  shows "queue_ok (cancel_session_jobs session q)"
proof -
  let ?q = "cancel_session_jobs session q"
  note old = queue_okD [OF assms]
  have records: "job_record ?q j = map_option (cancel_one session) (job_record q j)" for j
    by (simp add: cancel_session_jobs_def map_of_map_snd)
  have tasks: "tq_tasks ?q = tq_tasks q" by (simp add: cancel_session_jobs_def)
  have len: "length (tq_flags ?q) = length (tq_flags q)" by (simp add: cancel_session_jobs_def)
  have flag: "tq_flags ?q ! tr_cancelled r \<longleftrightarrow> tq_flags q ! tr_cancelled r \<or> session_active session r"
    if r: "job_record q j = Some r" for j r
  proof -
    have "s = r" if "s \<in> set (map snd (tq_records q))" "tr_cancelled s = tr_cancelled r" for s
    proof -
      from that(1) obtain k where "(k, s) \<in> set (tq_records q)" by auto
      with old(2) have "job_record q k = Some s" by simp
      moreover from flag_of_other [OF assms r _ this] that(2) have "k = j" by blast
      ultimately show ?thesis using r by simp
    qed
    moreover have "r \<in> set (map snd (tq_records q))" using r by (force dest: map_of_SomeD)
    moreover have "tr_cancelled r < length (tq_flags q)"
      using queue_ok_record [OF assms r] by (simp add: record_sound_def)
    moreover have "(\<exists>s \<in> set (map snd (tq_records q)). session_active session s \<and> tr_cancelled s = tr_cancelled r)
        \<longleftrightarrow> session_active session r"
      using calculation(1,2) by blast
    ultimately show ?thesis by (simp add: cancel_session_jobs_def raise_flags_nth del: set_map)
  qed
  have "job_sound (tq_flags ?q) j (job_record ?q j) (tasks_of j ?q)" for j
  proof (cases "job_record q j")
    case None
    with old(4) [of j] show ?thesis by (simp add: records tasks_of_cong [OF tasks] job_sound_def)
  next
    case (Some r)
    with queue_ok_record [OF assms Some] flag [OF Some] show ?thesis
      by (cases "tj_state (tr_job r)")
        (auto simp: records tasks_of_cong [OF tasks] record_sound_def job_ok_def len session_active_def)
  qed
  moreover have "flags_apart (job_record ?q)"
    unfolding flags_apart_def
  proof (intro allI impI)
    fix j k r s
    assume "job_record ?q j = Some r" "job_record ?q k = Some s" "j \<noteq> k"
    then obtain r' s' where "job_record q j = Some r'" "tr_cancelled r = tr_cancelled r'"
        "job_record q k = Some s'" "tr_cancelled s = tr_cancelled s'"
      by (auto simp: records)
    with old(3) \<open>j \<noteq> k\<close> show "tr_cancelled r \<noteq> tr_cancelled s" by (auto simp: flags_apart_def)
  qed
  moreover have "distinct (map fst (tq_records ?q))"
    using old(2) by (simp add: cancel_session_jobs_def case_prod_unfold comp_def)
  ultimately show ?thesis
    using old(1) by (simp add: queue_ok_def permits_cong [OF tasks])
qed

lemma task_step_ok:
  assumes "task_step q q'" and "queue_ok q"
  shows "queue_ok q'"
  using assms
proof (induction rule: task_step.induct)
  case (begun i q t q')
  then show ?case using begin_ok [of q i "Some t" q'] by simp
next
  case (returned i q q')
  then show ?case using begin_ok [of q i None q'] by simp
qed (auto intro: acquire_ok progress_ok worked_ok finish_ok)

lemma queue_step_ok:
  assumes "queue_step q q'" and "queue_ok q"
  shows "queue_ok q'"
  using assms
proof (induction rule: queue_step.induct)
  case (uploaded q i session sftp grant resolved overwrite r q')
  then show ?case
    by (auto simp: enqueue_upload_def Let_def split: result.splits intro: insert_job_ok)
next
  case (downloaded q i session sftp grant source r q')
  then show ?case
    by (auto simp: enqueue_download_def Let_def split: result.splits if_splits intro: insert_job_ok)
qed (auto intro: task_step_ok cancel_job_ok retry_ok session_cancel_ok)

lemma queue_ok_reachable: "queue_step\<^sup>*\<^sup>* new_queue q \<Longrightarrow> queue_ok q"
proof (induction rule: rtranclp_induct)
  case base
  show ?case
    by (simp add: queue_ok_def new_queue_def permits_def flags_apart_def job_sound_def tasks_of_def)
qed (rule queue_step_ok)

section \<open>What the queue guarantees\<close>

text \<open>
  C11. Whatever the calls and however the tasks interleave, at most two transfers hold a permit. A
  running job has exactly one worker and no other job has any, and that worker follows the
  specification and polls the very flag that \<open>cancel\<close> sets. A queued job is never stuck or
  half done: it still has a task, its flag is clear and it has transferred nothing. A completed
  job has transferred everything, no job more than its size, and a cancellation that was accepted
  is never reported as a failure: the job is still running, completed after all, or cancelled.
\<close>

theorem transfer_queue_safe:
  assumes "queue_step\<^sup>*\<^sup>* new_queue q"
  shows "permits q \<le> TRANSFER_CONCURRENCY
    \<and> (\<forall>i r. job_record q i = Some r \<longrightarrow>
        worker_count (tasks_of i q) = (if tj_state (tr_job r) = JobRunning then 1 else 0)
        \<and> (\<forall>spec a. Working i spec a \<in># tq_tasks q \<longrightarrow> spec = tr_spec r \<and> a = tr_cancelled r)
        \<and> (tj_state (tr_job r) = JobQueued \<longrightarrow> tj_transferred_bytes (tr_job r) = 0
             \<and> \<not> tq_flags q ! tr_cancelled r \<and> (Waiting i \<in># tq_tasks q \<or> Permitted i \<in># tq_tasks q))
        \<and> (tj_state (tr_job r) = JobCompleted \<longrightarrow> tj_transferred_bytes (tr_job r) = tj_total_bytes (tr_job r))
        \<and> tj_transferred_bytes (tr_job r) \<le> tj_total_bytes (tr_job r)
        \<and> (tq_flags q ! tr_cancelled r \<longrightarrow> tj_state (tr_job r) \<in> {JobRunning, JobCompleted, JobCancelled}))"
    (is "_ \<and> (\<forall>i r. _ \<longrightarrow> ?good i r)")
proof -
  note ok = queue_ok_reachable [OF assms]
  have mine: "Waiting i \<in># tq_tasks q \<longleftrightarrow> Waiting i \<in># tasks_of i q"
    "Permitted i \<in># tq_tasks q \<longleftrightarrow> Permitted i \<in># tasks_of i q"
    "Working i spec a \<in># tq_tasks q \<longleftrightarrow> Working i spec a \<in># tasks_of i q" for i spec a
    by (simp_all add: tasks_of_def)
  have "?good i r" if r: "job_record q i = Some r" for i r
    using queue_ok_record [OF ok r] unfolding mine record_sound_def
    by (cases "tj_state (tr_job r)") (simp_all add: job_ok_def)
  with queue_okD(1) [OF ok] show ?thesis by blast
qed

text \<open>A permit in the way of a waiting job can always be given back.\<close>

lemma permit_freed:
  assumes ok: "queue_ok q" and r: "job_record q i = Some r" "tj_state (tr_job r) = JobQueued"
    and busy: "\<not> permits q < TRANSFER_CONCURRENCY" and waiting: "Waiting i \<in># tq_tasks q"
    and "Permitted i \<notin># tq_tasks q"
  shows "\<exists>q'. queue_step\<^sup>*\<^sup>* q q' \<and> queue_ok q' \<and> permits q' < TRANSFER_CONCURRENCY
    \<and> job_record q' i = Some r \<and> Waiting i \<in># tq_tasks q'"
proof -
  have work: "\<exists>q''. queue_step p q'' \<and> queue_ok q'' \<and> permits q'' < TRANSFER_CONCURRENCY
      \<and> job_record q'' i = Some r \<and> Waiting i \<in># tq_tasks q''"
    if p: "queue_ok p" "Working j spec a \<in># tq_tasks p" "job_record p i = Some r" "Waiting i \<in># tq_tasks p" for p j spec a
  proof (intro exI conjI)
    let ?p = "replace_task (Working j spec a) {#Finishing j (Ok ())#} p"
    show step: "queue_step p ?p" by (rule tasked, rule worked [OF p(2)]) simp_all
    show "queue_ok ?p" by (rule queue_step_ok [OF step p(1)])
    show "permits ?p < TRANSFER_CONCURRENCY"
      using permits_replace [OF p(2)] permits_pos [OF p(2)] queue_okD(1) [OF p(1)] by simp
    show "Waiting i \<in># tq_tasks ?p" using p(4) by (simp add: in_diff_count)
  qed (simp add: p(3))
  have "permits q \<noteq> 0" using busy by (simp add: TRANSFER_CONCURRENCY_def)
  then obtain t where t: "t \<in># tq_tasks q" "holds_permit t"
    by (auto simp: permits_def filter_mset_eq_conv size_eq_0_iff_empty)
  then consider (working) j spec a where "t = Working j spec a" | (permitted) j where "t = Permitted j"
    by (cases t) auto
  then show ?thesis
  proof cases
    case working
    from work [OF ok _ r(1) waiting] t(1) working show ?thesis by blast
  next
    case permitted
    with t(1) assms(6) have "j \<noteq> i" by auto
    obtain u q1 where beg: "begin_job j q = (u, q1)" by (cases "begin_job j q")
    let ?q = "replace_task (Permitted j) (case u of None \<Rightarrow> {#} | Some t \<Rightarrow> {#t#}) q1"
    have step: "queue_step q ?q"
      using t(1) permitted beg by (cases u) (auto intro: tasked begun returned)
    have same: "job_record ?q i = Some r" "tq_tasks q1 = tq_tasks q"
      using beg \<open>j \<noteq> i\<close> r(1) by (auto simp: begin_job_def split: option.splits if_splits)
    then have wait: "Waiting i \<in># tq_tasks ?q" using waiting by (simp add: in_diff_count)
    have ok': "queue_ok ?q" by (rule queue_step_ok [OF step ok])
    show ?thesis
    proof (cases u)
      case None
      have "permits ?q = permits q - 1"
        using permits_replace [of "Permitted j" q "{#}"] t(1) permitted None same(2)
        by (simp add: permits_def)
      with queue_okD(1) [OF ok] \<open>permits q \<noteq> 0\<close> have "permits ?q < TRANSFER_CONCURRENCY" by simp
      with ok' same(1) wait r_into_rtranclp [of queue_step, OF step] show ?thesis
        by (intro exI [of _ ?q]) simp
    next
      case (Some w)
      with beg have "\<exists>spec a. w = Working j spec a"
        by (auto simp: begin_job_def split: option.splits if_splits)
      with Some obtain spec a where "Working j spec a \<in># tq_tasks ?q" by auto
      from work [OF ok' this same(1) wait] obtain q'' where "queue_step ?q q''" "queue_ok q''"
        "permits q'' < TRANSFER_CONCURRENCY" "job_record q'' i = Some r" "Waiting i \<in># tq_tasks q''"
        by blast
      with converse_rtranclp_into_rtranclp [of queue_step, OF step r_into_rtranclp] show ?thesis
        by (intro exI [of _ q'']) simp
    qed
  qed
qed

text \<open>
  C12. A queued job is never forgotten: from every state the queue can reach in which a job is
  queued, the tasks can move so that this job runs, even when both permits are taken and whatever
  was cancelled or retried before. In particular a retry that finds an old task of the same job still
  waiting does not lose the job.
\<close>

theorem queued_job_can_run:
  assumes "queue_step\<^sup>*\<^sup>* new_queue q" and "job_record q i = Some r" and "tj_state (tr_job r) = JobQueued"
  shows "\<exists>q' s. queue_step\<^sup>*\<^sup>* q q' \<and> job_record q' i = Some s \<and> tj_state (tr_job s) = JobRunning
    \<and> Working i (tr_spec r) (tr_cancelled r) \<in># tq_tasks q'"
proof -
  have start: "\<exists>q' s. queue_step p q' \<and> job_record q' i = Some s \<and> tj_state (tr_job s) = JobRunning
      \<and> Working i (tr_spec r) (tr_cancelled r) \<in># tq_tasks q'"
    if p: "queue_ok p" "job_record p i = Some r" "Permitted i \<in># tq_tasks p" for p
  proof -
    have "\<not> tq_flags p ! tr_cancelled r"
      using queue_ok_record [OF p(1,2)] assms(3) by (simp add: record_sound_def job_ok_def)
    with p(2) assms(3) have "begin_job i p = (Some (Working i (tr_spec r) (tr_cancelled r)),
        put_record i (set_job_state JobRunning r) p)"
      by (simp add: begin_job_def)
    from tasked [OF begun [OF p(3) this]] show ?thesis
      by (intro exI [of _ "set_job_state JobRunning r"] exI conjI) (assumption, simp_all)
  qed
  have acquire: "\<exists>q'. queue_step p q' \<and> queue_ok q' \<and> job_record q' i = Some r \<and> Permitted i \<in># tq_tasks q'"
    if p: "queue_ok p" "job_record p i = Some r" "Waiting i \<in># tq_tasks p" "permits p < TRANSFER_CONCURRENCY" for p
    using tasked [OF acquired [OF p(3,4)]] queue_step_ok [OF tasked [OF acquired [OF p(3,4)]] p(1)] p(2)
    by (intro exI [of _ "replace_task (Waiting i) {#Permitted i#} p"]) simp
  note ok = queue_ok_reachable [OF assms(1)]
  show ?thesis
  proof (cases "Permitted i \<in># tq_tasks q")
    case True
    from start [OF ok assms(2) this] show ?thesis by blast
  next
    case False
    then have waiting: "Waiting i \<in># tq_tasks q"
      using queue_ok_record [OF ok assms(2)] assms(3) by (simp add: record_sound_def job_ok_def tasks_of_def)
    have "\<exists>p. queue_step\<^sup>*\<^sup>* q p \<and> queue_ok p \<and> permits p < TRANSFER_CONCURRENCY
        \<and> job_record p i = Some r \<and> Waiting i \<in># tq_tasks p"
      using permit_freed [OF ok assms(2,3) _ waiting False] ok assms(2) waiting by blast
    then obtain p p' where "queue_step\<^sup>*\<^sup>* q p" "queue_step p p'" "queue_ok p'" "job_record p' i = Some r"
        "Permitted i \<in># tq_tasks p'"
      using acquire by blast
    with start [of p'] show ?thesis by (meson rtranclp.rtrancl_into_rtrancl)
  qed
qed

section \<open>Concrete runs\<close>

text \<open>Three uploads, two of which have taken the permits.\<close>

definition demo_grant :: local_file_grant where
  "demo_grant = \<lparr>fg_path = [RootDir, Normal ''home'', Normal ''a.txt''], fg_name = ''a.txt'', fg_size = 9, fg_kind = UploadSource\<rparr>"

definition demo_upload :: "uuid \<Rightarrow> transfer_queue \<Rightarrow> transfer_queue" where
  "demo_upload i q = snd (enqueue_upload i 7 8 demo_grant (Ok ''/srv/a.txt'') False q)"

definition demo_busy :: transfer_queue where
  "demo_busy = replace_task (Waiting 2) {#Permitted 2#} (replace_task (Waiting 1) {#Permitted 1#}
     (demo_upload 3 (demo_upload 2 (demo_upload 1 new_queue))))"

lemmas demo_queue_defs =
  demo_upload_def enqueue_upload_def insert_and_spawn_def queued_job_def Let_def demo_grant_def new_queue_def

lemma demo_upload_step: "job_record q i = None \<Longrightarrow> queue_step q (demo_upload i q)"
  unfolding demo_upload_def by (rule queue_step.uploaded [OF _ prod.collapse [symmetric]])

lemma demo_busy_reachable: "queue_step\<^sup>*\<^sup>* new_queue demo_busy"
proof -
  have "queue_step\<^sup>*\<^sup>* new_queue (demo_upload 1 new_queue)"
    by (rule r_into_rtranclp, rule demo_upload_step) (simp add: new_queue_def)
  also have "queue_step \<dots> (demo_upload 2 (demo_upload 1 new_queue))"
    by (rule demo_upload_step) (simp add: demo_queue_defs)
  also have "queue_step \<dots> (demo_upload 3 (demo_upload 2 (demo_upload 1 new_queue)))"
    by (rule demo_upload_step) (simp add: demo_queue_defs)
  also have "queue_step \<dots> (replace_task (Waiting 1) {#Permitted 1#}
      (demo_upload 3 (demo_upload 2 (demo_upload 1 new_queue))))"
    by (rule tasked, rule acquired) (simp_all add: demo_queue_defs permits_def TRANSFER_CONCURRENCY_def)
  also have "queue_step \<dots> demo_busy"
    unfolding demo_busy_def
    by (rule tasked, rule acquired) (simp_all add: demo_queue_defs permits_def TRANSFER_CONCURRENCY_def)
  finally show ?thesis .
qed

definition demo_third :: transfer_record where
  "demo_third = \<lparr>tr_job = queued_job 3 7 UploadDirection ''a.txt'' ''/srv/a.txt'' 9,
     tr_spec = UploadSpec [RootDir, Normal ''home'', Normal ''a.txt''] ''/srv/a.txt'' False, tr_sftp = 8, tr_cancelled = 2\<rparr>"

lemma demo_third_record: "job_record demo_busy 3 = Some demo_third"
  by (simp add: demo_busy_def demo_queue_defs demo_third_def)

theorem transfer_queue_safe_witness:
  "permits demo_busy \<le> TRANSFER_CONCURRENCY \<and> worker_count (tasks_of 3 demo_busy) = 0
    \<and> \<not> tq_flags demo_busy ! 2 \<and> (Waiting 3 \<in># tq_tasks demo_busy \<or> Permitted 3 \<in># tq_tasks demo_busy)"
proof -
  have "tr_cancelled demo_third = 2" "tj_state (tr_job demo_third) = JobQueued"
    by (simp_all add: demo_third_def queued_job_def)
  with transfer_queue_safe [OF demo_busy_reachable] demo_third_record show ?thesis
    by (metis transfer_state.distinct(1))
qed

theorem queued_job_can_run_witness:
  "permits demo_busy = TRANSFER_CONCURRENCY \<and> (\<exists>q s. queue_step\<^sup>*\<^sup>* demo_busy q \<and> job_record q 3 = Some s
    \<and> tj_state (tr_job s) = JobRunning \<and> Working 3 (tr_spec demo_third) (tr_cancelled demo_third) \<in># tq_tasks q)"
proof
  show "permits demo_busy = TRANSFER_CONCURRENCY"
    by (simp add: demo_busy_def demo_queue_defs permits_def TRANSFER_CONCURRENCY_def)
  have "tj_state (tr_job demo_third) = JobQueued" by (simp add: demo_third_def queued_job_def)
  from queued_job_can_run [OF demo_busy_reachable demo_third_record this]
  show "\<exists>q s. queue_step\<^sup>*\<^sup>* demo_busy q \<and> job_record q 3 = Some s
      \<and> tj_state (tr_job s) = JobRunning \<and> Working 3 (tr_spec demo_third) (tr_cancelled demo_third) \<in># tq_tasks q" .
qed

end
