(* ===== verification/Transfer_Files.thy ===== *)
theory Transfer_Files
  imports Transfer_Queue
begin

text \<open>
  What a transfer does to the files: \<open>upload\<close> and \<open>download\<close> of transfers/queue.rs, from the
  temporary file next to the destination to the rename over it. A store maps paths to
  contents; remote paths are texts, local ones components. The outcome of every request
  and of every read and write is an argument, as is what other users of the server do before
  the destination is replaced. The copying loop follows the sequence of its reads: it is \<open>None\<close>, not
  done yet, when the sequence ends first.
\<close>

section \<open>Temporary files\<close>

type_synonym 'p file_store = "'p \<rightharpoonup> string"

text \<open>\<open>str::rsplit_once('/')\<close>.\<close>

definition rsplit_slash :: "string \<Rightarrow> (string \<times> string) option" where
  "rsplit_slash s =
     (if CHR ''/'' \<in> set s
      then Some (rev (tl (dropWhile (\<lambda>c. c \<noteq> CHR ''/'') (rev s))), rev (takeWhile (\<lambda>c. c \<noteq> CHR ''/'') (rev s)))
      else None)"

definition remote_temp_path :: "(uuid \<Rightarrow> string) \<Rightarrow> string \<Rightarrow> uuid \<Rightarrow> (string, app_error) result" where
  "remote_temp_path show_id remote i =
     (case rsplit_slash remote of
        None \<Rightarrow> Err (File SftpPathInvalid)
      | Some (parent, _) \<Rightarrow>
          (let parent = (if parent = [] then ''/'' else parent);
               name = ''.runory-upload-'' @ show_id i @ ''.part''
           in Ok (if parent = ''/'' then ''/'' @ name else parent @ ''/'' @ name)))"

definition local_temp_path :: "(uuid \<Rightarrow> string) \<Rightarrow> local_path \<Rightarrow> uuid \<Rightarrow> (local_path, app_error) result" where
  "local_temp_path show_id local i =
     (case path_parent local of
        None \<Rightarrow> Err (File LocalFileInvalid)
      | Some parent \<Rightarrow>
          (case Option.bind (path_file_name local) to_str of
             None \<Rightarrow> Err (File LocalFileInvalid)
           | Some name \<Rightarrow> Ok (parent @ [Normal (''.'' @ name @ ''.runory-'' @ show_id i @ ''.part'')])))"

section \<open>Copying\<close>

definition ensure_not_cancelled :: "bool \<Rightarrow> (unit, app_error) result" where
  "ensure_not_cancelled cancelled = (if cancelled then Err (File TransferCancelled) else Ok ())"

text \<open>
  One round of the loop: the flag it sees, what the read returns (nothing at the end of the file, \<open>None\<close>
  an error), and, when the write fails, what reached the file all the same.
\<close>

record copy_round =
  cr_cancelled :: bool
  cr_read :: "string option"
  cr_short :: "string option"

fun copy_rounds :: "copy_round list \<Rightarrow> string \<Rightarrow> ((unit, app_error) result \<times> string) option" where
  "copy_rounds [] written = None"
| "copy_rounds (c # cs) written =
     (case ensure_not_cancelled (cr_cancelled c) of
        Ok _ \<Rightarrow>
          (case cr_read c of
             None \<Rightarrow> Some (Err (File TransferFailed), written)
           | Some bytes \<Rightarrow>
               if bytes = [] then Some (Ok (), written)
               else case cr_short c of
                   Some part \<Rightarrow> Some (Err (File TransferFailed), written @ part)
                 | None \<Rightarrow> copy_rounds cs (written @ bytes))
      | failed \<Rightarrow> Some (failed, written))"

text \<open>Replacing the destination by the temporary file, which upload and download share; \<open>None\<close> is a
  request that succeeds.\<close>

definition install_temp ::
  "bool \<Rightarrow> app_error option \<Rightarrow> app_error option \<Rightarrow> 'p \<Rightarrow> 'p \<Rightarrow> 'p file_store \<Rightarrow>
   (unit, app_error) result \<times> 'p file_store" where
  "install_temp exists_known removal renaming temp dest m =
     (let exists = exists_known \<and> m dest \<noteq> None in
      case (if exists then removal else None) of
        Some e \<Rightarrow> (Err e, m)
      | None \<Rightarrow>
          (let m = (if exists then m(dest := None) else m) in
           case renaming of
             Some e \<Rightarrow> (Err e, m)
           | None \<Rightarrow> (Ok (), m(dest := m temp, temp := None))))"

record upload_io =
  ui_check :: "app_error option"
  ui_stale_known :: bool
  ui_stale_removed :: bool
  ui_opened :: bool
  ui_create :: "app_error option"
  ui_rounds :: "copy_round list"
  ui_flushed :: bool
  ui_synced :: bool
  ui_closed :: bool
  ui_cancelled :: bool
  ui_exists_known :: bool
  ui_remove :: "app_error option"
  ui_rename :: "app_error option"
  ui_cleaned :: bool

definition upload_result ::
  "upload_io \<Rightarrow> string \<Rightarrow> string \<Rightarrow> (unit, app_error) result \<Rightarrow> string file_store \<Rightarrow>
   (unit, app_error) result \<times> string file_store" where
  "upload_result io temp dest copied m =
     (case copied of
        Ok _ \<Rightarrow>
          (if \<not> ui_flushed io \<or> \<not> ui_synced io \<or> \<not> ui_closed io then (Err (File TransferFailed), m)
           else case ensure_not_cancelled (ui_cancelled io) of
               Ok _ \<Rightarrow> install_temp (ui_exists_known io) (ui_remove io) (ui_rename io) temp dest m
             | failed \<Rightarrow> (failed, m))
      | failed \<Rightarrow> (failed, m))"

definition upload ::
  "(uuid \<Rightarrow> string) \<Rightarrow> upload_io \<Rightarrow> (string file_store \<Rightarrow> string file_store) \<Rightarrow> uuid \<Rightarrow> string \<Rightarrow> bool \<Rightarrow>
   string file_store \<Rightarrow> ((unit, app_error) result \<times> string file_store) option" where
  "upload show_id io meanwhile i dest overwrite m =
     (case ui_check io of
        Some e \<Rightarrow> Some (Err e, m)
      | None \<Rightarrow>
          if m dest \<noteq> None \<and> \<not> overwrite then Some (Err (File SftpAlreadyExists), m)
          else case remote_temp_path show_id dest i of
              Err e \<Rightarrow> Some (Err e, m)
            | Panic \<Rightarrow> Some (Panic, m)
            | Ok temp \<Rightarrow>
                (let m = (if ui_stale_known io \<and> m temp \<noteq> None \<and> ui_stale_removed io then m(temp := None) else m) in
                 if \<not> ui_opened io then Some (Err (File LocalFileInvalid), m)
                 else case ui_create io of
                     Some e \<Rightarrow> Some (Err e, m)
                   | None \<Rightarrow>
                       (case copy_rounds (ui_rounds io) [] of
                          None \<Rightarrow> None
                        | Some (copied, written) \<Rightarrow>
                            (case upload_result io temp dest copied (meanwhile (m(temp \<mapsto> written))) of
                               (r, m) \<Rightarrow> Some (r, if is_err r \<and> ui_cleaned io then m(temp := None) else m)))))"

record download_io =
  di_open :: "app_error option"
  di_created :: bool
  di_rounds :: "copy_round list"
  di_flushed :: bool
  di_synced :: bool
  di_cancelled :: bool
  di_exists_known :: bool
  di_removed :: bool
  di_renamed :: bool
  di_cleaned :: bool

definition download_result ::
  "download_io \<Rightarrow> local_path \<Rightarrow> local_path \<Rightarrow> (unit, app_error) result \<Rightarrow> local_path file_store \<Rightarrow>
   (unit, app_error) result \<times> local_path file_store" where
  "download_result io temp dest copied m =
     (case copied of
        Ok _ \<Rightarrow>
          (if \<not> di_flushed io \<or> \<not> di_synced io then (Err (File TransferFailed), m)
           else case ensure_not_cancelled (di_cancelled io) of
               Ok _ \<Rightarrow>
                 install_temp (di_exists_known io) (if di_removed io then None else Some (File LocalFileInvalid))
                   (if di_renamed io then None else Some (File TransferFailed)) temp dest m
             | failed \<Rightarrow> (failed, m))
      | failed \<Rightarrow> (failed, m))"

definition download ::
  "(uuid \<Rightarrow> string) \<Rightarrow> download_io \<Rightarrow> (local_path file_store \<Rightarrow> local_path file_store) \<Rightarrow> uuid \<Rightarrow> local_path \<Rightarrow>
   local_path file_store \<Rightarrow> ((unit, app_error) result \<times> local_path file_store) option" where
  "download show_id io meanwhile i dest m =
     (case local_temp_path show_id dest i of
        Err e \<Rightarrow> Some (Err e, m)
      | Panic \<Rightarrow> Some (Panic, m)
      | Ok temp \<Rightarrow>
          (case di_open io of
             Some e \<Rightarrow> Some (Err e, m)
           | None \<Rightarrow>
               if \<not> di_created io then Some (Err (File LocalFileInvalid), m)
               else case copy_rounds (di_rounds io) [] of
                   None \<Rightarrow> None
                 | Some (copied, written) \<Rightarrow>
                     (case download_result io temp dest copied (meanwhile (m(temp \<mapsto> written))) of
                        (r, m) \<Rightarrow> Some (r, if is_err r \<and> di_cleaned io then m(temp := None) else m))))"

section \<open>What arrives\<close>

text \<open>The reads of the rounds are the given content up to its end, and every write went through.\<close>

fun reads_to_end :: "string \<Rightarrow> copy_round list \<Rightarrow> bool" where
  "reads_to_end content [] = False"
| "reads_to_end content (c # cs) =
     (\<not> cr_cancelled c
      \<and> (case cr_read c of
           None \<Rightarrow> False
         | Some bytes \<Rightarrow>
             if bytes = [] then content = []
             else cr_short c = None \<and> take (length bytes) content = bytes
               \<and> reads_to_end (drop (length bytes) content) cs))"

lemma copy_rounds_Ok:
  "copy_rounds cs written = Some (Ok (), w) \<longleftrightarrow> (\<exists>content. w = written @ content \<and> reads_to_end content cs)"
proof (induction cs arbitrary: written)
  case (Cons c cs)
  have "copy_rounds cs (written @ bytes) = Some (Ok (), w) \<longleftrightarrow>
      (\<exists>content. w = written @ content \<and> take (length bytes) content = bytes
         \<and> reads_to_end (drop (length bytes) content) cs)" for bytes
    unfolding Cons.IH by (metis append.assoc append_eq_conv_conj append_take_drop_id)
  then show ?case
    by (auto simp: ensure_not_cancelled_def split: option.split)
qed simp

lemma copy_rounds_no_panic: "copy_rounds cs written \<noteq> Some (Panic, w)"
  by (induction cs arbitrary: written) (auto simp: ensure_not_cancelled_def split: option.split)

text \<open>Replacing: all, nothing, or, when only the renaming fails, a destination that is gone.\<close>

lemma install_temp_cases:
  assumes "install_temp known removal renaming temp dest m = (r, m')" and "m temp = Some content" and "temp \<noteq> dest"
  shows "r = Ok () \<and> m' = m(dest \<mapsto> content, temp := None)
    \<or> (\<exists>e. r = Err e \<and> (m' = m \<or> m' = m(dest := None) \<and> renaming = Some e))"
  using assms by (auto simp: install_temp_def Let_def split: option.splits if_splits)

lemma upload_result_cases:
  assumes "upload_result io temp dest copied m = (r, m')" and "m temp = Some content" and "temp \<noteq> dest"
    and "copied \<noteq> Panic"
  shows "r = Ok () \<and> is_ok copied \<and> m' = m(dest \<mapsto> content, temp := None)
    \<or> (\<exists>e. r = Err e \<and> (m' = m \<or> m' = m(dest := None) \<and> ui_rename io = Some e))"
  using assms install_temp_cases [where temp = temp and dest = dest and m = m and content = content]
  by (fastforce simp: upload_result_def ensure_not_cancelled_def split: result.splits if_splits)

lemma download_result_cases:
  assumes "download_result io temp dest copied m = (r, m')" and "m temp = Some content" and "temp \<noteq> dest"
    and "copied \<noteq> Panic"
  shows "r = Ok () \<and> is_ok copied \<and> m' = m(dest \<mapsto> content, temp := None)
    \<or> (\<exists>e. r = Err e \<and> (m' = m \<or> m' = m(dest := None) \<and> \<not> di_renamed io))"
  using assms install_temp_cases [where temp = temp and dest = dest and m = m and content = content]
  by (fastforce simp: download_result_def ensure_not_cancelled_def split: result.splits if_splits)

text \<open>
  C17. An upload is all or nothing, but for one gap. When nobody else writes there
  meanwhile, a finished upload has put exactly the content of the local file at the destination,
  which was free or meant to be overwritten; a failed or cancelled one leaves the destination
  as it was, except when the last renaming fails, which leaves no destination at all. No other path
  changes, and no temporary file stays behind, unless the upload failed and so did the request to
  remove it, whose failure is ignored.
\<close>

theorem upload_exact:
  assumes "upload show_id io (\<lambda>s. s) i dest overwrite m = Some (r, m')"
    and "remote_temp_path show_id dest i = Ok temp" and "temp \<noteq> dest" and "m temp = None"
  shows "(m' temp \<noteq> None \<longrightarrow> is_err r \<and> \<not> ui_cleaned io) \<and> (\<forall>p. p \<noteq> dest \<and> p \<noteq> temp \<longrightarrow> m' p = m p)
    \<and> (case r of
         Ok _ \<Rightarrow> (m dest = None \<or> overwrite) \<and> (\<exists>content. reads_to_end content (ui_rounds io) \<and> m' dest = Some content)
       | Err e \<Rightarrow> m' dest = m dest \<or> m' dest = None \<and> ui_rename io = Some e
       | Panic \<Rightarrow> False)"
proof -
  consider (early) e where "r = Err e" "m' = m"
    | (late) copied written r' m1 where "m dest = None \<or> overwrite"
        "copy_rounds (ui_rounds io) [] = Some (copied, written)"
        "upload_result io temp dest copied (m(temp \<mapsto> written)) = (r', m1)"
        "r = r'" "m' = (if is_err r' \<and> ui_cleaned io then m1(temp := None) else m1)"
    using assms by (auto simp: upload_def Let_def split: option.splits if_splits prod.splits)
  then show ?thesis
  proof cases
    case late
    have "copied \<noteq> Panic" using late(2) copy_rounds_no_panic by blast
    from upload_result_cases [OF late(3) _ assms(3) this, of written]
    consider "r = Ok ()" "is_ok copied" "m1 = m(temp := None, dest \<mapsto> written)"
      | e where "r = Err e" "m1 = m(temp \<mapsto> written) \<or> m1 = m(temp \<mapsto> written, dest := None) \<and> ui_rename io = Some e"
      using assms(3) late(4) by (fastforce simp: fun_upd_twist)
    then show ?thesis
    proof cases
      case 1
      then have "copy_rounds (ui_rounds io) [] = Some (Ok (), written)" using late(2) by (cases copied) simp_all
      then have "reads_to_end written (ui_rounds io)" by (simp add: copy_rounds_Ok)
      with 1 late assms(3,4) show ?thesis by auto
    next
      case 2
      with late assms(3,4) show ?thesis by auto
    qed
  qed (use assms(4) in simp)
qed

text \<open>The same for a download and its local target.\<close>

lemma download_exact:
  assumes "download show_id io (\<lambda>s. s) i dest m = Some (r, m')"
    and "local_temp_path show_id dest i = Ok temp" and "temp \<noteq> dest" and "m temp = None" and "di_cleaned io"
  shows "m' temp = None \<and> (\<forall>p. p \<noteq> dest \<longrightarrow> m' p = m p)
    \<and> (case r of
         Ok _ \<Rightarrow> \<exists>content. reads_to_end content (di_rounds io) \<and> m' dest = Some content
       | Err e \<Rightarrow> m' dest = m dest \<or> m' dest = None \<and> \<not> di_renamed io
       | Panic \<Rightarrow> False)"
proof -
  consider (early) e where "r = Err e" "m' = m"
    | (late) copied written r' m1 where "copy_rounds (di_rounds io) [] = Some (copied, written)"
        "download_result io temp dest copied (m(temp \<mapsto> written)) = (r', m1)"
        "r = r'" "m' = (if is_err r' then m1(temp := None) else m1)"
    using assms by (auto simp: download_def Let_def split: option.splits if_splits prod.splits)
  then show ?thesis
  proof cases
    case late
    have "copied \<noteq> Panic" using late(1) copy_rounds_no_panic by blast
    from download_result_cases [OF late(2) _ assms(3) this, of written]
    consider "r = Ok ()" "is_ok copied" "m1 = m(temp := None, dest \<mapsto> written)"
      | e where "r = Err e" "m1 = m(temp \<mapsto> written) \<or> m1 = m(temp \<mapsto> written, dest := None) \<and> \<not> di_renamed io"
      using assms(3) late(3) by (fastforce simp: fun_upd_twist)
    then show ?thesis
    proof cases
      case 1
      then have "copy_rounds (di_rounds io) [] = Some (Ok (), written)" using late(1) by (cases copied) simp_all
      then have "reads_to_end written (di_rounds io)" by (simp add: copy_rounds_Ok)
      with 1 late assms(3,4) show ?thesis by auto
    next
      case 2
      with late assms(3,4) show ?thesis by auto
    qed
  qed (use assms(4) in simp)
qed

section \<open>Concrete uploads\<close>

definition demo_upload_io :: "app_error option \<Rightarrow> upload_io" where
  "demo_upload_io renaming = \<lparr>ui_check = None, ui_stale_known = True, ui_stale_removed = True, ui_opened = True,
     ui_create = None,
     ui_rounds = map (\<lambda>part. \<lparr>cr_cancelled = False, cr_read = Some part, cr_short = None\<rparr>) [''he'', ''llo'', []],
     ui_flushed = True, ui_synced = True, ui_closed = True, ui_cancelled = False, ui_exists_known = True,
     ui_remove = None, ui_rename = renaming, ui_cleaned = True\<rparr>"

lemma demo_temp:
  "remote_temp_path show_id ''/srv/a'' i = Ok (''/srv/.runory-upload-'' @ show_id i @ ''.part'')"
  by (simp add: remote_temp_path_def rsplit_slash_def)

lemmas demo_upload_simps =
  upload_def demo_temp demo_upload_io_def upload_result_def install_temp_def ensure_not_cancelled_def Let_def

theorem upload_exact_witness:
  "\<exists>m'. upload (\<lambda>_. ''7'') (demo_upload_io None) (\<lambda>s. s) 7 ''/srv/a'' True [''/srv/a'' \<mapsto> ''old''] = Some (Ok (), m')
    \<and> (\<exists>content. reads_to_end content (ui_rounds (demo_upload_io None)) \<and> m' ''/srv/a'' = Some content)"
proof -
  obtain m' where run: "upload (\<lambda>_. ''7'') (demo_upload_io None) (\<lambda>s. s) 7 ''/srv/a'' True [''/srv/a'' \<mapsto> ''old'']
      = Some (Ok (), m')"
    by (simp add: demo_upload_simps)
  from upload_exact [OF run demo_temp] run show ?thesis by simp
qed




end
