(* ===== verification/Cloud_Policy.thy ===== *)
theory Cloud_Policy
  imports Storage Json "HOL-Library.AList" "HOL-Library.Multiset"
begin

text \<open>
  Decisions of a managing organisation: cloud/policy.rs. A profile that is assigned to an
  organisation, or any profile once an organisation manages them all, may be used only when the
  organisation's service allows the action. Its signed answers are kept and serve, for
  five minutes at most, while the service cannot be reached. Hash maps are association lists with
  distinct keys. The clock, the service's reply, the file's write and the third-party parts are
  arguments: the signature check, base 64, the URL parser and the text of an identifier.
\<close>

section \<open>Decisions\<close>

definition POLICY_STATE_VERSION :: u32 where "POLICY_STATE_VERSION = 2"
definition MAX_MANAGED_PROFILES :: nat where "MAX_MANAGED_PROFILES = 1000"
definition MAX_CACHED_DECISIONS :: nat where "MAX_CACHED_DECISIONS = MAX_MANAGED_PROFILES * 6"
definition MAX_DECISION_TTL_SECONDS :: u64 where "MAX_DECISION_TTL_SECONDS = 300"
definition MAX_CLOCK_SKEW_SECONDS :: u64 where "MAX_CLOCK_SKEW_SECONDS = 30"

datatype cloud_policy_action =
  ActionConnect | ActionReadFiles | ActionWriteFiles | ActionOperate | ActionDeploy | ActionAiExecute

fun action_str :: "cloud_policy_action \<Rightarrow> string" where
  "action_str ActionConnect = ''connect''"
| "action_str ActionReadFiles = ''read-files''"
| "action_str ActionWriteFiles = ''write-files''"
| "action_str ActionOperate = ''operate''"
| "action_str ActionDeploy = ''deploy''"
| "action_str ActionAiExecute = ''ai-execute''"

record signed_policy_decision =
  sd_version :: u32
  sd_key_id :: "string option"
  sd_organization_id :: uuid
  sd_profile_id :: uuid
  sd_action :: cloud_policy_action
  sd_allowed :: bool
  sd_issued_at :: u64
  sd_expires_at :: u64
  sd_signature :: string

type_synonym decision_key = "uuid \<times> uuid \<times> cloud_policy_action"

definition decision_cache_key :: "signed_policy_decision \<Rightarrow> decision_key" where
  "decision_cache_key d = (sd_organization_id d, sd_profile_id d, sd_action d)"

text \<open>The keys of the build, and the third-party functions that use them.\<close>

record 'k policy_keys =
  vk_legacy :: "'k option"
  vk_keys :: "(string \<times> 'k) list"
  vk_verify :: "'k \<Rightarrow> string \<Rightarrow> string \<Rightarrow> bool"
  vk_base64 :: "string \<Rightarrow> string option"
  vk_show_id :: "uuid \<Rightarrow> string"

definition signed_decisions_enabled :: "'k policy_keys \<Rightarrow> bool" where
  "signed_decisions_enabled keys \<longleftrightarrow> vk_legacy keys \<noteq> None \<or> vk_keys keys \<noteq> []"

definition validate_key_id :: "string \<Rightarrow> (unit, app_error) result" where
  "validate_key_id s =
     (if s = [] \<or> 32 < length s \<or> \<not> list_all (\<lambda>c. is_ascii_alphanumeric c \<or> c = CHR ''-'' \<or> c = CHR ''_'') s
      then Err (Cloud CloudInvalid) else Ok ())"

definition bool_str :: "bool \<Rightarrow> string" where
  "bool_str b = (if b then ''true'' else ''false'')"

definition canonical_decision :: "(uuid \<Rightarrow> string) \<Rightarrow> signed_policy_decision \<Rightarrow> string" where
  "canonical_decision show_id d =
     (let fields = [show_id (sd_organization_id d), show_id (sd_profile_id d), action_str (sd_action d),
                    bool_str (sd_allowed d), nat_digits (unat (sd_issued_at d)), nat_digits (unat (sd_expires_at d))]
      in case (sd_version d = 2, sd_key_id d) of
           (True, Some key_id) \<Rightarrow> str_join [NL] (''runory-policy-decision-v2'' # key_id # fields)
         | _ \<Rightarrow> str_join [NL] (''runory-policy-decision-v1'' # fields))"

definition verifying_key :: "'k policy_keys \<Rightarrow> signed_policy_decision \<Rightarrow> ('k, app_error) result" where
  "verifying_key keys d =
     (case sd_key_id d of
        None \<Rightarrow> if sd_version d = 1 then ok_or (Cloud CloudPolicyUnavailable) (vk_legacy keys)
               else Err (Cloud CloudPolicyUnavailable)
      | Some key_id \<Rightarrow>
          if sd_version d = 2
          then result_bind (map_err (\<lambda>_. Cloud CloudPolicyUnavailable) (validate_key_id key_id)) (\<lambda>_.
                 ok_or (Cloud CloudPolicyUnavailable) (map_of (vk_keys keys) key_id))
          else Err (Cloud CloudPolicyUnavailable))"

definition verify_decision ::
  "'k policy_keys \<Rightarrow> signed_policy_decision \<Rightarrow> uuid \<Rightarrow> uuid \<Rightarrow> cloud_policy_action \<Rightarrow> u64 \<Rightarrow>
   (unit, app_error) result" where
  "verify_decision keys d organization profile action now =
     result_bind (verifying_key keys d) (\<lambda>key.
       if sd_organization_id d \<noteq> organization \<or> sd_profile_id d \<noteq> profile \<or> sd_action d \<noteq> action
         \<or> sd_expires_at d \<le> now \<or> sd_expires_at d < sd_issued_at d
         \<or> MAX_DECISION_TTL_SECONDS < sd_expires_at d - sd_issued_at d
         \<or> saturating_add now MAX_CLOCK_SKEW_SECONDS < sd_issued_at d
       then Err (Cloud CloudPolicyUnavailable)
       else case vk_base64 keys (sd_signature d) of
           None \<Rightarrow> Err (Cloud CloudPolicyUnavailable)
         | Some signature \<Rightarrow>
             if vk_verify keys key (canonical_decision (vk_show_id keys) d) signature
             then Ok () else Err (Cloud CloudPolicyUnavailable))"

definition decision_result :: "bool \<Rightarrow> (unit, app_error) result" where
  "decision_result allowed = (if allowed then Ok () else Err (Cloud CloudPolicyDenied))"

section \<open>The service\<close>

record parsed_url =
  pu_scheme :: string
  pu_host :: "string option"
  pu_path :: string
  pu_query :: "string option"
  pu_fragment :: "string option"

definition decision_endpoint :: "(string \<Rightarrow> parsed_url option) \<Rightarrow> string \<Rightarrow> bool \<Rightarrow> (parsed_url, app_error) result" where
  "decision_endpoint parse value signing =
     result_bind (ok_or (Cloud CloudInvalid) (parse value)) (\<lambda>url.
       let local = pu_host url = Some ''localhost'' \<or> pu_host url = Some ''127.0.0.1''
       in if pu_scheme url \<noteq> ''https'' \<and> \<not> (local \<and> pu_scheme url = ''http'') then Err (Cloud CloudInvalid)
          else Ok (url\<lparr>pu_path := (if signing then ''/functions/v1/evaluate-access-policy''
                                   else ''/rest/v1/rpc/evaluate_access_policy''),
                       pu_query := None, pu_fragment := None\<rparr>))"

record cloud_policy_credential =
  cc_endpoint :: parsed_url
  cc_publishable_key :: string
  cc_access_token :: string
  cc_expires_at :: u64

definition policy_credential ::
  "(string \<Rightarrow> parsed_url option) \<Rightarrow> u64 \<Rightarrow> string \<Rightarrow> string \<Rightarrow> string \<Rightarrow> u64 \<Rightarrow> bool \<Rightarrow>
   (cloud_policy_credential, app_error) result" where
  "policy_credential parse now url publishable_key access_token expires_at signing =
     (if publishable_key = [] \<or> access_token = [] \<or> expires_at \<le> now then Err (Cloud CloudInvalid)
      else result_bind (decision_endpoint parse url signing) (\<lambda>endpoint.
        Ok \<lparr>cc_endpoint = endpoint, cc_publishable_key = publishable_key, cc_access_token = access_token,
            cc_expires_at = expires_at\<rparr>))"

definition validate_profile_ids_allow_empty :: "uuid list \<Rightarrow> (unit, app_error) result" where
  "validate_profile_ids_allow_empty ids =
     (if MAX_MANAGED_PROFILES < length ids then Err (Cloud CloudInvalid)
      else if card (set ids) = length ids then Ok () else Err (Cloud CloudInvalid))"

definition validate_profile_ids :: "uuid list \<Rightarrow> (unit, app_error) result" where
  "validate_profile_ids ids =
     (if ids = [] then Err (Cloud CloudInvalid) else validate_profile_ids_allow_empty ids)"

record persisted_policy_assignment =
  pa_organization_id :: uuid
  pa_profile_ids :: "uuid list"
  pa_manage_all_profiles :: bool

record persisted_policy_state =
  pp_version :: u32
  pp_assignments :: "persisted_policy_assignment list"
  pp_cached_decisions :: "signed_policy_decision list"

record cloud_policy_service =
  cs_assignments :: "(uuid \<times> uuid) list"
  cs_managed_organization :: "uuid option"
  cs_credentials :: "(uuid \<times> cloud_policy_credential) list"
  cs_cached_decisions :: "(decision_key \<times> signed_policy_decision) list"
  cs_file :: "persisted_policy_state stored_file"

definition new_policy_service :: "persisted_policy_state stored_file \<Rightarrow> cloud_policy_service" where
  "new_policy_service file = \<lparr>cs_assignments = [], cs_managed_organization = None, cs_credentials = [],
     cs_cached_decisions = [], cs_file = file\<rparr>"

text \<open>One entry per organisation, in order, with its profiles in order.\<close>

definition persisted_state ::
  "(uuid \<times> uuid) list \<Rightarrow> uuid option \<Rightarrow> (decision_key \<times> signed_policy_decision) list \<Rightarrow> persisted_policy_state" where
  "persisted_state assignments managed cached =
     \<lparr>pp_version = POLICY_STATE_VERSION,
      pp_assignments = map (\<lambda>organization.
        \<lparr>pa_organization_id = organization,
         pa_profile_ids = sort (map fst (filter (\<lambda>(p, org). org = organization) assignments)),
         pa_manage_all_profiles = (managed = Some organization)\<rparr>)
        (sort (remdups (map snd assignments))),
      pp_cached_decisions =
        sort_key (\<lambda>d. (sd_organization_id d, sd_profile_id d, map byte (action_str (sd_action d)))) (map snd cached)\<rparr>"

fun insert_assignments :: "uuid \<Rightarrow> uuid list \<Rightarrow> (uuid \<times> uuid) list \<Rightarrow> ((uuid \<times> uuid) list, app_error) result" where
  "insert_assignments organization [] m = Ok m"
| "insert_assignments organization (p # ps) m =
     (if map_of m p \<noteq> None then Err Storage
      else insert_assignments organization ps (m @ [(p, organization)]))"

fun restore_assignments ::
  "persisted_policy_assignment list \<Rightarrow> (uuid \<times> uuid) list \<Rightarrow> uuid option \<Rightarrow>
   ((uuid \<times> uuid) list \<times> uuid option, app_error) result" where
  "restore_assignments [] m managed = Ok (m, managed)"
| "restore_assignments (a # as) m managed =
     (if pa_manage_all_profiles a \<and> managed \<noteq> None then Err Storage
      else result_bind (insert_assignments (pa_organization_id a) (pa_profile_ids a) m) (\<lambda>m.
        restore_assignments as m (if pa_manage_all_profiles a then Some (pa_organization_id a) else managed)))"

definition validate_policy_state ::
  "persisted_policy_state \<Rightarrow> ((uuid \<times> uuid) list \<times> uuid option, app_error) result" where
  "validate_policy_state st =
     (if pp_version st \<noteq> 0 \<and> pp_version st \<noteq> 1 \<and> pp_version st \<noteq> POLICY_STATE_VERSION then Err Storage
      else if MAX_MANAGED_PROFILES < sum_list (map (length \<circ> pa_profile_ids) (pp_assignments st)) then Err Storage
      else restore_assignments (pp_assignments st) [] None)"

section \<open>Operations\<close>

definition valid_cached_decisions ::
  "'k policy_keys \<Rightarrow> u64 \<Rightarrow> signed_policy_decision list \<Rightarrow>
   ((decision_key \<times> signed_policy_decision) list, app_error) result" where
  "valid_cached_decisions keys now ds =
     (if MAX_CACHED_DECISIONS < length ds then Err Storage
      else if \<not> signed_decisions_enabled keys then Ok []
      else Ok (fold (\<lambda>d. AList.update (decision_cache_key d) d)
        (filter (\<lambda>d. is_ok (verify_decision keys d (sd_organization_id d) (sd_profile_id d) (sd_action d) now)) ds) []))"

definition load_policy ::
  "'k policy_keys \<Rightarrow> u64 \<Rightarrow> cloud_policy_service \<Rightarrow> (unit, app_error) result \<times> cloud_policy_service" where
  "load_policy keys now svc =
     (case result_bind (load_or_default \<lparr>pp_version = 0, pp_assignments = [], pp_cached_decisions = []\<rparr> (cs_file svc))
        (\<lambda>st. result_bind (validate_policy_state st) (\<lambda>(assignments, managed).
          result_bind (valid_cached_decisions keys now (pp_cached_decisions st)) (\<lambda>cached.
            Ok (assignments, managed, cached)))) of
        Ok (assignments, managed, cached) \<Rightarrow>
          (Ok (), svc\<lparr>cs_assignments := assignments, cs_managed_organization := managed, cs_cached_decisions := cached\<rparr>)
      | Err e \<Rightarrow> (Err e, svc)
      | Panic \<Rightarrow> (Panic, svc))"

record cloud_policy_status =
  st_organization_id :: uuid
  st_enabled :: bool
  st_authenticated :: bool
  st_profile_count :: nat

definition policy_status :: "u64 \<Rightarrow> uuid \<Rightarrow> cloud_policy_service \<Rightarrow> cloud_policy_status" where
  "policy_status now organization svc =
     \<lparr>st_organization_id = organization,
      st_enabled = (cs_managed_organization svc = Some organization),
      st_authenticated = (case map_of (cs_credentials svc) organization of
         None \<Rightarrow> False | Some c \<Rightarrow> now < cc_expires_at c),
      st_profile_count = length (filter (\<lambda>(p, org). org = organization) (cs_assignments svc))\<rparr>"

text \<open>Every change is written before it takes effect; when the write fails, nothing has changed.\<close>

definition save_policy ::
  "persist_steps \<Rightarrow> (uuid \<times> uuid) list \<Rightarrow> uuid option \<Rightarrow> (decision_key \<times> signed_policy_decision) list \<Rightarrow>
   (cloud_policy_service \<Rightarrow> cloud_policy_service) \<Rightarrow> cloud_policy_service \<Rightarrow>
   (unit, app_error) result \<times> cloud_policy_service" where
  "save_policy w assignments managed cached commit svc =
     (case save_atomic w (persisted_state assignments managed cached) (cs_file svc) of
        (Ok _, file) \<Rightarrow>
          (Ok (), commit (svc\<lparr>cs_file := file, cs_assignments := assignments, cs_managed_organization := managed,
                             cs_cached_decisions := cached\<rparr>))
      | (failed, file) \<Rightarrow> (failed, svc\<lparr>cs_file := file\<rparr>))"

record cloud_policy_binding_request =
  cb_organization_id :: uuid
  cb_profile_ids :: "uuid list"
  cb_supabase_url :: string
  cb_publishable_key :: string
  cb_access_token :: string
  cb_expires_at :: u64

definition bind_policy ::
  "'k policy_keys \<Rightarrow> (string \<Rightarrow> parsed_url option) \<Rightarrow> persist_steps \<Rightarrow> u64 \<Rightarrow> cloud_policy_binding_request \<Rightarrow>
   cloud_policy_service \<Rightarrow> (cloud_policy_status, app_error) result \<times> cloud_policy_service" where
  "bind_policy keys parse w now request svc =
     (case result_bind (validate_profile_ids (cb_profile_ids request)) (\<lambda>_.
        policy_credential parse now (cb_supabase_url request) (cb_publishable_key request) (cb_access_token request)
          (cb_expires_at request) (signed_decisions_enabled keys)) of
        Ok c \<Rightarrow>
          (case save_policy w (map (\<lambda>p. (p, cb_organization_id request)) (cb_profile_ids request))
              (Some (cb_organization_id request)) []
              (\<lambda>svc. svc\<lparr>cs_credentials := [(cb_organization_id request, c)]\<rparr>) svc of
             (Ok _, svc) \<Rightarrow> (Ok (policy_status now (cb_organization_id request) svc), svc)
           | (Err e, svc) \<Rightarrow> (Err e, svc)
           | (Panic, svc) \<Rightarrow> (Panic, svc))
      | Err e \<Rightarrow> (Err e, svc)
      | Panic \<Rightarrow> (Panic, svc))"

definition refresh_policy ::
  "'k policy_keys \<Rightarrow> (string \<Rightarrow> parsed_url option) \<Rightarrow> u64 \<Rightarrow> string \<Rightarrow> string \<Rightarrow> string \<Rightarrow> u64 \<Rightarrow>
   cloud_policy_service \<Rightarrow> (unit, app_error) result \<times> cloud_policy_service" where
  "refresh_policy keys parse now url publishable_key access_token expires_at svc =
     (case policy_credential parse now url publishable_key access_token expires_at (signed_decisions_enabled keys) of
        Ok c \<Rightarrow> (Ok (), svc\<lparr>cs_credentials :=
          (case cs_managed_organization svc of None \<Rightarrow> [] | Some organization \<Rightarrow> [(organization, c)])\<rparr>)
      | Err e \<Rightarrow> (Err e, svc)
      | Panic \<Rightarrow> (Panic, svc))"

definition lock_policy :: "cloud_policy_service \<Rightarrow> cloud_policy_service" where
  "lock_policy svc = svc\<lparr>cs_credentials := []\<rparr>"

definition unbind_policy ::
  "persist_steps \<Rightarrow> u64 \<Rightarrow> uuid \<Rightarrow> cloud_policy_service \<Rightarrow>
   (cloud_policy_status, app_error) result \<times> cloud_policy_service" where
  "unbind_policy w now organization svc =
     (case save_policy w (filter (\<lambda>(p, org). org \<noteq> organization) (cs_assignments svc))
         (if cs_managed_organization svc = Some organization then None else cs_managed_organization svc)
         (filter (\<lambda>(key, d). fst key \<noteq> organization) (cs_cached_decisions svc))
         (\<lambda>svc. svc\<lparr>cs_credentials := AList.delete organization (cs_credentials svc)\<rparr>) svc of
        (Ok _, svc) \<Rightarrow> (Ok (policy_status now organization svc), svc)
      | (Err e, svc) \<Rightarrow> (Err e, svc)
      | (Panic, svc) \<Rightarrow> (Panic, svc))"

definition reconcile_profiles ::
  "persist_steps \<Rightarrow> uuid list \<Rightarrow> cloud_policy_service \<Rightarrow> (unit, app_error) result \<times> cloud_policy_service" where
  "reconcile_profiles w ids svc =
     (case validate_profile_ids_allow_empty ids of
        Ok _ \<Rightarrow>
          (case cs_managed_organization svc of
             None \<Rightarrow> (Ok (), svc)
           | Some organization \<Rightarrow>
               save_policy w (map (\<lambda>p. (p, organization)) ids) (Some organization)
                 (filter (\<lambda>(key, d). fst (snd key) \<in> set ids) (cs_cached_decisions svc)) (\<lambda>svc. svc) svc)
      | failed \<Rightarrow> (failed, svc))"

definition persist_cached_decision ::
  "persist_steps \<Rightarrow> signed_policy_decision \<Rightarrow> cloud_policy_service \<Rightarrow>
   (unit, app_error) result \<times> cloud_policy_service" where
  "persist_cached_decision w d svc =
     (let cached = AList.update (decision_cache_key d) d (cs_cached_decisions svc)
      in if MAX_CACHED_DECISIONS < length cached then (Err (Cloud CloudPolicyUnavailable), svc)
         else save_policy w (cs_assignments svc) (cs_managed_organization svc) cached (\<lambda>svc. svc) svc)"

text \<open>What the service answers: nothing usable, a plain truth value, or a signed decision.\<close>

datatype policy_reply = NoReply | BoolReply bool | DecisionReply signed_policy_decision

definition authorize_online ::
  "'k policy_keys \<Rightarrow> persist_steps \<Rightarrow> policy_reply \<Rightarrow> uuid \<Rightarrow> uuid \<Rightarrow> cloud_policy_action \<Rightarrow> u64 \<Rightarrow>
   cloud_policy_service \<Rightarrow> bool option \<times> cloud_policy_service" where
  "authorize_online keys w reply organization profile action now svc =
     (if \<not> signed_decisions_enabled keys
      then (case reply of BoolReply allowed \<Rightarrow> (Some allowed, svc) | _ \<Rightarrow> (None, svc))
      else case reply of
          DecisionReply d \<Rightarrow>
            if is_ok (verify_decision keys d organization profile action now)
            then (Some (sd_allowed d), snd (persist_cached_decision w d svc))
            else (None, svc)
        | _ \<Rightarrow> (None, svc))"

definition cached_result ::
  "'k policy_keys \<Rightarrow> uuid \<Rightarrow> uuid \<Rightarrow> cloud_policy_action \<Rightarrow> u64 \<Rightarrow> cloud_policy_service \<Rightarrow> (unit, app_error) result" where
  "cached_result keys organization profile action now svc =
     (if \<not> signed_decisions_enabled keys then Err (Cloud CloudPolicyUnavailable)
      else result_bind (ok_or (Cloud CloudPolicyUnavailable)
            (map_of (cs_cached_decisions svc) (organization, profile, action))) (\<lambda>d.
        result_bind (verify_decision keys d organization profile action now) (\<lambda>_.
          decision_result (sd_allowed d))))"

definition governing_organization :: "uuid \<Rightarrow> cloud_policy_service \<Rightarrow> uuid option" where
  "governing_organization profile svc =
     (case map_of (cs_assignments svc) profile of Some org \<Rightarrow> Some org | None \<Rightarrow> cs_managed_organization svc)"

text \<open>\<open>meanwhile\<close> is what other calls do to the service while the request is on its way.\<close>

definition authorize_profile ::
  "'k policy_keys \<Rightarrow> persist_steps \<Rightarrow> policy_reply \<Rightarrow> (cloud_policy_service \<Rightarrow> cloud_policy_service) \<Rightarrow> u64 \<Rightarrow>
   uuid \<Rightarrow> cloud_policy_action \<Rightarrow> cloud_policy_service \<Rightarrow> (unit, app_error) result \<times> cloud_policy_service" where
  "authorize_profile keys w reply meanwhile now profile action svc =
     (case governing_organization profile svc of
        None \<Rightarrow> (Ok (), svc)
      | Some organization \<Rightarrow>
          (case (case map_of (cs_credentials svc) organization of
                   Some c \<Rightarrow> if now < cc_expires_at c
                             then authorize_online keys w reply organization profile action now (meanwhile svc)
                             else (None, svc)
                 | None \<Rightarrow> (None, svc)) of
             (Some allowed, svc) \<Rightarrow> (decision_result allowed, svc)
           | (None, svc) \<Rightarrow> (cached_result keys organization profile action now svc, svc)))"

section \<open>A signature covers one decision\<close>

text \<open>The fields of the signed text are separated by newlines, which no field contains.\<close>

lemma split_free: "d \<notin> set s \<Longrightarrow> split_char d s = [s]"
  by (induction s) (auto simp: split_char_def)

lemma split_at: "d \<notin> set s \<Longrightarrow> split_char d (s @ d # t) = s # split_char d t"
  by (induction s) (auto simp: split_char_def)

lemma split_join: "xs \<noteq> [] \<Longrightarrow> \<forall>x \<in> set xs. d \<notin> set x \<Longrightarrow> split_char d (str_join [d] xs) = xs"
  by (induction "[d]" xs rule: str_join.induct) (auto simp: split_free split_at)

lemma str_join_inject:
  "str_join [d] xs = str_join [d] ys \<Longrightarrow> xs \<noteq> [] \<Longrightarrow> ys \<noteq> [] \<Longrightarrow>
    \<forall>x \<in> set xs \<union> set ys. d \<notin> set x \<Longrightarrow> xs = ys"
  by (metis Un_iff split_join)

fun digits_value :: "nat \<Rightarrow> string \<Rightarrow> nat" where
  "digits_value acc [] = acc"
| "digits_value acc (c # s) = digits_value (acc * 10 + (of_char c - 48)) s"

lemma digits_value_append: "digits_value acc (s @ t) = digits_value (digits_value acc s) t"
  by (induction s arbitrary: acc) simp_all

lemma digits_value_nat_digits: "digits_value 0 (nat_digits n) = n"
proof (induction n rule: nat_digits.induct)
  case (1 n)
  then show ?case by (subst nat_digits.simps) (simp add: digits_value_append of_char_of)
qed

lemma nat_digits_inject [simp]: "nat_digits m = nat_digits n \<longleftrightarrow> m = n"
  by (metis digits_value_nat_digits)

lemma char_of_digit_inject: "n < 10 \<Longrightarrow> char_of (48 + n) \<noteq> NL" for n :: nat
proof
  assume n: "n < 10" and "char_of (48 + n) = NL"
  then have "(of_char (char_of (48 + n) :: char) :: nat) = of_char NL" by simp
  with n show False by (simp add: NL_def of_char_of)
qed

lemma nat_digits_free: "NL \<notin> set (nat_digits n)"
proof (induction n rule: nat_digits.induct)
  case (1 n)
  then show ?case
    using char_of_digit_inject [of n] char_of_digit_inject [of "n mod 10"]
    by (subst nat_digits.simps) (auto dest: sym)
qed

lemma action_str_inject [simp]: "action_str a = action_str b \<longleftrightarrow> a = b"
  by (cases a; cases b) simp_all

lemma action_str_free: "NL \<notin> set (action_str a)"
  by (cases a) (simp_all add: NL_def)

lemma bool_str_inject [simp]: "bool_str a = bool_str b \<longleftrightarrow> a = b"
  by (simp add: bool_str_def)

lemma bool_str_free: "NL \<notin> set (bool_str b)"
  by (simp add: bool_str_def NL_def)

lemma key_id_free: "validate_key_id s = Ok u \<Longrightarrow> NL \<notin> set s"
  by (auto simp: validate_key_id_def list_all_iff NL_def is_ascii_alphanumeric_def is_ascii_digit_def
      is_ascii_upper_def is_ascii_lower_def split: if_splits)

text \<open>A version with the key identifier it needs.\<close>

definition signable :: "signed_policy_decision \<Rightarrow> bool" where
  "signable d \<longleftrightarrow>
     (case sd_key_id d of
        None \<Rightarrow> sd_version d = 1
      | Some key_id \<Rightarrow> sd_version d = 2 \<and> validate_key_id key_id = Ok ())"

definition same_decision :: "signed_policy_decision \<Rightarrow> signed_policy_decision \<Rightarrow> bool" where
  "same_decision d e \<longleftrightarrow> sd_organization_id d = sd_organization_id e \<and> sd_profile_id d = sd_profile_id e
     \<and> sd_action d = sd_action e \<and> sd_allowed d = sd_allowed e \<and> sd_issued_at d = sd_issued_at e
     \<and> sd_expires_at d = sd_expires_at e"

lemma canonical_decision_inject:
  assumes "canonical_decision show_id d = canonical_decision show_id e" and "signable d" and "signable e"
    and show_id: "inj show_id" "\<And>i. NL \<notin> set (show_id i)"
  shows "same_decision d e \<and> sd_key_id d = sd_key_id e"
proof -
  define fields where "fields d = (case sd_key_id d of None \<Rightarrow> [''runory-policy-decision-v1'']
      | Some key_id \<Rightarrow> [''runory-policy-decision-v2'', key_id]) @
     [show_id (sd_organization_id d), show_id (sd_profile_id d), action_str (sd_action d),
      bool_str (sd_allowed d), nat_digits (unat (sd_issued_at d)), nat_digits (unat (sd_expires_at d))]"
    for d :: signed_policy_decision
  have canonical: "canonical_decision show_id d = str_join [NL] (fields d)" if "signable d" for d
    using that by (cases "sd_key_id d") (simp_all add: signable_def canonical_decision_def fields_def Let_def)
  have free: "\<forall>x \<in> set (fields d). NL \<notin> set x" if "signable d" for d
    using that show_id(2) nat_digits_free action_str_free bool_str_free key_id_free
    by (cases "sd_key_id d") (auto simp: signable_def fields_def NL_def)
  have "fields d = fields e"
    using assms(1-3) canonical free by (intro str_join_inject [of NL]) (auto simp: fields_def)
  then show ?thesis
    using show_id(1) by (cases "sd_key_id d"; cases "sd_key_id e")
      (auto simp: fields_def same_decision_def word_unat_eq_iff dest: injD)
qed

lemma verified_decision:
  assumes "verify_decision keys d organization profile action now = Ok u"
  shows "sd_organization_id d = organization" and "sd_profile_id d = profile" and "sd_action d = action"
    and "now < sd_expires_at d" and "sd_issued_at d \<le> sd_expires_at d"
    and "sd_expires_at d - sd_issued_at d \<le> MAX_DECISION_TTL_SECONDS"
    and "sd_issued_at d \<le> saturating_add now MAX_CLOCK_SKEW_SECONDS"
    and "signable d" and "\<exists>key signature. vk_verify keys key (canonical_decision (vk_show_id keys) d) signature"
proof -
  from assms obtain key where key: "verifying_key keys d = Ok key"
    by (auto simp: verify_decision_def elim: result_bind.elims)
  then show "signable d"
    by (auto simp: verifying_key_def signable_def split: option.splits if_splits elim!: result_bind.elims map_err.elims)
  note assms [unfolded verify_decision_def key result_bind.simps]
  then show "sd_organization_id d = organization" "sd_profile_id d = profile" "sd_action d = action"
    "now < sd_expires_at d" "sd_issued_at d \<le> sd_expires_at d"
    "sd_expires_at d - sd_issued_at d \<le> MAX_DECISION_TTL_SECONDS"
    "sd_issued_at d \<le> saturating_add now MAX_CLOCK_SKEW_SECONDS"
    "\<exists>key signature. vk_verify keys key (canonical_decision (vk_show_id keys) d) signature"
    by (auto split: if_splits option.splits)
qed

text \<open>Whichever way the answer came, an allowed action rests on a verified decision.\<close>

lemma authorize_verified:
  assumes "signed_decisions_enabled keys" and "governing_organization profile svc = Some organization"
    and "authorize_profile keys w reply meanwhile now profile action svc = (Ok (), svc')"
  shows "\<exists>d. verify_decision keys d organization profile action now = Ok () \<and> sd_allowed d"
proof -
  have cached: "\<exists>d. verify_decision keys d organization profile action now = Ok () \<and> sd_allowed d"
    if "cached_result keys organization profile action now s = Ok ()" for s
  proof (cases "map_of (cs_cached_decisions s) (organization, profile, action)")
    case (Some d)
    with that assms(1) show ?thesis
      by (cases "verify_decision keys d organization profile action now")
        (auto simp: cached_result_def decision_result_def split: if_splits)
  qed (use that assms(1) in \<open>simp add: cached_result_def\<close>)
  have online: "\<exists>d. verify_decision keys d organization profile action now = Ok () \<and> sd_allowed d"
    if "authorize_online keys w reply organization profile action now s = (Some True, s')" for s s'
    using that assms(1) by (auto simp: authorize_online_def split: policy_reply.splits if_splits elim!: is_ok.elims)
  from assms(3) show ?thesis
    unfolding authorize_profile_def assms(2) option.case
    by (auto simp: decision_result_def split: option.splits prod.splits if_splits dest: cached online)
qed

text \<open>
  C9. Nothing is allowed without the organisation's word. In a build that has a key to verify
  decisions with, an action on a governed profile is permitted, online or from the cache, only when the
  authority issued a decision that allows this very action on this very profile for this
  organisation, and that decision has not expired and was made to last five minutes at most. The
  signature scheme is assumed unforgeable: what it accepts is the text of an issued decision.
  (A development build without any key takes the service's bare yes or no.)
\<close>

theorem authorized_only_when_issued:
  assumes "signed_decisions_enabled keys"
    and "inj (vk_show_id keys)" and "\<And>i. NL \<notin> set (vk_show_id keys i)"
    and "\<And>key text signature. vk_verify keys key text signature \<Longrightarrow>
      \<exists>d. issued d \<and> signable d \<and> text = canonical_decision (vk_show_id keys) d"
    and "governing_organization profile svc = Some organization"
    and "authorize_profile keys w reply meanwhile now profile action svc = (Ok (), svc')"
  shows "\<exists>d. issued d \<and> sd_organization_id d = organization \<and> sd_profile_id d = profile \<and> sd_action d = action
    \<and> sd_allowed d \<and> now < sd_expires_at d \<and> sd_expires_at d - sd_issued_at d \<le> MAX_DECISION_TTL_SECONDS
    \<and> sd_issued_at d \<le> saturating_add now MAX_CLOCK_SKEW_SECONDS"
proof -
  from authorize_verified [OF assms(1,5,6)] obtain e
    where e: "verify_decision keys e organization profile action now = Ok ()" "sd_allowed e" by blast
  note v = verified_decision [OF e(1)]
  from v(9) assms(4) obtain d where d: "issued d" "signable d"
    "canonical_decision (vk_show_id keys) e = canonical_decision (vk_show_id keys) d" by blast
  have "same_decision e d"
    using canonical_decision_inject [OF d(3) v(8) d(2) assms(2,3)] by simp
  with d(1) v e(2) show ?thesis unfolding same_decision_def by metis
qed

section \<open>What survives a restart\<close>

lemma insert_assignments_distinct:
  "distinct (map fst m @ ps) \<Longrightarrow> insert_assignments organization ps m = Ok (m @ map (\<lambda>p. (p, organization)) ps)"
proof (induction ps arbitrary: m)
  case (Cons p ps)
  then have "map_of m p = None" by (simp add: map_of_eq_None_iff)
  with Cons show ?case by simp
qed simp

definition assignment_pairs :: "persisted_policy_assignment \<Rightarrow> (uuid \<times> uuid) list" where
  "assignment_pairs a = map (\<lambda>p. (p, pa_organization_id a)) (pa_profile_ids a)"

lemma restore_assignments_distinct:
  "distinct (map fst (m @ concat (map assignment_pairs as))) \<Longrightarrow>
    filter pa_manage_all_profiles as = (case managed' of None \<Rightarrow> [] | Some org \<Rightarrow> [a]) \<Longrightarrow>
    (managed' \<noteq> None \<Longrightarrow> managed = None \<and> pa_organization_id a = the managed') \<Longrightarrow>
    restore_assignments as m managed = Ok (m @ concat (map assignment_pairs as), if managed' = None then managed else managed')"
proof (induction as arbitrary: m managed managed')
  case (Cons b as)
  let ?m = "m @ assignment_pairs b"
  have m: "insert_assignments (pa_organization_id b) (pa_profile_ids b) m = Ok ?m"
  proof -
    have "distinct (map fst m @ pa_profile_ids b)"
      using Cons.prems(1) by (auto simp: assignment_pairs_def comp_def)
    from insert_assignments_distinct [OF this] show ?thesis by (simp add: assignment_pairs_def)
  qed
  show ?case
  proof (cases "pa_manage_all_profiles b")
    case True
    with Cons.prems(2,3) have managed': "managed' = Some (pa_organization_id b)" "managed = None"
      "filter pa_manage_all_profiles as = []"
      by (auto split: option.splits)
    from Cons.IH [of ?m None "Some (pa_organization_id b)"] Cons.prems(1) managed' True m show ?thesis
      by simp
  next
    case False
    with Cons.IH [of ?m managed' managed] Cons.prems m show ?thesis by simp
  qed
qed (auto split: option.splits)

lemma mset_grouped:
  "distinct ks \<Longrightarrow> snd ` set xs \<subseteq> set ks \<Longrightarrow> mset (concat (map (\<lambda>k. filter (\<lambda>x. snd x = k) xs) ks)) = mset xs"
proof (induction ks arbitrary: xs)
  case (Cons k ks)
  let ?rest = "filter (\<lambda>x. snd x \<noteq> k) xs"
  have "filter (\<lambda>x. snd x = j) ?rest = filter (\<lambda>x. snd x = j) xs" if "j \<in> set ks" for j
    using that Cons.prems(1) by (auto intro: filter_cong)
  then have "concat (map (\<lambda>j. filter (\<lambda>x. snd x = j) xs) ks) = concat (map (\<lambda>j. filter (\<lambda>x. snd x = j) ?rest) ks)"
    by (metis (no_types, lifting) map_cong)
  moreover have "snd ` set ?rest \<subseteq> set ks" using Cons.prems(2) by auto
  ultimately show ?case
    using Cons.IH [of ?rest] Cons.prems(1) mset_filter [of "\<lambda>x. snd x = k" xs]
      multiset_partition [of "mset xs" "\<lambda>x. snd x = k"]
    by (simp del: mset_filter add: mset_filter [symmetric])
qed simp

lemma filter_the_one: "distinct xs \<Longrightarrow> a \<in> set xs \<Longrightarrow> filter (\<lambda>x. a = x) xs = [a]"
  by (induction xs) (auto simp: filter_empty_conv)

lemma mset_sort_pairs:
  "mset (map (\<lambda>p. (p, k)) (sort (map fst (filter (\<lambda>x. snd x = k) xs)))) = mset (filter (\<lambda>x. snd x = k) xs)"
proof -
  have "map (\<lambda>p. (p, k)) (map fst (filter (\<lambda>x. snd x = k) xs)) = filter (\<lambda>x. snd x = k) xs"
    by (auto simp: comp_def intro!: map_idI)
  then show ?thesis by (metis mset_map mset_sort)
qed

text \<open>
  C15. What is written is what is read back: restoring the written assignments yields the same
  organisation for every profile and the same managing organisation, provided the managing
  organisation has at least one profile.
\<close>

theorem policy_state_roundtrip:
  assumes "distinct (map fst assignments)" and "length assignments \<le> MAX_MANAGED_PROFILES"
    and "\<And>org. managed = Some org \<Longrightarrow> org \<in> snd ` set assignments"
  shows "\<exists>m. validate_policy_state (persisted_state assignments managed cached) = Ok (m, managed)
    \<and> map_of m = map_of assignments"
proof -
  define orgs where "orgs = sort (remdups (map snd assignments))"
  define entry where "entry org = \<lparr>pa_organization_id = org,
      pa_profile_ids = sort (map fst (filter (\<lambda>x. snd x = org) assignments)),
      pa_manage_all_profiles = (managed = Some org)\<rparr>" for org
  let ?as = "map entry orgs" and ?m = "concat (map assignment_pairs (map entry orgs))"
  have written: "pp_assignments (persisted_state assignments managed cached) = ?as"
    "pp_version (persisted_state assignments managed cached) = POLICY_STATE_VERSION"
    by (simp_all add: persisted_state_def orgs_def entry_def case_prod_unfold)
  have orgs: "distinct orgs" "set orgs = snd ` set assignments" by (simp_all add: orgs_def)
  have "mset (concat (map (\<lambda>k. assignment_pairs (entry k)) ks))
      = mset (concat (map (\<lambda>k. filter (\<lambda>x. snd x = k) assignments) ks))" for ks
    using mset_sort_pairs [of _ assignments]
    by (induction ks) (simp_all add: assignment_pairs_def entry_def del: mset_map mset_filter)
  moreover have "mset (concat (map (\<lambda>k. filter (\<lambda>x. snd x = k) assignments) orgs)) = mset assignments"
    using orgs by (intro mset_grouped) simp_all
  ultimately have m: "mset ?m = mset assignments" by (simp add: comp_def)
  then have same: "set ?m = set assignments" "distinct (map fst ?m)" "length ?m = length assignments"
    using assms(1) by (metis set_mset_mset, metis mset_map distinct_count_atmost_1 mset_eq_imp_distinct_iff, metis size_mset)
  have flag: "filter pa_manage_all_profiles ?as = (case managed of None \<Rightarrow> [] | Some org \<Rightarrow> [entry org])"
    using assms(3) filter_the_one [OF orgs(1)] orgs(2)
    by (cases managed) (simp_all add: filter_map comp_def entry_def)
  have "restore_assignments ?as [] None = Ok (?m, managed)"
    using restore_assignments_distinct [where m = "[]" and as = ?as and managed' = managed
        and a = "entry (the managed)" and managed = None] same(2) flag
    by (cases managed) (simp_all add: entry_def)
  moreover have "sum_list (map (length \<circ> pa_profile_ids) ?as) = length ?m"
    by (simp add: length_concat comp_def assignment_pairs_def)
  ultimately have "validate_policy_state (persisted_state assignments managed cached) = Ok (?m, managed)"
    using same(3) assms(2) by (simp add: validate_policy_state_def written)
  moreover have "map_of ?m = map_of assignments"
    using map_of_inject_set [OF same(2) assms(1)] same(1) by simp
  ultimately show ?thesis by blast
qed

theorem policy_state_roundtrip_witness:
  "\<exists>m. validate_policy_state (persisted_state [(3, 9), (1, 9), (2, 8)] (Some 9) []) = Ok (m, Some 9)
    \<and> map_of m = map_of [(3, 9), (1, 9), (2, 8)]"
  by (rule policy_state_roundtrip) (auto simp: MAX_MANAGED_PROFILES_def)

text \<open>
  C16. The proviso matters. However a managed installation got into its state, once its profiles have
  been reconciled with the list of those that exist, the organisation governs every profile,
  listed or not; and after a restart it still does - unless the list was empty. Then the file no
  longer names the organisation: nobody governs any profile, and every action on every later
  one is allowed.
\<close>

theorem management_lost_on_restart:
  assumes "cs_managed_organization svc = Some organization"
    and "length (cs_cached_decisions svc) \<le> MAX_CACHED_DECISIONS"
    and "reconcile_profiles w ids svc = (Ok (), reconciled)"
  shows "\<exists>restarted. load_policy keys now (new_policy_service (cs_file reconciled)) = (Ok (), restarted)
    \<and> (\<forall>q. governing_organization q reconciled = Some organization
         \<and> governing_organization q restarted = (if ids = [] then None else Some organization))
    \<and> (ids = [] \<longrightarrow> (\<forall>w' reply meanwhile now' q action.
         authorize_profile keys w' reply meanwhile now' q action restarted = (Ok (), restarted)))"
proof -
  let ?pairs = "map (\<lambda>p. (p, organization)) ids"
  let ?cached = "filter (\<lambda>(key, d). fst (snd key) \<in> set ids) (cs_cached_decisions svc)"
  have ids: "distinct ids" "length ids \<le> MAX_MANAGED_PROFILES"
    using assms(3) by (auto simp: reconcile_profiles_def validate_profile_ids_allow_empty_def card_distinct
        split: if_splits)
  have saved: "cs_file reconciled = Contents (persisted_state ?pairs (Some organization) ?cached)"
    "cs_assignments reconciled = ?pairs" "cs_managed_organization reconciled = Some organization"
    using assms(1,3) save_atomic_cases [of w "persisted_state ?pairs (Some organization) ?cached" "cs_file svc"]
    by (auto simp: reconcile_profiles_def save_policy_def split: result.splits)
  have orgs: "remdups (map snd ?pairs) = (if ids = [] then [] else [organization])"
    by (induction ids) (auto simp: comp_def image_constant_conv)
  have entry: "filter (\<lambda>(p, org). org = organization) ?pairs = ?pairs" by (induction ids) simp_all
  have state: "pp_assignments (persisted_state ?pairs (Some organization) ?cached) =
      (if ids = [] then [] else [\<lparr>pa_organization_id = organization, pa_profile_ids = sort ids,
         pa_manage_all_profiles = True\<rparr>])"
    unfolding persisted_state_def persisted_policy_state.simps orgs entry by (simp add: comp_def)
  have "insert_assignments organization (sort ids) [] = Ok (map (\<lambda>p. (p, organization)) (sort ids))"
    using insert_assignments_distinct [of "[]" "sort ids" organization] ids(1) by simp
  then have valid: "validate_policy_state (persisted_state ?pairs (Some organization) ?cached) =
      Ok (map (\<lambda>p. (p, organization)) (sort ids), if ids = [] then None else Some organization)"
    using ids(2) by (simp add: validate_policy_state_def state, simp add: persisted_state_def POLICY_STATE_VERSION_def)
  have "length (pp_cached_decisions (persisted_state ?pairs (Some organization) ?cached)) \<le> MAX_CACHED_DECISIONS"
    using order_trans [OF length_filter_le assms(2)] by (simp add: persisted_state_def)
  then obtain cached where
    "valid_cached_decisions keys now (pp_cached_decisions (persisted_state ?pairs (Some organization) ?cached)) = Ok cached"
    by (cases "signed_decisions_enabled keys") (auto simp: valid_cached_decisions_def)
  with valid have load: "load_policy keys now (new_policy_service (cs_file reconciled)) =
      (Ok (), (new_policy_service (cs_file reconciled))\<lparr>cs_assignments := map (\<lambda>p. (p, organization)) (sort ids),
         cs_managed_organization := (if ids = [] then None else Some organization), cs_cached_decisions := cached\<rparr>)"
    by (simp add: load_policy_def new_policy_service_def saved(1))
  let ?restarted = "(new_policy_service (cs_file reconciled))\<lparr>cs_assignments := map (\<lambda>p. (p, organization)) (sort ids),
         cs_managed_organization := (if ids = [] then None else Some organization), cs_cached_decisions := cached\<rparr>"
  have governed: "case map_of (map (\<lambda>p. (p, organization)) qs) q of Some org \<Rightarrow> org = organization | None \<Rightarrow> True" for qs q
    by (induction qs) auto
  have "governing_organization q reconciled = Some organization
      \<and> governing_organization q ?restarted = (if ids = [] then None else Some organization)" for q
    using governed [of ids q] governed [of "sort ids" q]
    by (auto simp: governing_organization_def saved split: option.splits)
  moreover have "authorize_profile keys w' reply meanwhile now' q action ?restarted = (Ok (), ?restarted)"
    if "ids = []" for w' reply meanwhile now' q action
  proof -
    have "governing_organization q ?restarted = None"
      using calculation [of q] that by (metis (no_types, lifting))
    then show ?thesis unfolding authorize_profile_def by (simp only: option.case)
  qed
  ultimately show ?thesis by (intro exI [of _ ?restarted] conjI load) blast+
qed

section \<open>A concrete authority\<close>

definition demo_decision :: signed_policy_decision where
  "demo_decision = \<lparr>sd_version = 1, sd_key_id = None, sd_organization_id = 9, sd_profile_id = 3,
     sd_action = ActionReadFiles, sd_allowed = True, sd_issued_at = 1000, sd_expires_at = 1200, sd_signature = ''s''\<rparr>"

definition demo_keys :: "nat policy_keys" where
  "demo_keys = \<lparr>vk_legacy = Some 5, vk_keys = [],
     vk_verify = (\<lambda>_ text _. text = canonical_decision (\<lambda>i. nat_digits (unat i)) demo_decision),
     vk_base64 = Some, vk_show_id = (\<lambda>i. nat_digits (unat i))\<rparr>"

definition demo_managed :: cloud_policy_service where
  "demo_managed = (new_policy_service Missing)\<lparr>cs_assignments := [(3, 9)], cs_managed_organization := Some 9,
     cs_cached_decisions := [((9, 3, ActionReadFiles), demo_decision)]\<rparr>"

lemma management_lost_on_restart_witness:
  "let managed = (new_policy_service Missing)\<lparr>cs_assignments := [(3, 9)], cs_managed_organization := Some 9\<rparr>;
       emptied = snd (reconcile_profiles all_steps_ok [] managed)
   in \<exists>restarted. load_policy demo_keys 0 (new_policy_service (cs_file emptied)) = (Ok (), restarted)
        \<and> governing_organization 4 emptied = Some 9 \<and> governing_organization 4 restarted = None"
proof -
  let ?managed = "(new_policy_service Missing)\<lparr>cs_assignments := [(3, 9)], cs_managed_organization := Some 9\<rparr>"
  have "reconcile_profiles all_steps_ok [] ?managed = (Ok (), snd (reconcile_profiles all_steps_ok [] ?managed))"
    by (simp add: reconcile_profiles_def validate_profile_ids_allow_empty_def save_policy_def new_policy_service_def)
  from management_lost_on_restart [OF _ _ this, of 9 demo_keys 0] obtain restarted where
    "load_policy demo_keys 0 (new_policy_service (cs_file (snd (reconcile_profiles all_steps_ok [] ?managed)))) = (Ok (), restarted)"
    "\<forall>q. governing_organization q (snd (reconcile_profiles all_steps_ok [] ?managed)) = Some 9
       \<and> governing_organization q restarted = None"
    by (auto simp: new_policy_service_def)
  then show ?thesis unfolding Let_def by blast
qed

theorem authorized_only_when_issued_witness:
  "authorize_profile demo_keys all_steps_ok NoReply (\<lambda>s. s) 1100 3 ActionReadFiles demo_managed = (Ok (), demo_managed)
   \<and> (\<exists>d. d = demo_decision \<and> sd_organization_id d = 9 \<and> sd_profile_id d = 3 \<and> sd_allowed d)"
proof -
  have enabled: "signed_decisions_enabled demo_keys" by (simp add: signed_decisions_enabled_def demo_keys_def)
  have ids: "inj (vk_show_id demo_keys)" "\<And>i. NL \<notin> set (vk_show_id demo_keys i)"
    by (simp_all add: demo_keys_def inj_def word_unat_eq_iff nat_digits_free)
  have unforgeable: "vk_verify demo_keys key msg sig \<Longrightarrow>
      \<exists>d. d = demo_decision \<and> signable d \<and> msg = canonical_decision (vk_show_id demo_keys) d" for key msg sig
    by (simp add: demo_keys_def signable_def demo_decision_def)
  have governed: "governing_organization 3 demo_managed = Some 9"
    by (simp add: governing_organization_def demo_managed_def)
  have verified: "verify_decision demo_keys demo_decision 9 3 ActionReadFiles 1100 = Ok ()"
    by (simp add: verify_decision_def verifying_key_def demo_keys_def)
      (simp add: demo_decision_def MAX_DECISION_TTL_SECONDS_def MAX_CLOCK_SKEW_SECONDS_def saturating_add_def)
  have stored: "cs_credentials demo_managed = []" "sd_allowed demo_decision"
    "map_of (cs_cached_decisions demo_managed) (9, 3, ActionReadFiles) = Some demo_decision"
    by (simp_all add: demo_managed_def new_policy_service_def demo_decision_def)
  have run: "authorize_profile demo_keys all_steps_ok NoReply (\<lambda>s. s) 1100 3 ActionReadFiles demo_managed = (Ok (), demo_managed)"
    by (simp add: authorize_profile_def governed cached_result_def enabled stored verified decision_result_def)
  have "\<exists>d. d = demo_decision \<and> sd_organization_id d = 9 \<and> sd_profile_id d = 3 \<and> sd_action d = ActionReadFiles
      \<and> sd_allowed d \<and> 1100 < sd_expires_at d \<and> sd_expires_at d - sd_issued_at d \<le> MAX_DECISION_TTL_SECONDS
      \<and> sd_issued_at d \<le> saturating_add 1100 MAX_CLOCK_SKEW_SECONDS"
    by (rule authorized_only_when_issued [OF enabled ids _ governed run]) (rule unforgeable)
  with run show ?thesis by simp
qed

end
