(* ===== verification/Transfer_Commands.thy ===== *)
theory Transfer_Commands
  imports Transfer_Files Cloud_Policy
begin

text \<open>
  The commands behind the file browser's transfers (commands/sftp.rs, from \<open>sftp_select_upload_files\<close>
  to \<open>sftp_transfer_retry\<close>): they put together the grants and the history of \<open>Transfer_Grants\<close>, the
  queue of \<open>Transfer_Queue\<close> and the organisation's policy of \<open>Cloud_Policy\<close>. The sessions themselves,
  the policy's answer and what the user picks in a dialog are arguments.
\<close>

section \<open>Commands\<close>

record session_env =
  se_bastion :: "uuid \<Rightarrow> bool"
  se_bastion_profile :: "uuid \<Rightarrow> (uuid, app_error) result"
  se_profile :: "uuid \<Rightarrow> (uuid, app_error) result"
  se_bastion_sftp :: "uuid \<Rightarrow> (uuid, app_error) result"
  se_sftp :: "uuid \<Rightarrow> (uuid, app_error) result"
  se_policy :: "uuid \<Rightarrow> cloud_policy_action \<Rightarrow> (unit, app_error) result"

definition profile_id_for_session :: "session_env \<Rightarrow> uuid \<Rightarrow> (uuid, app_error) result" where
  "profile_id_for_session env session =
     (if se_bastion env session then se_bastion_profile env session else se_profile env session)"

definition authorize_session :: "session_env \<Rightarrow> uuid \<Rightarrow> cloud_policy_action \<Rightarrow> (unit, app_error) result" where
  "authorize_session env session action =
     result_bind (profile_id_for_session env session) (\<lambda>profile. se_policy env profile action)"

definition sftp_channel_of :: "session_env \<Rightarrow> uuid \<Rightarrow> (uuid, app_error) result" where
  "sftp_channel_of env session =
     (if se_bastion env session then se_bastion_sftp env session else se_sftp env session)"

record transfer_app =
  ta_grants :: grant_service
  ta_history :: directory_history
  ta_queue :: transfer_queue

text \<open>The paths picked in the dialog, \<open>None\<close> for one that is not a local path.\<close>

fun grant_picked ::
  "(local_path \<Rightarrow> (bool \<times> u64) option) \<Rightarrow> (uuid \<times> local_path option) list \<Rightarrow> grant_service \<Rightarrow>
   (local_file_selection list, app_error) result \<times> grant_service" where
  "grant_picked metadata [] svc = (Ok [], svc)"
| "grant_picked metadata ((_, None) # ps) svc = (Err (File LocalFileInvalid), svc)"
| "grant_picked metadata ((new_id, Some p) # ps) svc =
     (case grant_upload metadata new_id p svc of
        (Ok selection, svc) \<Rightarrow>
          (case grant_picked metadata ps svc of
             (Ok selections, svc) \<Rightarrow> (Ok (selection # selections), svc)
           | failed \<Rightarrow> failed)
      | (Err e, svc) \<Rightarrow> (Err e, svc)
      | (Panic, svc) \<Rightarrow> (Panic, svc))"

text \<open>The directory found in the history only decides where the dialog opens.\<close>

definition select_upload_files ::
  "session_env \<Rightarrow> (local_path \<Rightarrow> (bool \<times> u64) option) \<Rightarrow> (nat \<Rightarrow> uuid) \<Rightarrow> local_path option list option \<Rightarrow>
   uuid \<Rightarrow> string \<Rightarrow> transfer_app \<Rightarrow> (local_file_selection list, app_error) result \<times> transfer_app" where
  "select_upload_files env metadata ids picked session directory app =
     (case result_bind (profile_id_for_session env session)
         (\<lambda>profile. find_directory profile directory (ta_history app)) of
        Ok _ \<Rightarrow>
          (case picked of
             None \<Rightarrow> (Ok [], app)
           | Some paths \<Rightarrow>
               (case grant_picked metadata (map (\<lambda>(k, p). (ids k, p)) (enumerate 0 paths)) (ta_grants app) of
                  (r, svc) \<Rightarrow> (r, app\<lparr>ta_grants := svc\<rparr>)))
      | Err e \<Rightarrow> (Err e, app)
      | Panic \<Rightarrow> (Panic, app))"

definition select_download_target ::
  "(local_path \<Rightarrow> bool) \<Rightarrow> uuid \<Rightarrow> local_path option option \<Rightarrow> string \<Rightarrow> transfer_app \<Rightarrow>
   (local_file_selection option, app_error) result \<times> transfer_app" where
  "select_download_target is_dir new_id picked suggested app =
     (case picked of
        None \<Rightarrow> (Ok None, app)
      | Some None \<Rightarrow> (Err (File LocalFileInvalid), app)
      | Some (Some p) \<Rightarrow>
          (case grant_download is_dir new_id p suggested (ta_grants app) of
             (Ok selection, svc) \<Rightarrow> (Ok (Some selection), app\<lparr>ta_grants := svc\<rparr>)
           | (Err e, svc) \<Rightarrow> (Err e, app\<lparr>ta_grants := svc\<rparr>)
           | (Panic, svc) \<Rightarrow> (Panic, app\<lparr>ta_grants := svc\<rparr>)))"

text \<open>The grant is used up before anything else can fail. A failure to write the history is only
  logged.\<close>

definition start_upload ::
  "session_env \<Rightarrow> persist_steps \<Rightarrow> u64 \<Rightarrow> uuid \<Rightarrow> (string, app_error) result \<Rightarrow> uuid \<Rightarrow> uuid \<Rightarrow> string \<Rightarrow> bool \<Rightarrow>
   transfer_app \<Rightarrow> (transfer_job, app_error) result \<times> transfer_app" where
  "start_upload env w now new_id resolved session grant_id directory overwrite app =
     (case authorize_session env session ActionWriteFiles of
        Err e \<Rightarrow> (Err e, app)
      | Panic \<Rightarrow> (Panic, app)
      | Ok _ \<Rightarrow>
          (case consume_grant grant_id UploadSource (ta_grants app) of
             (consumed, svc) \<Rightarrow>
               (let app = app\<lparr>ta_grants := svc\<rparr> in
                case result_bind consumed (\<lambda>grant. result_bind (profile_id_for_session env session) (\<lambda>profile.
                       result_bind (sftp_channel_of env session) (\<lambda>sftp. Ok (grant, profile, sftp)))) of
                  Err e \<Rightarrow> (Err e, app)
                | Panic \<Rightarrow> (Panic, app)
                | Ok (grant, profile, sftp) \<Rightarrow>
                    (case enqueue_upload new_id session sftp grant resolved overwrite (ta_queue app) of
                       (r, q) \<Rightarrow>
                         (r, app\<lparr>ta_queue := q,
                                 ta_history := (case (r, path_parent (fg_path grant)) of
                                    (Ok _, Some local) \<Rightarrow>
                                      snd (remember_directory w now profile directory local (ta_history app))
                                  | _ \<Rightarrow> ta_history app)\<rparr>)))))"

definition start_download ::
  "session_env \<Rightarrow> uuid \<Rightarrow> (string \<times> u64, app_error) result \<Rightarrow> uuid \<Rightarrow> uuid \<Rightarrow>
   transfer_app \<Rightarrow> (transfer_job, app_error) result \<times> transfer_app" where
  "start_download env new_id source session grant_id app =
     (case authorize_session env session ActionReadFiles of
        Err e \<Rightarrow> (Err e, app)
      | Panic \<Rightarrow> (Panic, app)
      | Ok _ \<Rightarrow>
          (case consume_grant grant_id DownloadTarget (ta_grants app) of
             (consumed, svc) \<Rightarrow>
               (let app = app\<lparr>ta_grants := svc\<rparr> in
                case result_bind consumed (\<lambda>grant. result_bind (sftp_channel_of env session) (\<lambda>sftp. Ok (grant, sftp))) of
                  Err e \<Rightarrow> (Err e, app)
                | Panic \<Rightarrow> (Panic, app)
                | Ok (grant, sftp) \<Rightarrow>
                    (case enqueue_download new_id session sftp grant source (ta_queue app) of
                       (r, q) \<Rightarrow> (r, app\<lparr>ta_queue := q\<rparr>)))))"

definition transfer_list :: "session_env \<Rightarrow> uuid \<Rightarrow> transfer_app \<Rightarrow> (transfer_job list, app_error) result" where
  "transfer_list env session app =
     result_bind (profile_id_for_session env session) (\<lambda>_. Ok (list_for_session session (ta_queue app)))"

definition transfer_cancel ::
  "session_env \<Rightarrow> uuid \<Rightarrow> uuid \<Rightarrow> transfer_app \<Rightarrow> (unit, app_error) result \<times> transfer_app" where
  "transfer_cancel env session job_id app =
     (case profile_id_for_session env session of
        Err e \<Rightarrow> (Err e, app)
      | Panic \<Rightarrow> (Panic, app)
      | Ok _ \<Rightarrow>
          if \<not> list_ex (\<lambda>job. tj_id job = job_id) (list_for_session session (ta_queue app))
          then (Err (File TransferNotFound), app)
          else (case cancel_job job_id (ta_queue app) of (r, q) \<Rightarrow> (r, app\<lparr>ta_queue := q\<rparr>)))"

fun direction_action :: "transfer_direction \<Rightarrow> cloud_policy_action" where
  "direction_action UploadDirection = ActionWriteFiles"
| "direction_action DownloadDirection = ActionReadFiles"

definition transfer_retry ::
  "session_env \<Rightarrow> uuid \<Rightarrow> uuid \<Rightarrow> bool \<Rightarrow> transfer_app \<Rightarrow> (transfer_job, app_error) result \<times> transfer_app" where
  "transfer_retry env session job_id overwrite app =
     (case find (\<lambda>job. tj_id job = job_id) (list_for_session session (ta_queue app)) of
        None \<Rightarrow> (Err (File TransferNotFound), app)
      | Some job \<Rightarrow>
          (case authorize_session env (tj_session_id job) (direction_action (tj_direction job)) of
             Err e \<Rightarrow> (Err e, app)
           | Panic \<Rightarrow> (Panic, app)
           | Ok _ \<Rightarrow> (case retry_job job_id overwrite (ta_queue app) of (r, q) \<Rightarrow> (r, app\<lparr>ta_queue := q\<rparr>))))"

section \<open>What happened so far\<close>

text \<open>
  The application with what it may be held to: the paths the user picked or dropped, the
  identifiers of all grants made, the transfers the policy allowed, and which grant each job was
  started from.
\<close>

record transfer_log =
  tl_app :: transfer_app
  tl_picked :: "(local_file_grant_kind \<times> local_path) set"
  tl_ids :: "uuid set"
  tl_allowed :: "(uuid \<times> cloud_policy_action) set"
  tl_started :: "(uuid \<times> uuid) list"

definition fresh_transfer_log :: "directory_history \<Rightarrow> transfer_log" where
  "fresh_transfer_log history = \<lparr>tl_app = \<lparr>ta_grants = new_grant_service, ta_history = history, ta_queue = new_queue\<rparr>,
     tl_picked = {}, tl_ids = {}, tl_allowed = {}, tl_started = []\<rparr>"

definition started_by :: "uuid \<Rightarrow> (transfer_job, app_error) result \<Rightarrow> (uuid \<times> uuid) list" where
  "started_by grant_id r = (case r of Ok job \<Rightarrow> [(grant_id, tj_id job)] | _ \<Rightarrow> [])"

definition allowed_now :: "session_env \<Rightarrow> uuid \<Rightarrow> cloud_policy_action \<Rightarrow> (uuid \<times> cloud_policy_action) set" where
  "allowed_now env session action = (if authorize_session env session action = Ok () then {(session, action)} else {})"

inductive transfer_step :: "transfer_log \<Rightarrow> transfer_log \<Rightarrow> bool" where
  files_picked: "(\<forall>k. ids k \<notin> tl_ids l) \<Longrightarrow>
     select_upload_files env metadata ids (Some paths) session directory (tl_app l) = (r, app) \<Longrightarrow>
     transfer_step l (l\<lparr>tl_app := app, tl_ids := tl_ids l \<union> range ids,
       tl_picked := tl_picked l \<union> {(UploadSource, p) | p. Some p \<in> set paths}\<rparr>)"
| target_picked: "i \<notin> tl_ids l \<Longrightarrow>
     select_download_target is_dir i (Some (Some p)) suggested (tl_app l) = (r, app) \<Longrightarrow>
     transfer_step l (l\<lparr>tl_app := app, tl_ids := insert i (tl_ids l),
       tl_picked := insert (DownloadTarget, p) (tl_picked l)\<rparr>)"
| files_dropped: "transfer_step l
     (l\<lparr>tl_app := (tl_app l)\<lparr>ta_grants := stage_upload_drop paths (ta_grants (tl_app l))\<rparr>,
        tl_picked := tl_picked l \<union> {(UploadSource, p) | p. p \<in> set paths}\<rparr>)"
| drop_accepted: "(\<forall>k. ids k \<notin> tl_ids l) \<Longrightarrow>
     accept_latest_upload_drop metadata ids None (ta_grants (tl_app l)) = (r, svc) \<Longrightarrow>
     transfer_step l (l\<lparr>tl_app := (tl_app l)\<lparr>ta_grants := svc\<rparr>, tl_ids := tl_ids l \<union> range ids\<rparr>)"
| upload_started: "job_record (ta_queue (tl_app l)) new_id = None \<Longrightarrow>
     start_upload env w now new_id resolved session grant_id directory overwrite (tl_app l) = (r, app) \<Longrightarrow>
     transfer_step l (l\<lparr>tl_app := app, tl_allowed := tl_allowed l \<union> allowed_now env session ActionWriteFiles,
       tl_started := started_by grant_id r @ tl_started l\<rparr>)"
| download_started: "job_record (ta_queue (tl_app l)) new_id = None \<Longrightarrow>
     start_download env new_id source session grant_id (tl_app l) = (r, app) \<Longrightarrow>
     transfer_step l (l\<lparr>tl_app := app, tl_allowed := tl_allowed l \<union> allowed_now env session ActionReadFiles,
       tl_started := started_by grant_id r @ tl_started l\<rparr>)"
| cancelled_by_user: "transfer_cancel env session i (tl_app l) = (r, app) \<Longrightarrow> transfer_step l (l\<lparr>tl_app := app\<rparr>)"
| retried_by_user: "transfer_retry env session i overwrite (tl_app l) = (r, app) \<Longrightarrow> transfer_step l (l\<lparr>tl_app := app\<rparr>)"
| session_closed: "transfer_step l
     (l\<lparr>tl_app := (tl_app l)\<lparr>ta_queue := cancel_session_jobs session (ta_queue (tl_app l))\<rparr>\<rparr>)"
| task_moved: "task_step (ta_queue (tl_app l)) q \<Longrightarrow> transfer_step l (l\<lparr>tl_app := (tl_app l)\<lparr>ta_queue := q\<rparr>\<rparr>)"

section \<open>Jobs keep their origin\<close>

fun picked_as :: "transfer_spec \<Rightarrow> local_file_grant_kind \<times> local_path" where
  "picked_as (UploadSpec p _ _) = (UploadSource, p)"
| "picked_as (DownloadSpec _ p) = (DownloadTarget, p)"

fun grant_direction :: "local_file_grant_kind \<Rightarrow> transfer_direction" where
  "grant_direction UploadSource = UploadDirection"
| "grant_direction DownloadTarget = DownloadDirection"

definition origin :: "transfer_record \<Rightarrow> uuid \<times> transfer_direction \<times> local_file_grant_kind \<times> local_path" where
  "origin r = (tj_session_id (tr_job r), tj_direction (tr_job r), picked_as (tr_spec r))"

definition origins ::
  "transfer_queue \<Rightarrow> uuid \<Rightarrow> (uuid \<times> transfer_direction \<times> local_file_grant_kind \<times> local_path) option" where
  "origins q i = map_option origin (job_record q i)"

lemma origin_with_overwrite [simp]: "picked_as (with_overwrite overwrite spec) = picked_as spec"
  by (cases spec) simp_all

lemma origins_put_record:
  "job_record q i = Some r \<Longrightarrow> origin s = origin r \<Longrightarrow> origins (put_record i s q) = origins q"
  by (auto simp: origins_def)

lemma origins_cong [simp]:
  "origins (replace_task t ts q) = origins q" "origins (spawn_job i q) = origins q"
  "origins (new_flag q) = origins q" "origins (set_flag a q) = origins q"
  by (simp_all add: origins_def fun_eq_iff)

lemma origins_task_step: "task_step q q' \<Longrightarrow> origins q' = origins q"
proof (induction rule: task_step.induct)
  case (begun i q t q')
  then have "origins q' = origins q"
    by (auto simp: begin_job_def set_job_state_def origin_def origins_def fun_eq_iff split: option.splits if_splits)
  then show ?case by simp
next
  case (returned i q q')
  then have "origins q' = origins q"
    by (auto simp: begin_job_def set_job_state_def origin_def origins_def fun_eq_iff split: option.splits if_splits)
  then show ?case by simp
next
  case (progressed i spec a q bytes)
  then show ?case by (auto simp: add_progress_def origin_def origins_def fun_eq_iff Let_def split: option.splits)
next
  case (finished i outcome q)
  then have "origins (finish_job i outcome q) = origins q"
    by (auto simp: finish_job_def origin_def origins_def fun_eq_iff Let_def split: option.splits result.splits)
  then show ?case by simp
qed simp_all

lemma origins_cancel_job: "cancel_job i q = (r, q') \<Longrightarrow> origins q' = origins q"
  by (auto simp: cancel_job_def Let_def set_job_state_def origin_def origins_def fun_eq_iff split: option.splits if_splits)

lemma origins_retry_job: "retry_job i overwrite q = (r, q') \<Longrightarrow> origins q' = origins q"
  by (auto simp: retry_job_def Let_def origin_def origins_def fun_eq_iff split: option.splits if_splits)

lemma origins_cancel_session: "origins (cancel_session_jobs session q) = origins q"
  by (auto simp: cancel_session_jobs_def map_of_map_snd option.map_comp set_job_state_def origin_def origins_def fun_eq_iff
      intro!: option.map_cong0)

lemma origins_enqueue_upload:
  assumes "enqueue_upload i session sftp grant resolved overwrite q = (r, q')"
  shows "case r of
      Ok job \<Rightarrow> tj_id job = i \<and> origins q' = (origins q)(i \<mapsto> (session, UploadDirection, UploadSource, fg_path grant))
    | _ \<Rightarrow> q' = q"
  using assms
  by (auto simp: enqueue_upload_def insert_and_spawn_def queued_job_def origin_def origins_def fun_eq_iff Let_def
      split: result.splits if_splits)

lemma origins_enqueue_download:
  assumes "enqueue_download i session sftp grant source q = (r, q')"
  shows "case r of
      Ok job \<Rightarrow> tj_id job = i \<and> origins q' = (origins q)(i \<mapsto> (session, DownloadDirection, DownloadTarget, fg_path grant))
    | _ \<Rightarrow> q' = q"
  using assms
  by (auto simp: enqueue_download_def insert_and_spawn_def queued_job_def origin_def origins_def fun_eq_iff Let_def
      split: result.splits if_splits)

section \<open>Grants come from picks\<close>

definition adds_grants ::
  "(uuid \<Rightarrow> bool) \<Rightarrow> (local_file_grant_kind \<times> local_path \<Rightarrow> bool) \<Rightarrow> grant_service \<Rightarrow> grant_service \<Rightarrow> bool" where
  "adds_grants I P svc svc' \<longleftrightarrow> gs_drop svc' = gs_drop svc
     \<and> (\<forall>i g. gs_grants svc' i = Some g \<longrightarrow> gs_grants svc i = Some g \<or> I i \<and> P (fg_kind g, fg_path g))"

lemma adds_grants_refl [simp]: "adds_grants I P svc svc"
  by (simp add: adds_grants_def)

lemma adds_grants_trans: "adds_grants I P a b \<Longrightarrow> adds_grants I P b c \<Longrightarrow> adds_grants I P a c"
  unfolding adds_grants_def by metis

lemma grant_upload_adds:
  "grant_upload metadata i p svc = (r, svc') \<Longrightarrow> I i \<Longrightarrow> P (UploadSource, p) \<Longrightarrow> adds_grants I P svc svc'"
  by (auto simp: grant_upload_def insert_grant_def adds_grants_def split: option.splits if_splits result.splits)

lemma grant_download_adds:
  "grant_download is_dir i p suggested svc = (r, svc') \<Longrightarrow> I i \<Longrightarrow> P (DownloadTarget, p) \<Longrightarrow> adds_grants I P svc svc'"
  by (auto simp: grant_download_def insert_grant_def adds_grants_def Let_def split: if_splits)

lemma grant_picked_adds:
  "grant_picked metadata ps svc = (r, svc') \<Longrightarrow> \<forall>(i, p) \<in> set ps. I i \<and> (\<forall>p'. p = Some p' \<longrightarrow> P (UploadSource, p')) \<Longrightarrow>
    adds_grants I P svc svc'"
proof (induction metadata ps svc arbitrary: r rule: grant_picked.induct)
  case (3 metadata i p ps svc)
  obtain r1 svc1 where g: "grant_upload metadata i p svc = (r1, svc1)" by (cases "grant_upload metadata i p svc")
  from grant_upload_adds [OF g, of I P] "3.prems"(2) have first: "adds_grants I P svc svc1" by simp
  show ?case
  proof (cases r1)
    case (Ok s)
    obtain r2 svc2 where rest: "grant_picked metadata ps svc1 = (r2, svc2)" by (cases "grant_picked metadata ps svc1")
    with "3.prems" g Ok have "svc' = svc2" by (auto split: result.splits)
    with "3.IH" [OF g [symmetric] Ok, of r2] rest "3.prems"(2) first show ?thesis
      by (auto intro: adds_grants_trans)
  qed (use "3.prems" g first in auto)
qed auto

lemma grant_dropped_adds:
  "grant_dropped metadata ps svc = (ss, svc') \<Longrightarrow> \<forall>(i, p) \<in> set ps. I i \<and> P (UploadSource, p) \<Longrightarrow>
    adds_grants I P svc svc'"
proof (induction ps arbitrary: svc svc' ss)
  case (Cons x ps)
  obtain i p where x: "x = (i, p)" by (cases x)
  obtain r1 svc1 where g: "grant_upload metadata i p svc = (r1, svc1)" by (cases "grant_upload metadata i p svc")
  obtain ss2 svc2 where rest: "grant_dropped metadata ps svc1 = (ss2, svc2)" by (cases "grant_dropped metadata ps svc1")
  from grant_upload_adds [OF g, of I P] Cons.prems(2) have "adds_grants I P svc svc1" by (simp add: x)
  moreover have "adds_grants I P svc1 svc2" using Cons.IH [OF rest] Cons.prems(2) by simp
  moreover have "svc' = svc2" using Cons.prems(1) g rest by (auto simp: x split: result.splits)
  ultimately show ?case by (auto intro: adds_grants_trans)
qed auto

section \<open>The invariant\<close>

definition transfer_log_ok :: "transfer_log \<Rightarrow> bool" where
  "transfer_log_ok l \<longleftrightarrow>
     (\<forall>i g. gs_grants (ta_grants (tl_app l)) i = Some g \<longrightarrow>
        (fg_kind g, fg_path g) \<in> tl_picked l \<and> i \<in> tl_ids l \<and> i \<notin> fst ` set (tl_started l))
     \<and> (\<forall>ps. gs_drop (ta_grants (tl_app l)) = Some ps \<longrightarrow> (\<forall>p \<in> set ps. (UploadSource, p) \<in> tl_picked l))
     \<and> distinct (map fst (tl_started l)) \<and> distinct (map snd (tl_started l))
     \<and> fst ` set (tl_started l) \<subseteq> tl_ids l
     \<and> snd ` set (tl_started l) = dom (origins (ta_queue (tl_app l)))
     \<and> (\<forall>i s d k p. origins (ta_queue (tl_app l)) i = Some (s, d, k, p) \<longrightarrow>
          (k, p) \<in> tl_picked l \<and> d = grant_direction k \<and> (s, direction_action d) \<in> tl_allowed l)"

lemma transfer_log_grant:
  "transfer_log_ok l \<Longrightarrow> gs_grants (ta_grants (tl_app l)) i = Some g \<Longrightarrow>
    (fg_kind g, fg_path g) \<in> tl_picked l \<and> i \<in> tl_ids l \<and> i \<notin> fst ` set (tl_started l)"
  by (simp add: transfer_log_ok_def)

lemma transfer_log_drop:
  "transfer_log_ok l \<Longrightarrow> gs_drop (ta_grants (tl_app l)) = Some ps \<Longrightarrow> p \<in> set ps \<Longrightarrow> (UploadSource, p) \<in> tl_picked l"
  by (simp add: transfer_log_ok_def)

text \<open>A step that starts nothing: grants are added or used up, jobs keep their origin.\<close>

lemma transfer_log_unstarted:
  assumes "transfer_log_ok l" and "tl_started l' = tl_started l"
    and "tl_ids l \<subseteq> tl_ids l'" and "tl_picked l \<subseteq> tl_picked l'" and "tl_allowed l \<subseteq> tl_allowed l'"
    and "origins (ta_queue (tl_app l')) = origins (ta_queue (tl_app l))"
    and "gs_grants svc = gs_grants (ta_grants (tl_app l))"
    and "\<And>ps p. gs_drop svc = Some ps \<Longrightarrow> p \<in> set ps \<Longrightarrow> (UploadSource, p) \<in> tl_picked l'"
    and "adds_grants (\<lambda>i. i \<in> tl_ids l' - tl_ids l) (\<lambda>x. x \<in> tl_picked l') svc (ta_grants (tl_app l'))"
  shows "transfer_log_ok l'"
proof -
  have new: "(fg_kind g, fg_path g) \<in> tl_picked l' \<and> i \<in> tl_ids l' \<and> i \<notin> fst ` set (tl_started l)"
    if i: "gs_grants (ta_grants (tl_app l')) i = Some g" for i g
  proof -
    from i assms(7,9) have "gs_grants (ta_grants (tl_app l)) i = Some g
        \<or> i \<in> tl_ids l' - tl_ids l \<and> (fg_kind g, fg_path g) \<in> tl_picked l'"
      by (simp add: adds_grants_def)
    then show ?thesis
    proof
      assume "gs_grants (ta_grants (tl_app l)) i = Some g"
      with assms(3,4) transfer_log_grant [OF assms(1) this] show ?thesis by blast
    next
      assume "i \<in> tl_ids l' - tl_ids l \<and> (fg_kind g, fg_path g) \<in> tl_picked l'"
      moreover have "fst ` set (tl_started l) \<subseteq> tl_ids l" using assms(1) by (simp add: transfer_log_ok_def)
      ultimately show ?thesis by blast
    qed
  qed
  have drop: "gs_drop (ta_grants (tl_app l')) = gs_drop svc" using assms(9) by (simp add: adds_grants_def)
  show ?thesis
    unfolding transfer_log_ok_def assms(2,6) drop using assms(1,3,4,5,8) new
    by (intro conjI) (auto simp: transfer_log_ok_def)
qed

text \<open>A step that starts one job: its grant is used up, its policy action was allowed.\<close>

lemma transfer_log_started:
  assumes "transfer_log_ok l" and "tl_started l' = (gid, i) # tl_started l" and "tl_ids l' = tl_ids l"
    and "tl_picked l' = tl_picked l" and "tl_allowed l \<subseteq> tl_allowed l'"
    and "job_record (ta_queue (tl_app l)) i = None"
    and "origins (ta_queue (tl_app l')) = (origins (ta_queue (tl_app l)))(i \<mapsto> (session, grant_direction k, k, p))"
    and "gs_grants (ta_grants (tl_app l)) gid = Some g" and "fg_kind g = k" and "fg_path g = p"
    and "gs_grants (ta_grants (tl_app l')) = (gs_grants (ta_grants (tl_app l)))(gid := None)"
    and "gs_drop (ta_grants (tl_app l')) = gs_drop (ta_grants (tl_app l))"
    and "(session, direction_action (grant_direction k)) \<in> tl_allowed l'"
  shows "transfer_log_ok l'"
proof -
  have g: "(k, p) \<in> tl_picked l" "gid \<in> tl_ids l" "gid \<notin> fst ` set (tl_started l)"
    using assms(1,8,9,10) by (auto simp: transfer_log_ok_def)
  moreover have "i \<notin> snd ` set (tl_started l)"
  proof -
    have "i \<notin> dom (origins (ta_queue (tl_app l)))" by (simp add: domIff origins_def assms(6))
    with assms(1) show ?thesis by (simp add: transfer_log_ok_def)
  qed
  moreover have "(k', p') \<in> tl_picked l \<and> d = grant_direction k' \<and> (s, direction_action d) \<in> tl_allowed l'"
    if "origins (ta_queue (tl_app l')) j = Some (s, d, k', p')" for j s d k' p'
  proof (cases "j = i")
    case True
    with that g(1) assms(13) show ?thesis unfolding assms(7) by auto
  next
    case False
    with that have "origins (ta_queue (tl_app l)) j = Some (s, d, k', p')" unfolding assms(7) by simp
    with assms(1,5) show ?thesis unfolding transfer_log_ok_def by blast
  qed
  moreover have "snd ` set (tl_started l') = dom (origins (ta_queue (tl_app l')))"
    using assms(1) unfolding assms(2,7) transfer_log_ok_def by simp
  ultimately show ?thesis
    using assms(1) unfolding transfer_log_ok_def assms(2,3,4,11,12) by simp
qed

text \<open>Using up a grant.\<close>

lemma consume_grant_adds: "consume_grant i kind svc = (r, svc') \<Longrightarrow> adds_grants I P svc svc'"
  by (auto simp: consume_grant_def adds_grants_def split: option.splits if_splits)

lemma consume_grant_Ok:
  "consume_grant i kind svc = (Ok g, svc') \<Longrightarrow>
    gs_grants svc i = Some g \<and> fg_kind g = kind \<and> gs_grants svc' = (gs_grants svc)(i := None) \<and> gs_drop svc' = gs_drop svc"
  by (auto simp: consume_grant_def split: option.splits if_splits)

lemma start_upload_effect:
  assumes "start_upload env w now new_id resolved session gid directory overwrite app = (r, app')"
  shows "(case r of
      Ok job \<Rightarrow> tj_id job = new_id \<and> authorize_session env session ActionWriteFiles = Ok ()
        \<and> (\<exists>g. gs_grants (ta_grants app) gid = Some g \<and> fg_kind g = UploadSource
          \<and> gs_grants (ta_grants app') = (gs_grants (ta_grants app))(gid := None)
          \<and> gs_drop (ta_grants app') = gs_drop (ta_grants app)
          \<and> origins (ta_queue app') = (origins (ta_queue app))(new_id \<mapsto> (session, UploadDirection, UploadSource, fg_path g)))
    | _ \<Rightarrow> ta_queue app' = ta_queue app) \<and> adds_grants I P (ta_grants app) (ta_grants app')"
proof -
  obtain consumed svc where c: "consume_grant gid UploadSource (ta_grants app) = (consumed, svc)"
    by (cases "consume_grant gid UploadSource (ta_grants app)")
  note adds = consume_grant_adds [OF c, of I P]
  show ?thesis
  proof (cases "authorize_session env session ActionWriteFiles")
    case Ok
    show ?thesis
    proof (cases "result_bind consumed (\<lambda>grant. result_bind (profile_id_for_session env session) (\<lambda>profile.
        result_bind (sftp_channel_of env session) (\<lambda>sftp. Ok (grant, profile, sftp))))")
      case (Ok x)
      then obtain g profile sftp where x: "x = (g, profile, sftp)" and g: "consumed = Ok g"
        by (auto simp: result_simps)
      obtain r1 q where e: "enqueue_upload new_id session sftp g resolved overwrite (ta_queue app) = (r1, q)"
        by (cases "enqueue_upload new_id session sftp g resolved overwrite (ta_queue app)")
      from assms have r: "r = r1" "ta_queue app' = q" "ta_grants app' = svc"
        by (auto simp: start_upload_def \<open>authorize_session env session ActionWriteFiles = Ok _\<close> c Let_def Ok x e)
      from origins_enqueue_upload [OF e] consume_grant_Ok [of gid UploadSource "ta_grants app" g svc] c g adds r
      show ?thesis
        using \<open>authorize_session env session ActionWriteFiles = Ok _\<close> by (cases r1) auto
    qed (use assms Ok c adds in \<open>auto simp: start_upload_def Let_def\<close>)
  qed (use assms in \<open>auto simp: start_upload_def\<close>)
qed

lemma start_download_effect:
  assumes "start_download env new_id source session gid app = (r, app')"
  shows "(case r of
      Ok job \<Rightarrow> tj_id job = new_id \<and> authorize_session env session ActionReadFiles = Ok ()
        \<and> (\<exists>g. gs_grants (ta_grants app) gid = Some g \<and> fg_kind g = DownloadTarget
          \<and> gs_grants (ta_grants app') = (gs_grants (ta_grants app))(gid := None)
          \<and> gs_drop (ta_grants app') = gs_drop (ta_grants app)
          \<and> origins (ta_queue app') = (origins (ta_queue app))(new_id \<mapsto> (session, DownloadDirection, DownloadTarget, fg_path g)))
    | _ \<Rightarrow> ta_queue app' = ta_queue app) \<and> adds_grants I P (ta_grants app) (ta_grants app')"
proof -
  obtain consumed svc where c: "consume_grant gid DownloadTarget (ta_grants app) = (consumed, svc)"
    by (cases "consume_grant gid DownloadTarget (ta_grants app)")
  note adds = consume_grant_adds [OF c, of I P]
  show ?thesis
  proof (cases "authorize_session env session ActionReadFiles")
    case Ok
    show ?thesis
    proof (cases "result_bind consumed (\<lambda>grant. result_bind (sftp_channel_of env session) (\<lambda>sftp. Ok (grant, sftp)))")
      case (Ok x)
      then obtain g sftp where x: "x = (g, sftp)" and g: "consumed = Ok g"
        by (auto simp: result_simps)
      obtain r1 q where e: "enqueue_download new_id session sftp g source (ta_queue app) = (r1, q)"
        by (cases "enqueue_download new_id session sftp g source (ta_queue app)")
      from assms have r: "r = r1" "ta_queue app' = q" "ta_grants app' = svc"
        by (auto simp: start_download_def \<open>authorize_session env session ActionReadFiles = Ok _\<close> c Let_def Ok x e)
      from origins_enqueue_download [OF e] consume_grant_Ok [of gid DownloadTarget "ta_grants app" g svc] c g adds r
      show ?thesis
        using \<open>authorize_session env session ActionReadFiles = Ok _\<close> by (cases r1) auto
    qed (use assms Ok c adds in \<open>auto simp: start_download_def Let_def\<close>)
  qed (use assms in \<open>auto simp: start_download_def\<close>)
qed

lemma enumerate_mem: "(k, x) \<in> set (enumerate n xs) \<Longrightarrow> x \<in> set xs"
  by (induction xs arbitrary: n) auto

lemma select_upload_adds:
  assumes "select_upload_files env metadata ids (Some paths) session directory app = (r, app')"
    and "\<And>k. I (ids k)" and "\<And>p. Some p \<in> set paths \<Longrightarrow> P (UploadSource, p)"
  shows "ta_queue app' = ta_queue app \<and> adds_grants I P (ta_grants app) (ta_grants app')"
proof -
  let ?ps = "map (\<lambda>(k, p). (ids k, p)) (enumerate 0 paths)"
  obtain r1 svc where g: "grant_picked metadata ?ps (ta_grants app) = (r1, svc)"
    by (cases "grant_picked metadata ?ps (ta_grants app)")
  have "adds_grants I P (ta_grants app) svc"
    by (rule grant_picked_adds [OF g]) (auto simp: assms(2) intro: assms(3) dest: enumerate_mem)
  with assms(1) g show ?thesis
    by (auto simp: select_upload_files_def split: result.splits)
qed

lemma select_download_adds:
  assumes "select_download_target is_dir i (Some (Some p)) suggested app = (r, app')" and "I i" and "P (DownloadTarget, p)"
  shows "ta_queue app' = ta_queue app \<and> adds_grants I P (ta_grants app) (ta_grants app')"
proof -
  obtain r1 svc where g: "grant_download is_dir i p suggested (ta_grants app) = (r1, svc)"
    by (cases "grant_download is_dir i p suggested (ta_grants app)")
  from grant_download_adds [OF g, of I P] assms show ?thesis
    by (auto simp: select_download_target_def g split: result.splits)
qed

lemma accept_drop_adds:
  assumes "accept_latest_upload_drop metadata ids None svc = (r, svc')" and "\<And>k. I (ids k)"
    and "\<And>ps p. gs_drop svc = Some ps \<Longrightarrow> p \<in> set ps \<Longrightarrow> P (UploadSource, p)"
  shows "adds_grants I P (svc\<lparr>gs_drop := None\<rparr>) svc'"
proof (cases "gs_drop svc")
  case None
  with assms(1) show ?thesis by (simp add: accept_latest_upload_drop_def adds_grants_def)
next
  case (Some ps)
  let ?ps = "map (\<lambda>(k, p). (ids k, p)) (enumerate 0 ps)"
  obtain ss svc1 where g: "grant_dropped metadata ?ps (svc\<lparr>gs_drop := None\<rparr>) = (ss, svc1)"
    by (cases "grant_dropped metadata ?ps (svc\<lparr>gs_drop := None\<rparr>)")
  have "adds_grants I P (svc\<lparr>gs_drop := None\<rparr>) svc1"
    by (rule grant_dropped_adds [OF g]) (auto simp: assms(2) intro: assms(3) [OF Some] dest: enumerate_mem)
  with assms(1) g show ?thesis by (simp add: accept_latest_upload_drop_def Some)
qed

lemma transfer_step_ok:
  assumes "transfer_step l l'" and "transfer_log_ok l"
  shows "transfer_log_ok l'"
  using assms
proof (induction rule: transfer_step.induct)
  case (files_picked ids l env metadata paths session directory r app)
  have "ta_queue app = ta_queue (tl_app l) \<and> adds_grants (\<lambda>i. i \<in> range ids - tl_ids l)
      (\<lambda>x. x \<in> tl_picked l \<union> {(UploadSource, p) | p. Some p \<in> set paths}) (ta_grants (tl_app l)) (ta_grants app)"
    by (rule select_upload_adds [OF files_picked(2)]) (use files_picked(1) in auto)
  then show ?case
    by (intro transfer_log_unstarted [OF files_picked(3), where svc = "ta_grants (tl_app l)"])
      (use files_picked(3) in \<open>auto simp: transfer_log_ok_def adds_grants_def\<close>)
next
  case (target_picked i l is_dir p suggested r app)
  have "ta_queue app = ta_queue (tl_app l) \<and> adds_grants (\<lambda>j. j \<in> {i} - tl_ids l)
      (\<lambda>x. x \<in> insert (DownloadTarget, p) (tl_picked l)) (ta_grants (tl_app l)) (ta_grants app)"
    by (rule select_download_adds [OF target_picked(2)]) (use target_picked(1) in auto)
  then show ?case
    by (intro transfer_log_unstarted [OF target_picked(3), where svc = "ta_grants (tl_app l)"])
      (use target_picked(3) in \<open>auto simp: transfer_log_ok_def adds_grants_def\<close>)
next
  case (files_dropped l paths)
  then show ?case
    by (intro transfer_log_unstarted [OF files_dropped, where svc = "stage_upload_drop paths (ta_grants (tl_app l))"])
      (auto simp: stage_upload_drop_def)
next
  case (drop_accepted ids l metadata r svc)
  have "adds_grants (\<lambda>i. i \<in> range ids - tl_ids l) (\<lambda>x. x \<in> tl_picked l)
      ((ta_grants (tl_app l))\<lparr>gs_drop := None\<rparr>) svc"
    by (rule accept_drop_adds [OF drop_accepted(2)]) (use drop_accepted(1,3) in \<open>auto simp: transfer_log_ok_def\<close>)
  then show ?case
    by (intro transfer_log_unstarted [OF drop_accepted(3), where svc = "(ta_grants (tl_app l))\<lparr>gs_drop := None\<rparr>"])
      (auto simp: adds_grants_def)
next
  case (upload_started l new_id env w now resolved session gid directory overwrite r app)
  note effect = start_upload_effect [OF upload_started(2), of "\<lambda>_. False" "\<lambda>_. False"]
  show ?case
  proof (cases "\<exists>job. r = Ok job")
    case True
    then obtain job where Ok: "r = Ok job" by blast
    with effect obtain g where g: "tj_id job = new_id" "authorize_session env session ActionWriteFiles = Ok ()"
      "gs_grants (ta_grants (tl_app l)) gid = Some g" "fg_kind g = UploadSource"
      "gs_grants (ta_grants app) = (gs_grants (ta_grants (tl_app l)))(gid := None)"
      "gs_drop (ta_grants app) = gs_drop (ta_grants (tl_app l))"
      "origins (ta_queue app) = (origins (ta_queue (tl_app l)))(new_id \<mapsto> (session, UploadDirection, UploadSource, fg_path g))"
      by auto
    show ?thesis
      by (rule transfer_log_started [OF upload_started(3) _ _ _ _ upload_started(1) _ g(3,4) refl, where session = session])
        (auto simp: started_by_def allowed_now_def Ok g)
  next
    case False
    with effect have same: "ta_queue app = ta_queue (tl_app l)"
      "adds_grants (\<lambda>_. False) (\<lambda>_. False) (ta_grants (tl_app l)) (ta_grants app)"
      by (auto split: result.splits)
    have "started_by gid r = []" using False by (cases r) (auto simp: started_by_def)
    then show ?thesis
      by (intro transfer_log_unstarted [OF upload_started(3), where svc = "ta_grants (tl_app l)"])
        (use same upload_started(3) in \<open>auto simp: adds_grants_def dest: transfer_log_drop\<close>)
  qed
next
  case (download_started l new_id env source session gid r app)
  note effect = start_download_effect [OF download_started(2), of "\<lambda>_. False" "\<lambda>_. False"]
  show ?case
  proof (cases "\<exists>job. r = Ok job")
    case True
    then obtain job where Ok: "r = Ok job" by blast
    with effect obtain g where g: "tj_id job = new_id" "authorize_session env session ActionReadFiles = Ok ()"
      "gs_grants (ta_grants (tl_app l)) gid = Some g" "fg_kind g = DownloadTarget"
      "gs_grants (ta_grants app) = (gs_grants (ta_grants (tl_app l)))(gid := None)"
      "gs_drop (ta_grants app) = gs_drop (ta_grants (tl_app l))"
      "origins (ta_queue app) = (origins (ta_queue (tl_app l)))(new_id \<mapsto> (session, DownloadDirection, DownloadTarget, fg_path g))"
      by auto
    show ?thesis
      by (rule transfer_log_started [OF download_started(3) _ _ _ _ download_started(1) _ g(3,4) refl, where session = session])
        (auto simp: started_by_def allowed_now_def Ok g)
  next
    case False
    with effect have same: "ta_queue app = ta_queue (tl_app l)"
      "adds_grants (\<lambda>_. False) (\<lambda>_. False) (ta_grants (tl_app l)) (ta_grants app)"
      by (auto split: result.splits)
    have "started_by gid r = []" using False by (cases r) (auto simp: started_by_def)
    then show ?thesis
      by (intro transfer_log_unstarted [OF download_started(3), where svc = "ta_grants (tl_app l)"])
        (use same download_started(3) in \<open>auto simp: adds_grants_def dest: transfer_log_drop\<close>)
  qed
next
  case (cancelled_by_user env session i l r app)
  then have "origins (ta_queue app) = origins (ta_queue (tl_app l)) \<and> ta_grants app = ta_grants (tl_app l)"
    by (auto simp: transfer_cancel_def dest: origins_cancel_job split: result.splits if_splits prod.splits)
  then show ?case
    by (intro transfer_log_unstarted [OF cancelled_by_user(2), where svc = "ta_grants (tl_app l)"])
      (use cancelled_by_user(2) in \<open>auto simp: transfer_log_ok_def\<close>)
next
  case (retried_by_user env session i overwrite l r app)
  then have "origins (ta_queue app) = origins (ta_queue (tl_app l)) \<and> ta_grants app = ta_grants (tl_app l)"
    by (auto simp: transfer_retry_def dest: origins_retry_job split: result.splits option.splits prod.splits)
  then show ?case
    by (intro transfer_log_unstarted [OF retried_by_user(2), where svc = "ta_grants (tl_app l)"])
      (use retried_by_user(2) in \<open>auto simp: transfer_log_ok_def\<close>)
next
  case (session_closed l session)
  then show ?case
    by (intro transfer_log_unstarted [OF session_closed, where svc = "ta_grants (tl_app l)"])
      (auto simp: transfer_log_ok_def origins_cancel_session)
next
  case (task_moved l q)
  then show ?case
    by (intro transfer_log_unstarted [OF task_moved(2), where svc = "ta_grants (tl_app l)"])
      (auto simp: transfer_log_ok_def origins_task_step)
qed

section \<open>What the user can rely on\<close>

text \<open>Every step of the application is a step of the queue, or leaves it as it is.\<close>

lemma queue_moves:
  "enqueue_upload i session sftp grant resolved overwrite q = (r, q') \<Longrightarrow> job_record q i = None \<Longrightarrow> queue_step\<^sup>*\<^sup>* q q'"
  "enqueue_download i session sftp grant source q = (r, q') \<Longrightarrow> job_record q i = None \<Longrightarrow> queue_step\<^sup>*\<^sup>* q q'"
  "cancel_job i q = (rc, q') \<Longrightarrow> queue_step\<^sup>*\<^sup>* q q'"
  "retry_job i overwrite q = (r, q') \<Longrightarrow> queue_step\<^sup>*\<^sup>* q q'"
  by (auto intro: r_into_rtranclp uploaded downloaded cancelled retried)

lemma transfer_step_queue:
  assumes "transfer_step l l'"
  shows "queue_step\<^sup>*\<^sup>* (ta_queue (tl_app l)) (ta_queue (tl_app l'))"
  using assms
proof (induction rule: transfer_step.induct)
  case (files_picked ids l env metadata paths session directory r app)
  from select_upload_adds [OF files_picked(2), of "\<lambda>_. True" "\<lambda>_. True"] show ?case by simp
next
  case (target_picked i l is_dir p suggested r app)
  from select_download_adds [OF target_picked(2), of "\<lambda>_. True" "\<lambda>_. True"] show ?case by simp
next
  case (upload_started l new_id env w now resolved session gid directory overwrite r app)
  then show ?case
    by (auto simp: start_upload_def Let_def split: result.splits prod.splits intro: queue_moves)
next
  case (download_started l new_id env source session gid r app)
  then show ?case
    by (auto simp: start_download_def Let_def split: result.splits prod.splits intro: queue_moves)
next
  case (cancelled_by_user env session i l r app)
  then show ?case
    by (auto simp: transfer_cancel_def split: result.splits if_splits prod.splits intro: queue_moves)
next
  case (retried_by_user env session i overwrite l r app)
  then show ?case
    by (auto simp: transfer_retry_def split: result.splits option.splits prod.splits intro: queue_moves)
next
  case (task_moved l q)
  then show ?case by (auto intro: r_into_rtranclp tasked)
qed (auto intro: session_cancelled)

lemma transfer_log_reachable: "transfer_step\<^sup>*\<^sup>* (fresh_transfer_log history) l \<Longrightarrow> transfer_log_ok l"
proof (induction rule: rtranclp_induct)
  case base
  show ?case by (auto simp: transfer_log_ok_def fresh_transfer_log_def new_grant_service_def new_queue_def origins_def)
qed (rule transfer_step_ok)

lemma queue_reachable: "transfer_step\<^sup>*\<^sup>* (fresh_transfer_log history) l \<Longrightarrow> queue_step\<^sup>*\<^sup>* new_queue (ta_queue (tl_app l))"
proof (induction rule: rtranclp_induct)
  case base
  show ?case by (simp add: fresh_transfer_log_def)
next
  case (step l l')
  then show ?case using transfer_step_queue by (meson rtranclp_trans)
qed

text \<open>
  C10. A transfer touches only local files the user chose, once per choice. Whatever the window
  calls, every job of the queue reads a file the user picked or dropped for uploading, or writes a
  path picked as a download target, in the direction it says; the policy of the session's
  profile allowed that direction; and the job was started from a grant of its own, which no other
  job was started from and which is gone.
\<close>

theorem transfers_only_of_picked_files:
  assumes "transfer_step\<^sup>*\<^sup>* (fresh_transfer_log history) l" and "job_record (ta_queue (tl_app l)) i = Some r"
  shows "picked_as (tr_spec r) \<in> tl_picked l
    \<and> tj_direction (tr_job r) = grant_direction (fst (picked_as (tr_spec r)))
    \<and> (tj_session_id (tr_job r), direction_action (tj_direction (tr_job r))) \<in> tl_allowed l
    \<and> (\<exists>gid. (gid, i) \<in> set (tl_started l) \<and> (\<forall>j. (gid, j) \<in> set (tl_started l) \<longrightarrow> j = i)
        \<and> gs_grants (ta_grants (tl_app l)) gid = None)"
proof -
  note ok = transfer_log_reachable [OF assms(1)]
  obtain k p where kp: "picked_as (tr_spec r) = (k, p)" by (cases "picked_as (tr_spec r)")
  have o: "origins (ta_queue (tl_app l)) i = Some (tj_session_id (tr_job r), tj_direction (tr_job r), k, p)"
    by (simp add: origins_def assms(2) origin_def kp)
  with ok have first: "(k, p) \<in> tl_picked l \<and> tj_direction (tr_job r) = grant_direction k
      \<and> (tj_session_id (tr_job r), direction_action (tj_direction (tr_job r))) \<in> tl_allowed l"
    unfolding transfer_log_ok_def by blast
  have "i \<in> snd ` set (tl_started l)" using ok o by (simp add: transfer_log_ok_def domI)
  then obtain gid where gid: "(gid, i) \<in> set (tl_started l)" by auto
  have "distinct (map fst (tl_started l))" using ok by (simp add: transfer_log_ok_def)
  with gid have "\<forall>j. (gid, j) \<in> set (tl_started l) \<longrightarrow> j = i" by (auto dest: eq_key_imp_eq_value)
  moreover have "gs_grants (ta_grants (tl_app l)) gid = None"
  proof (cases "gs_grants (ta_grants (tl_app l)) gid")
    case (Some g)
    from transfer_log_grant [OF ok Some] gid show ?thesis by (force simp: image_iff)
  qed
  ultimately show ?thesis unfolding kp fst_conv using first gid by blast
qed

text \<open>A concrete run: a file is dropped, accepted and uploaded.\<close>

definition demo_path :: local_path where
  "demo_path = [RootDir, Normal ''a'']"

definition demo_env :: session_env where
  "demo_env = \<lparr>se_bastion = (\<lambda>_. False), se_bastion_profile = (\<lambda>_. Err Storage), se_profile = (\<lambda>_. Ok 4),
     se_bastion_sftp = (\<lambda>_. Err Storage), se_sftp = (\<lambda>_. Ok 8), se_policy = (\<lambda>_ _. Ok ())\<rparr>"

definition demo_dropped :: transfer_log where
  "demo_dropped = (let l = fresh_transfer_log Missing in
     l\<lparr>tl_app := (tl_app l)\<lparr>ta_grants := stage_upload_drop [demo_path] (ta_grants (tl_app l))\<rparr>,
       tl_picked := tl_picked l \<union> {(UploadSource, p) | p. p \<in> set [demo_path]}\<rparr>)"

definition demo_accepted :: transfer_log where
  "demo_accepted = (let l = demo_dropped in
     l\<lparr>tl_app := (tl_app l)\<lparr>ta_grants := snd (accept_latest_upload_drop (\<lambda>_. Some (True, 9)) (\<lambda>_. 5) None (ta_grants (tl_app l)))\<rparr>,
       tl_ids := tl_ids l \<union> range (\<lambda>_::nat. 5)\<rparr>)"

definition demo_started :: "(transfer_job, app_error) result \<times> transfer_app" where
  "demo_started = start_upload demo_env all_steps_ok 1 6 (Ok ''/srv/a'') 7 5 ''/srv'' False (tl_app demo_accepted)"

definition demo_uploading :: transfer_log where
  "demo_uploading = (let l = demo_accepted in
     l\<lparr>tl_app := snd demo_started, tl_allowed := tl_allowed l \<union> allowed_now demo_env 7 ActionWriteFiles,
       tl_started := started_by 5 (fst demo_started) @ tl_started l\<rparr>)"

lemma demo_grant_made:
  "ta_grants (tl_app demo_accepted) = \<lparr>gs_grants = [5 \<mapsto> \<lparr>fg_path = demo_path, fg_name = ''a'', fg_size = 9,
     fg_kind = UploadSource\<rparr>], gs_drop = None\<rparr>" and
  demo_queue_empty: "ta_queue (tl_app demo_accepted) = new_queue"
  by (simp_all add: demo_accepted_def demo_dropped_def fresh_transfer_log_def Let_def stage_upload_drop_def new_grant_service_def
      accept_latest_upload_drop_def grant_upload_def grant_file_name_def path_file_name_def demo_path_def to_str_def
      insert_grant_def)

lemma demo_job:
  "job_record (ta_queue (tl_app demo_uploading)) 6 = Some
     \<lparr>tr_job = queued_job 6 7 UploadDirection ''a'' ''/srv/a'' 9, tr_spec = UploadSpec demo_path ''/srv/a'' False,
      tr_sftp = 8, tr_cancelled = 0\<rparr>"
  by (simp add: demo_uploading_def Let_def demo_started_def start_upload_def authorize_session_def
      profile_id_for_session_def demo_env_def sftp_channel_of_def consume_grant_def demo_grant_made demo_queue_empty
      enqueue_upload_def insert_and_spawn_def queued_job_def new_queue_def)

lemma demo_uploading_reachable: "transfer_step\<^sup>*\<^sup>* (fresh_transfer_log Missing) demo_uploading"
proof -
  have "transfer_step\<^sup>*\<^sup>* (fresh_transfer_log Missing) demo_dropped"
    unfolding demo_dropped_def Let_def by (rule r_into_rtranclp, rule files_dropped)
  also have "transfer_step demo_dropped demo_accepted"
    unfolding demo_accepted_def Let_def
    by (rule drop_accepted [OF _ prod.collapse [symmetric]]) (simp add: demo_dropped_def fresh_transfer_log_def Let_def)
  also have "transfer_step demo_accepted demo_uploading"
    unfolding demo_uploading_def Let_def
    by (rule upload_started [where new_id = 6 and env = demo_env and w = all_steps_ok and now = 1
          and resolved = "Ok ''/srv/a''" and directory = "''/srv''" and overwrite = False]) (simp_all add: demo_queue_empty new_queue_def demo_started_def)
  finally show ?thesis .
qed

theorem transfers_only_of_picked_files_witness:
  "(UploadSource, demo_path) \<in> tl_picked demo_uploading \<and> (7, ActionWriteFiles) \<in> tl_allowed demo_uploading
    \<and> (\<exists>gid. (gid, 6) \<in> set (tl_started demo_uploading) \<and> gs_grants (ta_grants (tl_app demo_uploading)) gid = None)"
  using transfers_only_of_picked_files [OF demo_uploading_reachable demo_job] by (simp add: queued_job_def) blast

end
