(* ===== verification/Workflow_Expr.thy ===== *)
theory Workflow_Expr
  imports Json Domain_Errors
begin

text \<open>
  The expression language of plugin workflows (src-tauri/src/plugins/workflow/expressions.rs)
  and the run context it reads (context.rs): \<open>{{ path }}\<close> templates, conditions, host-menu
  \<open>when\<close> clauses and the deep resolution of a step's input. Step outputs are a map from step
  ids to values. Error payloads are the messages of the code.
\<close>

section \<open>The run context\<close>

type_synonym step_outputs = "string \<rightharpoonup> json"

record workflow_context =
  wc_run_id :: string
  wc_plugin_id :: string
  wc_plugin_version :: string
  wc_workflow_id :: string
  wc_host_id :: "string option"
  wc_host_os :: "string option"
  wc_inputs :: json
  wc_step_outputs :: step_outputs

definition workflow_context_new ::
  "string \<Rightarrow> string \<Rightarrow> string \<Rightarrow> string \<Rightarrow> string option \<Rightarrow> string option \<Rightarrow> json \<Rightarrow> workflow_context"
  where
  "workflow_context_new run_id plugin_id plugin_version workflow_id host_id host_os inputs =
     \<lparr>wc_run_id = run_id, wc_plugin_id = plugin_id, wc_plugin_version = plugin_version,
      wc_workflow_id = workflow_id, wc_host_id = host_id, wc_host_os = host_os,
      wc_inputs = inputs, wc_step_outputs = Map.empty\<rparr>"

definition record_step_outputs :: "string \<Rightarrow> json \<Rightarrow> workflow_context \<Rightarrow> workflow_context" where
  "record_step_outputs step_id outputs c =
     c\<lparr>wc_step_outputs := (wc_step_outputs c)(step_id \<mapsto> outputs)\<rparr>"

text \<open>What an expression may read.\<close>

record scope =
  sc_inputs :: json
  sc_host_id :: "string option"
  sc_host_os :: "string option"
  sc_step_outputs :: step_outputs

section \<open>Paths\<close>

fun json_to_string :: "json \<Rightarrow> (string, plugin_error) result" where
  "json_to_string JNull = Ok []"
| "json_to_string (JBool b) = Ok (if b then ''true'' else ''false'')"
| "json_to_string (JNumber n) = Ok (number_to_string n)"
| "json_to_string (JString s) = Ok s"
| "json_to_string other =
     Err (WorkflowValidation (''expression resolved to non-scalar value: '' @ json_text other))"

definition unwrap_or :: "'a \<Rightarrow> 'a option \<Rightarrow> 'a" where
  "unwrap_or d m = (case m of Some x \<Rightarrow> x | None \<Rightarrow> d)"

definition resolve_path :: "scope \<Rightarrow> string \<Rightarrow> (string, plugin_error) result" where
  "resolve_path sc path =
     (case split_char CHR ''.'' path of
        [a, b] \<Rightarrow>
          if a = ''inputs'' then json_to_string (unwrap_or JNull (json_get (sc_inputs sc) b))
          else if a = ''host'' \<and> b = ''id'' then Ok (unwrap_or [] (sc_host_id sc))
          else if a = ''host'' \<and> b = ''os'' then Ok (unwrap_or [] (sc_host_os sc))
          else Err (WorkflowValidation (''unsupported expression path: '' @ path))
      | [a, step_id, c, key] \<Rightarrow>
          if a = ''steps'' \<and> c = ''outputs'' then
            result_bind
              (ok_or (WorkflowValidation (''unknown step outputs: '' @ step_id))
                 (sc_step_outputs sc step_id))
              (\<lambda>outputs. json_to_string (unwrap_or JNull (json_get outputs key)))
          else Err (WorkflowValidation (''unsupported expression path: '' @ path))
      | _ \<Rightarrow> Err (WorkflowValidation (''unsupported expression path: '' @ path)))"

section \<open>Templates\<close>

text \<open>
  \<open>&s[a..b]\<close> between two ASCII bytes of \<open>s\<close> or its ends: always on scalar-value boundaries,
  so it panics only when \<open>a > b\<close>.
\<close>

definition slice_ascii :: "string \<Rightarrow> nat \<Rightarrow> nat \<Rightarrow> (string, 'e) result" where
  "slice_ascii s a b = (if a \<le> b \<and> b \<le> length s then Ok (take (b - a) (drop a s)) else Panic)"

function resolve_expression :: "scope \<Rightarrow> string \<Rightarrow> (string, plugin_error) result" where
  "resolve_expression sc rest =
     (case str_find rest ''{{'' of
        None \<Rightarrow> Ok rest
      | Some start \<Rightarrow>
          let before = take start rest; after_open = drop start rest in
          (case str_find after_open ''}}'' of
             None \<Rightarrow> Err (WorkflowValidation ''unclosed expression {{'')
           | Some close \<Rightarrow>
               result_bind (slice_ascii after_open 2 close) (\<lambda>expr.
               result_bind (resolve_path sc (trim expr)) (\<lambda>value.
               result_bind (resolve_expression sc (drop (close + 2) after_open)) (\<lambda>tail.
                 Ok (before @ value @ tail))))))"
  by pat_completeness auto
termination
proof (relation "measure (\<lambda>(sc, rest). length rest)", simp)
  fix sc rest x2 x xa x2a xb xc
  assume "str_find rest ''{{'' = Some x2" and "xa = drop x2 rest" and "str_find xa ''}}'' = Some x2a"
  then have "rest \<noteq> []" using str_find_Some [of rest "''{{''" x2] by auto
  with \<open>xa = drop x2 rest\<close> show "((sc, drop (x2a + 2) xa), sc, rest) \<in> measure (\<lambda>(sc, rest). length rest)"
    by simp
qed

declare resolve_expression.simps [simp del]

text \<open>\<open>resolve_json_value\<close>: every string leaf that holds \<open>{{\<close> is resolved, in place.\<close>

lemma try_map_cong [fundef_cong]:
  "xs = ys \<Longrightarrow> (\<And>x. x \<in> set ys \<Longrightarrow> f x = g x) \<Longrightarrow> try_map f xs = try_map g ys"
  by (induction ys arbitrary: xs) auto

fun resolve_json_value :: "scope \<Rightarrow> json \<Rightarrow> (json, plugin_error) result" where
  "resolve_json_value sc (JString s) =
     (if str_contains s ''{{'' then result_bind (resolve_expression sc s) (\<lambda>t. Ok (JString t))
      else Ok (JString s))"
| "resolve_json_value sc (JArray items) =
     result_bind (try_map (resolve_json_value sc) items) (\<lambda>out. Ok (JArray out))"
| "resolve_json_value sc (JObject m) =
     result_bind
       (try_map (\<lambda>kv. result_bind (resolve_json_value sc (snd kv)) (\<lambda>v. Ok (fst kv, v))) m)
       (\<lambda>out. Ok (JObject (obj_collect out)))"
| "resolve_json_value sc other = Ok other"

fun value_has_unresolved :: "json \<Rightarrow> bool" where
  "value_has_unresolved (JString s) = str_contains s ''{{''"
| "value_has_unresolved (JArray items) = list_ex value_has_unresolved items"
| "value_has_unresolved (JObject m) = list_ex (\<lambda>kv. value_has_unresolved (snd kv)) m"
| "value_has_unresolved _ = False"

section \<open>Conditions\<close>

definition split_op :: "string \<Rightarrow> string \<Rightarrow> (string \<times> string) option" where
  "split_op input op =
     map_option (\<lambda>idx. (take idx input, drop (idx + length op) input)) (str_find input op)"

definition quoted_with :: "char \<Rightarrow> string \<Rightarrow> bool" where
  "quoted_with q token \<longleftrightarrow> token \<noteq> [] \<and> hd token = q \<and> last token = q"

definition parse_literal_or_path :: "scope \<Rightarrow> string \<Rightarrow> (string, plugin_error) result" where
  "parse_literal_or_path sc token =
     (if quoted_with CHR 0x22 token \<or> quoted_with CHR 0x27 token
        then slice_ascii token 1 (length token - 1)
      else if eq_ignore_ascii_case token ''true'' \<or> eq_ignore_ascii_case token ''false''
        then Ok (to_ascii_lowercase token)
      else if list_all (\<lambda>c. is_ascii_digit c \<or> c = CHR ''.'' \<or> c = CHR ''-'') token
        then Ok token
      else resolve_path sc token)"

definition evaluate_condition :: "scope \<Rightarrow> string \<Rightarrow> (bool, plugin_error) result" where
  "evaluate_condition sc condition =
     (let trimmed = trim condition;
          operands = (\<lambda>l r f.
            result_bind (resolve_path sc (trim l)) (\<lambda>left_val.
            result_bind (parse_literal_or_path sc (trim r)) (\<lambda>right_val.
              Ok (f left_val right_val))))
      in if trimmed = [] then Ok True
         else if eq_ignore_ascii_case trimmed ''true'' then Ok True
         else if eq_ignore_ascii_case trimmed ''false'' then Ok False
         else
         (case split_op trimmed '' contains '' of
            Some (l, r) \<Rightarrow> operands l r str_contains
          | None \<Rightarrow>
            (case split_op trimmed ''=='' of
               Some (l, r) \<Rightarrow> operands l r (=)
             | None \<Rightarrow>
               (case split_op trimmed ''!='' of
                  Some (l, r) \<Rightarrow> operands l r (\<noteq>)
                | None \<Rightarrow> Err (WorkflowValidation (''unsupported condition: '' @ trimmed))))))"

definition evaluate_when ::
  "string \<Rightarrow> string option \<Rightarrow> string option \<Rightarrow> string list \<Rightarrow> (bool, plugin_error) result" where
  "evaluate_when when_clause host_os host_arch tags =
     (let trimmed = trim when_clause; os = unwrap_or [] host_os; arch = unwrap_or [] host_arch;
          dq = [CHR 0x22]; sq = [CHR 0x27];
          either = (\<lambda>a b. trimmed = a @ dq @ b @ dq \<or> trimmed = a @ sq @ b @ sq)
      in if either ''host.os == '' ''linux'' then Ok (eq_ignore_ascii_case os ''linux'')
         else if either ''host.os == '' ''windows'' then Ok (eq_ignore_ascii_case os ''windows'')
         else if either ''host.arch == '' ''x86_64''
           then Ok (arch = ''x86_64'' \<or> arch = ''amd64'')
         else if either ''host.tags contains '' ''production'' then Ok (''production'' \<in> set tags)
         else Err (WorkflowValidation (''unsupported when expression: '' @ trimmed)))"

section \<open>No panics, except on a lone quote\<close>

lemma json_to_string_not_Panic [simp]: "json_to_string v \<noteq> Panic"
  by (cases v) simp_all

lemma resolve_path_not_Panic [simp]: "resolve_path sc p \<noteq> Panic"
  by (simp add: resolve_path_def result_simps split: list.split)

lemma str_find_braces:
  assumes "str_find rest ''{{'' = Some i" and "str_find (drop i rest) ''}}'' = Some j"
  shows "2 \<le> j" and "j + 2 \<le> length (drop i rest)"
proof -
  from str_find_Some [OF assms(1)] have open_at: "take 2 (drop i rest) = ''{{''"
    by (simp add: numeral_2_eq_2)
  from str_find_Some [OF assms(2)] have j: "j + 2 \<le> length (drop i rest)"
      "take 2 (drop j (drop i rest)) = ''}}''"
    by (simp_all add: numeral_2_eq_2)
  show "j + 2 \<le> length (drop i rest)" by (rule j(1))
  show "2 \<le> j"
  proof (rule ccontr)
    assume "\<not> 2 \<le> j"
    then have "j = 0 \<or> j = 1" by linarith
    moreover obtain t where "drop i rest = ''{{'' @ t"
      using open_at by (metis append_take_drop_id)
    ultimately show False using j(2) by auto
  qed
qed

lemma resolve_expression_not_Panic [simp]: "resolve_expression sc t \<noteq> Panic"
proof (induction sc t rule: resolve_expression.induct)
  case (1 sc rest)
  show ?case
  proof (cases "str_find rest ''{{''")
    case None
    then show ?thesis by (simp add: resolve_expression.simps [of sc rest])
  next
    case (Some i)
    show ?thesis
    proof (cases "str_find (drop i rest) ''}}''")
      case None
      with Some show ?thesis by (simp add: resolve_expression.simps [of sc rest])
    next
      case close: (Some j)
      from str_find_braces [OF Some close] have "slice_ascii (drop i rest) 2 j
          = (Ok (take (j - 2) (drop 2 (drop i rest))) :: (string, plugin_error) result)"
        by (simp add: slice_ascii_def)
      with 1 Some close show ?thesis
        by (subst resolve_expression.simps) (simp add: result_simps)
    qed
  qed
qed

lemma resolve_json_value_not_Panic [simp]: "resolve_json_value sc v \<noteq> Panic"
proof (induction sc v rule: resolve_json_value.induct)
  case (2 sc items)
  then have "try_map (resolve_json_value sc) items \<noteq> Panic" by (rule try_map_not_Panic)
  then show ?case by (simp add: result_simps)
next
  case (3 sc m)
  then have "try_map (\<lambda>kv. result_bind (resolve_json_value sc (snd kv)) (\<lambda>v. Ok (fst kv, v))) m \<noteq> Panic"
    by (intro try_map_not_Panic) (simp add: result_simps)
  then show ?case by (simp add: result_simps)
qed (simp_all add: result_simps)

lemma parse_literal_Panic_iff:
  "parse_literal_or_path sc token = Panic \<longleftrightarrow> token = [CHR 0x22] \<or> token = [CHR 0x27]"
proof -
  have "slice_ascii token 1 (length token - 1) = (Panic :: (string, plugin_error) result)
      \<longleftrightarrow> length token = 1" if "token \<noteq> []"
    using that by (cases token) (auto simp: slice_ascii_def Suc_le_eq)
  then show ?thesis
    by (cases token) (auto simp: parse_literal_or_path_def quoted_with_def)
qed

text \<open>The two sides of a condition, at the first operator the code looks for.\<close>

definition comparison_of :: "string \<Rightarrow> (string \<times> string) option" where
  "comparison_of condition =
     (let c = trim condition in
      if c = [] \<or> eq_ignore_ascii_case c ''true'' \<or> eq_ignore_ascii_case c ''false'' then None
      else case split_op c '' contains '' of Some lr \<Rightarrow> Some lr
        | None \<Rightarrow> (case split_op c ''=='' of Some lr \<Rightarrow> Some lr | None \<Rightarrow> split_op c ''!=''))"

text \<open>
  The expression language never panics but in one place: templates, step inputs and
  \<open>when\<close> clauses always give a value or an error, and a condition panics exactly when the
  right side of its comparison is a single quote character and its left side resolves - a
  text that the workflow validator accepts.
\<close>

lemma expressions_panic_only_on_lone_quote:
  "resolve_expression sc t \<noteq> Panic
   \<and> resolve_json_value sc v \<noteq> Panic
   \<and> evaluate_when w os arch tags \<noteq> Panic
   \<and> (evaluate_condition sc c = Panic \<longleftrightarrow>
        (\<exists>l r. comparison_of c = Some (l, r) \<and> is_ok (resolve_path sc (trim l))
           \<and> (trim r = [CHR 0x22] \<or> trim r = [CHR 0x27])))"
proof -
  have ok: "is_ok (resolve_path sc p) \<longleftrightarrow> (\<exists>x. resolve_path sc p = Ok x)" for p
    by (cases "resolve_path sc p") simp_all
  have "evaluate_condition sc c = Panic \<longleftrightarrow>
        (\<exists>l r. comparison_of c = Some (l, r) \<and> is_ok (resolve_path sc (trim l))
           \<and> (trim r = [CHR 0x22] \<or> trim r = [CHR 0x27]))"
    by (auto simp: evaluate_condition_def comparison_of_def Let_def result_simps ok
        parse_literal_Panic_iff split: option.splits)
  then show ?thesis by (simp add: evaluate_when_def Let_def)
qed

section \<open>Templates are substituted in one pass\<close>

text \<open>
  A template as the author writes it: pieces of plain text, each followed by one hole, and a
  last plain text. Plain text holds no opening braces, a hole's text no closing ones, also
  not across the border with the braces that follow.
\<close>

fun template_text :: "(string \<times> string) list \<Rightarrow> string \<Rightarrow> string" where
  "template_text [] tail = tail"
| "template_text ((lit, expr) # pieces) tail =
     lit @ ''{{'' @ expr @ ''}}'' @ template_text pieces tail"

definition template_wf :: "(string \<times> string) list \<Rightarrow> string \<Rightarrow> bool" where
  "template_wf pieces tail \<longleftrightarrow>
     list_all (\<lambda>(lit, expr). str_find (lit @ ''{{'') ''{{'' = Some (length lit)
                \<and> str_find (expr @ ''}}'') ''}}'' = Some (length expr)) pieces
     \<and> str_find tail ''{{'' = None"

lemma str_find_extend: "str_find s p = Some i \<Longrightarrow> p \<noteq> [] \<Longrightarrow> str_find (s @ t) p = Some i"
proof (induction s arbitrary: i)
  case (Cons c s)
  show ?case
  proof (cases "starts_with (c # s) p")
    case True
    then obtain u where "c # s = p @ u" by (auto simp: starts_with_conv)
    then have "starts_with (c # s @ t) p" by (metis append.assoc append_Cons starts_with_self_append)
    with True Cons.prems show ?thesis by simp
  next
    case False
    with Cons.prems obtain j where j: "str_find s p = Some j" "i = Suc j" by auto
    then have "length p \<le> length s" using str_find_Some by fastforce
    then have "take (length p) (c # s @ t) = take (length p) (c # s)"
      by (cases "length p") simp_all
    with False have "\<not> starts_with (c # s @ t) p" by (simp add: starts_with_def)
    with Cons.IH [OF j(1) Cons.prems(2)] j(2) show ?thesis by simp
  qed
qed simp

lemma resolve_expression_piece:
  assumes "str_find (lit @ ''{{'') ''{{'' = Some (length lit)"
    and "str_find (expr @ ''}}'') ''}}'' = Some (length expr)"
  shows "resolve_expression sc (lit @ ''{{'' @ expr @ ''}}'' @ rest) =
     result_bind (resolve_path sc (trim expr)) (\<lambda>value.
     result_bind (resolve_expression sc rest) (\<lambda>tail. Ok (lit @ value @ tail)))"
proof -
  have "str_find ((lit @ ''{{'') @ expr @ ''}}'' @ rest) ''{{'' = Some (length lit)"
    by (rule str_find_extend [OF assms(1)]) simp
  moreover have "str_find ((expr @ ''}}'') @ rest) ''}}'' = Some (length expr)"
    by (rule str_find_extend [OF assms(2)]) simp
  then have "str_find (''{{'' @ expr @ ''}}'' @ rest) ''}}'' = Some (length expr + 2)"
    by (simp add: starts_with_def)
  ultimately show ?thesis
    by (subst resolve_expression.simps) (simp add: slice_ascii_def)
qed

text \<open>
  A template is filled in one pass: the result is the plain text with every hole replaced
  by the value of its path, in order, the first failing path failing the whole template. A
  value is never read again, so braces inside an input or a step's output are not expanded.
\<close>

lemma template_filled_in_one_pass:
  assumes "template_wf pieces tail"
  shows "resolve_expression sc (template_text pieces tail) =
    result_bind (try_map (\<lambda>(lit, expr).
        result_bind (resolve_path sc (trim expr)) (\<lambda>value. Ok (lit @ value))) pieces)
      (\<lambda>filled. Ok (concat filled @ tail))"
  using assms
proof (induction pieces)
  case Nil
  then show ?case by (simp add: template_wf_def resolve_expression.simps [of sc tail])
next
  case (Cons piece pieces)
  obtain lit expr where piece: "piece = (lit, expr)" by (cases piece)
  from Cons.prems have wf: "template_wf pieces tail"
      "str_find (lit @ ''{{'') ''{{'' = Some (length lit)"
      "str_find (expr @ ''}}'') ''}}'' = Some (length expr)"
    by (simp_all add: template_wf_def piece)
  have "resolve_expression sc (template_text (piece # pieces) tail) =
      result_bind (resolve_path sc (trim expr)) (\<lambda>value.
      result_bind (resolve_expression sc (template_text pieces tail)) (\<lambda>tl. Ok (lit @ value @ tl)))"
    unfolding piece template_text.simps by (rule resolve_expression_piece [OF wf(2,3)])
  then show ?case
    unfolding Cons.IH [OF wf(1)]
    by (cases "resolve_path sc (trim expr)";
        cases "try_map (\<lambda>(lit, expr).
          result_bind (resolve_path sc (trim expr)) (\<lambda>value. Ok (lit @ value))) pieces")
      (simp_all add: piece)
qed

lemma template_filled_in_one_pass_witness:
  "resolve_expression
     \<lparr>sc_inputs = JObject [(''name'', JString ''{{ host.id }}'')], sc_host_id = Some ''h1'',
      sc_host_os = None, sc_step_outputs = Map.empty\<rparr>
     ''hi {{ inputs.name }} on {{ host.id }}.'' = Ok ''hi {{ host.id }} on h1.''"
proof -
  let ?sc = "\<lparr>sc_inputs = JObject [(''name'', JString ''{{ host.id }}'')], sc_host_id = Some ''h1'',
      sc_host_os = None, sc_step_outputs = Map.empty\<rparr>"
  have "template_wf [(''hi '', '' inputs.name ''), ('' on '', '' host.id '')] ''.''" by code_simp
  moreover have "resolve_path ?sc (trim '' inputs.name '') = Ok ''{{ host.id }}''" by code_simp
  moreover have "resolve_path ?sc (trim '' host.id '') = Ok ''h1''" by code_simp
  ultimately show ?thesis
    using template_filled_in_one_pass [of "[(''hi '', '' inputs.name ''), ('' on '', '' host.id '')]" "''.''" ?sc]
    by simp
qed

lemma resolve_json_value_static:
  "json_wf v \<Longrightarrow> \<not> value_has_unresolved v \<Longrightarrow> resolve_json_value sc v = Ok v"
proof (induction v)
  case (JArray items)
  then have "\<forall>v \<in> set items. resolve_json_value sc v = Ok v" by (auto simp: list_ex_iff)
  then have "try_map (resolve_json_value sc) items = Ok items" by (induction items) simp_all
  then show ?case by simp
next
  case (JObject m)
  then have "\<forall>kv \<in> set m. resolve_json_value sc (snd kv) = Ok (snd kv)"
    by (fastforce simp: list_ex_iff)
  then have "try_map (\<lambda>kv. result_bind (resolve_json_value sc (snd kv)) (\<lambda>v. Ok (fst kv, v))) m = Ok m"
    by (induction m) simp_all
  with JObject.prems show ?case by (simp add: obj_collect_sorted)
qed simp_all

end
