(* ===== verification/Workflow_Plan.thy ===== *)
theory Workflow_Plan
  imports Workflow_Expr Plugin_Permissions Change_Sets
begin

text \<open>
  Plugin workflows up to the moment they run: the definition (workflow/ast.rs), its validation
  (validator.rs), the actions' interface and registry (actions/mod.rs), the planner
  (planner.rs) and the translation of a plan into a change set (changeset/integration.rs).
  An action is the record of its trait's functions; which actions are registered is an
  argument. The fresh id of a plan is an argument too.
\<close>

section \<open>Definitions of workflows\<close>

datatype failure_policy = AbortRun | ContinueRun

record retry_policy =
  rp_max_attempts :: u32
  rp_delay :: "string option"

record workflow_step =
  ws_id :: string
  ws_uses :: string
  ws_with :: json
  ws_condition :: "string option"
  ws_timeout :: "string option"
  ws_retry :: "retry_policy option"
  ws_on_failure :: "failure_policy option"

record workflow_metadata =
  wm_id :: string
  wm_name :: string
  wm_description :: "string option"

record workflow_definition =
  wd_api_version :: string
  wd_kind :: string
  wd_metadata :: workflow_metadata
  wd_inputs :: "json option"
  wd_steps :: "workflow_step list"
  wd_outputs :: "json option"

section \<open>Validation\<close>

definition MAX_RETRY_ATTEMPTS :: u32 where
  "MAX_RETRY_ATTEMPTS = 5"

definition ALLOWED_ACTIONS :: "string list" where
  "ALLOWED_ACTIONS =
     [''system.detect'', ''system.command_exists'', ''system.disk'', ''system.memory'',
      ''system.preflight_report'', ''network.tcp_check'', ''ssh.command'', ''remote.fs.read'',
      ''remote.fs.write'', ''remote.fs.write_env'', ''remote.fs.mkdir'', ''remote.fs.symlink'',
      ''template.render'', ''git.clone'', ''git.rev_parse'', ''git.fetch'', ''git.checkout'',
      ''python.detect'', ''python.venv'', ''python.pip.install'', ''systemd.install'',
      ''systemd.daemon_reload'', ''systemd.enable'', ''systemd.restart'', ''systemd.reload'',
      ''systemd.status'', ''nginx.test'', ''nginx.reload'', ''http.check'', ''database.migration'',
      ''changeset.checkpoint'', ''release.activate'']"

definition is_allowed_action :: "string \<Rightarrow> bool" where
  "is_allowed_action action_id \<longleftrightarrow> action_id \<in> set ALLOWED_ACTIONS"

definition invalid_workflow :: "string \<Rightarrow> (unit, plugin_error) result" where
  "invalid_workflow message = Err (WorkflowValidation message)"

definition validate_step :: "workflow_step \<Rightarrow> (unit, plugin_error) result" where
  "validate_step step =
     (if \<not> is_allowed_action (ws_uses step)
        then invalid_workflow (''unknown action: '' @ ws_uses step)
      else result_bind
        (case ws_retry step of
           None \<Rightarrow> Ok ()
         | Some retry \<Rightarrow>
             if rp_max_attempts retry = 0
               then invalid_workflow (''step '' @ ws_id step @ '': maxAttempts must be >= 1'')
             else if MAX_RETRY_ATTEMPTS < rp_max_attempts retry
               then invalid_workflow (''step '' @ ws_id step @ '': maxAttempts must be <= 5'')
             else Ok ())
        (\<lambda>_. case ws_timeout step of
           None \<Rightarrow> Ok ()
         | Some timeout \<Rightarrow>
             if trim timeout = []
               then invalid_workflow (''step '' @ ws_id step @ '': timeout must be non-empty when set'')
             else Ok ()))"

fun validate_steps :: "string set \<Rightarrow> workflow_step list \<Rightarrow> (unit, plugin_error) result" where
  "validate_steps step_ids [] = Ok ()"
| "validate_steps step_ids (step # steps) =
     (if trim (ws_id step) = [] then invalid_workflow ''step id must be non-empty''
      else if ws_id step \<in> step_ids then invalid_workflow (''duplicate step id: '' @ ws_id step)
      else result_bind (validate_step step)
             (\<lambda>_. validate_steps (insert (ws_id step) step_ids) steps))"

definition validate_workflow :: "workflow_definition \<Rightarrow> (unit, plugin_error) result" where
  "validate_workflow d =
     (if wd_api_version d \<noteq> ''runory/v1''
        then invalid_workflow (''unsupported apiVersion: '' @ wd_api_version d)
      else if wd_kind d \<noteq> ''Workflow'' then invalid_workflow (''unsupported kind: '' @ wd_kind d)
      else if trim (wm_id (wd_metadata d)) = [] then invalid_workflow ''metadata.id must be non-empty''
      else if trim (wm_name (wd_metadata d)) = []
        then invalid_workflow ''metadata.name must be non-empty''
      else if wd_steps d = [] then invalid_workflow ''workflow must contain at least one step''
      else validate_steps {} (wd_steps d))"

section \<open>Actions\<close>

record action_plan =
  ap_action_id :: string
  ap_risk :: risk_level
  ap_summary :: string
  ap_changes :: "planned_change list"
  ap_requires_approval :: bool

text \<open>
  The part of \<open>ActionContext\<close> that planning and execution decide on; the other fields are
  handles (sessions, secrets, the application, the plugin's directory) that only actions use.
\<close>

record action_context =
  ax_run_id :: string
  ax_plugin_id :: string
  ax_plugin_version :: string
  ax_workflow_id :: string
  ax_host_id :: "string option"
  ax_host_os :: "string option"
  ax_permission_service :: permission_service

record action =
  ac_required_capabilities :: "json \<Rightarrow> (plugin_capability list, plugin_error) result"
  ac_risk :: "json \<Rightarrow> (risk_level, plugin_error) result"
  ac_plan :: "action_context \<Rightarrow> json \<Rightarrow> (action_plan, plugin_error) result"

type_synonym action_registry = "string \<rightharpoonup> action"

definition action_get :: "action_registry \<Rightarrow> string \<Rightarrow> (action, plugin_error) result" where
  "action_get registry action_id = ok_or (ActionNotFound action_id) (registry action_id)"

section \<open>The planner\<close>

record workflow_step_plan =
  sp_step_id :: string
  sp_action_id :: string
  sp_plan :: action_plan
  sp_has_runtime_values :: bool

record workflow_plan =
  wp_id :: string
  wp_plugin_id :: string
  wp_plugin_version :: string
  wp_workflow_id :: string
  wp_host_id :: "string option"
  wp_risk :: risk_level
  wp_requires_approval :: bool
  wp_steps :: "workflow_step_plan list"

definition plan_scope :: "action_context \<Rightarrow> json \<Rightarrow> scope" where
  "plan_scope ctx inputs =
     \<lparr>sc_inputs = inputs, sc_host_id = ax_host_id ctx, sc_host_os = ax_host_os ctx,
      sc_step_outputs = Map.empty\<rparr>"

definition skipped_step_plan :: "workflow_step \<Rightarrow> workflow_step_plan" where
  "skipped_step_plan step =
     \<lparr>sp_step_id = ws_id step, sp_action_id = ws_uses step,
      sp_plan = \<lparr>ap_action_id = ws_uses step, ap_risk = R0,
                 ap_summary = ws_uses step @ '' (skipped by condition)'', ap_changes = [],
                 ap_requires_approval = False\<rparr>,
      sp_has_runtime_values = False\<rparr>"

text \<open>What a step's input becomes before anything has run: left alone when it does not resolve.\<close>

definition planned_input :: "scope \<Rightarrow> json \<Rightarrow> json" where
  "planned_input sc input = (case resolve_json_value sc input of Ok v \<Rightarrow> v | _ \<Rightarrow> input)"

definition plan_action ::
  "action \<Rightarrow> workflow_step \<Rightarrow> action_context \<Rightarrow> json \<Rightarrow> (workflow_step_plan, plugin_error) result"
  where
  "plan_action action step ctx resolved =
     (let runtime = value_has_unresolved resolved in
      result_bind (ac_required_capabilities action resolved) (\<lambda>caps.
      result_bind (try_for_each (\<lambda>cap. require_for_host (ax_plugin_id ctx) cap (ax_host_id ctx)
                                          (ax_permission_service ctx)) caps) (\<lambda>_.
      result_bind
        (if runtime then
           (case ac_risk action resolved of
              Panic \<Rightarrow> Panic
            | r \<Rightarrow>
                let risk = (case r of Ok x \<Rightarrow> x | _ \<Rightarrow> R3) in
                Ok \<lparr>ap_action_id = ws_uses step, ap_risk = risk,
                    ap_summary = ws_uses step @ '' (<resolved at runtime>)'', ap_changes = [],
                    ap_requires_approval = (risk \<noteq> R0)\<rparr>)
         else ac_plan action ctx resolved)
        (\<lambda>plan. Ok \<lparr>sp_step_id = ws_id step, sp_action_id = ws_uses step, sp_plan = plan,
                    sp_has_runtime_values = runtime\<rparr>))))"

definition plan_step ::
  "action_registry \<Rightarrow> action_context \<Rightarrow> json \<Rightarrow> workflow_step \<Rightarrow> (workflow_step_plan, plugin_error) result"
  where
  "plan_step registry ctx inputs step =
     (let sc = plan_scope ctx inputs;
          go = (\<lambda>_::unit. result_bind (action_get registry (ws_uses step)) (\<lambda>action.
                 plan_action action step ctx (planned_input sc (ws_with step))))
      in case ws_condition step of
           None \<Rightarrow> go ()
         | Some cond \<Rightarrow>
             (case evaluate_condition sc cond of
                Ok False \<Rightarrow> Ok (skipped_step_plan step)
              | Panic \<Rightarrow> Panic
              | _ \<Rightarrow> go ()))"

fun plan_steps ::
  "action_registry \<Rightarrow> action_context \<Rightarrow> json \<Rightarrow> workflow_step list \<Rightarrow> risk_level \<Rightarrow> bool \<Rightarrow>
   workflow_step_plan list \<Rightarrow> (risk_level \<times> bool \<times> workflow_step_plan list, plugin_error) result"
  where
  "plan_steps registry ctx inputs [] max_risk approval plans = Ok (max_risk, approval, plans)"
| "plan_steps registry ctx inputs (step # steps) max_risk approval plans =
     result_bind (plan_step registry ctx inputs step) (\<lambda>sp.
       plan_steps registry ctx inputs steps
         (if max_risk < ap_risk (sp_plan sp) then ap_risk (sp_plan sp) else max_risk)
         (approval \<or> ap_requires_approval (sp_plan sp)) (plans @ [sp]))"

definition planner_plan ::
  "string \<Rightarrow> action_registry \<Rightarrow> workflow_definition \<Rightarrow> action_context \<Rightarrow> json \<Rightarrow>
   (workflow_plan, plugin_error) result" where
  "planner_plan fresh_id registry d ctx inputs =
     result_bind (validate_workflow d) (\<lambda>_.
     result_bind (plan_steps registry ctx inputs (wd_steps d) R0 False []) (\<lambda>(risk, approval, plans).
       Ok \<lparr>wp_id = fresh_id, wp_plugin_id = ax_plugin_id ctx,
           wp_plugin_version = ax_plugin_version ctx, wp_workflow_id = wm_id (wd_metadata d),
           wp_host_id = ax_host_id ctx, wp_risk = risk, wp_requires_approval = approval,
           wp_steps = plans\<rparr>))"

section \<open>From a plan to a change set\<close>

record changeset_mapping =
  cm_drafts :: "change_step_draft list"
  cm_covered_step_ids :: "string list"
  cm_unmapped_mutating :: "string list"

definition is_plugin_managed_change :: "string \<Rightarrow> string list \<Rightarrow> bool" where
  "is_plugin_managed_change executable args \<longleftrightarrow>
     (let exe = to_ascii_lowercase executable in
      (exe = ''systemctl''
       \<and> arg 0 args \<in> Some ` set [''enable'', ''daemon-reload'', ''disable'', ''start''])
      \<or> ((str_contains exe ''/python'' \<or> ends_with exe ''python'' \<or> ends_with exe ''python3'')
         \<and> arg 0 args = Some ''manage.py'' \<and> arg 1 args = Some ''collectstatic'')
      \<or> (exe = ''git'' \<and> arg 0 args \<in> Some ` set [''clone'', ''fetch'', ''checkout'', ''pull''])
      \<or> ((exe = ''python'' \<or> exe = ''python3'' \<or> starts_with exe ''python'' \<or> str_contains exe ''/python'')
         \<and> arg 0 args = Some ''-m'' \<and> arg 1 args \<in> Some ` set [''venv'', ''pip'']))"

fun change_to_draft :: "planned_change \<Rightarrow> change_step_draft option" where
  "change_to_draft (ServiceRestartChange service) = Some (DraftServiceRestart service)"
| "change_to_draft (RemoteCommand executable args _) =
     (let exe = to_ascii_lowercase executable in
      if exe = ''systemctl'' then
        (case (arg 0 args, arg 1 args) of
           (Some action, Some service) \<Rightarrow>
             if action = ''reload'' \<and> service = ''nginx'' then Some DraftNginxReload
             else if action = ''reload'' then Some (DraftServiceReload service)
             else if action = ''restart'' then Some (DraftServiceRestart service)
             else None
         | _ \<Rightarrow> None)
      else if exe = ''nginx'' \<and> ''-s'' \<in> set args then Some DraftNginxReload
      else None)"
| "change_to_draft _ = None"

text \<open>Whether a mutating change is the plugin's own: gated by capability and risk only.\<close>

fun plugin_owned :: "planned_change \<Rightarrow> bool" where
  "plugin_owned (RemoteFileWrite _) = True"
| "plugin_owned (RemoteFileDelete _) = True"
| "plugin_owned (PackageInstall _) = True"
| "plugin_owned (DatabaseMigration _) = True"
| "plugin_owned (RemoteCommand executable args _) = is_plugin_managed_change executable args"
| "plugin_owned (ServiceRestartChange _) = False"

fun map_changes ::
  "workflow_step_plan \<Rightarrow> planned_change list \<Rightarrow> changeset_mapping \<Rightarrow> bool \<Rightarrow> changeset_mapping \<times> bool"
  where
  "map_changes step [] m covered = (m, covered)"
| "map_changes step (change # changes) m covered =
     (if \<not> planned_change_is_mutating change \<or> plugin_owned change
        then map_changes step changes m covered
      else case change_to_draft change of
        Some draft \<Rightarrow> map_changes step changes (m\<lparr>cm_drafts := cm_drafts m @ [draft]\<rparr>) True
      | None \<Rightarrow>
          map_changes step changes
            (m\<lparr>cm_unmapped_mutating :=
                 cm_unmapped_mutating m @ [sp_step_id step @ '':'' @ sp_action_id step]\<rparr>) covered)"

fun map_steps :: "workflow_step_plan list \<Rightarrow> changeset_mapping \<Rightarrow> changeset_mapping" where
  "map_steps [] m = m"
| "map_steps (step # steps) m =
     (case map_changes step (ap_changes (sp_plan step)) m False of
        (m', covered) \<Rightarrow>
          map_steps steps
            (if covered then m'\<lparr>cm_covered_step_ids := cm_covered_step_ids m' @ [sp_step_id step]\<rparr>
             else m'))"

definition map_plan_to_change_steps :: "workflow_plan \<Rightarrow> changeset_mapping" where
  "map_plan_to_change_steps plan =
     map_steps (wp_steps plan) \<lparr>cm_drafts = [], cm_covered_step_ids = [], cm_unmapped_mutating = []\<rparr>"

definition enforce_changeset_mappability ::
  "workflow_plan \<Rightarrow> (changeset_mapping, plugin_error) result" where
  "enforce_changeset_mappability plan =
     (let mapping = map_plan_to_change_steps plan in
      result_bind
        (try_for_each (\<lambda>step. try_for_each require_tool_policy_for_change (ap_changes (sp_plan step)))
           (wp_steps plan))
        (\<lambda>_. if cm_unmapped_mutating mapping \<noteq> [] then Err PolicyDenied else Ok mapping))"

datatype plugin_planned_operation =
    OpRemoteCommand string "string list" privilege_mode string
  | OpRemoteFileWrite string string
  | OpRemoteFileDelete string string
  | OpOther string

record plugin_change_set_summary =
  cs_plan_id :: string
  cs_plugin_id :: string
  cs_plugin_version :: string
  cs_workflow_id :: string
  cs_risk :: risk_level
  cs_requires_changeset :: bool
  cs_requires_approval :: bool
  cs_operations :: "plugin_planned_operation list"

fun operation_of :: "string \<Rightarrow> planned_change \<Rightarrow> plugin_planned_operation" where
  "operation_of summary (RemoteCommand executable args privilege) =
     OpRemoteCommand executable args privilege summary"
| "operation_of summary (RemoteFileWrite p) = OpRemoteFileWrite p summary"
| "operation_of summary (RemoteFileDelete p) = OpRemoteFileDelete p summary"
| "operation_of summary (PackageInstall packages) =
     OpOther (''Install packages: '' @ str_join '', '' packages)"
| "operation_of summary (ServiceRestartChange s) = OpOther (''Restart service '' @ s)"
| "operation_of summary (DatabaseMigration description) = OpOther description"

definition action_plan_to_operations :: "action_plan \<Rightarrow> plugin_planned_operation list" where
  "action_plan_to_operations plan =
     (if ap_changes plan = [] then [OpOther (ap_summary plan)]
      else map (operation_of (ap_summary plan)) (ap_changes plan))"

definition plugin_plan_to_changeset_summary :: "workflow_plan \<Rightarrow> plugin_change_set_summary" where
  "plugin_plan_to_changeset_summary plan =
     \<lparr>cs_plan_id = wp_id plan, cs_plugin_id = wp_plugin_id plan,
      cs_plugin_version = wp_plugin_version plan, cs_workflow_id = wp_workflow_id plan,
      cs_risk = wp_risk plan,
      cs_requires_changeset =
        (wp_requires_approval plan \<and> cm_drafts (map_plan_to_change_steps plan) \<noteq> []),
      cs_requires_approval = wp_requires_approval plan,
      cs_operations = concat (map (\<lambda>step. action_plan_to_operations (sp_plan step)) (wp_steps plan))\<rparr>"

section \<open>Validation, exactly\<close>

definition step_ok :: "workflow_step \<Rightarrow> bool" where
  "step_ok step \<longleftrightarrow>
     trim (ws_id step) \<noteq> [] \<and> ws_uses step \<in> set ALLOWED_ACTIONS
     \<and> (case ws_retry step of None \<Rightarrow> True
        | Some r \<Rightarrow> 1 \<le> unat (rp_max_attempts r) \<and> unat (rp_max_attempts r) \<le> 5)
     \<and> (case ws_timeout step of None \<Rightarrow> True | Some t \<Rightarrow> trim t \<noteq> [])"

lemma validate_step_cases:
  "validate_step step = Ok () \<or> (\<exists>m. validate_step step = Err (WorkflowValidation m))"
  by (auto simp: validate_step_def invalid_workflow_def split: option.split)

lemma validate_step_Ok_iff:
  "trim (ws_id step) \<noteq> [] \<Longrightarrow> validate_step step = Ok () \<longleftrightarrow> step_ok step"
proof -
  have "1 \<le> unat n \<longleftrightarrow> n \<noteq> 0" and "unat n \<le> 5 \<longleftrightarrow> n \<le> 5" for n :: u32
    by (auto simp: word_le_nat_alt Suc_le_eq unat_gt_0)
  then show "trim (ws_id step) \<noteq> [] \<Longrightarrow> ?thesis"
    by (auto simp: validate_step_def step_ok_def invalid_workflow_def is_allowed_action_def
        MAX_RETRY_ATTEMPTS_def result_simps not_less split: option.split)
qed

lemma validate_steps_Ok_iff:
  "validate_steps ids steps = Ok () \<longleftrightarrow>
     (\<forall>step \<in> set steps. step_ok step \<and> ws_id step \<notin> ids) \<and> distinct (map ws_id steps)"
proof (induction steps arbitrary: ids)
  case (Cons step steps)
  have "trim (ws_id step) \<noteq> [] \<Longrightarrow> validate_step step = Ok () \<longleftrightarrow> step_ok step"
    by (rule validate_step_Ok_iff)
  moreover have "step_ok step \<Longrightarrow> trim (ws_id step) \<noteq> []" by (simp add: step_ok_def)
  ultimately show ?case
    using Cons.IH [of "insert (ws_id step) ids"]
    by (auto simp: result_simps invalid_workflow_def image_iff)
qed simp

lemma validate_steps_cases:
  "validate_steps ids steps = Ok () \<or> (\<exists>m. validate_steps ids steps = Err (WorkflowValidation m))"
proof (induction steps arbitrary: ids)
  case (Cons step steps)
  from validate_step_cases [of step] Cons [of "insert (ws_id step) ids"] show ?case
    by (auto simp: invalid_workflow_def)
qed simp

text \<open>
  C37. Validation accepts exactly the well-formed workflows: the supported API version and
  kind, an id and a name, at least one step, step ids that are distinct and not blank, only
  listed actions, between one and five attempts and no blank timeout. Anything else is a
  validation error, never a panic.
\<close>

theorem validate_workflow_exact:
  "(validate_workflow d = Ok () \<longleftrightarrow>
      wd_api_version d = ''runory/v1'' \<and> wd_kind d = ''Workflow''
      \<and> trim (wm_id (wd_metadata d)) \<noteq> [] \<and> trim (wm_name (wd_metadata d)) \<noteq> []
      \<and> wd_steps d \<noteq> [] \<and> distinct (map ws_id (wd_steps d)) \<and> list_all step_ok (wd_steps d))
   \<and> (validate_workflow d = Ok () \<or> (\<exists>m. validate_workflow d = Err (WorkflowValidation m)))"
  using validate_steps_cases [of "{}" "wd_steps d"]
  by (auto simp: validate_workflow_def invalid_workflow_def validate_steps_Ok_iff list_all_iff)

section \<open>What a plan says\<close>

text \<open>
  A step's plan against the step: skipped by its condition, or every capability the action
  requires for the step's input is granted for the host and the plan is the action's own,
  unless the input still depends on other steps, when it lists no change at all.
\<close>

definition step_planned ::
  "action_registry \<Rightarrow> action_context \<Rightarrow> json \<Rightarrow> workflow_step \<Rightarrow> workflow_step_plan \<Rightarrow> bool" where
  "step_planned registry ctx inputs step sp \<longleftrightarrow>
     sp_step_id sp = ws_id step \<and> sp_action_id sp = ws_uses step
     \<and> ((sp = skipped_step_plan step
          \<and> (\<exists>c. ws_condition step = Some c \<and> evaluate_condition (plan_scope ctx inputs) c = Ok False))
        \<or> (\<exists>action caps.
             registry (ws_uses step) = Some action
             \<and> ac_required_capabilities action (planned_input (plan_scope ctx inputs) (ws_with step)) = Ok caps
             \<and> (\<forall>cap \<in> set caps. require_for_host (ax_plugin_id ctx) cap (ax_host_id ctx)
                                    (ax_permission_service ctx) = Ok ())
             \<and> (if sp_has_runtime_values sp then ap_changes (sp_plan sp) = []
                 else ac_plan action ctx (planned_input (plan_scope ctx inputs) (ws_with step))
                        = Ok (sp_plan sp))))"

lemma plan_action_Ok:
  assumes "plan_action action step ctx input = Ok sp"
  shows "sp_step_id sp = ws_id step \<and> sp_action_id sp = ws_uses step
    \<and> (\<exists>caps. ac_required_capabilities action input = Ok caps
         \<and> (\<forall>cap \<in> set caps. require_for_host (ax_plugin_id ctx) cap (ax_host_id ctx)
                                (ax_permission_service ctx) = Ok ()))
    \<and> (if sp_has_runtime_values sp then ap_changes (sp_plan sp) = []
        else ac_plan action ctx input = Ok (sp_plan sp))"
  using assms
  by (auto simp: plan_action_def Let_def result_simps split: if_splits result.splits)

lemma plan_step_Ok:
  assumes "plan_step registry ctx inputs step = Ok sp"
  shows "step_planned registry ctx inputs step sp"
proof -
  let ?input = "planned_input (plan_scope ctx inputs) (ws_with step)"
  have go: "step_planned registry ctx inputs step sp"
    if "result_bind (action_get registry (ws_uses step)) (\<lambda>action. plan_action action step ctx ?input) = Ok sp"
  proof -
    from that obtain action where a: "registry (ws_uses step) = Some action"
        "plan_action action step ctx ?input = Ok sp"
      by (auto simp: action_get_def result_simps)
    from plan_action_Ok [OF a(2)] a(1) show ?thesis by (auto simp: step_planned_def)
  qed
  show ?thesis
  proof (cases "ws_condition step")
    case None
    with assms go show ?thesis by (simp add: plan_step_def Let_def)
  next
    case (Some c)
    show ?thesis
    proof (cases "evaluate_condition (plan_scope ctx inputs) c = Ok False")
      case True
      with assms Some have "sp = skipped_step_plan step" by (simp add: plan_step_def Let_def)
      with True Some show ?thesis by (simp add: step_planned_def skipped_step_plan_def)
    next
      case False
      with assms Some go show ?thesis
        by (simp add: plan_step_def Let_def split: result.splits bool.splits)
    qed
  qed
qed

lemma plan_steps_Ok:
  "plan_steps registry ctx inputs steps mr ap ps = Ok (risk, approval, plans) \<Longrightarrow>
     \<exists>qs. plans = ps @ qs \<and> list_all2 (step_planned registry ctx inputs) steps qs
       \<and> risk = fold max (map (\<lambda>sp. ap_risk (sp_plan sp)) qs) mr
       \<and> approval = (ap \<or> list_ex (\<lambda>sp. ap_requires_approval (sp_plan sp)) qs)"
proof (induction steps arbitrary: mr ap ps)
  case (Cons step steps)
  from Cons.prems obtain sp where sp: "plan_step registry ctx inputs step = Ok sp"
    and rest: "plan_steps registry ctx inputs steps
         (if mr < ap_risk (sp_plan sp) then ap_risk (sp_plan sp) else mr)
         (ap \<or> ap_requires_approval (sp_plan sp)) (ps @ [sp]) = Ok (risk, approval, plans)"
    by (auto simp: result_simps)
  have "(if mr < ap_risk (sp_plan sp) then ap_risk (sp_plan sp) else mr) = max (ap_risk (sp_plan sp)) mr"
    by (auto simp: max_def)
  from Cons.IH [OF rest [unfolded this]] obtain qs where qs: "plans = (ps @ [sp]) @ qs"
      "list_all2 (step_planned registry ctx inputs) steps qs"
      "risk = fold max (map (\<lambda>sp. ap_risk (sp_plan sp)) qs) (max (ap_risk (sp_plan sp)) mr)"
      "approval = ((ap \<or> ap_requires_approval (sp_plan sp)) \<or> list_ex (\<lambda>sp. ap_requires_approval (sp_plan sp)) qs)"
    by blast
  with plan_step_Ok [OF sp] show ?case by (intro exI [of _ "sp # qs"]) simp
qed simp

lemma fold_max_Max: "fold max xs (m :: 'a::linorder) = Max (insert m (set xs))"
proof (induction xs arbitrary: m)
  case (Cons x xs)
  then show ?case by (cases "xs = []") (simp_all add: insert_commute max.commute max.left_commute)
qed simp

text \<open>
  C35. A plan is faithful to the workflow: only a valid workflow is planned; the plan has one
  entry per step, in order; every entry is skipped by its own condition or stands for an
  action whose capabilities the plugin holds on this host; the plan's risk is the highest
  risk of its entries, and it asks for approval exactly when one of them does.
\<close>

theorem plan_faithful:
  assumes "planner_plan fresh_id registry d ctx inputs = Ok plan"
  shows "validate_workflow d = Ok ()
    \<and> list_all2 (step_planned registry ctx inputs) (wd_steps d) (wp_steps plan)
    \<and> wp_risk plan = Max (insert R0 (set (map (\<lambda>sp. ap_risk (sp_plan sp)) (wp_steps plan))))
    \<and> (wp_requires_approval plan \<longleftrightarrow> list_ex (\<lambda>sp. ap_requires_approval (sp_plan sp)) (wp_steps plan))"
proof -
  from assms obtain risk approval plans where
      v: "validate_workflow d = Ok ()"
    and p: "plan_steps registry ctx inputs (wd_steps d) R0 False [] = Ok (risk, approval, plans)"
    and plan: "wp_steps plan = plans" "wp_risk plan = risk" "wp_requires_approval plan = approval"
    by (auto simp: planner_plan_def result_simps)
  from plan_steps_Ok [OF p] v plan show ?thesis by (simp add: fold_max_Max)
qed

lemma plan_faithful_witness:
  "\<exists>registry d ctx plan.
     planner_plan ''p1'' registry d ctx JNull = Ok plan
     \<and> wp_risk plan = Max {R0, R2} \<and> wp_requires_approval plan"
proof -
  let ?step = "\<lparr>ws_id = ''a'', ws_uses = ''nginx.reload'', ws_with = JNull, ws_condition = None,
      ws_timeout = None, ws_retry = None, ws_on_failure = None\<rparr>"
  let ?d = "\<lparr>wd_api_version = ''runory/v1'', wd_kind = ''Workflow'',
      wd_metadata = \<lparr>wm_id = ''w'', wm_name = ''W'', wm_description = None\<rparr>, wd_inputs = None,
      wd_steps = [?step], wd_outputs = None\<rparr>"
  let ?ap = "\<lparr>ap_action_id = ''nginx.reload'', ap_risk = R2, ap_summary = [], ap_changes = [],
      ap_requires_approval = True\<rparr>"
  let ?reg = "[''nginx.reload'' \<mapsto> \<lparr>ac_required_capabilities = \<lambda>_. Ok [], ac_risk = \<lambda>_. Ok R2,
      ac_plan = \<lambda>_ _. Ok ?ap\<rparr>]"
  let ?ctx = "\<lparr>ax_run_id = [], ax_plugin_id = ''p'', ax_plugin_version = ''1'', ax_workflow_id = ''w'',
      ax_host_id = None, ax_host_os = None,
      ax_permission_service = \<lparr>pv_repository = [], pv_cache = Map.empty\<rparr>\<rparr>"
  have v: "validate_workflow ?d = Ok ()" by code_simp
  have "\<exists>plan. planner_plan ''p1'' ?reg ?d ?ctx JNull = Ok plan
      \<and> wp_steps plan = [\<lparr>sp_step_id = ''a'', sp_action_id = ''nginx.reload'', sp_plan = ?ap,
            sp_has_runtime_values = False\<rparr>]"
    by (simp add: planner_plan_def v plan_step_def plan_action_def action_get_def planned_input_def)
  then obtain plan where plan: "planner_plan ''p1'' ?reg ?d ?ctx JNull = Ok plan"
      "wp_steps plan = [\<lparr>sp_step_id = ''a'', sp_action_id = ''nginx.reload'', sp_plan = ?ap,
            sp_has_runtime_values = False\<rparr>]"
    by blast
  from plan_faithful [OF plan(1)] plan show ?thesis by (intro exI conjI) auto
qed

section \<open>The change set of a plan\<close>

text \<open>The changes that a change set must carry out.\<close>

definition native_write :: "planned_change \<Rightarrow> bool" where
  "native_write change \<longleftrightarrow> planned_change_is_mutating change \<and> \<not> plugin_owned change"

definition step_changes :: "workflow_step_plan \<Rightarrow> planned_change list" where
  "step_changes sp = filter native_write (ap_changes (sp_plan sp))"

definition drafted :: "planned_change \<Rightarrow> bool" where
  "drafted change \<longleftrightarrow> change_to_draft change \<noteq> None"

lemma map_changes_eq:
  "map_changes step cs m covered =
     (m\<lparr>cm_drafts := cm_drafts m @ List.map_filter change_to_draft (filter native_write cs),
        cm_unmapped_mutating := cm_unmapped_mutating m
          @ map (\<lambda>_. sp_step_id step @ '':'' @ sp_action_id step)
              (filter (\<lambda>c. \<not> drafted c) (filter native_write cs))\<rparr>,
      covered \<or> list_ex drafted (filter native_write cs))"
  by (induction cs arbitrary: m covered)
    (auto simp: native_write_def drafted_def List.map_filter_simps
      simp del: planned_change_is_mutating.simps plugin_owned.simps split: option.split)

lemma map_steps_eq:
  "map_steps sps m =
     m\<lparr>cm_drafts := cm_drafts m @ concat (map (\<lambda>sp. List.map_filter change_to_draft (step_changes sp)) sps),
       cm_covered_step_ids := cm_covered_step_ids m
         @ map sp_step_id (filter (\<lambda>sp. list_ex drafted (step_changes sp)) sps),
       cm_unmapped_mutating := cm_unmapped_mutating m
         @ concat (map (\<lambda>sp. map (\<lambda>_. sp_step_id sp @ '':'' @ sp_action_id sp)
                              (filter (\<lambda>c. \<not> drafted c) (step_changes sp))) sps)\<rparr>"
  by (induction sps arbitrary: m) (simp_all add: map_changes_eq step_changes_def)

lemma policy_pass_iff: "require_tool_policy_for_change c = Ok () \<or> require_tool_policy_for_change c = Err PolicyDenied"
  by (simp add: require_tool_policy_cases)

lemma try_for_each_single_error:
  "(\<And>x. x \<in> set xs \<Longrightarrow> f x = Ok () \<or> f x = Err e) \<Longrightarrow>
     try_for_each f xs = (if list_all (\<lambda>x. f x = Ok ()) xs then Ok () else Err e)"
proof (induction xs)
  case (Cons x xs)
  then have "try_for_each f xs = (if list_all (\<lambda>x. f x = Ok ()) xs then Ok () else Err e)"
    and "f x = Ok () \<or> f x = Err e"
    by simp_all
  then show ?case by (elim disjE) simp_all
qed simp

lemma tool_policy_over_plan:
  "try_for_each (\<lambda>step. try_for_each require_tool_policy_for_change (ap_changes (sp_plan step))) sps
     = (if list_all (\<lambda>sp. list_all (\<lambda>c. require_tool_policy_for_change c = Ok ()) (ap_changes (sp_plan sp))) sps
        then Ok () else Err PolicyDenied)"
proof -
  have "try_for_each require_tool_policy_for_change cs
      = (if list_all (\<lambda>c. require_tool_policy_for_change c = Ok ()) cs then Ok () else Err PolicyDenied)" for cs
    by (rule try_for_each_single_error) (rule policy_pass_iff)
  then show ?thesis by (subst try_for_each_single_error [where e = PolicyDenied]) auto
qed

lemma enforce_closed_form:
  "enforce_changeset_mappability plan =
     (if list_all (\<lambda>sp. list_all (\<lambda>c. require_tool_policy_for_change c = Ok ()) (ap_changes (sp_plan sp))
                       \<and> list_all drafted (step_changes sp)) (wp_steps plan)
      then Ok \<lparr>cm_drafts = concat (map (\<lambda>sp. map (the \<circ> change_to_draft) (step_changes sp)) (wp_steps plan)),
               cm_covered_step_ids = map sp_step_id (filter (\<lambda>sp. step_changes sp \<noteq> []) (wp_steps plan)),
               cm_unmapped_mutating = []\<rparr>
      else Err PolicyDenied)"
proof -
  let ?m = "map_plan_to_change_steps plan"
  have unmapped: "cm_unmapped_mutating ?m = [] \<longleftrightarrow> list_all (\<lambda>sp. list_all drafted (step_changes sp)) (wp_steps plan)"
    by (auto simp: map_plan_to_change_steps_def map_steps_eq list_all_iff filter_empty_conv)
  have "?m = \<lparr>cm_drafts = concat (map (\<lambda>sp. map (the \<circ> change_to_draft) (step_changes sp)) (wp_steps plan)),
      cm_covered_step_ids = map sp_step_id (filter (\<lambda>sp. step_changes sp \<noteq> []) (wp_steps plan)),
      cm_unmapped_mutating = []\<rparr>"
    if all: "list_all (\<lambda>sp. list_all drafted (step_changes sp)) (wp_steps plan)"
  proof -
    have all_drafted: "List.map_filter change_to_draft cs = map (the \<circ> change_to_draft) cs"
        "list_ex drafted cs \<longleftrightarrow> cs \<noteq> []" if "list_all drafted cs" for cs
      using that by (induction cs) (auto simp: List.map_filter_simps drafted_def)
    have "List.map_filter change_to_draft (step_changes sp) = map (the \<circ> change_to_draft) (step_changes sp)"
      and "list_ex drafted (step_changes sp) \<longleftrightarrow> step_changes sp \<noteq> []"
      if "sp \<in> set (wp_steps plan)" for sp
      using all that all_drafted by (simp_all add: list_all_iff)
    moreover have "cm_unmapped_mutating ?m = []" using all by (simp add: unmapped)
    ultimately show ?thesis
      by (simp add: map_plan_to_change_steps_def map_steps_eq cong: map_cong filter_cong)
  qed
  with unmapped show ?thesis
    by (auto simp: enforce_changeset_mappability_def Let_def tool_policy_over_plan list_all_iff)
qed

text \<open>
  What the mappability check lets through, in full: a plan passes exactly when every
  change passes the tool policy and every mutating change that is not the plugin's own has a
  change-set draft. The mapping then holds those drafts in plan order and the ids of the steps
  that contributed one, nothing unmapped; everything else is denied.
\<close>

lemma mappability_exact:
  "enforce_changeset_mappability plan =
     (if list_all (\<lambda>sp. list_all (\<lambda>c. require_tool_policy_for_change c = Ok ()) (ap_changes (sp_plan sp))
                       \<and> list_all drafted (step_changes sp)) (wp_steps plan)
      then Ok \<lparr>cm_drafts = concat (map (\<lambda>sp. map (the \<circ> change_to_draft) (step_changes sp)) (wp_steps plan)),
               cm_covered_step_ids = map sp_step_id (filter (\<lambda>sp. step_changes sp \<noteq> []) (wp_steps plan)),
               cm_unmapped_mutating = []\<rparr>
      else Err PolicyDenied)"
  by (rule enforce_closed_form)

text \<open>
  C36. A step whose input still depends on other steps escapes the tool policy: in a plan made
  by the planner, the check and the change set are those of the plan without such steps,
  whatever command they will run. Only the plugin's capabilities hold them back.
\<close>

theorem runtime_steps_escape_policy:
  assumes "planner_plan fresh_id registry d ctx inputs = Ok plan"
  shows "enforce_changeset_mappability plan =
    enforce_changeset_mappability
      (plan\<lparr>wp_steps := filter (\<lambda>sp. \<not> sp_has_runtime_values sp) (wp_steps plan)\<rparr>)"
proof -
  from assms obtain risk approval where
    "plan_steps registry ctx inputs (wd_steps d) R0 False [] = Ok (risk, approval, wp_steps plan)"
    by (auto simp: planner_plan_def result_simps)
  from plan_steps_Ok [OF this] have "list_all2 (step_planned registry ctx inputs) (wd_steps d) (wp_steps plan)"
    by simp
  then have "\<forall>sp \<in> set (wp_steps plan). \<exists>step. step_planned registry ctx inputs step sp"
    by (metis in_set_conv_nth list_all2_conv_all_nth)
  then have none: "ap_changes (sp_plan sp) = []"
    if "sp \<in> set (wp_steps plan)" "sp_has_runtime_values sp" for sp
    using that by (fastforce simp: step_planned_def skipped_step_plan_def)
  have "list_all P sps = list_all P (filter Q sps)"
    and "concat (map g sps) = concat (map g (filter Q sps))"
    and "map sp_step_id (filter R sps) = map sp_step_id (filter R (filter Q sps))"
    if "\<forall>sp \<in> set sps. \<not> Q sp \<longrightarrow> P sp \<and> g sp = [] \<and> \<not> R sp"
    for sps P Q R and g :: "workflow_step_plan \<Rightarrow> change_step_draft list"
    using that by (induction sps) auto
  note drop_steps = this
  show ?thesis
    unfolding enforce_closed_form
    by (subst (1) drop_steps(1) [where Q = "\<lambda>sp. \<not> sp_has_runtime_values sp"
            and R = "\<lambda>sp. step_changes sp \<noteq> []" and g = "\<lambda>sp. map (the \<circ> change_to_draft) (step_changes sp)"],
        use none in \<open>simp add: step_changes_def\<close>,
        subst (1) drop_steps(2) [where Q = "\<lambda>sp. \<not> sp_has_runtime_values sp"
            and R = "\<lambda>sp. step_changes sp \<noteq> []" and P = "\<lambda>_. True"],
        use none in \<open>simp add: step_changes_def\<close>,
        subst (1) drop_steps(3) [where Q = "\<lambda>sp. \<not> sp_has_runtime_values sp"
            and P = "\<lambda>_. True" and g = "\<lambda>_. []"],
        use none in \<open>simp add: step_changes_def\<close>) simp
qed

lemma runtime_steps_escape_policy_witness:
  "\<exists>registry action d ctx plan.
     registry ''ssh.command'' = Some action
     \<and> (\<forall>v. \<exists>p. ac_plan action ctx v = Ok p \<and> ap_changes p = [RemoteCommand ''rm'' [''-rf''] NoPrivilege])
     \<and> require_tool_policy_for_change (RemoteCommand ''rm'' [''-rf''] NoPrivilege) = Err PolicyDenied
     \<and> planner_plan ''p1'' registry d ctx JNull = Ok plan
     \<and> map sp_action_id (wp_steps plan) = [''ssh.command'']
     \<and> is_ok (enforce_changeset_mappability plan)"
proof -
  let ?with = "JObject [(''executable'', JString ''rm''), (''args'', JArray [JString ''{{ steps.a.outputs.x }}''])]"
  let ?step = "\<lparr>ws_id = ''b'', ws_uses = ''ssh.command'', ws_with = ?with, ws_condition = None,
      ws_timeout = None, ws_retry = None, ws_on_failure = None\<rparr>"
  let ?d = "\<lparr>wd_api_version = ''runory/v1'', wd_kind = ''Workflow'',
      wd_metadata = \<lparr>wm_id = ''w'', wm_name = ''W'', wm_description = None\<rparr>, wd_inputs = None,
      wd_steps = [?step], wd_outputs = None\<rparr>"
  let ?ap = "\<lparr>ap_action_id = ''ssh.command'', ap_risk = R4, ap_summary = [],
      ap_changes = [RemoteCommand ''rm'' [''-rf''] NoPrivilege], ap_requires_approval = True\<rparr>"
  let ?action = "\<lparr>ac_required_capabilities = \<lambda>_. Ok [], ac_risk = \<lambda>_. Ok R4, ac_plan = \<lambda>_ _. Ok ?ap\<rparr>"
  let ?reg = "[''ssh.command'' \<mapsto> ?action]"
  let ?ctx = "\<lparr>ax_run_id = [], ax_plugin_id = ''p'', ax_plugin_version = ''1'', ax_workflow_id = ''w'',
      ax_host_id = None, ax_host_os = None,
      ax_permission_service = \<lparr>pv_repository = [], pv_cache = Map.empty\<rparr>\<rparr>"
  have "validate_workflow ?d = Ok ()" by code_simp
  moreover have "planned_input (plan_scope ?ctx JNull) ?with = ?with" by code_simp
  moreover have "value_has_unresolved ?with" by code_simp
  ultimately obtain plan where plan: "planner_plan ''p1'' ?reg ?d ?ctx JNull = Ok plan"
      "\<exists>p. wp_steps plan = [\<lparr>sp_step_id = ''b'', sp_action_id = ''ssh.command'', sp_plan = p,
            sp_has_runtime_values = True\<rparr>]"
    by (simp add: planner_plan_def plan_step_def plan_action_def action_get_def)
  from runtime_steps_escape_policy [OF plan(1)] plan(2)
  have ok: "is_ok (enforce_changeset_mappability plan)"
    by (auto simp: enforce_changeset_mappability_def map_plan_to_change_steps_def)
  have denied: "require_tool_policy_for_change (RemoteCommand ''rm'' [''-rf''] NoPrivilege) = Err PolicyDenied"
    by code_simp
  have ids: "map sp_action_id (wp_steps plan) = [''ssh.command'']" using plan(2) by auto
  have plans: "\<forall>v. \<exists>p. ac_plan ?action ?ctx v = Ok p
      \<and> ap_changes p = [RemoteCommand ''rm'' [''-rf''] NoPrivilege]" by simp
  have reg: "?reg ''ssh.command'' = Some ?action" by simp
  show ?thesis
    by (rule exI [of _ ?reg], rule exI [of _ ?action], rule exI [of _ ?d], rule exI [of _ ?ctx],
        rule exI [of _ plan], intro conjI)
      (rule reg plans denied plan(1) ids ok)+
qed

text \<open>
  Every signal sent to nginx becomes a reload in the change set, \<open>stop\<close> and \<open>quit\<close> included.
\<close>

lemma nginx_signal_becomes_reload:
  "change_to_draft (RemoteCommand ''nginx'' [''-s'', nginx_signal] privilege) = Some DraftNginxReload"
proof -
  have "to_ascii_lowercase ''nginx'' = ''nginx''" by code_simp
  then show ?thesis by simp
qed

end
