(* ===== verification/Workflow_Run.thy ===== *)
theory Workflow_Run
  imports Workflow_Plan Workflow_Redact
begin

text \<open>
  The run loop of plugin workflows (workflow/executor.rs, \<open>run_steps\<close>), its records and states
  (workflow/state.rs), its rows in the registry database (registry/repository.rs) and its
  events. Everything the loop asks of the outside - the cancellation token, whether the plugin
  is still enabled and at which version, the permission table, and what an action does - may
  change between two questions, so the world answers by the number of the question. It also
  says which of the writes succeed whose result the code ignores, and before which questions a
  call of \<open>cancel\<close> writes the run's row. The plan's JSON column, the times and the audit log are
  left out.
\<close>

section \<open>States and records\<close>

datatype workflow_run_state =
    RunCreated | RunPlanning | RunAwaitingApproval | RunRunning | RunSucceeded | RunFailed
  | RunCancelled | RunRollingBack | RunRolledBack | RunInterrupted

fun run_state_str :: "workflow_run_state \<Rightarrow> string" where
  "run_state_str RunCreated = ''Created''"
| "run_state_str RunPlanning = ''Planning''"
| "run_state_str RunAwaitingApproval = ''AwaitingApproval''"
| "run_state_str RunRunning = ''Running''"
| "run_state_str RunSucceeded = ''Succeeded''"
| "run_state_str RunFailed = ''Failed''"
| "run_state_str RunCancelled = ''Cancelled''"
| "run_state_str RunRollingBack = ''RollingBack''"
| "run_state_str RunRolledBack = ''RolledBack''"
| "run_state_str RunInterrupted = ''Interrupted''"

datatype workflow_step_state =
    StepPending | StepSkipped | StepPlanned | StepRunning | StepSucceeded | StepFailed
  | StepCancelled

fun step_state_str :: "workflow_step_state \<Rightarrow> string" where
  "step_state_str StepPending = ''Pending''"
| "step_state_str StepSkipped = ''Skipped''"
| "step_state_str StepPlanned = ''Planned''"
| "step_state_str StepRunning = ''Running''"
| "step_state_str StepSucceeded = ''Succeeded''"
| "step_state_str StepFailed = ''Failed''"
| "step_state_str StepCancelled = ''Cancelled''"

record workflow_step_record =
  wsr_step_id :: string
  wsr_action_id :: string
  wsr_state :: workflow_step_state
  wsr_summary :: "string option"
  wsr_error_code :: "string option"
  wsr_stdout :: "string option"
  wsr_stderr :: "string option"
  wsr_exit_code :: "int option"

record workflow_run_record =
  wrr_run_id :: string
  wrr_plugin_id :: string
  wrr_plugin_version :: string
  wrr_workflow_id :: string
  wrr_host_id :: "string option"
  wrr_state :: workflow_run_state
  wrr_steps :: "workflow_step_record list"
  wrr_error_code :: "string option"

datatype workflow_event =
    EvStarted string string
  | EvStepStarted string string
  | EvStepOutput string string "string option"
  | EvStepCompleted string string workflow_step_state
  | EvCompleted string workflow_run_state

section \<open>The rows of a run\<close>

record run_row =
  rr_id :: string
  rr_plugin_id :: string
  rr_plugin_version :: string
  rr_workflow_id :: string
  rr_host_id :: "string option"
  rr_session_id :: "string option"
  rr_state :: string
  rr_error_code :: "string option"
  rr_completed :: bool
  rr_inputs_json :: string

record step_row =
  sr_id :: string
  sr_run_id :: string
  sr_step_id :: string
  sr_action :: string
  sr_state :: string
  sr_risk :: string
  sr_exit_code :: "int option"
  sr_outputs_json :: "string option"
  sr_stdout :: "string option"
  sr_stderr :: "string option"
  sr_completed :: bool

record run_db =
  db_runs :: "run_row list"
  db_steps :: "step_row list"

definition insert_run :: "bool \<Rightarrow> run_row \<Rightarrow> run_db \<Rightarrow> (unit, plugin_error) result \<times> run_db" where
  "insert_run db_ok row db =
     (if db_ok \<and> rr_id row \<notin> rr_id ` set (db_runs db)
      then (Ok (), db\<lparr>db_runs := db_runs db @ [row]\<rparr>) else (Err Storage_p, db))"

text \<open>The first argument of a write is whether the database executes it.\<close>

definition update_run_state ::
  "bool \<Rightarrow> string \<Rightarrow> string \<Rightarrow> string option \<Rightarrow> bool \<Rightarrow> run_db \<Rightarrow> (unit, plugin_error) result \<times> run_db" where
  "update_run_state db_ok run_id state error_code completed db =
     (if db_ok
      then (Ok (), db\<lparr>db_runs := map (\<lambda>r. if rr_id r = run_id
          then r\<lparr>rr_state := state, rr_error_code := error_code,
                 rr_completed := (completed \<or> rr_completed r)\<rparr> else r) (db_runs db)\<rparr>)
      else (Err Storage_p, db))"

definition insert_step :: "bool \<Rightarrow> step_row \<Rightarrow> run_db \<Rightarrow> (unit, plugin_error) result \<times> run_db" where
  "insert_step db_ok row db =
     (if db_ok \<and> sr_id row \<notin> sr_id ` set (db_steps db)
      then (Ok (), db\<lparr>db_steps := db_steps db @ [row]\<rparr>) else (Err Storage_p, db))"

definition coalesce :: "'a option \<Rightarrow> 'a option \<Rightarrow> 'a option" where
  "coalesce a b = (case a of Some x \<Rightarrow> Some x | None \<Rightarrow> b)"

definition update_step ::
  "bool \<Rightarrow> string \<Rightarrow> string \<Rightarrow> int option \<Rightarrow> string option \<Rightarrow> string option \<Rightarrow> string option \<Rightarrow> bool \<Rightarrow>
   run_db \<Rightarrow> (unit, plugin_error) result \<times> run_db" where
  "update_step db_ok row_id state exit_code outputs_json stdout stderr completed db =
     (if db_ok
      then (Ok (), db\<lparr>db_steps := map (\<lambda>r. if sr_id r = row_id
          then r\<lparr>sr_state := state, sr_exit_code := coalesce exit_code (sr_exit_code r),
                 sr_outputs_json := coalesce outputs_json (sr_outputs_json r),
                 sr_stdout := coalesce stdout (sr_stdout r),
                 sr_stderr := coalesce stderr (sr_stderr r),
                 sr_completed := (completed \<or> sr_completed r)\<rparr> else r) (db_steps db)\<rparr>)
      else (Err Storage_p, db))"

text \<open>Recovery after a restart.\<close>

definition interrupt_running_runs :: "run_db \<Rightarrow> run_db" where
  "interrupt_running_runs db =
     db\<lparr>db_runs := map (\<lambda>r.
          if rr_state r \<in> set [''Created'', ''Planning'', ''AwaitingApproval'', ''Running'', ''RollingBack'']
          then r\<lparr>rr_state := ''Interrupted'', rr_completed := True\<rparr> else r) (db_runs db)\<rparr>"

text \<open>
  \<open>cancel\<close>, called from outside while runs are under way: the token of a live run is cancelled,
  and the run's row is written whatever the run does next. The result is the answer, whether the
  token was cancelled, and the database.
\<close>

definition cancel :: "bool \<Rightarrow> string set \<Rightarrow> string \<Rightarrow> run_db \<Rightarrow> (unit, plugin_error) result \<times> bool \<times> run_db" where
  "cancel db_ok live run_id db =
     (if run_id \<in> live
      then (Ok (), True, snd (update_run_state db_ok run_id (run_state_str RunCancelled)
              (Some (plugin_error_code Cancelled)) True db))
      else (Err (WorkflowNotFound run_id), False, db))"

section \<open>The world and the state of a run\<close>

text \<open>
  By the number of the question: what the token says, the enabled version, the permission
  table, what an action does, which ignored writes of the loop the database executes, and
  whether the write of a call of \<open>cancel\<close> reaches the database just before. The rows of the
  steps are numbered by themselves.
\<close>

record run_world =
  rw_cancelled :: "nat \<Rightarrow> bool"
  rw_enabled_version :: "nat \<Rightarrow> (string, plugin_error) result"
  rw_permissions :: "nat \<Rightarrow> permission_row list"
  rw_execute :: "nat \<Rightarrow> string \<Rightarrow> json \<Rightarrow> (action_result, plugin_error) result"
  rw_write_ok :: "nat \<Rightarrow> bool"
  rw_cancel_row :: "nat \<Rightarrow> bool"
  rw_insert_ok :: "nat \<Rightarrow> bool"

text \<open>A performed action: when, for which step, which action, on which input.\<close>

record call =
  cl_tick :: nat
  cl_step_id :: string
  cl_action_id :: string
  cl_input :: json

record exec =
  ex_tick :: nat
  ex_run :: workflow_run_record
  ex_context :: workflow_context
  ex_db :: run_db
  ex_events :: "workflow_event list"
  ex_calls :: "call list"

text \<open>Time passes: the writes of the calls of \<open>cancel\<close> made meanwhile reach the run's row.\<close>

fun cancels :: "run_world \<Rightarrow> string \<Rightarrow> nat list \<Rightarrow> run_db \<Rightarrow> run_db" where
  "cancels w rid [] db = db"
| "cancels w rid (t # ts) db =
     cancels w rid ts (if rw_cancel_row w t then snd (snd (cancel True {rid} rid db)) else db)"

definition advance :: "run_world \<Rightarrow> nat \<Rightarrow> exec \<Rightarrow> exec" where
  "advance w t ex =
     ex\<lparr>ex_tick := t, ex_db := cancels w (wrr_run_id (ex_run ex)) [ex_tick ex..<t] (ex_db ex)\<rparr>"

definition tick :: "run_world \<Rightarrow> exec \<Rightarrow> exec" where
  "tick w ex = advance w (Suc (ex_tick ex)) ex"

text \<open>A write of the run's state whose result is ignored.\<close>

definition write_run_state ::
  "run_world \<Rightarrow> workflow_run_state \<Rightarrow> string option \<Rightarrow> exec \<Rightarrow> exec" where
  "write_run_state w state code ex =
     (let ex = tick w ex in
      ex\<lparr>ex_db := snd (update_run_state (rw_write_ok w (ex_tick ex)) (wrr_run_id (ex_run ex))
           (run_state_str state) code True (ex_db ex))\<rparr>)"

definition emit :: "workflow_event \<Rightarrow> exec \<Rightarrow> exec" where
  "emit e ex = ex\<lparr>ex_events := ex_events ex @ [e]\<rparr>"

definition set_step :: "nat \<Rightarrow> (workflow_step_record \<Rightarrow> workflow_step_record) \<Rightarrow> exec \<Rightarrow> exec" where
  "set_step idx f ex =
     ex\<lparr>ex_run := (ex_run ex)\<lparr>wrr_steps :=
          (wrr_steps (ex_run ex))[idx := f (wrr_steps (ex_run ex) ! idx)]\<rparr>\<rparr>"

definition set_run_state :: "workflow_run_state \<Rightarrow> string option \<Rightarrow> exec \<Rightarrow> exec" where
  "set_run_state state code ex =
     ex\<lparr>ex_run := (ex_run ex)\<lparr>wrr_state := state, wrr_error_code := code\<rparr>\<rparr>"

definition run_scope :: "exec \<Rightarrow> scope" where
  "run_scope ex =
     \<lparr>sc_inputs = wc_inputs (ex_context ex), sc_host_id = wc_host_id (ex_context ex),
      sc_host_os = wc_host_os (ex_context ex), sc_step_outputs = wc_step_outputs (ex_context ex)\<rparr>"

section \<open>One attempt\<close>

definition permissions_at :: "run_world \<Rightarrow> nat \<Rightarrow> permission_service" where
  "permissions_at w t = \<lparr>pv_repository = rw_permissions w t, pv_cache = Map.empty\<rparr>"

fun check_capabilities ::
  "run_world \<Rightarrow> string \<Rightarrow> string option \<Rightarrow> plugin_capability list \<Rightarrow> nat \<Rightarrow>
   (unit, plugin_error) result \<times> nat" where
  "check_capabilities w plugin_id host_id [] t = (Ok (), t)"
| "check_capabilities w plugin_id host_id (c # cs) t =
     (case require_for_host plugin_id c host_id (permissions_at w t) of
        Ok u \<Rightarrow> check_capabilities w plugin_id host_id cs (Suc t)
      | Err e \<Rightarrow> (Err e, Suc t)
      | Panic \<Rightarrow> (Panic, Suc t))"

definition try_once ::
  "run_world \<Rightarrow> action_context \<Rightarrow> action \<Rightarrow> workflow_step \<Rightarrow> json \<Rightarrow> exec \<Rightarrow>
   (action_result, plugin_error) result \<times> exec" where
  "try_once w ctx action step input ex =
     (case rw_enabled_version w (ex_tick ex) of
        Err e \<Rightarrow> (Err e, tick w ex)
      | Panic \<Rightarrow> (Panic, tick w ex)
      | Ok version \<Rightarrow>
          if version \<noteq> ax_plugin_version ctx then (Err PlanStale, tick w ex)
          else (case ac_required_capabilities action input of
              Err e \<Rightarrow> (Err e, tick w ex)
            | Panic \<Rightarrow> (Panic, tick w ex)
            | Ok caps \<Rightarrow>
                (case check_capabilities w (ax_plugin_id ctx) (ax_host_id ctx) caps
                        (Suc (ex_tick ex)) of
                   (Err e, t) \<Rightarrow> (Err e, advance w t ex)
                 | (Panic, t) \<Rightarrow> (Panic, advance w t ex)
                 | (Ok _, t) \<Rightarrow>
                     (rw_execute w t (ws_uses step) input,
                      (advance w (Suc t) ex)\<lparr>ex_calls := ex_calls ex
                           @ [\<lparr>cl_tick = t, cl_step_id = ws_id step,
                               cl_action_id = ws_uses step, cl_input = input\<rparr>]\<rparr>))))"

text \<open>A successful execution: sanitize, emit a preview of the output, update the step's row.\<close>

definition keep_result ::
  "run_world \<Rightarrow> workflow_step \<Rightarrow> action_result \<Rightarrow> exec \<Rightarrow> (action_result, plugin_error) result \<times> exec" where
  "keep_result w step res ex =
     (case sanitize res of
        Err e \<Rightarrow> (Err e, ex)
      | Panic \<Rightarrow> (Panic, ex)
      | Ok res \<Rightarrow>
          (case (case ar_stdout res of None \<Rightarrow> Ok ex
                 | Some s \<Rightarrow> result_bind (truncate_preview s 4096) (\<lambda>preview.
                     Ok (emit (EvStepOutput (wrr_run_id (ex_run ex)) (ws_id step) (Some preview)) ex))) of
             Err e \<Rightarrow> (Err e, ex)
           | Panic \<Rightarrow> (Panic, ex)
           | Ok ex \<Rightarrow>
               (Ok res, ex\<lparr>ex_db := snd (update_step (rw_write_ok w (ex_tick ex)) (ws_id step) (step_state_str StepSucceeded)
                   (ar_exit_code res) (Some (json_text (ar_outputs res))) (ar_stdout res)
                   (ar_stderr res) True (ex_db ex))\<rparr>)))"

text \<open>The attempts: the first success, or the error of the last attempt, if any was made.\<close>

fun attempts ::
  "run_world \<Rightarrow> action_context \<Rightarrow> action \<Rightarrow> workflow_step \<Rightarrow> json \<Rightarrow> nat \<Rightarrow> plugin_error option \<Rightarrow>
   exec \<Rightarrow> (action_result, plugin_error option) result \<times> exec" where
  "attempts w ctx action step input 0 last_err ex = (Err last_err, ex)"
| "attempts w ctx action step input (Suc n) last_err ex =
     (if rw_cancelled w (ex_tick ex) then (Err (Some Cancelled), tick w ex)
      else case try_once w ctx action step input (tick w ex) of
        (Err e, ex') \<Rightarrow> attempts w ctx action step input n (Some e) ex'
      | (Panic, ex') \<Rightarrow> (Panic, ex')
      | (Ok res, ex') \<Rightarrow>
          (case keep_result w step res ex' of
             (Ok res', ex'') \<Rightarrow> (Ok res', ex'')
           | (_, ex'') \<Rightarrow> (Panic, ex'')))"

definition max_attempts :: "workflow_step \<Rightarrow> nat" where
  "max_attempts step =
     (case ws_retry step of Some r \<Rightarrow> max (min (unat (rp_max_attempts r)) 5) 1 | None \<Rightarrow> 1)"

section \<open>One step\<close>

datatype step_end = NextStep | StopRun "(workflow_run_record, plugin_error) result"

text \<open>The run was cancelled before step \<open>idx\<close>.\<close>

definition cancel_run :: "run_world \<Rightarrow> nat \<Rightarrow> exec \<Rightarrow> exec" where
  "cancel_run w idx ex =
     (let steps = wrr_steps (ex_run ex);
          run = (ex_run ex)\<lparr>wrr_state := RunCancelled,
            wrr_steps := take idx steps @ map (\<lambda>r. if wsr_state r = StepPending
                then r\<lparr>wsr_state := StepCancelled\<rparr> else r) (drop idx steps)\<rparr>
      in emit (EvCompleted (wrr_run_id run) RunCancelled)
           (write_run_state w RunCancelled (Some (plugin_error_code Cancelled)) (ex\<lparr>ex_run := run\<rparr>)))"

definition complete_step :: "nat \<Rightarrow> workflow_step \<Rightarrow> workflow_step_state \<Rightarrow>
    (workflow_step_record \<Rightarrow> workflow_step_record) \<Rightarrow> exec \<Rightarrow> exec" where
  "complete_step idx step state f ex =
     emit (EvStepCompleted (wrr_run_id (ex_run ex)) (ws_id step) state)
       (set_step idx (\<lambda>r. f (r\<lparr>wsr_state := state\<rparr>)) ex)"

definition step_succeeded :: "nat \<Rightarrow> workflow_step \<Rightarrow> action_result \<Rightarrow> exec \<Rightarrow> exec" where
  "step_succeeded idx step res ex =
     complete_step idx step StepSucceeded
       (\<lambda>r. r\<lparr>wsr_stdout := ar_stdout res, wsr_stderr := ar_stderr res, wsr_exit_code := ar_exit_code res\<rparr>)
       (ex\<lparr>ex_context := record_step_outputs (ws_id step) (ar_outputs res) (ex_context ex)\<rparr>)"

text \<open>The step failed for good: the run stops unless the step says to continue.\<close>

definition abort_run :: "run_world \<Rightarrow> plugin_error \<Rightarrow> exec \<Rightarrow> exec" where
  "abort_run w err ex =
     (let code = plugin_error_code err;
          state = (if err = Cancelled then RunCancelled else RunFailed);
          ex = set_run_state state (Some code) ex
      in emit (EvCompleted (wrr_run_id (ex_run ex)) state) (write_run_state w state (Some code) ex))"

definition step_failed :: "run_world \<Rightarrow> nat \<Rightarrow> workflow_step \<Rightarrow> plugin_error \<Rightarrow> exec \<Rightarrow> step_end \<times> exec" where
  "step_failed w idx step err ex =
     (let ex = complete_step idx step StepFailed
            (\<lambda>r. r\<lparr>wsr_error_code := Some (plugin_error_code err)\<rparr>) ex
      in if (case ws_on_failure step of Some p \<Rightarrow> p | None \<Rightarrow> AbortRun) = AbortRun
         then (StopRun (Err err), abort_run w err ex) else (NextStep, ex))"

text \<open>The part of a step that runs its action.\<close>

definition perform_step ::
  "run_world \<Rightarrow> action_registry \<Rightarrow> action_context \<Rightarrow> nat \<Rightarrow> workflow_step \<Rightarrow> exec \<Rightarrow> step_end \<times> exec" where
  "perform_step w registry ctx idx step ex =
     (let ex = emit (EvStepStarted (wrr_run_id (ex_run ex)) (ws_id step))
                 (set_step idx (\<lambda>r. r\<lparr>wsr_state := StepRunning\<rparr>) ex)
      in case action_get registry (ws_uses step) of
           Err e \<Rightarrow> (StopRun (Err e), ex)
         | Panic \<Rightarrow> (StopRun Panic, ex)
         | Ok action \<Rightarrow>
             (case resolve_json_value (run_scope ex) (ws_with step) of
                Err e \<Rightarrow> (StopRun (Err e), ex)
              | Panic \<Rightarrow> (StopRun Panic, ex)
              | Ok input \<Rightarrow>
                  (case attempts w ctx action step input (max_attempts step) None ex of
                     (Ok res, ex) \<Rightarrow> (NextStep, step_succeeded idx step res ex)
                   | (Err last_err, ex) \<Rightarrow>
                       step_failed w idx step (unwrap_or (RemoteExecution ''unknown'') last_err) ex
                   | (Panic, ex) \<Rightarrow> (StopRun Panic, ex))))"

definition run_step ::
  "run_world \<Rightarrow> action_registry \<Rightarrow> action_context \<Rightarrow> string list \<Rightarrow> nat \<Rightarrow> workflow_step \<Rightarrow> exec \<Rightarrow>
   step_end \<times> exec" where
  "run_step w registry ctx covered idx step ex =
     (if rw_cancelled w (ex_tick ex)
      then (let ex = cancel_run w idx (tick w ex) in (StopRun (Ok (ex_run ex)), ex))
      else
        (let ex = tick w ex in
         case (case ws_condition step of None \<Rightarrow> Ok True
               | Some cond \<Rightarrow> evaluate_condition (run_scope ex) cond) of
           Err e \<Rightarrow> (StopRun (Err e), ex)
         | Panic \<Rightarrow> (StopRun Panic, ex)
         | Ok False \<Rightarrow> (NextStep, complete_step idx step StepSkipped (\<lambda>r. r) ex)
         | Ok True \<Rightarrow>
             if ws_id step \<in> set covered
             then (NextStep, complete_step idx step StepSucceeded
                     (\<lambda>r. r\<lparr>wsr_summary := Some ''executed via ChangeSet''\<rparr>) ex)
             else perform_step w registry ctx idx step ex))"

section \<open>The whole run\<close>

definition finish_run :: "run_world \<Rightarrow> exec \<Rightarrow> exec" where
  "finish_run w ex =
     emit (EvCompleted (wrr_run_id (ex_run ex)) RunSucceeded)
       (write_run_state w RunSucceeded None
          (ex\<lparr>ex_run := (ex_run ex)\<lparr>wrr_state := RunSucceeded\<rparr>\<rparr>))"

fun run_loop ::
  "run_world \<Rightarrow> action_registry \<Rightarrow> action_context \<Rightarrow> string list \<Rightarrow> nat \<Rightarrow> workflow_step list \<Rightarrow> exec \<Rightarrow>
   (workflow_run_record, plugin_error) result \<times> exec" where
  "run_loop w registry ctx covered idx [] ex =
     (let ex = finish_run w ex in (Ok (ex_run ex), ex))"
| "run_loop w registry ctx covered idx (step # steps) ex =
     (case run_step w registry ctx covered idx step ex of
        (StopRun r, ex') \<Rightarrow> (r, ex')
      | (NextStep, ex') \<Rightarrow> run_loop w registry ctx covered (Suc idx) steps ex')"

definition find_step_plan :: "workflow_plan \<Rightarrow> string \<Rightarrow> workflow_step_plan option" where
  "find_step_plan plan step_id = find (\<lambda>p. sp_step_id p = step_id) (wp_steps plan)"

definition initial_run :: "workflow_definition \<Rightarrow> workflow_plan \<Rightarrow> action_context \<Rightarrow> workflow_run_record" where
  "initial_run d plan ctx =
     \<lparr>wrr_run_id = ax_run_id ctx, wrr_plugin_id = ax_plugin_id ctx,
      wrr_plugin_version = ax_plugin_version ctx, wrr_workflow_id = wm_id (wd_metadata d),
      wrr_host_id = ax_host_id ctx, wrr_state = RunRunning,
      wrr_steps = map (\<lambda>s. \<lparr>wsr_step_id = ws_id s, wsr_action_id = ws_uses s,
          wsr_state = StepPending,
          wsr_summary = map_option (\<lambda>p. ap_summary (sp_plan p)) (find_step_plan plan (ws_id s)),
          wsr_error_code = None, wsr_stdout = None, wsr_stderr = None, wsr_exit_code = None\<rparr>)
        (wd_steps d),
      wrr_error_code = None\<rparr>"

fun insert_steps ::
  "(nat \<Rightarrow> bool) \<Rightarrow> (nat \<Rightarrow> string) \<Rightarrow> workflow_plan \<Rightarrow> string \<Rightarrow> nat \<Rightarrow> workflow_step_record list \<Rightarrow> run_db \<Rightarrow> run_db" where
  "insert_steps ok fresh plan run_id n [] db = db"
| "insert_steps ok fresh plan run_id n (r # rs) db =
     insert_steps ok fresh plan run_id (Suc n) rs
       (snd (insert_step (ok n)
          \<lparr>sr_id = fresh n, sr_run_id = run_id, sr_step_id = wsr_step_id r,
           sr_action = wsr_action_id r, sr_state = step_state_str StepPending,
           sr_risk = (case find_step_plan plan (wsr_step_id r) of
              Some p \<Rightarrow> risk_debug (ap_risk (sp_plan p)) | None \<Rightarrow> ''R0''),
           sr_exit_code = None, sr_outputs_json = None, sr_stdout = None, sr_stderr = None,
           sr_completed = False\<rparr> db))"

definition start_exec ::
  "workflow_definition \<Rightarrow> workflow_plan \<Rightarrow> action_context \<Rightarrow> json \<Rightarrow> run_db \<Rightarrow> workflow_event list \<Rightarrow> exec"
  where
  "start_exec d plan ctx inputs db events =
     \<lparr>ex_tick = 0, ex_run = initial_run d plan ctx,
      ex_context = workflow_context_new (ax_run_id ctx) (ax_plugin_id ctx) (ax_plugin_version ctx)
        (wm_id (wd_metadata d)) (ax_host_id ctx) (ax_host_os ctx) inputs,
      ex_db = db, ex_events = events, ex_calls = []\<rparr>"

definition new_run_row :: "workflow_run_record \<Rightarrow> json \<Rightarrow> run_row" where
  "new_run_row run inputs =
     \<lparr>rr_id = wrr_run_id run, rr_plugin_id = wrr_plugin_id run,
      rr_plugin_version = wrr_plugin_version run, rr_workflow_id = wrr_workflow_id run,
      rr_host_id = wrr_host_id run, rr_session_id = None, rr_state = run_state_str RunRunning,
      rr_error_code = None, rr_completed = False, rr_inputs_json = json_text inputs\<rparr>"

text \<open>
  \<open>run_steps\<close>: \<open>db_ok\<close> is whether the run's row can be written, \<open>fresh\<close> the ids drawn for the
  rows of its steps. The run's row is inserted first, then the rows of the steps. The token is
  dropped only after the loop has ended, so \<open>cancel\<close> may still write the row then.
\<close>

definition run_steps ::
  "run_world \<Rightarrow> action_registry \<Rightarrow> bool \<Rightarrow> (nat \<Rightarrow> string) \<Rightarrow> workflow_definition \<Rightarrow> workflow_plan \<Rightarrow>
   action_context \<Rightarrow> json \<Rightarrow> string list \<Rightarrow> run_db \<Rightarrow> workflow_event list \<Rightarrow>
   (workflow_run_record, plugin_error) result \<times> exec" where
  "run_steps w registry db_ok fresh d plan ctx inputs covered db events =
     (let run = initial_run d plan ctx in
      case insert_run db_ok (new_run_row run inputs) db of
        (Err e, db) \<Rightarrow> (Err e, start_exec d plan ctx inputs db events)
      | (Panic, db) \<Rightarrow> (Panic, start_exec d plan ctx inputs db events)
      | (Ok _, db) \<Rightarrow>
          (case run_loop w registry ctx covered 0 (wd_steps d)
             (start_exec d plan ctx inputs
                (insert_steps (rw_insert_ok w) fresh plan (wrr_run_id run) 0 (wrr_steps run) db)
                (events @ [EvStarted (wrr_run_id run) (wm_id (wd_metadata d))])) of
             (r, ex) \<Rightarrow> (r, tick w ex)))"

definition started_exec ::
  "(nat \<Rightarrow> bool) \<Rightarrow> (nat \<Rightarrow> string) \<Rightarrow> workflow_definition \<Rightarrow> workflow_plan \<Rightarrow> action_context \<Rightarrow> json \<Rightarrow>
   run_db \<Rightarrow> workflow_event list \<Rightarrow> exec" where
  "started_exec ok fresh d plan ctx inputs db events =
     start_exec d plan ctx inputs
       (insert_steps ok fresh plan (ax_run_id ctx) 0 (wrr_steps (initial_run d plan ctx))
          (db\<lparr>db_runs := db_runs db @ [new_run_row (initial_run d plan ctx) inputs]\<rparr>))
       (events @ [EvStarted (ax_run_id ctx) (wm_id (wd_metadata d))])"

lemma run_steps_eq:
  "run_steps w registry db_ok fresh d plan ctx inputs covered db events =
     (if db_ok \<and> ax_run_id ctx \<notin> rr_id ` set (db_runs db)
      then apsnd (tick w) (run_loop w registry ctx covered 0 (wd_steps d)
             (started_exec (rw_insert_ok w) fresh d plan ctx inputs db events))
      else (Err Storage_p, start_exec d plan ctx inputs db events))"
  by (simp add: run_steps_def started_exec_def insert_run_def new_run_row_def initial_run_def Let_def
      apsnd_def map_prod_def)

section \<open>What each piece of a run touches\<close>

named_theorems exec_simps \<open>the fields of an execution after each primitive\<close>

lemma cancels_steps [simp]: "db_steps (cancels w rid ts db) = db_steps db"
  by (induction w rid ts db rule: cancels.induct) (simp_all add: cancel_def update_run_state_def)

lemma exec_advance [exec_simps]:
  "ex_run (advance w t ex) = ex_run ex" "ex_context (advance w t ex) = ex_context ex"
  "db_steps (ex_db (advance w t ex)) = db_steps (ex_db ex)"
  "ex_events (advance w t ex) = ex_events ex" "ex_calls (advance w t ex) = ex_calls ex"
  "ex_tick (advance w t ex) = t"
  by (simp_all add: advance_def)

lemma exec_tick [exec_simps]:
  "ex_run (tick w ex) = ex_run ex" "ex_context (tick w ex) = ex_context ex"
  "db_steps (ex_db (tick w ex)) = db_steps (ex_db ex)"
  "ex_events (tick w ex) = ex_events ex" "ex_calls (tick w ex) = ex_calls ex"
  "ex_tick (tick w ex) = Suc (ex_tick ex)"
  by (simp_all add: tick_def exec_advance)

lemma exec_write_run_state [exec_simps]:
  "ex_run (write_run_state w st c ex) = ex_run ex" "ex_context (write_run_state w st c ex) = ex_context ex"
  "db_steps (ex_db (write_run_state w st c ex)) = db_steps (ex_db ex)"
  "ex_events (write_run_state w st c ex) = ex_events ex" "ex_calls (write_run_state w st c ex) = ex_calls ex"
  by (simp_all add: write_run_state_def update_run_state_def Let_def exec_tick)

lemma exec_emit [exec_simps]:
  "ex_run (emit e ex) = ex_run ex" "ex_context (emit e ex) = ex_context ex"
  "ex_db (emit e ex) = ex_db ex" "ex_events (emit e ex) = ex_events ex @ [e]"
  "ex_calls (emit e ex) = ex_calls ex" "ex_tick (emit e ex) = ex_tick ex"
  by (simp_all add: emit_def)

lemma exec_set_step [exec_simps]:
  "ex_context (set_step idx f ex) = ex_context ex" "ex_db (set_step idx f ex) = ex_db ex"
  "ex_events (set_step idx f ex) = ex_events ex" "ex_calls (set_step idx f ex) = ex_calls ex"
  "ex_tick (set_step idx f ex) = ex_tick ex"
  "wrr_run_id (ex_run (set_step idx f ex)) = wrr_run_id (ex_run ex)"
  "wrr_state (ex_run (set_step idx f ex)) = wrr_state (ex_run ex)"
  "wrr_error_code (ex_run (set_step idx f ex)) = wrr_error_code (ex_run ex)"
  "wrr_steps (ex_run (set_step idx f ex)) = (wrr_steps (ex_run ex))[idx := f (wrr_steps (ex_run ex) ! idx)]"
  by (simp_all add: set_step_def)

lemma exec_set_run_state [exec_simps]:
  "ex_context (set_run_state st c ex) = ex_context ex" "ex_db (set_run_state st c ex) = ex_db ex"
  "ex_events (set_run_state st c ex) = ex_events ex" "ex_calls (set_run_state st c ex) = ex_calls ex"
  "ex_tick (set_run_state st c ex) = ex_tick ex"
  "wrr_run_id (ex_run (set_run_state st c ex)) = wrr_run_id (ex_run ex)"
  "wrr_state (ex_run (set_run_state st c ex)) = st"
  "wrr_error_code (ex_run (set_run_state st c ex)) = c"
  by (simp_all add: set_run_state_def)

lemma exec_complete_step [exec_simps]:
  "ex_context (complete_step idx step st f ex) = ex_context ex"
  "ex_db (complete_step idx step st f ex) = ex_db ex"
  "ex_events (complete_step idx step st f ex)
     = ex_events ex @ [EvStepCompleted (wrr_run_id (ex_run ex)) (ws_id step) st]"
  "ex_calls (complete_step idx step st f ex) = ex_calls ex"
  "ex_tick (complete_step idx step st f ex) = ex_tick ex"
  "wrr_run_id (ex_run (complete_step idx step st f ex)) = wrr_run_id (ex_run ex)"
  "wrr_state (ex_run (complete_step idx step st f ex)) = wrr_state (ex_run ex)"
  "wrr_error_code (ex_run (complete_step idx step st f ex)) = wrr_error_code (ex_run ex)"
  "wrr_steps (ex_run (complete_step idx step st f ex))
     = (wrr_steps (ex_run ex))[idx := f ((wrr_steps (ex_run ex) ! idx)\<lparr>wsr_state := st\<rparr>)]"
  by (simp_all add: complete_step_def exec_simps)

lemma exec_step_succeeded [exec_simps]:
  "ex_db (step_succeeded idx step res ex) = ex_db ex"
  "ex_events (step_succeeded idx step res ex)
     = ex_events ex @ [EvStepCompleted (wrr_run_id (ex_run ex)) (ws_id step) StepSucceeded]"
  "ex_calls (step_succeeded idx step res ex) = ex_calls ex"
  "ex_tick (step_succeeded idx step res ex) = ex_tick ex"
  "wrr_run_id (ex_run (step_succeeded idx step res ex)) = wrr_run_id (ex_run ex)"
  "wrr_state (ex_run (step_succeeded idx step res ex)) = wrr_state (ex_run ex)"
  "wrr_error_code (ex_run (step_succeeded idx step res ex)) = wrr_error_code (ex_run ex)"
  by (simp_all add: step_succeeded_def exec_simps)

text \<open>
  One rule for every invariant of a run: it is kept by polling the token, by each piece that
  run_step is made of, and by the two ways to close a run.
\<close>

locale run_invariant =
  fixes w :: run_world and registry :: action_registry and ctx :: action_context
    and covered :: "string list" and steps_of_run :: "workflow_step set"
    and inv :: "exec \<Rightarrow> bool"
  assumes inv_advance: "inv ex \<Longrightarrow> inv (advance w t ex)"
    and inv_emit_step: "inv ex \<Longrightarrow> inv (emit (EvStepStarted rid sid) (set_step idx f ex))"
    and inv_complete: "inv ex \<Longrightarrow> inv (complete_step idx step st g ex)"
    and inv_context: "inv ex \<Longrightarrow> inv (ex\<lparr>ex_context := c\<rparr>)"
    and inv_try: "step \<in> steps_of_run \<Longrightarrow> ws_id step \<notin> set covered \<Longrightarrow>
          registry (ws_uses step) = Some action \<Longrightarrow> inv ex \<Longrightarrow>
          inv (snd (try_once w ctx action step input ex))"
    and inv_keep: "step \<in> steps_of_run \<Longrightarrow> inv ex \<Longrightarrow> inv (snd (keep_result w step res ex))"
begin

lemma inv_tick: "inv ex \<Longrightarrow> inv (tick w ex)"
  unfolding tick_def by (rule inv_advance)

lemma inv_attempts:
  assumes "step \<in> steps_of_run" and "ws_id step \<notin> set covered" and "registry (ws_uses step) = Some action"
  shows "inv ex \<Longrightarrow> inv (snd (attempts w ctx action step input n last_err ex))"
proof (induction n arbitrary: last_err ex)
  case (Suc n)
  obtain r ex' where try_eq: "try_once w ctx action step input (tick w ex) = (r, ex')"
    by (cases "try_once w ctx action step input (tick w ex)")
  have "inv ex'" using inv_try [OF assms inv_tick [OF Suc.prems], of input] try_eq by simp
  then have "inv (snd (attempts w ctx action step input n le ex'))" for le by (rule Suc.IH)
  moreover have "inv (snd (keep_result w step res ex'))" for res
    by (rule inv_keep [OF assms(1) \<open>inv ex'\<close>])
  ultimately show ?case
    using inv_tick [OF Suc.prems] try_eq \<open>inv ex'\<close>
    by (auto split: result.splits prod.splits) (metis snd_conv)+
qed simp

definition run_end :: "(workflow_run_record, plugin_error) result \<Rightarrow> exec \<Rightarrow> bool" where
  "run_end r ex' \<longleftrightarrow>
     (\<exists>ex. inv ex \<and>
        ((\<not> is_ok r \<and> ex' = ex)
         \<or> (\<exists>idx. ex' = cancel_run w idx ex \<and> r = Ok (ex_run ex'))
         \<or> (\<exists>err. ex' = abort_run w err ex \<and> r = Err err)
         \<or> (ex' = finish_run w ex \<and> r = Ok (ex_run ex'))))"

lemma early_end: "inv ex \<Longrightarrow> \<not> is_ok r \<Longrightarrow> run_end r ex"
  unfolding run_end_def by blast

lemma inv_step_failed:
  assumes "inv ex"
  shows "case step_failed w idx step err ex of
           (NextStep, ex') \<Rightarrow> inv ex' | (StopRun r, ex') \<Rightarrow> run_end r ex'"
proof -
  let ?ex = "complete_step idx step StepFailed (\<lambda>r. r\<lparr>wsr_error_code := Some (plugin_error_code err)\<rparr>) ex"
  have "inv ?ex" by (rule inv_complete [OF assms])
  then have "run_end (Err err) (abort_run w err ?ex)" unfolding run_end_def by blast
  with \<open>inv ?ex\<close> show ?thesis by (simp add: step_failed_def Let_def)
qed

lemma inv_perform_step:
  assumes "step \<in> steps_of_run" and "ws_id step \<notin> set covered" and "inv ex"
  shows "case perform_step w registry ctx idx step ex of
           (NextStep, ex') \<Rightarrow> inv ex' | (StopRun r, ex') \<Rightarrow> run_end r ex'"
proof -
  define ex1 where "ex1 = emit (EvStepStarted (wrr_run_id (ex_run ex)) (ws_id step))
    (set_step idx (\<lambda>r. r\<lparr>wsr_state := StepRunning\<rparr>) ex)"
  have ex1: "inv ex1" unfolding ex1_def by (rule inv_emit_step [OF assms(3)])
  have P: "perform_step w registry ctx idx step ex =
      (case action_get registry (ws_uses step) of
           Err e \<Rightarrow> (StopRun (Err e), ex1)
         | Panic \<Rightarrow> (StopRun Panic, ex1)
         | Ok action \<Rightarrow>
             (case resolve_json_value (run_scope ex1) (ws_with step) of
                Err e \<Rightarrow> (StopRun (Err e), ex1)
              | Panic \<Rightarrow> (StopRun Panic, ex1)
              | Ok input \<Rightarrow>
                  (case attempts w ctx action step input (max_attempts step) None ex1 of
                     (Ok res, ex) \<Rightarrow> (NextStep, step_succeeded idx step res ex)
                   | (Err last_err, ex) \<Rightarrow>
                       step_failed w idx step (unwrap_or (RemoteExecution ''unknown'') last_err) ex
                   | (Panic, ex) \<Rightarrow> (StopRun Panic, ex))))"
    unfolding perform_step_def ex1_def Let_def by (rule refl)
  show ?thesis
  proof (cases "action_get registry (ws_uses step)")
    case (Ok action)
    then have reg: "registry (ws_uses step) = Some action" by (simp add: action_get_def result_simps)
    show ?thesis
    proof (cases "resolve_json_value (run_scope ex1) (ws_with step)")
      case input: (Ok input)
      obtain r ex2 where att: "attempts w ctx action step input (max_attempts step) None ex1 = (r, ex2)"
        by (cases "attempts w ctx action step input (max_attempts step) None ex1")
      have ex2: "inv ex2"
        using inv_attempts [OF assms(1,2) reg ex1, of input "max_attempts step" None] att by simp
      have "inv (step_succeeded idx step res ex2)" for res
        unfolding step_succeeded_def by (rule inv_complete [OF inv_context [OF ex2]])
      with inv_step_failed [OF ex2] early_end [OF ex2, of Panic] show ?thesis
        by (cases r) (simp_all add: P Ok input att)
    qed (use early_end [OF ex1] in \<open>simp_all add: P Ok\<close>)
  qed (use early_end [OF ex1] in \<open>simp_all add: P\<close>)
qed

lemma inv_run_step:
  assumes "step \<in> steps_of_run" and "inv ex"
  shows "case run_step w registry ctx covered idx step ex of
           (NextStep, ex') \<Rightarrow> inv ex' | (StopRun r, ex') \<Rightarrow> run_end r ex'"
proof (cases "rw_cancelled w (ex_tick ex)")
  case True
  have "run_end (Ok (ex_run (cancel_run w idx (tick w ex)))) (cancel_run w idx (tick w ex))"
    unfolding run_end_def using inv_tick [OF assms(2)] by blast
  with True show ?thesis by (simp add: run_step_def Let_def)
next
  case False
  note t = inv_tick [OF assms(2)]
  show ?thesis
    using False t early_end [OF t] inv_complete [OF t] inv_perform_step [OF assms(1) _ t]
    by (simp add: run_step_def Let_def split: option.split result.split bool.split)
qed

lemma inv_run_loop:
  "run_loop w registry ctx covered idx steps ex = (r, ex') \<Longrightarrow> set steps \<subseteq> steps_of_run \<Longrightarrow>
     inv ex \<Longrightarrow> run_end r ex'"
proof (induction steps arbitrary: idx ex)
  case Nil
  then have "ex' = finish_run w ex" and "r = Ok (ex_run ex')" by (auto simp: Let_def)
  with Nil.prems(3) show ?case unfolding run_end_def by blast
next
  case (Cons step steps)
  obtain e ex1 where step_eq: "run_step w registry ctx covered idx step ex = (e, ex1)"
    by (cases "run_step w registry ctx covered idx step ex")
  with inv_run_step [OF _ Cons.prems(3), of step idx] Cons.prems Cons.IH [of "Suc idx" ex1]
  show ?case by (cases e) simp_all
qed

end

section \<open>Every action is authorized\<close>

text \<open>
  What must have held just before an action was performed: the step is one of the run's and
  not covered by the change set, its action is the registered one, and at the questions right
  before the call the plugin was enabled at the planned version and held, for the run's host,
  every capability the action requires for the input it is given.
\<close>

definition authorized_call ::
  "run_world \<Rightarrow> action_registry \<Rightarrow> action_context \<Rightarrow> string list \<Rightarrow> workflow_step set \<Rightarrow> call \<Rightarrow> bool" where
  "authorized_call w registry ctx covered steps c \<longleftrightarrow>
     (\<exists>step \<in> steps. \<exists>action caps.
        cl_step_id c = ws_id step \<and> cl_action_id c = ws_uses step
        \<and> ws_id step \<notin> set covered \<and> registry (ws_uses step) = Some action
        \<and> ac_required_capabilities action (cl_input c) = Ok caps
        \<and> length caps < cl_tick c
        \<and> rw_enabled_version w (cl_tick c - length caps - 1) = Ok (ax_plugin_version ctx)
        \<and> (\<forall>i < length caps. require_for_host (ax_plugin_id ctx) (caps ! i) (ax_host_id ctx)
              (permissions_at w (cl_tick c - length caps + i)) = Ok ()))"

lemma check_capabilities_Ok:
  "check_capabilities w p h caps t = (Ok u, t') \<Longrightarrow>
     t' = t + length caps
     \<and> (\<forall>i < length caps. require_for_host p (caps ! i) h (permissions_at w (t + i)) = Ok ())"
proof (induction caps arbitrary: t)
  case (Cons c caps)
  then have now: "require_for_host p c h (permissions_at w t) = Ok ()"
    and "check_capabilities w p h caps (Suc t) = (Ok u, t')"
    by (auto split: result.splits)
  with Cons.IH have "t' = Suc t + length caps"
    and later: "\<forall>i < length caps. require_for_host p (caps ! i) h (permissions_at w (Suc t + i)) = Ok ()"
    by blast+
  moreover have "require_for_host p ((c # caps) ! i) h (permissions_at w (t + i)) = Ok ()"
    if "i < length (c # caps)" for i
    using that now later by (cases i) simp_all
  ultimately show ?case by simp
qed simp

lemma try_once_calls:
  assumes "registry (ws_uses step) = Some action" and "step \<in> steps" and "ws_id step \<notin> set covered"
  shows "\<exists>cs. ex_calls (snd (try_once w ctx action step input ex)) = ex_calls ex @ cs
    \<and> length cs \<le> 1 \<and> list_all (authorized_call w registry ctx covered steps) cs
    \<and> list_all (\<lambda>c. cl_step_id c = ws_id step) cs"
proof (cases "\<exists>caps u t. rw_enabled_version w (ex_tick ex) = Ok (ax_plugin_version ctx)
    \<and> ac_required_capabilities action input = Ok caps
    \<and> check_capabilities w (ax_plugin_id ctx) (ax_host_id ctx) caps (Suc (ex_tick ex)) = (Ok u, t)")
  case True
  then obtain caps u t where
      enabled: "rw_enabled_version w (ex_tick ex) = Ok (ax_plugin_version ctx)"
    and caps: "ac_required_capabilities action input = Ok caps"
    and checked: "check_capabilities w (ax_plugin_id ctx) (ax_host_id ctx) caps (Suc (ex_tick ex)) = (Ok u, t)"
    by blast
  let ?c = "\<lparr>cl_tick = t, cl_step_id = ws_id step, cl_action_id = ws_uses step, cl_input = input\<rparr>"
  from check_capabilities_Ok [OF checked] enabled caps assms
  have "authorized_call w registry ctx covered steps ?c"
    unfolding authorized_call_def by (intro bexI [of _ step] exI [of _ action] exI [of _ caps]) auto
  with enabled caps checked show ?thesis
    by (intro exI [of _ "[?c]"]) (simp add: try_once_def)
next
  case False
  then have "ex_calls (snd (try_once w ctx action step input ex)) = ex_calls ex"
    by (auto simp: try_once_def exec_simps split: result.split prod.split)
  then show ?thesis by (intro exI [of _ "[]"]) simp
qed

lemma keep_result_frame:
  "ex_calls (snd (keep_result w step res ex)) = ex_calls ex"
  "ex_run (snd (keep_result w step res ex)) = ex_run ex"
  "db_runs (ex_db (snd (keep_result w step res ex))) = db_runs (ex_db ex)"
  "\<exists>evs. ex_events (snd (keep_result w step res ex)) = ex_events ex @ evs
     \<and> list_all (\<lambda>e. \<exists>rid sid p. e = EvStepOutput rid sid p) evs"
  "ex_context (snd (keep_result w step res ex)) = ex_context ex"
  by (auto simp: keep_result_def update_step_def exec_simps result_simps
      split: result.splits option.splits)

interpretation call_invariant:
  run_invariant w registry ctx covered steps
    "\<lambda>ex. list_all (authorized_call w registry ctx covered steps) (ex_calls ex)"
  for w registry ctx covered steps
proof
  fix step action input and ex :: exec
  assume "step \<in> steps" "ws_id step \<notin> set covered" "registry (ws_uses step) = Some action"
    and inv: "list_all (authorized_call w registry ctx covered steps) (ex_calls ex)"
  with try_once_calls [where w = w and registry = registry and ctx = ctx and covered = covered
      and steps = steps and step = step and action = action and input = input and ex = ex]
  show "list_all (authorized_call w registry ctx covered steps)
      (ex_calls (snd (try_once w ctx action step input ex)))"
    by auto
qed (simp_all add: exec_simps keep_result_frame)

lemma end_calls [exec_simps]:
  "ex_calls (cancel_run w idx ex) = ex_calls ex" "ex_calls (abort_run w err ex) = ex_calls ex"
  "ex_calls (finish_run w ex) = ex_calls ex"
  by (simp_all add: cancel_run_def abort_run_def finish_run_def Let_def exec_simps)

lemma run_loop_calls_authorized:
  assumes "list_all (authorized_call w registry ctx covered (set steps)) (ex_calls ex)"
  shows "list_all (authorized_call w registry ctx covered (set steps))
           (ex_calls (snd (run_loop w registry ctx covered idx steps ex)))"
proof -
  obtain r ex' where loop: "run_loop w registry ctx covered idx steps ex = (r, ex')"
    by (cases "run_loop w registry ctx covered idx steps ex")
  from call_invariant.inv_run_loop [OF loop _ assms]
  show ?thesis unfolding call_invariant.run_end_def loop by (auto simp: exec_simps)
qed

lemma run_steps_calls_authorized:
  "list_all (authorized_call w registry ctx covered (set (wd_steps d)))
     (ex_calls (snd (run_steps w registry db_ok fresh d plan ctx inputs covered db events)))"
  using run_loop_calls_authorized [where ex = "started_exec (rw_insert_ok w) fresh d plan ctx inputs db events"
      and idx = 0 and w = w and registry = registry and ctx = ctx and covered = covered
      and steps = "wd_steps d"]
  by (auto simp: run_steps_eq started_exec_def start_exec_def exec_simps)

section \<open>How often and in which order\<close>

lemma max_attempts_bounds: "1 \<le> max_attempts step \<and> max_attempts step \<le> 5"
  by (auto simp: max_attempts_def split: option.split)

text \<open>\<open>more_calls step n ex ex'\<close>: at most \<open>n\<close> calls were added, all for this step.\<close>

definition more_calls :: "workflow_step \<Rightarrow> nat \<Rightarrow> exec \<Rightarrow> exec \<Rightarrow> bool" where
  "more_calls step n ex ex' \<longleftrightarrow>
     (\<exists>k \<le> n. map cl_step_id (ex_calls ex') = map cl_step_id (ex_calls ex) @ replicate k (ws_id step))"

lemma more_calls_same: "ex_calls ex' = ex_calls ex \<Longrightarrow> more_calls step n ex ex'"
  by (auto simp: more_calls_def)

lemma more_calls_eq:
  "ex_calls ex = ex_calls ex1 \<Longrightarrow> ex_calls ex' = ex_calls ex2 \<Longrightarrow> more_calls step n ex1 ex2 \<Longrightarrow>
     more_calls step n ex ex'"
  by (simp add: more_calls_def)

lemma more_calls_trans:
  "more_calls step m ex1 ex2 \<Longrightarrow> more_calls step n ex2 ex3 \<Longrightarrow> more_calls step (m + n) ex1 ex3"
  unfolding more_calls_def by (metis add_mono append.assoc replicate_add)

lemma try_once_more_calls: "more_calls step 1 ex (snd (try_once w ctx action step input ex))"
proof -
  have "try_once w ctx action step input ex = (r, ex') \<Longrightarrow>
      map cl_step_id (ex_calls ex') = map cl_step_id (ex_calls ex)
      \<or> map cl_step_id (ex_calls ex') = map cl_step_id (ex_calls ex) @ [ws_id step]" for r ex'
    by (auto simp: try_once_def exec_simps split: result.splits prod.splits if_splits)
  then have "map cl_step_id (ex_calls (snd (try_once w ctx action step input ex))) = map cl_step_id (ex_calls ex)
      \<or> map cl_step_id (ex_calls (snd (try_once w ctx action step input ex)))
          = map cl_step_id (ex_calls ex) @ [ws_id step]"
    by (metis prod.collapse)
  then show ?thesis
    unfolding more_calls_def by (elim disjE) (rule exI [of _ 0], simp, rule exI [of _ 1], simp)
qed

lemma attempts_more_calls: "more_calls step n ex (snd (attempts w ctx action step input n last_err ex))"
proof (induction n arbitrary: last_err ex)
  case (Suc n)
  obtain r ex' where try_eq: "try_once w ctx action step input (tick w ex) = (r, ex')"
    by (cases "try_once w ctx action step input (tick w ex)")
  have one: "more_calls step 1 ex ex'"
    using try_once_more_calls [of step "tick w ex" w ctx action input] try_eq
    by (simp add: more_calls_def exec_simps)
  have "more_calls step (1 + n) ex (snd (attempts w ctx action step input n le ex'))" for le
    by (rule more_calls_trans [OF one Suc.IH])
  moreover have "more_calls step (1 + n) ex (snd (keep_result w step res ex'))" for res
    by (rule more_calls_trans [OF one more_calls_same]) (simp add: keep_result_frame)
  moreover have "more_calls step (1 + n) ex ex'"
    by (rule more_calls_trans [OF one more_calls_same]) simp
  moreover have "more_calls step (Suc n) ex (tick w ex)"
    by (rule more_calls_same) (simp add: exec_simps)
  ultimately show ?case
    using try_eq by (auto split: result.splits prod.splits) (metis snd_conv)+
qed (simp add: more_calls_same)

lemma step_failed_calls: "ex_calls (snd (step_failed w idx step err ex)) = ex_calls ex"
  by (simp add: step_failed_def Let_def exec_simps)

lemma run_step_more_calls:
  "more_calls step (max_attempts step) ex (snd (run_step w registry ctx covered idx step ex))"
proof -
  have perform: "more_calls step (max_attempts step) ex (snd (perform_step w registry ctx idx step ex))" for ex
  proof -
    define ex1 where "ex1 = emit (EvStepStarted (wrr_run_id (ex_run ex)) (ws_id step))
      (set_step idx (\<lambda>r. r\<lparr>wsr_state := StepRunning\<rparr>) ex)"
    have ex1: "ex_calls ex = ex_calls ex1" by (simp add: ex1_def exec_simps)
    have att: "attempts w ctx action step input (max_attempts step) None ex1 = (r, ex2) \<Longrightarrow>
        ex_calls ex' = ex_calls ex2 \<Longrightarrow> more_calls step (max_attempts step) ex ex'"
      for action input r ex2 ex'
      using more_calls_eq [OF ex1 _ attempts_more_calls] by (metis snd_conv)
    show ?thesis
      unfolding perform_step_def Let_def ex1_def [symmetric]
      by (auto split: result.split prod.split simp: exec_simps step_failed_calls
          intro: att more_calls_same [OF ex1 [symmetric]])
  qed
  then show ?thesis
    by (auto simp: run_step_def Let_def exec_simps end_calls split: result.split option.split bool.split
        intro: more_calls_same more_calls_eq [OF _ refl perform [of "tick w ex"]])
qed

lemma run_loop_calls_in_order:
  "\<exists>ns. list_all2 (\<lambda>n step. n \<le> max_attempts step) ns steps
     \<and> map cl_step_id (ex_calls (snd (run_loop w registry ctx covered idx steps ex)))
         = map cl_step_id (ex_calls ex)
           @ concat (map2 (\<lambda>n step. replicate n (ws_id step)) ns steps)"
proof (induction steps arbitrary: idx ex)
  case Nil
  show ?case by (simp add: Let_def end_calls)
next
  case (Cons step steps)
  obtain e ex1 where step_eq: "run_step w registry ctx covered idx step ex = (e, ex1)"
    by (cases "run_step w registry ctx covered idx step ex")
  with run_step_more_calls [of step ex w registry ctx covered idx] obtain k where
      k: "k \<le> max_attempts step"
        "map cl_step_id (ex_calls ex1) = map cl_step_id (ex_calls ex) @ replicate k (ws_id step)"
    by (auto simp: more_calls_def)
  show ?case
  proof (cases e)
    case NextStep
    from Cons.IH [of "Suc idx" ex1] obtain ns where
      "list_all2 (\<lambda>n step. n \<le> max_attempts step) ns steps"
      "map cl_step_id (ex_calls (snd (run_loop w registry ctx covered (Suc idx) steps ex1)))
         = map cl_step_id (ex_calls ex1) @ concat (map2 (\<lambda>n step. replicate n (ws_id step)) ns steps)"
      by blast
    with k NextStep step_eq show ?thesis by (intro exI [of _ "k # ns"]) simp
  next
    case (StopRun r)
    have "list_all2 (\<lambda>n step. n \<le> max_attempts step) (replicate (length steps) 0) steps"
      by (simp add: list_all2_conv_all_nth)
    moreover have "concat (map2 (\<lambda>n step. replicate n (ws_id step)) (replicate (length steps) 0) steps) = []"
      by (induction steps) simp_all
    ultimately show ?thesis
      using k StopRun step_eq by (intro exI [of _ "k # replicate (length steps) 0"]) simp
  qed
qed

text \<open>
  C33. Whatever the world does meanwhile, a run performs an action only when it is entitled to:
  every call is for a step of the workflow that the change set does not cover, with the
  registered action, and directly before it the plugin was found enabled at the planned
  version and holding every capability the action requires for that very input on that host.
  The calls follow the order of the steps, at most as many for one step as its retry policy
  allows, never more than five.
\<close>

theorem run_calls_authorized_in_order:
  "list_all (authorized_call w registry ctx covered (set (wd_steps d)))
     (ex_calls (snd (run_steps w registry db_ok fresh d plan ctx inputs covered db events)))
   \<and> (\<exists>ns. list_all2 (\<lambda>n step. n \<le> max_attempts step \<and> n \<le> 5) ns (wd_steps d)
       \<and> map cl_step_id (ex_calls (snd (run_steps w registry db_ok fresh d plan ctx inputs covered db events)))
           = concat (map2 (\<lambda>n step. replicate n (ws_id step)) ns (wd_steps d)))"
proof -
  let ?out = "run_steps w registry db_ok fresh d plan ctx inputs covered db events"
  have zero: "concat (map2 (\<lambda>n step. replicate n (ws_id step)) (replicate (length steps) 0) steps) = []"
    for steps by (induction steps) simp_all
  show ?thesis
  proof (cases "db_ok \<and> ax_run_id ctx \<notin> rr_id ` set (db_runs db)")
    case True
    let ?ex = "started_exec (rw_insert_ok w) fresh d plan ctx inputs db events"
    from True have out: "ex_calls (snd ?out) = ex_calls (snd (run_loop w registry ctx covered 0 (wd_steps d) ?ex))"
      by (simp add: run_steps_eq exec_simps)
    have start: "ex_calls ?ex = []" by (simp add: started_exec_def start_exec_def)
    from run_loop_calls_in_order [of "wd_steps d" w registry ctx covered 0 ?ex] obtain ns where
      ns: "list_all2 (\<lambda>n step. n \<le> max_attempts step) ns (wd_steps d)"
        "map cl_step_id (ex_calls (snd ?out)) = concat (map2 (\<lambda>n step. replicate n (ws_id step)) ns (wd_steps d))"
      unfolding out start by auto
    have "list_all2 (\<lambda>n step. n \<le> max_attempts step \<and> n \<le> 5) ns (wd_steps d)"
      by (rule list_all2_mono [OF ns(1)]) (use max_attempts_bounds order_trans in blast)
    with ns(2) run_steps_calls_authorized [where d = d] show ?thesis by blast
  next
    case False
    then have "ex_calls (snd ?out) = []" by (auto simp: run_steps_eq start_exec_def)
    then show ?thesis
      using zero [of "wd_steps d"]
      by (intro conjI exI [of _ "replicate (length (wd_steps d)) 0"])
        (simp_all add: list_all2_conv_all_nth)
  qed
qed

section \<open>The rows of the steps\<close>

lemma update_step_no_row:
  "\<forall>r \<in> set (db_steps db). sr_id r \<noteq> row_id \<Longrightarrow> db_steps (snd (update_step ok row_id st ec oj so se c db)) = db_steps db"
  by (simp add: update_step_def map_idI)

interpretation row_invariant:
  run_invariant w registry ctx covered steps
    "\<lambda>ex. db_steps (ex_db ex) = rows \<and> (\<forall>r \<in> set rows. sr_id r \<notin> ws_id ` steps)"
  for w registry ctx covered steps rows
proof
  fix step action input and ex :: exec
  assume "db_steps (ex_db ex) = rows \<and> (\<forall>r \<in> set rows. sr_id r \<notin> ws_id ` steps)"
  then show "db_steps (ex_db (snd (try_once w ctx action step input ex))) = rows
      \<and> (\<forall>r \<in> set rows. sr_id r \<notin> ws_id ` steps)"
    by (simp add: try_once_def exec_simps split: result.split prod.split)
next
  fix step res and ex :: exec
  assume "step \<in> steps" and inv: "db_steps (ex_db ex) = rows \<and> (\<forall>r \<in> set rows. sr_id r \<notin> ws_id ` steps)"
  then have "\<forall>r \<in> set (db_steps (ex_db ex)). sr_id r \<noteq> ws_id step" by auto
  with inv show "db_steps (ex_db (snd (keep_result w step res ex))) = rows
      \<and> (\<forall>r \<in> set rows. sr_id r \<notin> ws_id ` steps)"
    by (auto simp: keep_result_def exec_simps result_simps update_step_no_row
        split: result.splits option.splits)
qed (simp_all add: exec_simps)

lemma end_rows:
  "db_steps (ex_db (cancel_run w idx ex)) = db_steps (ex_db ex)"
  "db_steps (ex_db (abort_run w err ex)) = db_steps (ex_db ex)"
  "db_steps (ex_db (finish_run w ex)) = db_steps (ex_db ex)"
  by (simp_all add: cancel_run_def abort_run_def finish_run_def update_run_state_def Let_def exec_simps)

definition pending_row :: "step_row \<Rightarrow> bool" where
  "pending_row r \<longleftrightarrow> sr_state r = ''Pending'' \<and> \<not> sr_completed r \<and> sr_exit_code r = None
     \<and> sr_outputs_json r = None \<and> sr_stdout r = None \<and> sr_stderr r = None"

lemma insert_steps_rows:
  "db_runs (insert_steps ok fresh plan rid n rs db) = db_runs db
   \<and> (\<exists>new. db_steps (insert_steps ok fresh plan rid n rs db) = db_steps db @ new
        \<and> list_all (\<lambda>r. pending_row r \<and> sr_run_id r = rid \<and> sr_id r \<in> range fresh) new)"
proof (induction rs arbitrary: n db)
  case (Cons r rs)
  let ?row = "\<lparr>sr_id = fresh n, sr_run_id = rid, sr_step_id = wsr_step_id r,
           sr_action = wsr_action_id r, sr_state = step_state_str StepPending,
           sr_risk = (case find_step_plan plan (wsr_step_id r) of
              Some p \<Rightarrow> risk_debug (ap_risk (sp_plan p)) | None \<Rightarrow> ''R0''),
           sr_exit_code = None, sr_outputs_json = None, sr_stdout = None, sr_stderr = None,
           sr_completed = False\<rparr>"
  from Cons.IH [of "Suc n" "snd (insert_step (ok n) ?row db)"] show ?case
    by (auto simp: insert_step_def pending_row_def split: if_splits)
qed simp

text \<open>
  The rows of a run's steps are written once and never updated: the loop addresses them
  by the step's id, but they were inserted under fresh row ids. Unless an id drawn for a row
  happens to be a step id, every step of every run stays \<open>Pending\<close> in the database, without
  output or exit code, whatever happened to it.
\<close>

lemma step_rows_stay_pending:
  assumes "range fresh \<inter> ws_id ` set (wd_steps d) = {}"
    and "sr_id ` set (db_steps db) \<inter> ws_id ` set (wd_steps d) = {}"
  shows "\<exists>new. db_steps (ex_db (snd (run_steps w registry db_ok fresh d plan ctx inputs covered db events)))
        = db_steps db @ new \<and> list_all pending_row new"
proof (cases "db_ok \<and> ax_run_id ctx \<notin> rr_id ` set (db_runs db)")
  case True
  let ?ex = "started_exec (rw_insert_ok w) fresh d plan ctx inputs db events"
  obtain r ex' where loop: "run_loop w registry ctx covered 0 (wd_steps d) ?ex = (r, ex')"
    by (cases "run_loop w registry ctx covered 0 (wd_steps d) ?ex")
  have "\<exists>new. db_steps (ex_db ?ex) = db_steps db @ new
      \<and> list_all (\<lambda>r. pending_row r \<and> sr_run_id r = ax_run_id ctx \<and> sr_id r \<in> range fresh) new"
    using insert_steps_rows [of "rw_insert_ok w" fresh plan "ax_run_id ctx" 0 "wrr_steps (initial_run d plan ctx)"
        "db\<lparr>db_runs := db_runs db @ [new_run_row (initial_run d plan ctx) inputs]\<rparr>"]
    by (simp add: started_exec_def start_exec_def)
  then obtain new where new: "db_steps (ex_db ?ex) = db_steps db @ new"
      "list_all (\<lambda>r. pending_row r \<and> sr_run_id r = ax_run_id ctx \<and> sr_id r \<in> range fresh) new"
    by blast
  then have "\<forall>r \<in> set (db_steps db @ new). sr_id r \<notin> ws_id ` set (wd_steps d)"
    using assms by (auto simp: list_all_iff)
  with row_invariant.inv_run_loop [OF loop, of "set (wd_steps d)" "db_steps db @ new"] new(1)
  have "db_steps (ex_db ex') = db_steps db @ new"
    unfolding row_invariant.run_end_def by (auto simp: end_rows)
  with new(2) loop True show ?thesis
    by (auto simp: run_steps_eq list_all_iff exec_simps)
next
  case False
  then show ?thesis by (auto simp: run_steps_eq start_exec_def)
qed

section \<open>How a run ends\<close>

definition run_states :: "string \<Rightarrow> exec \<Rightarrow> string list" where
  "run_states rid ex = map rr_state (filter (\<lambda>r. rr_id r = rid) (db_runs (ex_db ex)))"

definition other_runs :: "string \<Rightarrow> run_db \<Rightarrow> run_row list" where
  "other_runs rid db = filter (\<lambda>r. rr_id r \<noteq> rid) (db_runs db)"

fun is_completed :: "workflow_event \<Rightarrow> bool" where
  "is_completed (EvCompleted _ _) = True"
| "is_completed _ = False"

text \<open>
  What the run's row says of a run in a state: that state, unless a write of the loop failed and
  left the row running, or the write of a call of \<open>cancel\<close> came last.
\<close>

definition row_shows :: "run_world \<Rightarrow> workflow_run_state \<Rightarrow> string \<Rightarrow> bool" where
  "row_shows w state s \<longleftrightarrow>
     s = run_state_str state
     \<or> (s = run_state_str RunRunning \<and> (\<exists>n. \<not> rw_write_ok w n))
     \<or> (s = run_state_str RunCancelled \<and> (\<exists>n. rw_cancel_row w n))"

text \<open>Open: still running, in memory, in the database and in the events.\<close>

definition run_open ::
  "run_world \<Rightarrow> string \<Rightarrow> workflow_event list \<Rightarrow> run_row list \<Rightarrow> exec \<Rightarrow> bool" where
  "run_open w rid old others ex \<longleftrightarrow>
     wrr_run_id (ex_run ex) = rid \<and> wrr_state (ex_run ex) = RunRunning
     \<and> (\<exists>s. run_states rid ex = [s] \<and> row_shows w RunRunning s) \<and> other_runs rid (ex_db ex) = others
     \<and> (\<exists>evs. ex_events ex = old @ evs \<and> list_all (\<lambda>e. \<not> is_completed e) evs)"

text \<open>Closed in a state: the three agree, and the last event says so.\<close>

definition run_closed ::
  "run_world \<Rightarrow> string \<Rightarrow> workflow_event list \<Rightarrow> run_row list \<Rightarrow> workflow_run_state \<Rightarrow> exec \<Rightarrow> bool" where
  "run_closed w rid old others state ex \<longleftrightarrow>
     wrr_run_id (ex_run ex) = rid \<and> wrr_state (ex_run ex) = state
     \<and> (\<exists>s. run_states rid ex = [s] \<and> row_shows w state s) \<and> other_runs rid (ex_db ex) = others
     \<and> (\<exists>evs. ex_events ex = old @ evs @ [EvCompleted rid state] \<and> list_all (\<lambda>e. \<not> is_completed e) evs)"

lemma update_run_rows:
  "map rr_state (filter (\<lambda>r. rr_id r = rid) (db_runs (snd (update_run_state ok rid st c b db))))
     = (if ok then map (\<lambda>_. st) (filter (\<lambda>r. rr_id r = rid) (db_runs db))
        else map rr_state (filter (\<lambda>r. rr_id r = rid) (db_runs db)))"
  "other_runs rid (snd (update_run_state ok rid st c b db)) = other_runs rid db"
proof -
  let ?f = "\<lambda>r :: run_row. if rr_id r = rid
      then r\<lparr>rr_state := st, rr_error_code := c, rr_completed := (b \<or> rr_completed r)\<rparr> else r"
  have "map rr_state (filter (\<lambda>r. rr_id r = rid) (map ?f rows)) = map (\<lambda>_. st) (filter (\<lambda>r. rr_id r = rid) rows)"
    and "filter (\<lambda>r. rr_id r \<noteq> rid) (map ?f rows) = filter (\<lambda>r. rr_id r \<noteq> rid) rows" for rows
    by (induction rows) simp_all
  then show "map rr_state (filter (\<lambda>r. rr_id r = rid) (db_runs (snd (update_run_state ok rid st c b db))))
     = (if ok then map (\<lambda>_. st) (filter (\<lambda>r. rr_id r = rid) (db_runs db))
        else map rr_state (filter (\<lambda>r. rr_id r = rid) (db_runs db)))"
    and "other_runs rid (snd (update_run_state ok rid st c b db)) = other_runs rid db"
    by (simp_all add: update_run_state_def other_runs_def)
qed

lemma one_run_state: "map rr_state (filter p rows) = [s] \<Longrightarrow> map (\<lambda>_. st) (filter p rows) = [st]"
  by auto

lemma cancels_rows:
  "map rr_state (filter (\<lambda>r. rr_id r = rid) (db_runs db)) = [s] \<Longrightarrow> row_shows w st s \<Longrightarrow>
   \<exists>s'. map rr_state (filter (\<lambda>r. rr_id r = rid) (db_runs (cancels w rid ts db))) = [s'] \<and> row_shows w st s'"
proof (induction ts arbitrary: db s)
  case (Cons t ts)
  let ?db = "if rw_cancel_row w t then snd (snd (cancel True {rid} rid db)) else db"
  have "\<exists>s'. map rr_state (filter (\<lambda>r. rr_id r = rid) (db_runs ?db)) = [s'] \<and> row_shows w st s'"
  proof (cases "rw_cancel_row w t")
    case True
    then have "row_shows w st (run_state_str RunCancelled)" unfolding row_shows_def by blast
    with True one_run_state [OF Cons.prems(1), of "run_state_str RunCancelled"] show ?thesis by (simp add: cancel_def update_run_rows)
  qed (use Cons.prems in simp)
  with Cons.IH [of ?db] show ?case by auto
qed simp

lemma cancels_others: "other_runs rid (cancels w rid ts db) = other_runs rid db"
  by (induction w rid ts db rule: cancels.induct) (simp_all add: cancel_def update_run_rows)

lemma advance_rows:
  assumes "wrr_run_id (ex_run ex) = rid" and "run_states rid ex = [s]" and "row_shows w st s"
  shows "\<exists>s'. run_states rid (advance w t ex) = [s'] \<and> row_shows w st s'"
    and "other_runs rid (ex_db (advance w t ex)) = other_runs rid (ex_db ex)"
  using cancels_rows [OF assms(2) [unfolded run_states_def] assms(3)] assms(1)
  by (simp_all add: run_states_def advance_def cancels_others)

lemma write_rows:
  assumes "wrr_run_id (ex_run ex) = rid" and "run_states rid ex = [s]" and "row_shows w RunRunning s"
  shows "\<exists>s'. run_states rid (write_run_state w st c ex) = [s'] \<and> row_shows w st s'"
    and "other_runs rid (ex_db (write_run_state w st c ex)) = other_runs rid (ex_db ex)"
proof -
  from advance_rows [OF assms, of "Suc (ex_tick ex)"] obtain s' where
    s': "run_states rid (tick w ex) = [s']" "row_shows w RunRunning s'"
    and others: "other_runs rid (ex_db (tick w ex)) = other_runs rid (ex_db ex)" by (auto simp: tick_def)
  let ?ok = "rw_write_ok w (ex_tick (tick w ex))"
  have "row_shows w st (if ?ok then run_state_str st else s')"
    using s'(2) unfolding row_shows_def by (cases ?ok) auto
  moreover have "run_states rid (write_run_state w st c ex) = [if ?ok then run_state_str st else s']"
    using s'(1) one_run_state [OF s'(1) [unfolded run_states_def], of "run_state_str st"] assms(1)
    by (cases ?ok) (simp_all add: run_states_def write_run_state_def Let_def update_run_rows exec_simps)
  ultimately show "\<exists>s'. run_states rid (write_run_state w st c ex) = [s'] \<and> row_shows w st s'" by blast
  show "other_runs rid (ex_db (write_run_state w st c ex)) = other_runs rid (ex_db ex)"
    using others assms(1) by (simp add: write_run_state_def Let_def update_run_rows exec_simps)
qed

lemma run_open_eq:
  "run_open w rid old others ex \<Longrightarrow> wrr_run_id (ex_run ex') = wrr_run_id (ex_run ex) \<Longrightarrow>
   wrr_state (ex_run ex') = wrr_state (ex_run ex) \<Longrightarrow> db_runs (ex_db ex') = db_runs (ex_db ex) \<Longrightarrow>
   ex_events ex' = ex_events ex @ evs \<Longrightarrow> list_all (\<lambda>e. \<not> is_completed e) evs \<Longrightarrow>
   run_open w rid old others ex'"
  unfolding run_open_def run_states_def other_runs_def by fastforce

lemma run_open_advance:
  assumes "run_open w rid old others ex"
  shows "run_open w rid old others (advance w t ex)"
proof -
  from assms obtain s where "wrr_run_id (ex_run ex) = rid" "run_states rid ex = [s]" "row_shows w RunRunning s"
    by (auto simp: run_open_def)
  from advance_rows [OF this] assms show ?thesis by (simp add: run_open_def exec_simps)
qed

lemma run_closed_advance:
  assumes "run_closed w rid old others st ex"
  shows "run_closed w rid old others st (advance w t ex)"
proof -
  from assms obtain s where "wrr_run_id (ex_run ex) = rid" "run_states rid ex = [s]" "row_shows w st s"
    by (auto simp: run_closed_def)
  from advance_rows [OF this] assms show ?thesis by (simp add: run_closed_def exec_simps)
qed

lemma try_once_advance:
  "\<exists>t cs. snd (try_once w ctx action step input ex) = (advance w t ex)\<lparr>ex_calls := cs\<rparr>"
proof -
  have same: "advance w t ex = (advance w t ex)\<lparr>ex_calls := ex_calls ex\<rparr>" for t
    by (simp add: advance_def)
  show ?thesis
    unfolding try_once_def tick_def
    by (auto split: result.split prod.split intro: same exI)
qed

interpretation open_invariant:
  run_invariant w registry ctx covered steps "run_open w rid old others"
  for w registry ctx covered steps rid old others
proof
  fix step action input and ex :: exec
  assume inv: "run_open w rid old others ex"
  obtain t cs where out: "snd (try_once w ctx action step input ex) = (advance w t ex)\<lparr>ex_calls := cs\<rparr>"
    using try_once_advance by blast
  show "run_open w rid old others (snd (try_once w ctx action step input ex))"
    unfolding out by (rule run_open_eq [OF run_open_advance [OF inv, of t], where evs = "[]"]) simp_all
next
  fix step res and ex :: exec
  assume inv: "run_open w rid old others ex"
  from keep_result_frame(4) [of w step res ex] obtain evs where
    evs: "ex_events (snd (keep_result w step res ex)) = ex_events ex @ evs"
      "list_all (\<lambda>e. \<exists>rid sid p. e = EvStepOutput rid sid p) evs" by blast
  then have "list_all (\<lambda>e. \<not> is_completed e) evs" by (auto simp: list_all_iff)
  then show "run_open w rid old others (snd (keep_result w step res ex))"
    by (intro run_open_eq [OF inv _ _ _ evs(1)]) (simp_all add: keep_result_frame)
next
  fix ex :: exec
  assume inv: "run_open w rid old others ex"
  show "run_open w rid old others (advance w t ex)" for t by (rule run_open_advance [OF inv])
  show "run_open w rid old others (ex\<lparr>ex_context := c\<rparr>)" for c
    by (rule run_open_eq [OF inv, where evs = "[]"]) simp_all
  show "run_open w rid old others (emit (EvStepStarted i j) (set_step idx f ex))" for i j idx f
    by (rule run_open_eq [OF inv, where evs = "[EvStepStarted i j]"]) (simp_all add: exec_simps)
  show "run_open w rid old others (complete_step idx step st g ex)" for idx step st g
    by (rule run_open_eq [OF inv, where evs = "[EvStepCompleted (wrr_run_id (ex_run ex)) (ws_id step) st]"])
      (simp_all add: exec_simps)
qed

lemma close_with:
  assumes "run_open w rid old others ex" and "ex_db ex1 = ex_db ex" and "ex_events ex1 = ex_events ex"
    and "wrr_run_id (ex_run ex1) = rid" and "wrr_state (ex_run ex1) = st"
  shows "run_closed w rid old others st (emit (EvCompleted rid st) (write_run_state w st c ex1))"
proof -
  from assms obtain s where "run_states rid ex1 = [s]" "row_shows w RunRunning s"
    by (auto simp: run_open_def run_states_def)
  from write_rows [OF assms(4) this] assms show ?thesis
    by (auto simp: run_closed_def run_open_def run_states_def exec_simps)
qed

lemma close_run:
  assumes "run_open w rid old others ex"
  shows "run_closed w rid old others RunCancelled (cancel_run w idx ex)"
    and "run_closed w rid old others RunSucceeded (finish_run w ex)"
    and "run_closed w rid old others (if err = Cancelled then RunCancelled else RunFailed) (abort_run w err ex)"
proof -
  have rid: "wrr_run_id (ex_run ex) = rid" using assms by (simp add: run_open_def)
  show "run_closed w rid old others RunCancelled (cancel_run w idx ex)"
    unfolding cancel_run_def Let_def by (simp add: rid, rule close_with [OF assms]) (simp_all add: rid)
  show "run_closed w rid old others RunSucceeded (finish_run w ex)"
    unfolding finish_run_def by (simp add: rid, rule close_with [OF assms]) (simp_all add: rid)
  have "abort_run w err ex = emit (EvCompleted rid (if err = Cancelled then RunCancelled else RunFailed))
      (write_run_state w (if err = Cancelled then RunCancelled else RunFailed) (Some (plugin_error_code err))
        (set_run_state (if err = Cancelled then RunCancelled else RunFailed) (Some (plugin_error_code err)) ex))"
    unfolding abort_run_def Let_def exec_set_run_state rid by (rule refl)
  then show "run_closed w rid old others (if err = Cancelled then RunCancelled else RunFailed) (abort_run w err ex)"
    by (simp only:) (rule close_with [OF assms], simp_all only: exec_set_run_state rid)
qed

lemma started_run_open:
  assumes "ax_run_id ctx \<notin> rr_id ` set (db_runs db)"
  shows "run_open w (ax_run_id ctx) events (db_runs db)
    (started_exec (rw_insert_ok w) fresh d plan ctx inputs db events)"
proof -
  have "filter (\<lambda>r. rr_id r \<noteq> ax_run_id ctx) (db_runs db) = db_runs db"
    and "filter (\<lambda>r. rr_id r = ax_run_id ctx) (db_runs db) = []"
    using assms by (metis (mono_tags, lifting) filter_True image_eqI, metis (mono_tags, lifting) filter_False image_eqI)
  then show ?thesis
    using insert_steps_rows [of "rw_insert_ok w" fresh plan "ax_run_id ctx" 0 "wrr_steps (initial_run d plan ctx)"
        "db\<lparr>db_runs := db_runs db @ [new_run_row (initial_run d plan ctx) inputs]\<rparr>"]
    by (simp add: run_open_def started_exec_def start_exec_def initial_run_def run_states_def
        other_runs_def new_run_row_def row_shows_def)
qed

text \<open>
  The two ways in which a step ends a run with an error. A failed step under the policy to abort
  is recorded as failed, with the code of the error. A step that cannot be read - its condition,
  its action or its input gives the error - is left pending or running.
\<close>

definition step_aborted :: "workflow_step \<Rightarrow> plugin_error \<Rightarrow> workflow_step_record \<Rightarrow> bool" where
  "step_aborted step e rec \<longleftrightarrow>
     (case ws_on_failure step of Some p \<Rightarrow> p | None \<Rightarrow> AbortRun) = AbortRun
     \<and> wsr_state rec = StepFailed \<and> wsr_error_code rec = Some (plugin_error_code e)"

definition step_unreadable ::
  "action_registry \<Rightarrow> scope \<Rightarrow> workflow_step \<Rightarrow> plugin_error \<Rightarrow> workflow_step_record \<Rightarrow> bool" where
  "step_unreadable registry sc step e rec \<longleftrightarrow>
     (wsr_state rec = StepPending \<and> (\<exists>cond. ws_condition step = Some cond \<and> evaluate_condition sc cond = Err e))
     \<or> (wsr_state rec = StepRunning
        \<and> (action_get registry (ws_uses step) = Err e \<or> resolve_json_value sc (ws_with step) = Err e))"

lemma try_once_frame:
  "ex_run (snd (try_once w ctx action step input ex)) = ex_run ex"
  "ex_context (snd (try_once w ctx action step input ex)) = ex_context ex"
  using try_once_advance [of w ctx action step input ex] by (auto simp: exec_simps)

lemma attempts_frame:
  "ex_run (snd (attempts w ctx action step input n last_err ex)) = ex_run ex
   \<and> ex_context (snd (attempts w ctx action step input n last_err ex)) = ex_context ex"
proof (induction n arbitrary: last_err ex)
  case (Suc n)
  obtain r ex' where try_eq: "try_once w ctx action step input (tick w ex) = (r, ex')" by fastforce
  then have "ex_run ex' = ex_run ex" "ex_context ex' = ex_context ex"
    using try_once_frame [of w ctx action step input "tick w ex"] by (simp_all add: exec_simps)
  then show ?case
    using try_eq Suc.IH keep_result_frame(2,5) [of w step _ ex']
    by (auto simp: exec_simps split: result.splits prod.splits) (metis snd_conv)+
qed simp

lemma same_outputs: "\<exists>os. c = c\<lparr>wc_step_outputs := os\<rparr>"
  by (rule exI [of _ "wc_step_outputs c"]) simp

text \<open>What a step leaves of the record: only its own entry changes.\<close>

lemma perform_step_record:
  assumes "perform_step w registry ctx idx step ex = (e, ex')" and "idx < length (wrr_steps (ex_run ex))"
  shows "case e of
      NextStep \<Rightarrow> (\<exists>x. wrr_steps (ex_run ex') = (wrr_steps (ex_run ex))[idx := x])
        \<and> (\<exists>os. ex_context ex' = (ex_context ex)\<lparr>wc_step_outputs := os\<rparr>)
    | StopRun (Err err) \<Rightarrow>
        \<exists>x. wrr_steps (ex_run ex') = (wrr_steps (ex_run ex))[idx := x]
          \<and> ((step_aborted step err x \<and> wrr_state (ex_run ex') \<noteq> RunRunning)
             \<or> (step_unreadable registry (run_scope ex) step err x
                \<and> wrr_state (ex_run ex') = wrr_state (ex_run ex)))
    | _ \<Rightarrow> True"
proof -
  define ex1 where "ex1 = emit (EvStepStarted (wrr_run_id (ex_run ex)) (ws_id step))
    (set_step idx (\<lambda>r. r\<lparr>wsr_state := StepRunning\<rparr>) ex)"
  have ex1: "ex_context ex1 = ex_context ex" "run_scope ex1 = run_scope ex"
    "wrr_state (ex_run ex1) = wrr_state (ex_run ex)"
    "wrr_steps (ex_run ex1) = (wrr_steps (ex_run ex))[idx := (wrr_steps (ex_run ex) ! idx)\<lparr>wsr_state := StepRunning\<rparr>]"
    by (simp_all add: ex1_def run_scope_def exec_simps)
  have running: "\<exists>x. wrr_steps (ex_run ex1) = (wrr_steps (ex_run ex))[idx := x] \<and> wsr_state x = StepRunning"
    using ex1(4) by (intro exI [of _ "(wrr_steps (ex_run ex) ! idx)\<lparr>wsr_state := StepRunning\<rparr>"]) simp
  show ?thesis
  proof (cases "action_get registry (ws_uses step)")
    case (Ok action)
    show ?thesis
    proof (cases "resolve_json_value (run_scope ex1) (ws_with step)")
      case input: (Ok input)
      obtain r ex2 where att: "attempts w ctx action step input (max_attempts step) None ex1 = (r, ex2)"
        by fastforce
      with attempts_frame [of w ctx action step input "max_attempts step" None ex1] ex1
      have ex2: "ex_context ex2 = ex_context ex" "ex_run ex2 = ex_run ex1" by simp_all
      have out: "(e, ex') = (case r of Ok res \<Rightarrow> (NextStep, step_succeeded idx step res ex2)
          | Err last_err \<Rightarrow> step_failed w idx step (unwrap_or (RemoteExecution ''unknown'') last_err) ex2
          | Panic \<Rightarrow> (StopRun Panic, ex2))"
        using assms Ok input att
        by (simp add: perform_step_def Let_def ex1_def [symmetric] split: result.splits)
      have abort_run: "wrr_steps (ex_run (abort_run w err ex)) = wrr_steps (ex_run ex)"
        "wrr_state (ex_run (abort_run w err ex)) \<noteq> RunRunning" for err ex
        by (simp_all add: abort_run_def Let_def exec_simps set_run_state_def)
      show ?thesis
        using out ex2 ex1 same_outputs [of "ex_context ex"] assms(2)
        by (cases r)
          (auto simp: step_failed_def step_succeeded_def Let_def exec_simps abort_run step_aborted_def
            record_step_outputs_def split: if_splits)
    next
      case (Err err)
      then have "e = StopRun (Err err)" "ex' = ex1"
        using assms(1) Ok by (simp_all add: perform_step_def Let_def ex1_def [symmetric])
      with running ex1(2,3) Err show ?thesis by (auto simp: step_unreadable_def)
    next
      case Panic
      with assms(1) Ok show ?thesis by (auto simp: perform_step_def Let_def ex1_def [symmetric])
    qed
  next
    case (Err err)
    then have "e = StopRun (Err err)" "ex' = ex1"
      using assms(1) by (simp_all add: perform_step_def Let_def ex1_def [symmetric])
    with running ex1(2,3) Err show ?thesis by (auto simp: step_unreadable_def)
  next
    case Panic
    with assms(1) show ?thesis by (auto simp: perform_step_def Let_def ex1_def [symmetric])
  qed
qed

lemma run_step_record:
  assumes "run_step w registry ctx covered idx step ex = (e, ex')"
    and "wsr_state (wrr_steps (ex_run ex) ! idx) = StepPending" and "idx < length (wrr_steps (ex_run ex))"
  shows "case e of
      NextStep \<Rightarrow> (\<exists>x. wrr_steps (ex_run ex') = (wrr_steps (ex_run ex))[idx := x])
        \<and> (\<exists>os. ex_context ex' = (ex_context ex)\<lparr>wc_step_outputs := os\<rparr>)
    | StopRun (Err err) \<Rightarrow>
        \<exists>x. wrr_steps (ex_run ex') = (wrr_steps (ex_run ex))[idx := x]
          \<and> ((step_aborted step err x \<and> wrr_state (ex_run ex') \<noteq> RunRunning)
             \<or> (step_unreadable registry (run_scope ex) step err x
                \<and> wrr_state (ex_run ex') = wrr_state (ex_run ex)))
    | _ \<Rightarrow> True"
proof (cases "rw_cancelled w (ex_tick ex)")
  case False
  let ?ex = "tick w ex"
  let ?cond = "case ws_condition step of None \<Rightarrow> Ok True
      | Some cond \<Rightarrow> evaluate_condition (run_scope ?ex) cond"
  have scope: "run_scope ?ex = run_scope ex" by (simp add: run_scope_def exec_simps)
  have same: "\<exists>x. wrr_steps (ex_run ex) = (wrr_steps (ex_run ex))[idx := x] \<and> wsr_state x = StepPending"
    using assms(2) by (intro exI [of _ "wrr_steps (ex_run ex) ! idx"]) simp
  note outputs = same_outputs [of "ex_context ex"]
  show ?thesis
  proof (cases ?cond)
    case (Ok b)
    consider "b" "ws_id step \<notin> set covered" | "b" "ws_id step \<in> set covered" | "\<not> b" by blast
    then show ?thesis
    proof cases
      case 1
      then have "perform_step w registry ctx idx step ?ex = (e, ex')"
        using assms(1) False Ok by (simp add: run_step_def Let_def)
      from perform_step_record [OF this, unfolded scope exec_tick, OF assms(3)] show ?thesis .
    next
      case 2
      then show ?thesis using assms(1) False Ok outputs by (auto simp: run_step_def Let_def exec_simps)
    next
      case 3
      then show ?thesis using assms(1) False Ok outputs by (auto simp: run_step_def Let_def exec_simps)
    qed
  next
    case (Err err)
    then obtain cond where "ws_condition step = Some cond" "evaluate_condition (run_scope ex) cond = Err err"
      by (auto simp: scope split: option.splits)
    moreover have "e = StopRun (Err err)" "ex' = ?ex"
      using assms(1) False Err by (simp_all add: run_step_def Let_def)
    ultimately show ?thesis using same by (auto simp: exec_simps step_unreadable_def)
  next
    case Panic
    then show ?thesis using assms(1) False by (auto simp: run_step_def Let_def)
  qed
qed (use assms in \<open>auto simp: run_step_def Let_def\<close>)

lemma run_step_state: "run_step w registry ctx covered idx step ex = (NextStep, ex') \<Longrightarrow>
    wrr_state (ex_run ex') = wrr_state (ex_run ex)"
proof -
  have failed: "step_failed w idx step err ex1 = (NextStep, ex') \<Longrightarrow> wrr_state (ex_run ex') = wrr_state (ex_run ex1)"
    for err ex1 by (auto simp: step_failed_def Let_def exec_simps split: if_splits)
  have tried: "wrr_state (ex_run ex2) = wrr_state (ex_run ex1)"
    if "attempts w ctx action step input n None ex1 = (r, ex2)" for action input n ex1 ex2 r
    using attempts_frame [of w ctx action step input n None ex1] that by simp
  show "run_step w registry ctx covered idx step ex = (NextStep, ex') \<Longrightarrow> wrr_state (ex_run ex') = wrr_state (ex_run ex)"
    by (auto simp: run_step_def perform_step_def Let_def exec_simps dest!: failed dest: tried
        split: if_splits result.splits bool.splits option.splits prod.splits)
qed

lemma run_loop_error:
  assumes "run_loop w registry ctx covered idx steps ex = (Err e, ex')"
    and "length (wrr_steps (ex_run ex)) = idx + length steps"
    and "\<forall>k < length steps. wsr_state (wrr_steps (ex_run ex) ! (idx + k)) = StepPending"
  shows "\<exists>k os. k < length steps \<and>
     ((step_aborted (steps ! k) e (wrr_steps (ex_run ex') ! (idx + k)) \<and> wrr_state (ex_run ex') \<noteq> RunRunning)
      \<or> (step_unreadable registry ((run_scope ex)\<lparr>sc_step_outputs := os\<rparr>) (steps ! k) e
           (wrr_steps (ex_run ex') ! (idx + k))
         \<and> wrr_state (ex_run ex') = wrr_state (ex_run ex)))"
  using assms
proof (induction steps arbitrary: idx ex)
  case (Cons step steps)
  obtain o1 ex1 where step_eq: "run_step w registry ctx covered idx step ex = (o1, ex1)" by fastforce
  have pending: "wsr_state (wrr_steps (ex_run ex) ! idx) = StepPending" using Cons.prems(3) by force
  have "idx < length (wrr_steps (ex_run ex))" using Cons.prems(2) by simp
  note one = run_step_record [OF step_eq pending this]
  show ?case
  proof (cases o1)
    case (StopRun r)
    then have "r = Err e" "ex' = ex1" using Cons.prems(1) step_eq by auto
    with one StopRun obtain x where x: "wrr_steps (ex_run ex') = (wrr_steps (ex_run ex))[idx := x]"
      "(step_aborted step e x \<and> wrr_state (ex_run ex') \<noteq> RunRunning)
       \<or> (step_unreadable registry (run_scope ex) step e x \<and> wrr_state (ex_run ex') = wrr_state (ex_run ex))"
      by auto
    have "wrr_steps (ex_run ex') ! idx = x" using x(1) Cons.prems(2) by simp
    with x(2) show ?thesis by (intro exI [of _ 0] exI [of _ "sc_step_outputs (run_scope ex)"]) simp
  next
    case NextStep
    with one obtain x os where x: "wrr_steps (ex_run ex1) = (wrr_steps (ex_run ex))[idx := x]"
      and os: "ex_context ex1 = (ex_context ex)\<lparr>wc_step_outputs := os\<rparr>" by auto
    have rest: "run_loop w registry ctx covered (Suc idx) steps ex1 = (Err e, ex')"
      using Cons.prems(1) step_eq NextStep by simp
    have "wsr_state (wrr_steps (ex_run ex1) ! (Suc idx + k)) = StepPending" if "k < length steps" for k
      using Cons.prems(3) [rule_format, of "Suc k"] that by (simp add: x)
    then have "\<forall>k < length steps. wsr_state (wrr_steps (ex_run ex1) ! (Suc idx + k)) = StepPending" by blast
    from Cons.IH [OF rest _ this] Cons.prems(2) x obtain k os' where k: "k < length steps"
      "(step_aborted (steps ! k) e (wrr_steps (ex_run ex') ! (Suc idx + k)) \<and> wrr_state (ex_run ex') \<noteq> RunRunning)
       \<or> (step_unreadable registry ((run_scope ex1)\<lparr>sc_step_outputs := os'\<rparr>) (steps ! k) e
            (wrr_steps (ex_run ex') ! (Suc idx + k)) \<and> wrr_state (ex_run ex') = wrr_state (ex_run ex1))"
      by auto
    have "(run_scope ex1)\<lparr>sc_step_outputs := os'\<rparr> = (run_scope ex)\<lparr>sc_step_outputs := os'\<rparr>"
      by (simp add: run_scope_def os)
    with k run_step_state [OF step_eq [unfolded NextStep]] show ?thesis
      by (intro exI [of _ "Suc k"] exI [of _ os']) simp
  qed
qed (simp add: Let_def)

text \<open>
  C34. How a run ends, once its row is written. An \<open>Ok\<close> run is closed as succeeded or cancelled.
  A run that gives an error is closed as cancelled or failed when a step failed under the policy
  to abort, and the record of that step says so; otherwise one of its steps cannot be read - its
  condition, its action or its input gives the very error - and the run is left open, as is one
  that panics: still running, with no completion event. Closed means that memory, events and the
  run's row agree, but for a row whose write failed or which a call of \<open>cancel\<close> wrote last. No
  other run's row changes.
\<close>

theorem run_ends_closed_or_left_open:
  assumes "db_ok" and "ax_run_id ctx \<notin> rr_id ` set (db_runs db)"
    and "run_steps w registry db_ok fresh d plan ctx inputs covered db events = (r, ex)"
  shows "case r of
      Ok run \<Rightarrow> run = ex_run ex
        \<and> (\<exists>state \<in> {RunSucceeded, RunCancelled}. run_closed w (ax_run_id ctx) events (db_runs db) state ex)
    | Err e \<Rightarrow>
        \<exists>k < length (wd_steps d). \<exists>outputs.
          (step_aborted (wd_steps d ! k) e (wrr_steps (ex_run ex) ! k)
           \<and> run_closed w (ax_run_id ctx) events (db_runs db) (if e = Cancelled then RunCancelled else RunFailed) ex)
          \<or> (step_unreadable registry
               \<lparr>sc_inputs = inputs, sc_host_id = ax_host_id ctx, sc_host_os = ax_host_os ctx,
                sc_step_outputs = outputs\<rparr> (wd_steps d ! k) e (wrr_steps (ex_run ex) ! k)
             \<and> run_open w (ax_run_id ctx) events (db_runs db) ex)
    | Panic \<Rightarrow> run_open w (ax_run_id ctx) events (db_runs db) ex"
proof -
  let ?start = "started_exec (rw_insert_ok w) fresh d plan ctx inputs db events"
  obtain ex1 where loop: "run_loop w registry ctx covered 0 (wd_steps d) ?start = (r, ex1)"
    and ex: "ex = tick w ex1"
    using assms by (cases "run_loop w registry ctx covered 0 (wd_steps d) ?start") (simp add: run_steps_eq)
  note ended = open_invariant.inv_run_loop [OF loop subset_refl started_run_open [OF assms(2)],
      unfolded open_invariant.run_end_def]
  have last: "run_open w rid old others ex1 \<Longrightarrow> run_open w rid old others ex"
    "run_closed w rid old others st ex1 \<Longrightarrow> run_closed w rid old others st ex" for rid old others st
    unfolding ex tick_def by (rule run_open_advance run_closed_advance, assumption)+
  show ?thesis
  proof (cases r)
    case (Ok run)
    with ended close_run(1,2) have "run = ex_run ex1
        \<and> (\<exists>state \<in> {RunSucceeded, RunCancelled}. run_closed w (ax_run_id ctx) events (db_runs db) state ex1)"
      by (elim exE conjE disjE) auto
    with Ok last(2) show ?thesis by (auto simp: ex exec_simps)
  next
    case (Err e)
    have start: "wrr_steps (ex_run ?start) = wrr_steps (initial_run d plan ctx)" "wrr_state (ex_run ?start) = RunRunning"
      by (simp_all add: started_exec_def start_exec_def initial_run_def)
    have scope: "(run_scope ?start)\<lparr>sc_step_outputs := os\<rparr> = \<lparr>sc_inputs = inputs, sc_host_id = ax_host_id ctx,
        sc_host_os = ax_host_os ctx, sc_step_outputs = os\<rparr>" for os
      by (simp add: started_exec_def start_exec_def run_scope_def workflow_context_new_def)
    have "length (wrr_steps (ex_run ?start)) = 0 + length (wd_steps d)"
      and "\<forall>k < length (wd_steps d). wsr_state (wrr_steps (ex_run ?start) ! (0 + k)) = StepPending"
      by (simp_all add: start initial_run_def)
    from run_loop_error [OF loop [unfolded Err] this, unfolded scope start add_0] obtain k os where
      k: "k < length (wd_steps d)"
      "(step_aborted (wd_steps d ! k) e (wrr_steps (ex_run ex1) ! k) \<and> wrr_state (ex_run ex1) \<noteq> RunRunning)
       \<or> (step_unreadable registry
               \<lparr>sc_inputs = inputs, sc_host_id = ax_host_id ctx, sc_host_os = ax_host_os ctx,
                sc_step_outputs = os\<rparr> (wd_steps d ! k) e (wrr_steps (ex_run ex1) ! k)
           \<and> wrr_state (ex_run ex1) = RunRunning)"
      by blast
    from ended Err consider "run_open w (ax_run_id ctx) events (db_runs db) ex1"
      | "run_closed w (ax_run_id ctx) events (db_runs db) (if e = Cancelled then RunCancelled else RunFailed) ex1"
      using close_run(3) by auto
    then show ?thesis
    proof cases
      case 1
      with k have "wrr_state (ex_run ex1) = RunRunning" by (simp add: run_open_def)
      with k last(1) [OF 1] Err show ?thesis by (auto simp: ex exec_simps)
    next
      case 2
      then have "wrr_state (ex_run ex1) \<noteq> RunRunning" by (auto simp: run_closed_def)
      with k last(2) [OF 2] Err show ?thesis by (auto simp: ex exec_simps)
    qed
  next
    case Panic
    with ended last(1) show ?thesis by auto
  qed
qed

section \<open>Concrete runs\<close>

definition quiet_world :: run_world where
  "quiet_world = \<lparr>rw_cancelled = \<lambda>_. False, rw_enabled_version = \<lambda>_. Ok ''1'',
     rw_permissions = \<lambda>_. [], rw_execute = \<lambda>_ _ _. Ok (outputs_only JNull), rw_write_ok = \<lambda>_. True,
     rw_cancel_row = \<lambda>_. False, rw_insert_ok = \<lambda>_. True\<rparr>"

definition one_step_workflow :: "string option \<Rightarrow> workflow_definition" where
  "one_step_workflow condition =
     \<lparr>wd_api_version = ''runory/v1'', wd_kind = ''Workflow'',
      wd_metadata = \<lparr>wm_id = ''w'', wm_name = ''W'', wm_description = None\<rparr>, wd_inputs = None,
      wd_steps = [\<lparr>ws_id = ''a'', ws_uses = ''http.check'', ws_with = JNull, ws_condition = condition,
        ws_timeout = None, ws_retry = None, ws_on_failure = None\<rparr>], wd_outputs = None\<rparr>"

definition empty_plan :: workflow_plan where
  "empty_plan = \<lparr>wp_id = ''p1'', wp_plugin_id = ''p'', wp_plugin_version = ''1'', wp_workflow_id = ''w'',
     wp_host_id = None, wp_risk = R0, wp_requires_approval = False, wp_steps = []\<rparr>"

definition quiet_context :: action_context where
  "quiet_context = \<lparr>ax_run_id = ''r'', ax_plugin_id = ''p'', ax_plugin_version = ''1'',
     ax_workflow_id = ''w'', ax_host_id = None, ax_host_os = None,
     ax_permission_service = \<lparr>pv_repository = [], pv_cache = Map.empty\<rparr>\<rparr>"

definition quiet_registry :: action_registry where
  "quiet_registry = [''http.check'' \<mapsto> \<lparr>ac_required_capabilities = \<lambda>_. Ok [], ac_risk = \<lambda>_. Ok R0,
     ac_plan = \<lambda>_ _. Err PolicyDenied\<rparr>]"

definition quiet_run :: "string option \<Rightarrow> (workflow_run_record, plugin_error) result \<times> exec" where
  "quiet_run condition =
     run_steps quiet_world quiet_registry True (\<lambda>_. ''row'') (one_step_workflow condition) empty_plan
       quiet_context JNull [] \<lparr>db_runs = [], db_steps = []\<rparr> []"

text \<open>A condition that does not parse: the run gives an error and stays open for ever.\<close>

lemma run_ends_closed_or_left_open_witness:
  "fst (quiet_run (Some ''bogus'')) = Err (WorkflowValidation ''unsupported condition: bogus'')
   \<and> run_open quiet_world ''r'' [] [] (snd (quiet_run (Some ''bogus'')))"
proof -
  have run: "fst (quiet_run (Some ''bogus'')) = Err (WorkflowValidation ''unsupported condition: bogus'')"
    by code_simp
  have "wrr_state (ex_run (snd (quiet_run (Some ''bogus'')))) = RunRunning" by code_simp
  then have "\<not> run_closed quiet_world rid old others RunFailed (snd (quiet_run (Some ''bogus'')))"
    for rid old others by (simp add: run_closed_def)
  moreover have "ax_run_id quiet_context = ''r''" by (simp add: quiet_context_def)
  ultimately show ?thesis
    using run_ends_closed_or_left_open [of True quiet_context "\<lparr>db_runs = [], db_steps = []\<rparr>" quiet_world
        quiet_registry "\<lambda>_. ''row''" "one_step_workflow (Some ''bogus'')" empty_plan JNull "[]" "[]"
        "fst (quiet_run (Some ''bogus''))" "snd (quiet_run (Some ''bogus''))"] run
    by (auto simp: quiet_run_def)
qed

text \<open>A step that succeeded in memory is still pending in its row.\<close>

lemma step_rows_stay_pending_witness:
  "map wsr_state (wrr_steps (ex_run (snd (quiet_run None)))) = [StepSucceeded]
   \<and> list_all pending_row (db_steps (ex_db (snd (quiet_run None))))
   \<and> length (db_steps (ex_db (snd (quiet_run None)))) = 1"
proof -
  have "map wsr_state (wrr_steps (ex_run (snd (quiet_run None)))) = [StepSucceeded]" by code_simp
  moreover have "length (db_steps (ex_db (snd (quiet_run None)))) = 1" by code_simp
  moreover have "list_all pending_row (db_steps (ex_db (snd (quiet_run None))))"
    using step_rows_stay_pending [of "\<lambda>_. ''row''" "one_step_workflow None" "\<lparr>db_runs = [], db_steps = []\<rparr>"
        quiet_world quiet_registry True empty_plan quiet_context JNull "[]" "[]"]
    by (auto simp: quiet_run_def one_step_workflow_def)
  ultimately show ?thesis by blast
qed

section \<open>A covered step is not run\<close>

text \<open>
  A step that mixes a change with a draft and one without, like \<open>release.activate\<close> with its
  new symbolic link and its service restart, loses the second: the step is covered, the drafts
  hold nothing but the restart, and the run never performs the step's action - yet the step
  is recorded as succeeded, executed by the change set.
\<close>

lemma covered_step_loses_its_other_changes:
  assumes "enforce_changeset_mappability plan = Ok m"
    and "sp \<in> set (wp_steps plan)"
    and "ap_changes (sp_plan sp) = [RemoteFileWrite link, ServiceRestartChange service]"
  shows "sp_step_id sp \<in> set (cm_covered_step_ids m)
    \<and> DraftServiceRestart service \<in> set (cm_drafts m)
    \<and> (\<forall>old new. DraftFilePatch link old new \<notin> set (cm_drafts m))
    \<and> list_all (\<lambda>c. cl_step_id c \<noteq> sp_step_id sp)
        (ex_calls (snd (run_steps w registry db_ok fresh d plan ctx inputs (cm_covered_step_ids m) db events)))"
proof -
  have changes: "step_changes sp = [ServiceRestartChange service]"
    using assms(3) by (simp add: step_changes_def native_write_def)
  have m: "m = \<lparr>cm_drafts = concat (map (\<lambda>sp. map (the \<circ> change_to_draft) (step_changes sp)) (wp_steps plan)),
               cm_covered_step_ids = map sp_step_id (filter (\<lambda>sp. step_changes sp \<noteq> []) (wp_steps plan)),
               cm_unmapped_mutating = []\<rparr>"
    and all: "\<forall>sp \<in> set (wp_steps plan). list_all drafted (step_changes sp)"
    using assms(1) unfolding enforce_closed_form by (auto simp: list_all_iff split: if_splits)
  have covered: "sp_step_id sp \<in> set (cm_covered_step_ids m)"
    using assms(2) changes m by auto
  have "DraftServiceRestart service \<in> set (cm_drafts m)"
    using assms(2) changes m by (auto intro!: bexI [of _ sp])
  moreover have "change_to_draft c \<noteq> Some (DraftFilePatch link old new)" for c old new
    by (cases c) (auto simp: Let_def split: option.splits)
  then have "DraftFilePatch link old new \<notin> set (cm_drafts m)" for old new
    using all m by (force simp: list_all_iff drafted_def)
  moreover have "list_all (\<lambda>c. cl_step_id c \<noteq> sp_step_id sp)
      (ex_calls (snd (run_steps w registry db_ok fresh d plan ctx inputs (cm_covered_step_ids m) db events)))"
    using covered run_steps_calls_authorized [of w registry ctx "cm_covered_step_ids m" d db_ok fresh
        plan inputs db events]
    by (auto simp: list_all_iff authorized_call_def)
  ultimately show ?thesis using covered by blast
qed

lemma covered_step_loses_its_other_changes_witness:
  "\<exists>plan m. enforce_changeset_mappability plan = Ok m
     \<and> map (ap_changes \<circ> sp_plan) (wp_steps plan)
         = [[RemoteFileWrite ''/srv/current'', ServiceRestartChange ''web'']]
     \<and> cm_covered_step_ids m = [''a''] \<and> cm_drafts m = [DraftServiceRestart ''web'']
     \<and> list_all (\<lambda>c. cl_step_id c \<noteq> ''a'')
         (ex_calls (snd (run_steps quiet_world quiet_registry True (\<lambda>_. ''row'') (one_step_workflow None) plan
            quiet_context JNull (cm_covered_step_ids m) \<lparr>db_runs = [], db_steps = []\<rparr> [])))"
proof -
  let ?sp = "\<lparr>sp_step_id = ''a'', sp_action_id = ''release.activate'',
      sp_plan = \<lparr>ap_action_id = ''release.activate'', ap_risk = R3, ap_summary = [],
        ap_changes = [RemoteFileWrite ''/srv/current'', ServiceRestartChange ''web''],
        ap_requires_approval = True\<rparr>, sp_has_runtime_values = False\<rparr>"
  let ?plan = "empty_plan\<lparr>wp_steps := [?sp]\<rparr>"
  let ?m = "\<lparr>cm_drafts = [DraftServiceRestart ''web''], cm_covered_step_ids = [''a''], cm_unmapped_mutating = []\<rparr>"
  have m: "enforce_changeset_mappability ?plan = Ok ?m"
    by (simp add: enforce_changeset_mappability_def map_plan_to_change_steps_def require_tool_policy_cases)
  from covered_step_loses_its_other_changes [OF m, of ?sp "''/srv/current''" "''web''" quiet_world
      quiet_registry True "\<lambda>_. ''row''" "one_step_workflow None" quiet_context JNull
      "\<lparr>db_runs = [], db_steps = []\<rparr>" "[]"]
  have "list_all (\<lambda>c. cl_step_id c \<noteq> ''a'')
         (ex_calls (snd (run_steps quiet_world quiet_registry True (\<lambda>_. ''row'') (one_step_workflow None) ?plan
            quiet_context JNull (cm_covered_step_ids ?m) \<lparr>db_runs = [], db_steps = []\<rparr> [])))"
    by simp
  with m show ?thesis by (intro exI [of _ ?plan] exI [of _ ?m]) simp
qed

end
