(* ===== verification/Spec2Isabelle.thy ===== *)
theory Spec2Isabelle
  imports Tools_Contract Policy File_Patch Change_Set_State Change_Set_Recovery Agent_Run Agent_Context Agent_Decision Agent_Approval Plugin_Permissions Fleet_History Catalog_Sound Known_Hosts Transfer_Commands
    Workflow_Expr Workflow_Plan Workflow_Redact Workflow_Run
begin

text \<open>
  Runory is a desktop SSH client with an agent that operates servers and with plugins that run
  workflows on them. This development models the parts of its Rust backend (all paths below are
  under src/src-tauri/src) that decide what may happen on a server: what a model or a plugin may
  ask for, which policy decides it, what a user's approval covers, what is then run, what is
  kept of it, and which hosts, keys, files and organisations the user's own actions are bound to.

  How the parts interact. The agent's reasoner returns a decision; \<open>Agent_Decision\<close> turns it into
  a validated one or an error. A tool call is read by the parser of \<open>Tools\<close>, a command or a
  change proposal becomes an approval request. The gate of \<open>Agent_Approval\<close> asks the policy service
  of \<open>Policy\<close>, which evaluates its sealed rules and writes an audit record through \<open>Storage\<close>; the
  result runs, asks the user, or blocks. The answer is an approval record that is validated against the
  live call before use. A tool call is run by \<open>Tool_Execution\<close>, which writes its own audit record first.
  Several changes make a change set (\<open>Change_Set_Model\<close> and its sequels): drafted, checked against the
  policy, approved with preconditions, claimed once and executed through \<open>Tool_Execution\<close>, whose
  patches are those of \<open>File_Patch\<close>; the same change on many servers is a fleet run (\<open>Fleet_Run\<close> and
  its sequels) whose children are leased stage by stage. \<open>Agent_Run\<close> is the state machine a run moves
  through meanwhile, and \<open>Agent_Context\<close> the redacted, budgeted text the model sees. A plugin's
  workflow is validated and planned by \<open>Workflow_Plan\<close>, with the expressions of \<open>Workflow_Expr\<close>; the
  planned changes pass the tool-policy bridge of \<open>Plugin_Permissions\<close> and become drafts of a change
  set; \<open>Workflow_Run\<close> then runs the steps the change set does not cover, asking \<open>Plugin_Permissions\<close>
  before each attempt, and keeps of each result what \<open>Workflow_Redact\<close> leaves. Beside the agent, the
  user connects to the servers of \<open>Catalog\<close>, whose host keys \<open>Known_Hosts\<close> checks, and moves files
  with the commands of \<open>Transfer_Commands\<close>, which ask the organisation's policy of \<open>Cloud_Policy\<close>, use up
  a grant of \<open>Transfer_Grants\<close> and queue a job of \<open>Transfer_Queue\<close>, whose work is in \<open>Transfer_Files\<close>.

  Theories.
  \<^item> \<open>Runory_Prelude\<close>: \<open>Result\<close> with a third outcome \<open>Panic\<close>, saturating arithmetic, iterator
    idioms; the interfaces \<open>guarded_system\<close> and \<open>snapshot_repository\<close> users share.
  \<^item> \<open>Rust_Str\<close>: \<open>str\<close> as UTF-8 bytes; \<open>Json\<close>: \<open>serde_json::Value\<close>.
  \<^item> \<open>Domain_Errors\<close>: domain/error.rs and plugins/error.rs.
  \<^item> \<open>Tools\<close>, \<open>Tools_Contract\<close>: tools/descriptor.rs, registry.rs, policy.rs, terminal.rs, result.rs.
  \<^item> \<open>Storage\<close>: storage/json\_repository.rs and catalog\_database.rs with the records of domain/.
  \<^item> \<open>Policy\<close>: policy/model.rs, engine.rs, service.rs.
  \<^item> \<open>Tool_Execution\<close>: tools/execution.rs and audit.rs.
  \<^item> \<open>Agent_Run\<close>: agent/state.rs, run.rs; \<open>Agent_Context\<close>: agentic/context.rs;
    \<open>Agent_Decision\<close>: agent/decision.rs; \<open>Agent_Approval\<close>: agent/approval.rs, gate.rs, command.rs.
  \<^item> \<open>Change_Sets\<close>, \<open>Change_Set_Model\<close>, \<open>Change_Set_Service\<close>, \<open>Change_Set_Run\<close>: agentic/changes.rs, that
    is the drafts, the items and their file, the operations under the lock, and those that wait for
    the policy or a tool; \<open>Change_Set_Safety\<close>, \<open>Change_Set_State\<close>, \<open>Change_Set_Recovery\<close>: what one
    execution does, the step relation of all operations of all tasks, and the restart.
  \<^item> \<open>File_Patch\<close>: the patch of tools/change.rs and the text files of ssh/sftp.rs.
  \<^item> \<open>Fleet_Run\<close>: agent/fleet\_target.rs, fleet\_run.rs and fleet\_control.rs; \<open>Fleet_Coordinator\<close>:
    agent/fleet\_coordinator.rs; \<open>Fleet_Rollout\<close>: every schedule of an accepted plan; \<open>Fleet_Service\<close>: the
    fleet operations of agent/service.rs and the fleet tables of agent/sqlite.rs; \<open>Fleet_History\<close>:
    every history of that service, restarts included.
  \<^item> \<open>Plugin_Permissions\<close>: plugins/permissions and the grant table of plugins/registry/repository.rs.
  \<^item> \<open>Workflow_Expr\<close>, \<open>Workflow_Plan\<close>, \<open>Workflow_Redact\<close>, \<open>Workflow_Run\<close>: plugins/workflow
    (context, expressions; ast, validator, planner, actions/mod.rs with changeset/integration.rs;
    the sanitizing of results; executor.rs and state.rs).
  \<^item> \<open>Catalog\<close>, \<open>Catalog_Sound\<close>: groups/service.rs and profiles/service.rs, and what their operations keep.
  \<^item> \<open>Known_Hosts\<close>: known\_hosts/service.rs.
  \<^item> \<open>Cloud_Policy\<close>: cloud/policy.rs.
  \<^item> \<open>Transfer_Grants\<close>: transfers/grants.rs and history.rs; \<open>Transfer_Queue\<close>, \<open>Transfer_Files\<close>:
    transfers/queue.rs; \<open>Transfer_Commands\<close>: the transfer commands of commands/sftp.rs.

  Conventions. A Rust function of the same name is a definition; a suffix avoids a HOL constant. A
  struct is a record whose fields carry the initials of its name, an enum a datatype, \<open>Result\<close> the
  type \<open>result\<close>, a lock-protected service its state passed explicitly. No fuel is used: loops are
  structural recursions over the data they walk, or come with a measure (the counts still open and the
  ready list in \<open>visit_ready\<close>, the length of the rest in the string functions); the copying loop of
  a transfer walks the sequence of its reads and is undecided when that sequence ends first. What is
  not in the repository (SHA-256, signatures, base 64, the encoders and decoders of JSON and YAML, the
  SQL engine, the file system, clocks, fresh identifiers, the remote host) is an argument of the
  definitions that use it. Where other tasks may act between two steps of an operation, the
  argument is indexed by the number of the question asked, or the steps are those of a relation
  whose reachable states are studied, so that the theorems hold for every interference.

  What the theorems show. Of the agent: bounds and safety of what a model may ask for; the run's
  lifecycle and its sequence numbers; that an approval covers exactly the action it was given for,
  once; that the gate refines the policy engine and the engine its declarative reading; budget and
  redaction of the model's context; that a tool call reaches a session only under policy and
  authority and after its audit record; that a change set is claimed at most once and writes only
  what was claimed; what a rollback restores and what a restart recovers; that a fleet plan is
  accepted exactly when its stages are acyclic, and is rolled out within its limits and only as
  approved. Of plugins: exactness of grants, of the tool-policy bridge and of the change-set
  mapping; authorization, order, number and outcome of the calls of a workflow run. Of the user's
  own actions: that the catalogue stays well formed; that a connection uses only a host key that
  was matched or trusted; that an action on a managed profile rests on a signed decision; that a
  transfer touches only files the user picked, that the queue keeps its two permits and forgets no
  job, and that an upload is all or nothing but for one gap. Several theorems state where
  the code departs from its purpose: rules on an environment or group never apply at the gate, runs
  are left open on some errors, no fleet run ever finishes, a docker step makes the saved change sets
  unreadable, an import can make a profile its own jump host, a stored host key is replaced without notice, and
  the organisation's management is lost on a restart once the last profile is gone.

  Not modelled. The asynchronous controllers of the agent and the SSH protocol, since their own
  logic is the scheduling of network calls whose decisions are modelled here; the clients of
  third-party services (bastions, model providers, cloud synchronisation) and the key stores of the
  platforms; SQL schemas and migrations, run by an engine outside the repository; the individual remote
  actions, their scripts and the deployment renderers, which are text for a remote shell; the
  importers of other programs' files, the settings record, tunnels and the window shell.
\<close>

end
